(* ===== verification/Orbit_Prelude.thy ===== *)
theory Orbit_Prelude
  imports Main "HOL-Library.Word" "HOL-Library.AList"
begin

text \<open>
  What every theory of the development shares: the names of the basic types, Go's
  64-bit signed arithmetic and time arithmetic, association lists in the role of Go maps
  (as an interface, with the facts about sums over a map that the counters need), the
  decimal printing and parsing of \<^verbatim>\<open>strconv\<close>, the string functions of \<^verbatim>\<open>strings\<close> that
  the program calls, and the notion of a transition system with its reachable states.

  Strings are lists of bytes (\<open>char\<close>), as Go strings are; \<^verbatim>\<open>strings.TrimSpace\<close> is the
  function on ASCII white space.
\<close>

named_theorems orbit_simps \<open>defining equations of the model's operations, used by the proofs that unfold a whole operation\<close>
named_theorems inv_intros \<open>preservation of the component invariants\<close>

type_synonym byte = "8 word"
type_synonym bytes = "byte list"

subsection \<open>Go's int64\<close>

text \<open>Two's complement wrap-around at 64 bits, over \<open>int\<close>.\<close>

definition wrap64 :: "int \<Rightarrow> int" where
  "wrap64 x = signed_take_bit 63 x"

definition add64 :: "int \<Rightarrow> int \<Rightarrow> int" where
  "add64 a b = wrap64 (a + b)"

definition int64 :: "int \<Rightarrow> bool" where
  "int64 x \<longleftrightarrow> - (2 ^ 63) \<le> x \<and> x < 2 ^ 63"

lemma wrap64_id [simp]: "int64 x \<Longrightarrow> wrap64 x = x"
  by (simp add: wrap64_def int64_def signed_take_bit_int_eq_self)

lemma int64_wrap64 [simp]: "int64 (wrap64 x)"
  unfolding int64_def wrap64_def
  using signed_take_bit_int_greater_eq_minus_exp [of 63 x] signed_take_bit_int_less_exp [of 63 x]
  by simp

lemma add64_id: "int64 (a + b) \<Longrightarrow> add64 a b = a + b"
  by (simp add: add64_def)

lemma add64_nonneg: "0 \<le> a \<Longrightarrow> 0 \<le> b \<Longrightarrow> a + b < 2 ^ 63 \<Longrightarrow> add64 a b = a + b"
  by (rule add64_id) (simp add: int64_def)

lemma wrap64_add_left [simp]: "wrap64 (wrap64 a + b) = wrap64 (a + b)"
  unfolding wrap64_def
  by (metis signed_take_bit_add signed_take_bit_signed_take_bit min.idem)

lemma wrap64_add_right [simp]: "wrap64 (a + wrap64 b) = wrap64 (a + b)"
  by (metis wrap64_add_left add.commute)

lemma add64_assoc: "add64 (add64 a b) c = add64 a (add64 b c)"
  by (simp add: add64_def add.assoc)

lemma add64_commute: "add64 a b = add64 b a"
  by (simp add: add64_def add.commute)

text \<open>Summing in \<open>int64\<close>, one element at a time, is the wrapped sum.\<close>

lemma foldl_add64: "foldl add64 (wrap64 a) xs = wrap64 (a + sum_list xs)"
  by (induction xs arbitrary: a) (simp_all add: add64_def add.assoc)

subsection \<open>time.Time and time.Duration\<close>

text \<open>
  An instant is the number of nanoseconds since the Unix epoch. \<^verbatim>\<open>Truncate\<close> rounds down to
  a multiple of the duration counted from Go's zero time (1 January of year 1), which lies
  719162 days before the epoch.
\<close>

type_synonym time = int
type_synonym duration = int

definition second :: duration where "second = 1000000000"
definition minute :: duration where "minute = 60 * second"
definition hour :: duration where "hour = 60 * minute"
definition unix_to_zero :: duration where "unix_to_zero = 719162 * 24 * hour"

definition truncate_time :: "duration \<Rightarrow> time \<Rightarrow> time" where
  "truncate_time d t = t - (t + unix_to_zero) mod d"

definition unix_sec :: "time \<Rightarrow> int" where
  "unix_sec t = t div second"

text \<open>Go's \<^verbatim>\<open>/\<close> on signed integers rounds towards zero.\<close>

definition go_div :: "int \<Rightarrow> int \<Rightarrow> int" where
  "go_div a b = sgn a * sgn b * (\<bar>a\<bar> div \<bar>b\<bar>)"

lemma go_div_nonneg: "0 \<le> a \<Longrightarrow> 0 < b \<Longrightarrow> go_div a b = a div b"
  by (cases "a = 0") (simp_all add: go_div_def)

lemmas time_units = second_def minute_def hour_def

lemma truncate_day: "truncate_time (24 * hour) t = t - t mod (24 * hour)"
proof -
  have "(t + 719162 * (24 * hour)) mod (24 * hour) = t mod (24 * hour)"
    by (rule mod_mult_self1)
  then show ?thesis by (simp add: truncate_time_def unix_to_zero_def mult.assoc)
qed

lemma truncate_hour: "truncate_time hour t = t - t mod hour"
proof -
  have "(t + (719162 * 24) * hour) mod hour = t mod hour"
    by (rule mod_mult_self1)
  then show ?thesis by (simp add: truncate_time_def unix_to_zero_def)
qed

subsection \<open>Go maps as association lists\<close>

text \<open>
  A Go map is an association list with distinct keys: \<open>map_of\<close> looks a key up,
  \<open>AList.update\<close> assigns, \<open>AList.delete\<close> deletes, and a \<^verbatim>\<open>range\<close> loop visits the list. Go
  leaves the order of the visit open; a theorem about every list with distinct keys covers
  every order. \<open>go_map\<close> is the interface the components use.
\<close>

type_synonym ('k, 'v) gomap = "('k \<times> 'v) list"

abbreviation put :: "'k \<Rightarrow> 'v \<Rightarrow> ('k, 'v) gomap \<Rightarrow> ('k, 'v) gomap" where
  "put \<equiv> AList.update"
abbreviation del :: "'k \<Rightarrow> ('k, 'v) gomap \<Rightarrow> ('k, 'v) gomap" where
  "del \<equiv> AList.delete"

definition wf_map :: "('k, 'v) gomap \<Rightarrow> bool" where
  "wf_map m \<longleftrightarrow> distinct (map fst m)"

locale go_map =
  fixes lookup :: "'m \<Rightarrow> 'k \<Rightarrow> 'v option"
    and assign :: "'k \<Rightarrow> 'v \<Rightarrow> 'm \<Rightarrow> 'm"
    and remove :: "'k \<Rightarrow> 'm \<Rightarrow> 'm"
    and entries :: "'m \<Rightarrow> ('k \<times> 'v) list"
    and wf :: "'m \<Rightarrow> bool"
  assumes entries_distinct: "wf m \<Longrightarrow> distinct (map fst (entries m))"
    and lookup_entries: "wf m \<Longrightarrow> lookup m k = map_of (entries m) k"
    and lookup_assign: "wf m \<Longrightarrow> lookup (assign k v m) = (lookup m)(k \<mapsto> v)"
    and lookup_remove: "wf m \<Longrightarrow> lookup (remove k m) = (lookup m)(k := None)"
    and wf_assign: "wf m \<Longrightarrow> wf (assign k v m)"
    and wf_remove: "wf m \<Longrightarrow> wf (remove k m)"
begin

lemma lookup_iff: "wf m \<Longrightarrow> lookup m k = Some v \<longleftrightarrow> (k, v) \<in> set (entries m)"
  using entries_distinct by (simp add: lookup_entries)

lemma entries_assign:
  assumes "wf m"
  shows "set (entries (assign k v m)) = insert (k, v) {e \<in> set (entries m). fst e \<noteq> k}"
proof -
  have "(k', v') \<in> set (entries (assign k v m)) \<longleftrightarrow> ((lookup m)(k \<mapsto> v)) k' = Some v'" for k' v'
    using lookup_iff [OF wf_assign [OF assms]] by (simp add: lookup_assign [OF assms])
  then show ?thesis
    using lookup_iff [OF assms] by (auto split: if_splits)
qed

lemma entries_remove:
  assumes "wf m"
  shows "set (entries (remove k m)) = {e \<in> set (entries m). fst e \<noteq> k}"
proof -
  have "(k', v') \<in> set (entries (remove k m)) \<longleftrightarrow> ((lookup m)(k := None)) k' = Some v'" for k' v'
    using lookup_iff [OF wf_remove [OF assms]] by (simp add: lookup_remove [OF assms])
  then show ?thesis
    using lookup_iff [OF assms] by (auto split: if_splits)
qed

lemma sum_entries:
  fixes f :: "'k \<times> 'v \<Rightarrow> int"
  assumes "wf m"
  shows "sum_list (map f (entries m)) = sum f (set (entries m))"
  using entries_distinct [OF assms] by (simp add: sum_list_distinct_conv_sum_set distinct_map)

text \<open>Assigning one key changes a sum over the map by that key's contribution.\<close>

lemma sum_assign:
  fixes f :: "'k \<times> 'v \<Rightarrow> int"
  assumes "wf m"
  shows "sum_list (map f (entries (assign k v m))) =
    sum_list (map f (entries m)) + f (k, v)
      - (case lookup m k of None \<Rightarrow> 0 | Some w \<Rightarrow> f (k, w))"
proof -
  let ?rest = "{e \<in> set (entries m). fst e \<noteq> k}"
  have new: "sum f (set (entries (assign k v m))) = f (k, v) + sum f ?rest"
    by (simp add: entries_assign [OF assms])
  have old: "sum f (set (entries m)) =
      (case lookup m k of None \<Rightarrow> 0 | Some w \<Rightarrow> f (k, w)) + sum f ?rest"
  proof (cases "lookup m k")
    case None
    then have "?rest = set (entries m)"
      using lookup_iff [OF assms, of k] by (auto split: prod.splits)
    then show ?thesis by (simp add: None)
  next
    case (Some w)
    then have at_k: "(k, v') \<in> set (entries m) \<longleftrightarrow> w = v'" for v'
      using lookup_iff [OF assms, of k v'] by simp
    have "e \<in> set (entries m) \<longleftrightarrow> e \<in> insert (k, w) ?rest" for e
      using at_k by (cases e, cases "fst e = k") auto
    then have "set (entries m) = insert (k, w) ?rest"
      by (rule set_eqI)
    moreover have "sum f (insert (k, w) ?rest) = f (k, w) + sum f ?rest"
      by (rule sum.insert) simp_all
    ultimately show ?thesis using Some by simp
  qed
  show ?thesis
    by (simp add: sum_entries [OF assms] sum_entries [OF wf_assign [OF assms]] new old)
qed

end

interpretation am: go_map map_of "AList.update" "AList.delete" "\<lambda>m. m" wf_map
  by unfold_locales
    (simp_all add: wf_map_def AList.update_conv' AList.delete_conv' distinct_update distinct_delete)

lemma wf_map_Nil [simp]: "wf_map []"
  by (simp add: wf_map_def)

lemma wf_map_put [simp, intro]: "wf_map m \<Longrightarrow> wf_map (put k v m)"
  by (rule am.wf_assign)

lemma wf_map_del [simp, intro]: "wf_map m \<Longrightarrow> wf_map (del k m)"
  by (rule am.wf_remove)

lemma wf_map_filter [simp, intro]: "wf_map m \<Longrightarrow> wf_map (filter P m)"
  by (simp add: wf_map_def distinct_map_filter)

lemma map_of_put [simp]: "map_of (put k v m) = (map_of m)(k \<mapsto> v)"
  by (rule AList.update_conv')

lemma map_of_del [simp]: "map_of (del k m) = (map_of m)(k := None)"
  by (rule AList.delete_conv')

lemma wf_map_Some_iff: "wf_map m \<Longrightarrow> map_of m k = Some v \<longleftrightarrow> (k, v) \<in> set m"
  by (rule am.lookup_iff)

lemma set_put: "wf_map m \<Longrightarrow> set (put k v m) = insert (k, v) {e \<in> set m. fst e \<noteq> k}"
  by (rule am.entries_assign)

lemma set_del: "wf_map m \<Longrightarrow> set (del k m) = {e \<in> set m. fst e \<noteq> k}"
  by (rule am.entries_remove)

lemma map_of_filter:
  assumes "wf_map m"
  shows "map_of (filter P m) k = (case map_of m k of None \<Rightarrow> None | Some v \<Rightarrow> if P (k, v) then Some v else None)"
proof -
  have *: "map_of (filter P m) k = Some v \<longleftrightarrow> map_of m k = Some v \<and> P (k, v)" for v
    using assms by (simp add: wf_map_Some_iff)
  show ?thesis
  proof (cases "map_of (filter P m) k")
    case None
    then have "\<not> (map_of m k = Some v \<and> P (k, v))" for v using * [of v] by simp
    with None show ?thesis by (simp split: option.split)
  next
    case (Some v)
    with * [of v] show ?thesis by simp
  qed
qed

text \<open>How an assignment and a deletion change the number of entries with a property.\<close>

lemma count_put:
  assumes "wf_map m"
  shows "int (length (filter (\<lambda>e. P (snd e)) (put k v m))) =
    int (length (filter (\<lambda>e. P (snd e)) m)) + of_bool (P v)
      - (case map_of m k of None \<Rightarrow> 0 | Some w \<Rightarrow> of_bool (P w))"
proof -
  have len: "int (length (filter (\<lambda>e. P (snd e)) n)) = sum_list (map (\<lambda>e. of_bool (P (snd e))) n)"
    for n :: "('a \<times> 'b) list"
    by (induction n) auto
  show ?thesis
    unfolding len using am.sum_assign [OF assms, of "\<lambda>e. of_bool (P (snd e))" k v]
    by (simp split: option.splits)
qed

lemma count_put_le:
  "wf_map m \<Longrightarrow> length (filter (\<lambda>e. P (snd e)) (put k v m)) \<le> Suc (length (filter (\<lambda>e. P (snd e)) m))"
  using count_put [of m P k v] by (auto split: option.splits simp: of_bool_def split: if_splits)

lemma count_put_same:
  "wf_map m \<Longrightarrow> map_of m k = Some w \<Longrightarrow> P v = P w \<Longrightarrow>
     length (filter (\<lambda>e. P (snd e)) (put k v m)) = length (filter (\<lambda>e. P (snd e)) m)"
  using count_put [of m P k v] by simp

lemma count_filter_le: "length (filter P (filter Q m)) \<le> length (filter P m)"
  by (induction m) auto

lemma map_of_Some_val: "map_of m k = Some v \<Longrightarrow> v \<in> snd ` set m"
  using map_of_SomeD [of m k v] by force

text \<open>Overwriting an entry by one that agrees on \<open>f\<close> leaves the list of the \<open>f\<close> as it is.\<close>

lemma map_put_same:
  "map_of m k = Some w \<Longrightarrow> f v = f w \<Longrightarrow> map (\<lambda>e. f (snd e)) (put k v m) = map (\<lambda>e. f (snd e)) m"
  by (induction m) auto

lemma del_filter: "del k m = filter (\<lambda>e. fst e \<noteq> k) m"
  by (induction m) auto

text \<open>A \<^verbatim>\<open>range\<close> loop that collects the values under a key of their own.\<close>

definition index_by :: "('v \<Rightarrow> 'k) \<Rightarrow> 'v list \<Rightarrow> ('k, 'v) gomap" where
  "index_by key xs = foldl (\<lambda>m x. put (key x) x m) [] xs"

definition keyed :: "('v \<Rightarrow> 'k) \<Rightarrow> ('k, 'v) gomap \<Rightarrow> bool" where
  "keyed key m \<longleftrightarrow> wf_map m \<and> (\<forall>(k, v) \<in> set m. key v = k)"

lemma put_fresh: "k \<notin> fst ` set m \<Longrightarrow> put k v m = m @ [(k, v)]"
  by (induction m) auto

lemma foldl_put_fresh:
  "distinct (map fst m @ map key xs) \<Longrightarrow>
     foldl (\<lambda>m x. put (key x) x m) m xs = m @ map (\<lambda>x. (key x, x)) xs"
  by (induction xs arbitrary: m) (auto simp: put_fresh)

lemma keyed_Nil [simp]: "keyed key []"
  by (simp add: keyed_def)

lemma keyed_wf [simp]: "keyed key m \<Longrightarrow> wf_map m"
  by (simp add: keyed_def)

lemma keyed_put [simp, intro]: "keyed key m \<Longrightarrow> key v = k \<Longrightarrow> keyed key (put k v m)"
  by (auto simp: keyed_def set_put)

lemma keyed_del [simp, intro]: "keyed key m \<Longrightarrow> keyed key (del k m)"
  by (auto simp: keyed_def set_del)

lemma keyed_filter [simp, intro]: "keyed key m \<Longrightarrow> keyed key (filter P m)"
  by (auto simp: keyed_def)

lemma keyed_Some: "keyed key m \<Longrightarrow> map_of m k = Some v \<Longrightarrow> key v = k"
  by (auto simp: keyed_def wf_map_Some_iff)

lemma index_by_keyed: "keyed key m \<Longrightarrow> index_by key (map snd m) = m"
proof -
  assume m: "keyed key m"
  then have keys: "map key (map snd m) = map fst m"
    by (auto simp: keyed_def)
  have "map (\<lambda>x. (key x, x)) (map snd m) = m"
    using m by (auto simp: keyed_def intro!: map_idI)
  moreover have "distinct (map key (map snd m))"
    unfolding keys using m by (simp add: keyed_def wf_map_def)
  ultimately show ?thesis
    using foldl_put_fresh [of "[]" key "map snd m"]
    by (simp only: index_by_def list.map append_Nil simp_thms)
qed

lemma keyed_index_by: "keyed key (index_by key xs)"
proof -
  have "keyed key m \<Longrightarrow> keyed key (foldl (\<lambda>m x. put (key x) x m) m xs)" for m
    by (induction xs arbitrary: m) auto
  then show ?thesis by (simp add: index_by_def)
qed

subsection \<open>Files: os.ReadFile, and the write to a temporary file followed by os.Rename\<close>

text \<open>
  A store's file is the value its JSON text stands for. \<open>file_read\<close> is what opening it can
  meet; \<open>save_file\<close> the outcome of writing the temporary file and renaming it: the new
  content, or a failure that leaves the old file.
\<close>

datatype 'd file_read = Absent | ReadError | Malformed | Content 'd

definition save_file :: "bool \<Rightarrow> 'd \<Rightarrow> 'd file_read \<Rightarrow> 'd file_read" where
  "save_file ok d old = (if ok then Content d else old)"

text \<open>The state part of a call that ends with a save and its error check.\<close>

lemma fst_after_save [simp]:
  "fst (case p of (t, err) \<Rightarrow> (case err of None \<Rightarrow> (t, Inr v) | Some e \<Rightarrow> (t, Inl e))) = fst p"
  by (simp split: prod.splits option.splits)

text \<open>
  What the stores promise of their files: opening what was saved gives the saved state, up
  to an equivalence (the state with the file itself aside). A state that was saved and
  reopened any number of times is equivalent to the first.
\<close>

locale file_store =
  fixes wf :: "'s \<Rightarrow> bool"
    and snap :: "'s \<Rightarrow> 'd"
    and load :: "'d \<Rightarrow> 's"
    and same :: "'s \<Rightarrow> 's \<Rightarrow> bool"
  assumes wf_load: "wf s \<Longrightarrow> wf (load (snap s))"
    and load_snap: "wf s \<Longrightarrow> same (load (snap s)) s"
    and same_trans: "same s t \<Longrightarrow> same t u \<Longrightarrow> same s u"
    and same_refl: "same s s"
begin

lemma reopen_many: "wf s \<Longrightarrow> same (((\<lambda>t. load (snap t)) ^^ n) s) s \<and> wf (((\<lambda>t. load (snap t)) ^^ n) s)"
  by (induction n) (auto intro: wf_load load_snap same_trans same_refl)

lemma saved_content:
  "wf s \<Longrightarrow> save_file ok (snap s) old = Content d \<Longrightarrow> old \<noteq> Content d \<Longrightarrow> same (load d) s"
  by (auto simp: save_file_def load_snap split: if_splits)

end

subsection \<open>Decimal numbers: strconv\<close>

definition digit_char :: "nat \<Rightarrow> char" where
  "digit_char d = char_of (48 + d)"

definition digit_val :: "char \<Rightarrow> nat option" where
  "digit_val c = (let n = of_char c :: nat in if 48 \<le> n \<and> n \<le> 57 then Some (n - 48) else None)"

text \<open>The digits of a number, most significant first.\<close>

fun show_nat :: "nat \<Rightarrow> string" where
  "show_nat n = (if n < 10 then [digit_char n] else show_nat (n div 10) @ [digit_char (n mod 10)])"

declare show_nat.simps [simp del]

definition show_int :: "int \<Rightarrow> string" where
  "show_int i = (if i < 0 then CHR ''-'' # show_nat (nat (- i)) else show_nat (nat i))"

fun read_digits :: "nat \<Rightarrow> string \<Rightarrow> nat option" where
  "read_digits acc [] = Some acc"
| "read_digits acc (c # cs) =
     (case digit_val c of None \<Rightarrow> None | Some d \<Rightarrow> read_digits (10 * acc + d) cs)"

text \<open>
  \<^verbatim>\<open>strconv.ParseInt(s, 10, 64)\<close> with the error dropped, as the callers that ignore it see
  it: 0 for a malformed number, the nearest representable one for a number out of range.
\<close>

definition parse_int_or :: "string \<Rightarrow> int" where
  "parse_int_or s =
     (let neg = (s \<noteq> [] \<and> hd s = CHR ''-'');
          body = (if s \<noteq> [] \<and> (hd s = CHR ''-'' \<or> hd s = CHR ''+'') then tl s else s)
      in if body = [] then 0
         else case read_digits 0 body of
           None \<Rightarrow> 0
         | Some n \<Rightarrow> (if neg then - (min (int n) (2 ^ 63)) else min (int n) (2 ^ 63 - 1)))"

lemma digit_val_char [simp]: "d < 10 \<Longrightarrow> digit_val (digit_char d) = Some d"
  by (simp add: digit_val_def digit_char_def Let_def)

lemma show_nat_nonempty [simp]: "show_nat n \<noteq> []"
  by (subst show_nat.simps) simp

lemma read_digits_append:
  "read_digits acc (xs @ ys) = Option.bind (read_digits acc xs) (\<lambda>a. read_digits a ys)"
  by (induction xs arbitrary: acc) (auto split: option.splits)

lemma read_show_nat: "read_digits 0 (show_nat n) = Some n"
proof (induction n rule: show_nat.induct)
  case (1 n)
  then show ?case
    by (cases "n < 10") (simp_all add: show_nat.simps [of n] read_digits_append)
qed

lemma show_nat_digits: "c \<in> set (show_nat n) \<Longrightarrow> \<exists>d < 10. c = digit_char d"
proof (induction n rule: show_nat.induct)
  case (1 n)
  then show ?case
    by (cases "n < 10") (auto simp: show_nat.simps [of n] intro: exI [of _ "n mod 10"])
qed

lemma show_nat_inj: "show_nat m = show_nat n \<Longrightarrow> m = n"
  by (metis read_show_nat option.inject)

lemma digit_char_neq:
  "d < 10 \<Longrightarrow> (of_char c :: nat) < 48 \<or> 57 < (of_char c :: nat) \<Longrightarrow> digit_char d \<noteq> c"
  by (auto simp: digit_char_def)

lemma show_nat_no: "(of_char c :: nat) < 48 \<or> 57 < (of_char c :: nat) \<Longrightarrow> c \<notin> set (show_nat n)"
  using show_nat_digits digit_char_neq by blast

lemma show_int_no:
  "(of_char c :: nat) < 45 \<or> 57 < (of_char c :: nat) \<Longrightarrow> c \<notin> set (show_int i)"
  by (auto simp: show_int_def dest: show_nat_no [THEN notE, rotated])

lemma hd_show_nat: "hd (show_nat n) \<noteq> CHR ''-''" "hd (show_nat n) \<noteq> CHR ''+''"
  using show_nat_no [of "CHR ''-''" n] show_nat_no [of "CHR ''+''" n] hd_in_set [of "show_nat n"]
  by force+

lemma parse_show_int: "int64 i \<Longrightarrow> parse_int_or (show_int i) = i"
  by (auto simp: parse_int_or_def show_int_def Let_def read_show_nat hd_show_nat int64_def)

lemma show_int_nonempty [simp]: "show_int i \<noteq> []"
  by (simp add: show_int_def)

subsection \<open>The functions of package strings\<close>

definition is_space :: "char \<Rightarrow> bool" where
  "is_space c \<longleftrightarrow> of_char c \<in> {9, 10, 11, 12, 13, 32 :: nat}"

definition trim_space :: "string \<Rightarrow> string" where
  "trim_space s = rev (dropWhile is_space (rev (dropWhile is_space s)))"

text \<open>\<^verbatim>\<open>strings.TrimRight(s, "c")\<close> for one character.\<close>

definition trim_right :: "char \<Rightarrow> string \<Rightarrow> string" where
  "trim_right c s = rev (dropWhile ((=) c) (rev s))"

text \<open>\<^verbatim>\<open>strings.SplitN(s, sep, n)\<close> for a one-character separator and \<open>n > 0\<close>.\<close>

fun split_n :: "nat \<Rightarrow> char \<Rightarrow> string \<Rightarrow> string list" where
  "split_n 0 sep s = []"
| "split_n (Suc 0) sep s = [s]"
| "split_n (Suc (Suc n)) sep s =
     (if sep \<in> set s
      then takeWhile ((\<noteq>) sep) s # split_n (Suc n) sep (tl (dropWhile ((\<noteq>) sep) s))
      else [s])"

text \<open>\<^verbatim>\<open>strings.Split(s, sep)\<close> for a one-character separator.\<close>

fun split_all :: "char \<Rightarrow> string \<Rightarrow> string list" where
  "split_all sep [] = [[]]"
| "split_all sep (c # cs) =
     (if c = sep then [] # split_all sep cs
      else case split_all sep cs of [] \<Rightarrow> [[c]] | w # ws \<Rightarrow> (c # w) # ws)"

definition has_prefix :: "string \<Rightarrow> string \<Rightarrow> bool" where
  "has_prefix s p \<longleftrightarrow> take (length p) s = p"

lemma takeWhile_sep: "sep \<notin> set a \<Longrightarrow> takeWhile ((\<noteq>) sep) (a @ sep # b) = a"
  by (induction a) auto

lemma dropWhile_sep: "sep \<notin> set a \<Longrightarrow> dropWhile ((\<noteq>) sep) (a @ sep # b) = sep # b"
  by (induction a) auto

lemma split_n_sep:
  "sep \<notin> set a \<Longrightarrow> split_n (Suc (Suc n)) sep (a @ sep # b) = a # split_n (Suc n) sep b"
  by (simp add: takeWhile_sep dropWhile_sep)

lemma split_all_nonempty: "split_all brk s \<noteq> []"
  by (induction s) (auto split: list.split)

lemma split_all_append: "split_all brk (a @ brk # b) = split_all brk a @ split_all brk b"
proof (induction a)
  case (Cons c a)
  then show ?case using split_all_nonempty [of brk a] by (cases "split_all brk a") auto
qed simp

lemma split_all_one: "brk \<notin> set s \<Longrightarrow> split_all brk s = [s]"
  by (induction s) auto

lemma dropWhile_idem': "dropWhile P (dropWhile P xs) = dropWhile P xs"
  by (induction xs) auto

lemma length_trim_space: "length (trim_space s) \<le> length s"
proof -
  have "length (trim_space s) \<le> length (dropWhile is_space s)"
    by (simp add: trim_space_def) (metis length_dropWhile_le length_rev)
  also have "\<dots> \<le> length s" by (rule length_dropWhile_le)
  finally show ?thesis .
qed

subsection \<open>Transition systems\<close>

text \<open>
  A component with concurrent or adversarial callers is a step relation; a property of all
  its runs is an invariant. The interface takes the initial states, the steps and the
  invariant; what it gives is that every reachable state satisfies the invariant.
\<close>

inductive reach :: "('s \<Rightarrow> bool) \<Rightarrow> ('s \<Rightarrow> 's \<Rightarrow> bool) \<Rightarrow> 's \<Rightarrow> bool" for init step where
  reach_init: "init s \<Longrightarrow> reach init step s"
| reach_step: "reach init step s \<Longrightarrow> step s t \<Longrightarrow> reach init step t"

lemma reach_mono: "reach i step s \<Longrightarrow> (\<And>x. i x \<Longrightarrow> j x) \<Longrightarrow> reach j step s"
  by (induction rule: reach.induct) (auto intro: reach.intros)

locale transition_system =
  fixes init :: "'s \<Rightarrow> bool"
    and step :: "'s \<Rightarrow> 's \<Rightarrow> bool"
    and inv :: "'s \<Rightarrow> bool"
  assumes inv_init: "init s \<Longrightarrow> inv s"
    and inv_step: "step s t \<Longrightarrow> inv s \<Longrightarrow> inv t"
begin

lemma reach_inv: "reach init step s \<Longrightarrow> inv s"
  by (induction rule: reach.induct) (auto intro: inv_init inv_step)

end

end
