(* ===== verification/Frame.thy ===== *)
theory Frame
  imports Orbit_Prelude
begin

unbundle bit_operations_syntax

text \<open>
  The wire format of \<^verbatim>\<open>internal/protocol/frame.go\<close> and \<^verbatim>\<open>const.go\<close>: a type byte, a 16-bit
  big-endian length, the payload. A writer is what has gone out so far and, when the
  connection is going to fail, how many bytes it still takes; a reader is the bytes that are
  still to come. The interface \<open>frame_codec\<close> states what the data plane relies on (a frame
  that was written is read back, and what follows it is left alone) and gives the same for
  any sequence of frames.
\<close>

subsection \<open>const.go\<close>

definition FrameData :: byte where "FrameData = 0x10"
definition FrameCtrl :: byte where "FrameCtrl = 0x20"
definition FramePing :: byte where "FramePing = 0x30"
definition FramePong :: byte where "FramePong = 0x31"

definition MaxPayload :: nat where "MaxPayload = 16 * 1024 * 1024"

subsection \<open>encoding/binary.BigEndian\<close>

definition put_u16 :: "16 word \<Rightarrow> bytes" where
  "put_u16 v = [ucast (drop_bit 8 v), ucast v]"

definition get_u16 :: "byte \<Rightarrow> byte \<Rightarrow> 16 word" where
  "get_u16 hi lo = push_bit 8 (ucast hi) OR ucast lo"

lemma get_put_u16: "get_u16 (ucast (drop_bit 8 v)) (ucast v) = (v :: 16 word)"
  unfolding get_u16_def
  by (rule bit_word_eqI) (auto simp: bit_or_iff bit_push_bit_iff bit_ucast_iff bit_drop_bit_eq)

lemma length_put_u16 [simp]: "length (put_u16 v) = 2"
  by (simp add: put_u16_def)

lemma unat_u16_of_nat: "unat (of_nat n :: 16 word) = n mod 65536"
  by (simp add: unat_of_nat)

subsection \<open>io.Writer and io.Reader\<close>

record writer =
  w_out :: bytes
  w_cap :: "nat option"

definition new_writer :: writer where
  "new_writer = \<lparr>w_out = [], w_cap = None\<rparr>"

text \<open>One \<^verbatim>\<open>Write\<close>: the new writer, and whether all bytes went out.\<close>

definition write_bytes :: "bytes \<Rightarrow> writer \<Rightarrow> writer \<times> bool" where
  "write_bytes bs w =
     (case w_cap w of
        None \<Rightarrow> (w\<lparr>w_out := w_out w @ bs\<rparr>, True)
      | Some k \<Rightarrow>
          (if length bs \<le> k
           then (w\<lparr>w_out := w_out w @ bs, w_cap := Some (k - length bs)\<rparr>, True)
           else (w\<lparr>w_out := w_out w @ take k bs, w_cap := Some 0\<rparr>, False)))"

datatype frame_error = ErrFrameTooBig | ErrWrite | ErrRead

definition frame_header :: "byte \<Rightarrow> bytes \<Rightarrow> bytes" where
  "frame_header ftype payload = ftype # put_u16 (of_nat (length payload))"

definition WriteFrame :: "writer \<Rightarrow> byte \<Rightarrow> bytes \<Rightarrow> writer \<times> frame_error option" where
  "WriteFrame w ftype payload =
     (if length payload > MaxPayload then (w, Some ErrFrameTooBig)
      else let (w1, ok1) = write_bytes (frame_header ftype payload) w
           in if \<not> ok1 then (w1, Some ErrWrite)
              else let (w2, ok2) = write_bytes payload w1
                   in (w2, if ok2 then None else Some ErrWrite))"

text \<open>\<^verbatim>\<open>io.ReadFull\<close>: exactly \<open>n\<close> bytes, or an error when the stream ends before.\<close>

definition read_full :: "nat \<Rightarrow> bytes \<Rightarrow> (bytes \<times> bytes) option" where
  "read_full n s = (if length s < n then None else Some (take n s, drop n s))"

definition ReadFrame :: "bytes \<Rightarrow> frame_error + (byte \<times> bytes) \<times> bytes" where
  "ReadFrame s =
     (case read_full 3 s of
        Some ([t, hi, lo], s1) \<Rightarrow>
          (let n = unat (get_u16 hi lo)
           in if n > MaxPayload then Inl ErrFrameTooBig
              else case read_full n s1 of
                     None \<Rightarrow> Inl ErrRead
                   | Some (p, s2) \<Rightarrow> Inr ((t, p), s2))
      | _ \<Rightarrow> Inl ErrRead)"

lemma length_frame_header [simp]: "length (frame_header t p) = 3"
  by (simp add: frame_header_def)

lemma w_cap_write_bytes [simp]: "w_cap w = None \<Longrightarrow> w_cap (fst (write_bytes bs w)) = None"
  by (simp add: write_bytes_def)

lemma write_bytes_ok [simp]:
  "w_cap w = None \<Longrightarrow> write_bytes bs w = (w\<lparr>w_out := w_out w @ bs\<rparr>, True)"
  by (simp add: write_bytes_def)

text \<open>A write only ever appends.\<close>

lemma write_bytes_append: "\<exists>s. w_out (fst (write_bytes bs w)) = w_out w @ s"
  by (auto simp: write_bytes_def split: option.splits)

lemma WriteFrame_append: "\<exists>s. w_out (fst (WriteFrame w t p)) = w_out w @ s"
proof -
  obtain w1 ok1 where w1: "write_bytes (frame_header t p) w = (w1, ok1)" by fastforce
  obtain w2 ok2 where w2: "write_bytes p w1 = (w2, ok2)" by fastforce
  from w1 obtain s1 where "w_out w1 = w_out w @ s1"
    using write_bytes_append [of "frame_header t p" w] by auto
  moreover from w2 obtain s2 where "w_out w2 = w_out w1 @ s2"
    using write_bytes_append [of p w1] by auto
  ultimately show ?thesis
    by (auto simp: WriteFrame_def w1 w2)
qed

lemma WriteFrame_ok:
  "w_cap w = None \<Longrightarrow> length p \<le> MaxPayload \<Longrightarrow>
     WriteFrame w t p = (w\<lparr>w_out := w_out w @ frame_header t p @ p\<rparr>, None)"
  by (simp add: WriteFrame_def)

lemma WriteFrame_error_size: "MaxPayload < length p \<Longrightarrow> WriteFrame w t p = (w, Some ErrFrameTooBig)"
  by (simp add: WriteFrame_def)

text \<open>What the reader sees of a header: the length modulo \<open>2 ^ 16\<close>.\<close>

lemma ReadFrame_header:
  "ReadFrame (frame_header t p @ s) =
     (let n = length p mod 65536
      in if length s < n then Inl ErrRead else Inr ((t, take n s), drop n s))"
proof -
  let ?v = "of_nat (length p) :: 16 word"
  have hd: "read_full 3 (frame_header t p @ s) =
      Some ([t, ucast (drop_bit 8 ?v), ucast ?v], s)"
    unfolding read_full_def by (simp add: frame_header_def put_u16_def)
  have "unat (get_u16 (ucast (drop_bit 8 ?v)) (ucast ?v)) = length p mod 65536"
    by (simp only: get_put_u16 unat_u16_of_nat)
  moreover have "length p mod 65536 \<le> MaxPayload"
    using mod_less_divisor [of 65536 "length p"] by (simp add: MaxPayload_def)
  ultimately show ?thesis
    unfolding ReadFrame_def hd by (simp add: read_full_def Let_def not_less)
qed

lemma ReadFrame_frame:
  "length p < 65536 \<Longrightarrow> ReadFrame (frame_header t p @ p @ s) = Inr ((t, p), s)"
  by (simp add: ReadFrame_header)

lemma ReadFrame_short: "length s < 3 \<Longrightarrow> ReadFrame s = Inl ErrRead"
  by (simp add: ReadFrame_def read_full_def)

lemma ReadFrame_consumes: "ReadFrame s = Inr (f, s') \<Longrightarrow> length s' < length s"
  by (auto simp: ReadFrame_def read_full_def Let_def split: list.splits if_splits option.splits)

text \<open>Reading until the stream ends or breaks off: the loop of both receivers.\<close>

function (sequential) read_frames :: "bytes \<Rightarrow> (byte \<times> bytes) list" where
  "read_frames s = (case ReadFrame s of Inl _ \<Rightarrow> [] | Inr (f, s') \<Rightarrow> f # read_frames s')"
  by pat_completeness auto
termination
  by (relation "measure length") (auto dest: ReadFrame_consumes)

declare read_frames.simps [simp del]

subsection \<open>The codec as an interface\<close>

locale frame_codec =
  fixes enc :: "'f \<Rightarrow> bytes"
    and dec :: "bytes \<Rightarrow> 'e + 'f \<times> bytes"
    and ok :: "'f \<Rightarrow> bool"
    and dec_all :: "bytes \<Rightarrow> 'f list"
  assumes dec_enc: "ok f \<Longrightarrow> dec (enc f @ s) = Inr (f, s)"
    and dec_all_stop: "dec_all [] = []"
    and dec_all_step: "dec s = Inr (f, s') \<Longrightarrow> dec_all s = f # dec_all s'"
begin

lemma dec_all_enc: "\<forall>f \<in> set fs. ok f \<Longrightarrow> dec_all (concat (map enc fs) @ s) = fs @ dec_all s"
proof (induction fs)
  case Nil
  then show ?case by simp
next
  case (Cons f fs)
  then have "dec (enc f @ concat (map enc fs) @ s) = Inr (f, concat (map enc fs) @ s)"
    by (simp add: dec_enc)
  from dec_all_step [OF this] Cons show ?case by simp
qed

lemma dec_all_stream: "\<forall>f \<in> set fs. ok f \<Longrightarrow> dec_all (concat (map enc fs)) = fs"
  using dec_all_enc [of fs "[]"] by (simp add: dec_all_stop)

lemma enc_inj: "ok f \<Longrightarrow> ok g \<Longrightarrow> enc f = enc g \<Longrightarrow> f = g"
  using dec_enc [of f "[]"] dec_enc [of g "[]"] by simp

end

definition frame_bytes :: "byte \<times> bytes \<Rightarrow> bytes" where
  "frame_bytes f = frame_header (fst f) (snd f) @ snd f"

interpretation fc: frame_codec frame_bytes ReadFrame "\<lambda>f. length (snd f) < 65536" read_frames
  by unfold_locales
    (auto simp: frame_bytes_def ReadFrame_frame ReadFrame_short read_frames.simps)

text \<open>The frames a sequence of \<^verbatim>\<open>WriteFrame\<close> calls puts on one connection.\<close>

fun write_frames :: "writer \<Rightarrow> (byte \<times> bytes) list \<Rightarrow> writer" where
  "write_frames w [] = w"
| "write_frames w ((t, p) # fs) = write_frames (fst (WriteFrame w t p)) fs"

lemma write_frames_out:
  "w_cap w = None \<Longrightarrow> \<forall>f \<in> set fs. length (snd f) \<le> MaxPayload \<Longrightarrow>
     w_out (write_frames w fs) = w_out w @ concat (map frame_bytes fs)"
  by (induction fs arbitrary: w) (auto simp: WriteFrame_ok frame_bytes_def)

text \<open>
  C24. Frames written one after the other on a working connection are read back by the
  receiver as exactly the same sequence, provided every payload is below 64 KiB.
\<close>

theorem frame_stream_roundtrip:
  assumes "\<forall>f \<in> set fs. length (snd f) < 65536"
  shows "read_frames (w_out (write_frames new_writer fs)) = fs"
proof -
  have "\<forall>f \<in> set fs. length (snd f) \<le> MaxPayload"
    using assms by (fastforce simp: MaxPayload_def)
  then have "w_out (write_frames new_writer fs) = concat (map frame_bytes fs)"
    by (simp add: write_frames_out new_writer_def)
  with assms show ?thesis by (simp add: fc.dec_all_stream)
qed

theorem frame_stream_roundtrip_witness:
  "read_frames (w_out (write_frames new_writer [(FrameData, [1, 2, 3]), (FramePong, []), (FrameCtrl, [7])]))
     = [(FrameData, [1, 2, 3]), (FramePong, []), (FrameCtrl, [7])]"
  by (rule frame_stream_roundtrip) simp

text \<open>
  The length field has 16 bits while \<^verbatim>\<open>WriteFrame\<close> accepts payloads up to 16 MiB: a payload
  of 64 KiB or more is sent without an error, and the receiver takes only its first
  \<open>length mod 65536\<close> bytes as the frame and the remaining ones as the bytes of the next
  frames.
\<close>

theorem frame_oversize_truncated:
  assumes "w_cap w = None" and "65536 \<le> length p" and "length p \<le> MaxPayload"
  shows "WriteFrame w t p = (w\<lparr>w_out := w_out w @ frame_header t p @ p\<rparr>, None) \<and>
    ReadFrame (frame_header t p @ p @ s) =
      Inr ((t, take (length p mod 65536) p), drop (length p mod 65536) p @ s) \<and>
    drop (length p mod 65536) p \<noteq> []"
proof -
  have lt: "length p mod 65536 < length p"
    using assms(2) by (meson less_le_trans mod_less_divisor zero_less_numeral)
  then have "ReadFrame (frame_header t p @ p @ s) =
      Inr ((t, take (length p mod 65536) p), drop (length p mod 65536) p @ s)"
    by (simp add: ReadFrame_header Let_def)
  with lt assms(1,3) show ?thesis by (simp add: WriteFrame_ok)
qed

theorem frame_oversize_truncated_witness:
  "WriteFrame new_writer FrameCtrl (replicate 65536 0) =
     (new_writer\<lparr>w_out := w_out new_writer @ frame_header FrameCtrl (replicate 65536 0) @ replicate 65536 0\<rparr>, None) \<and>
   ReadFrame (frame_header FrameCtrl (replicate 65536 0) @ replicate 65536 0 @ []) =
     Inr ((FrameCtrl, take (length (replicate 65536 (0::byte)) mod 65536) (replicate 65536 0)),
       drop (length (replicate 65536 (0::byte)) mod 65536) (replicate 65536 0) @ []) \<and>
   drop (length (replicate 65536 (0::byte)) mod 65536) (replicate 65536 (0::byte)) \<noteq> []"
  by (rule frame_oversize_truncated) (simp_all add: new_writer_def MaxPayload_def)

subsection \<open>Two senders on one connection\<close>

text \<open>
  \<^verbatim>\<open>WriteFrame\<close> is two calls of \<^verbatim>\<open>Write\<close>; \<^verbatim>\<open>sysRW.Write\<close> of \<^verbatim>\<open>server.go\<close> takes its lock for
  one call. The calls of two goroutines that send to the same node can therefore alternate
  in any order that keeps each goroutine's own order: a \<open>shuffle\<close> of the two lists of calls.
\<close>

definition frame_writes :: "byte \<times> bytes \<Rightarrow> bytes list" where
  "frame_writes f = [frame_header (fst f) (snd f), snd f]"

definition sysRW_run :: "writer \<Rightarrow> bytes list \<Rightarrow> writer" where
  "sysRW_run w calls = foldl (\<lambda>v bs. fst (write_bytes bs v)) w calls"

lemma sysRW_run_out: "w_cap w = None \<Longrightarrow> w_out (sysRW_run w calls) = w_out w @ concat calls"
proof (induction calls arbitrary: w)
  case Nil
  then show ?case by (simp add: sysRW_run_def)
next
  case (Cons b bs)
  from Cons.IH [of "w\<lparr>w_out := w_out w @ b\<rparr>"] Cons.prems show ?case
    by (simp add: sysRW_run_def)
qed

lemma sysRW_run_WriteFrame:
  "w_cap w = None \<Longrightarrow> length (snd f) \<le> MaxPayload \<Longrightarrow>
     sysRW_run w (frame_writes f) = fst (WriteFrame w (fst f) (snd f))"
  by (simp add: sysRW_run_def frame_writes_def WriteFrame_ok)

text \<open>
  Two goroutines that send a frame each to the same connection can interleave so that the
  receiver's first frame has the first sender's type and length but starts with the other
  frame's header: the per-call lock does not keep frames whole. (The frame is as long as
  announced, so the receiver notices nothing.)
\<close>

theorem frame_writes_interleave:
  assumes "3 \<le> length (snd f)" and "length (snd f) < 65536"
  shows "\<exists>calls \<in> shuffles (frame_writes f) (frame_writes g).
    \<exists>rest. read_frames (w_out (sysRW_run new_writer calls)) =
      (fst f, frame_header (fst g) (snd g) @ take (length (snd f) - 3) (snd f @ snd g)) # rest"
proof -
  let ?hf = "frame_header (fst f) (snd f)" and ?hg = "frame_header (fst g) (snd g)"
  let ?calls = "[?hf, ?hg, snd f, snd g]"
  have mem: "?calls \<in> shuffles (frame_writes f) (frame_writes g)"
    by (simp add: frame_writes_def Cons_in_shuffles_iff)
  have out: "w_out (sysRW_run new_writer ?calls) = ?hf @ ?hg @ snd f @ snd g"
    by (simp add: sysRW_run_out new_writer_def)
  have "ReadFrame (?hf @ ?hg @ snd f @ snd g) =
      Inr ((fst f, ?hg @ take (length (snd f) - 3) (snd f @ snd g)),
        drop (length (snd f)) (?hg @ snd f @ snd g))"
    using assms by (simp add: ReadFrame_header Let_def take_append)
  then have "read_frames (?hf @ ?hg @ snd f @ snd g) =
      (fst f, ?hg @ take (length (snd f) - 3) (snd f @ snd g)) #
        read_frames (drop (length (snd f)) (?hg @ snd f @ snd g))"
    by (subst read_frames.simps) simp
  with mem out show ?thesis by metis
qed

theorem frame_writes_interleave_witness:
  "\<exists>calls \<in> shuffles (frame_writes (FrameData, [1, 2, 3, 4])) (frame_writes (FrameData, [9])).
    \<exists>rest. read_frames (w_out (sysRW_run new_writer calls)) =
      (FrameData, frame_header FrameData [9] @ take (length [1, 2, 3, 4 :: byte] - 3) ([1, 2, 3, 4] @ [9])) # rest"
  using frame_writes_interleave [of "(FrameData, [1, 2, 3, 4])" "(FrameData, [9])"] by simp

end
