(* ===== verification/Go_Net.thy ===== *)
theory Go_Net
  imports Orbit_Prelude
begin

unbundle bit_operations_syntax

text \<open>
  The part of Go's package \<^verbatim>\<open>net\<close> the program uses, written out: IP addresses as byte slices
  (4 or 16 bytes, the empty slice for \<^verbatim>\<open>nil\<close>), \<^verbatim>\<open>ParseIP\<close>, \<^verbatim>\<open>IP.String\<close>, \<^verbatim>\<open>To4\<close>, \<^verbatim>\<open>Equal\<close>,
  \<^verbatim>\<open>IPNet.Contains\<close>, \<^verbatim>\<open>CIDRMask\<close>, \<^verbatim>\<open>ParseCIDR\<close> and \<^verbatim>\<open>SplitHostPort\<close>, with the facts the
  components need: printing an IPv4 address and parsing it back gives the address, and the
  printed form determines it.
\<close>

type_synonym ip = bytes
type_synonym ipmask = bytes

record ipnet =
  net_ip :: ip
  net_mask :: ipmask

definition v4_prefix :: bytes where
  "v4_prefix = [0, 0, 0, 0, 0, 0, 0, 0, 0, 0, 255, 255]"

text \<open>\<^verbatim>\<open>net.IPv4\<close>: the 16-byte form.\<close>

definition IPv4 :: "byte \<Rightarrow> byte \<Rightarrow> byte \<Rightarrow> byte \<Rightarrow> ip" where
  "IPv4 a b c d = v4_prefix @ [a, b, c, d]"

definition to4 :: "ip \<Rightarrow> ip" where
  "to4 p = (if length p = 4 then p
            else if length p = 16 \<and> take 12 p = v4_prefix then drop 12 p else [])"

definition ip_equal :: "ip \<Rightarrow> ip \<Rightarrow> bool" where
  "ip_equal p q =
     (if length p = length q then p = q
      else if length p = 4 \<and> length q = 16 then take 12 q = v4_prefix \<and> p = drop 12 q
      else if length p = 16 \<and> length q = 4 then take 12 p = v4_prefix \<and> drop 12 p = q
      else False)"

lemma length_v4_prefix [simp]: "length v4_prefix = 12"
  by (simp add: v4_prefix_def)

lemma length_IPv4 [simp]: "length (IPv4 a b c d) = 16"
  by (simp add: IPv4_def)

lemma to4_IPv4 [simp]: "to4 (IPv4 a b c d) = [a, b, c, d]"
  by (simp add: to4_def IPv4_def)

lemma to4_len4: "length p = 4 \<Longrightarrow> to4 p = p"
  by (simp add: to4_def)

lemma length_to4: "to4 p \<noteq> [] \<Longrightarrow> length (to4 p) = 4"
  by (auto simp: to4_def split: if_splits)

lemma length4E: "length xs = 4 \<Longrightarrow> (\<And>a b c d. xs = [a, b, c, d] \<Longrightarrow> P) \<Longrightarrow> P"
  by (auto simp: numeral_eq_Suc length_Suc_conv)

lemma IPv4_inj [simp]: "IPv4 a b c d = IPv4 a' b' c' d' \<longleftrightarrow> a = a' \<and> b = b' \<and> c = c' \<and> d = d'"
  by (simp add: IPv4_def)

subsection \<open>Printing\<close>

definition hex_char :: "nat \<Rightarrow> char" where
  "hex_char d = char_of (if d < 10 then 48 + d else 87 + d)"

definition dotted :: "byte \<Rightarrow> byte \<Rightarrow> byte \<Rightarrow> byte \<Rightarrow> string" where
  "dotted a b c d = show_nat (unat a) @ ''.'' @ show_nat (unat b) @ ''.'' @
     show_nat (unat c) @ ''.'' @ show_nat (unat d)"

text \<open>The eight 16-bit groups of an IPv6 address, and the longest run of zero groups.\<close>

fun groups :: "bytes \<Rightarrow> nat list" where
  "groups (a # b # r) = (256 * unat a + unat b) # groups r"
| "groups _ = []"

fun zero_run :: "nat list \<Rightarrow> nat" where
  "zero_run (g # gs) = (if g = 0 then Suc (zero_run gs) else 0)"
| "zero_run [] = 0"

definition best_zero_run :: "nat list \<Rightarrow> nat \<times> nat" where
  "best_zero_run gs =
     foldl (\<lambda>(s, e) i. let l = zero_run (drop i gs)
              in if 2 \<le> l \<and> e - s < l then (i, i + l) else (s, e)) (255, 255) [0..<8]"

fun hex_nat :: "nat \<Rightarrow> string" where
  "hex_nat n = (if n < 16 then [hex_char n] else hex_nat (n div 16) @ [hex_char (n mod 16)])"

declare hex_nat.simps [simp del]

fun join_colon :: "string list \<Rightarrow> string" where
  "join_colon [] = []"
| "join_colon [w] = w"
| "join_colon (w # ws) = w @ '':'' @ join_colon ws"

definition ipv6_string :: "bytes \<Rightarrow> string" where
  "ipv6_string p =
     (let gs = groups p; (s, e) = best_zero_run gs
      in if s = 255 then join_colon (map hex_nat gs)
         else join_colon (map hex_nat (take s gs)) @ ''::'' @ join_colon (map hex_nat (drop e gs)))"

definition ip_string :: "ip \<Rightarrow> string" where
  "ip_string p =
     (if p = [] then ''<nil>''
      else if length p \<noteq> 4 \<and> length p \<noteq> 16
      then CHR ''?'' # concat (map (\<lambda>b. [hex_char (unat b div 16), hex_char (unat b mod 16)]) p)
      else case to4 p of [a, b, c, d] \<Rightarrow> dotted a b c d | _ \<Rightarrow> ipv6_string p)"

lemma ip_string_IPv4 [simp]: "ip_string (IPv4 a b c d) = dotted a b c d"
proof -
  have "IPv4 a b c d \<noteq> []" by (simp add: IPv4_def)
  then show ?thesis by (simp add: ip_string_def)
qed

lemma ip_string_4 [simp]: "ip_string [a, b, c, d] = dotted a b c d"
  by (simp add: ip_string_def to4_def)

subsection \<open>Parsing\<close>

definition parse_octet :: "string \<Rightarrow> byte option" where
  "parse_octet w =
     (if w = [] \<or> 3 < length w \<or> (1 < length w \<and> hd w = CHR ''0'') then None
      else case read_digits 0 w of
        None \<Rightarrow> None
      | Some n \<Rightarrow> (if n \<le> 255 then Some (of_nat n) else None))"

definition parse_ip4 :: "string \<Rightarrow> bytes option" where
  "parse_ip4 s =
     (case split_all CHR ''.'' s of
        [w, x, y, z] \<Rightarrow>
          (case (parse_octet w, parse_octet x, parse_octet y, parse_octet z) of
             (Some a, Some b, Some c, Some d) \<Rightarrow> Some [a, b, c, d]
           | _ \<Rightarrow> None)
      | _ \<Rightarrow> None)"

definition hex_val :: "char \<Rightarrow> nat option" where
  "hex_val c = (let n = of_char c :: nat in
     if 48 \<le> n \<and> n \<le> 57 then Some (n - 48)
     else if 97 \<le> n \<and> n \<le> 102 then Some (n - 87)
     else if 65 \<le> n \<and> n \<le> 70 then Some (n - 55) else None)"

definition hex_group :: "string \<Rightarrow> nat" where
  "hex_group w = foldl (\<lambda>acc c. 16 * acc + (case hex_val c of None \<Rightarrow> 0 | Some d \<Rightarrow> d)) 0 w"

text \<open>
  The loop of \<^verbatim>\<open>netip.parseIPv6\<close>: \<open>acc\<close> is what has been filled, \<open>ell\<close> the position of the
  ellipsis. It returns the bytes and the ellipsis when the whole string has been used.
\<close>

function (sequential) parse6_loop ::
  "string \<Rightarrow> bytes \<Rightarrow> nat option \<Rightarrow> (bytes \<times> nat option) option" where
  "parse6_loop s acc ell =
     (if 16 \<le> length acc then (if s = [] then Some (acc, ell) else None)
      else
        let w = takeWhile (\<lambda>c. hex_val c \<noteq> None) s; r = drop (length w) s
        in if w = [] \<or> 4 < length w then None
           else if r \<noteq> [] \<and> hd r = CHR ''.'' then
             (if ell = None \<and> length acc \<noteq> 12 then None
              else if 16 < length acc + 4 then None
              else map_option (\<lambda>v4. (acc @ v4, ell)) (parse_ip4 s))
           else
             let n = hex_group w; acc' = acc @ [of_nat (n div 256), of_nat (n mod 256)]
             in if r = [] then Some (acc', ell)
                else if hd r \<noteq> CHR '':'' \<or> length r = 1 then None
                else if hd (tl r) = CHR '':''
                then (if ell \<noteq> None then None
                      else if length r = 2 then Some (acc', Some (length acc'))
                      else parse6_loop (drop 2 r) acc' (Some (length acc')))
                else parse6_loop (tl r) acc' ell)"
  by pat_completeness auto
termination
  by (relation "measure (\<lambda>(s, acc, ell). length s)") (auto simp: length_drop)

declare parse6_loop.simps [simp del]

definition parse_ip6 :: "string \<Rightarrow> bytes option" where
  "parse_ip6 s =
     (let lead = take 2 s = ''::''; s' = (if lead then drop 2 s else s)
      in if lead \<and> s' = [] then Some (replicate 16 0)
         else case parse6_loop s' [] (if lead then Some 0 else None) of
           None \<Rightarrow> None
         | Some (acc, ell) \<Rightarrow>
             (if length acc < 16
              then (case ell of None \<Rightarrow> None
                    | Some e \<Rightarrow> Some (take e acc @ replicate (16 - length acc) 0 @ drop e acc))
              else if ell = None then Some acc else None))"

text \<open>
  \<^verbatim>\<open>netip.ParseAddr\<close> decides by the first of dot, colon and percent sign; \<^verbatim>\<open>net.ParseIP\<close>
  refuses an address with a zone and returns the 16-byte form.
\<close>

definition parse_addr :: "string \<Rightarrow> bytes option" where
  "parse_addr s =
     (case dropWhile (\<lambda>c. c \<noteq> CHR ''.'' \<and> c \<noteq> CHR '':'' \<and> c \<noteq> CHR ''%'') s of
        [] \<Rightarrow> None
      | c # _ \<Rightarrow> (if c = CHR ''.'' then parse_ip4 s
                 else if c = CHR '':'' \<and> CHR ''%'' \<notin> set s then parse_ip6 s else None))"

definition parse_ip :: "string \<Rightarrow> ip" where
  "parse_ip s =
     (case parse_addr s of None \<Rightarrow> []
      | Some p \<Rightarrow> (if length p = 4 then v4_prefix @ p else p))"

lemma split_all_last: "sep \<notin> set a \<Longrightarrow> split_all sep a = [a]"
  by (induction a) auto

lemma split_all_sep: "sep \<notin> set a \<Longrightarrow> split_all sep (a @ sep # b) = a # split_all sep b"
  by (induction a) auto

lemma show_nat_no_dot [simp]: "CHR ''.'' \<notin> set (show_nat n)"
  by (rule show_nat_no) simp

lemma show_nat_no_colon [simp]: "CHR '':'' \<notin> set (show_nat n)"
  by (rule show_nat_no) simp

lemma show_nat_no_percent [simp]: "CHR ''%'' \<notin> set (show_nat n)"
  by (rule show_nat_no) simp

lemma split_dotted:
  "split_all CHR ''.'' (dotted a b c d) =
     [show_nat (unat a), show_nat (unat b), show_nat (unat c), show_nat (unat d)]"
  by (simp add: dotted_def split_all_sep split_all_last)

lemma hd_show_nat_zero: "hd (show_nat n) = CHR ''0'' \<Longrightarrow> n = 0"
proof (induction n rule: show_nat.induct)
  case (1 n)
  show ?case
  proof (cases "n < 10")
    case True
    then have "digit_val (hd (show_nat n)) = Some n"
      by (simp add: show_nat.simps [of n])
    with 1(2) show ?thesis by (simp add: digit_val_def)
  next
    case False
    with 1(2) have "hd (show_nat (n div 10)) = CHR ''0''"
      by (simp add: show_nat.simps [of n])
    with 1(1) False show ?thesis by auto
  qed
qed

lemma length_show_byte: "n < 1000 \<Longrightarrow> length (show_nat n) \<le> 3"
  by (simp add: show_nat.simps [of n] show_nat.simps [of "n div 10"] show_nat.simps [of "n div 10 div 10"])

lemma length_show_ge10: "1 < length (show_nat n) \<Longrightarrow> 10 \<le> n"
  by (rule ccontr) (simp add: show_nat.simps [of n])

lemma unat_byte_lt [simp]: "unat (a :: byte) < 256"
  using unsigned_less [of a, where ?'a = nat] by simp

lemma parse_octet_show: "parse_octet (show_nat (unat (a :: byte))) = Some a"
proof -
  have "length (show_nat (unat a)) \<le> 3"
    by (rule length_show_byte) (use unat_byte_lt [of a] in linarith)
  moreover have "\<not> (1 < length (show_nat (unat a)) \<and> hd (show_nat (unat a)) = CHR ''0'')"
    using length_show_ge10 [of "unat a"] hd_show_nat_zero [of "unat a"] by linarith
  moreover have "unat a \<le> 255" using unat_byte_lt [of a] by linarith
  ultimately show ?thesis by (simp add: parse_octet_def read_show_nat)
qed

lemma parse_ip4_dotted: "parse_ip4 (dotted a b c d) = Some [a, b, c, d]"
  by (simp add: parse_ip4_def split_dotted parse_octet_show)

text \<open>Printing an IPv4 address and parsing it gives its 16-byte form.\<close>

lemma parse_ip_dotted [simp]: "parse_ip (dotted a b c d) = IPv4 a b c d"
proof -
  have clean: "\<forall>x \<in> set (show_nat (unat a)). x \<noteq> CHR ''.'' \<and> x \<noteq> CHR '':'' \<and> x \<noteq> CHR ''%''"
    using show_nat_no_dot show_nat_no_colon show_nat_no_percent by blast
  have "dropWhile (\<lambda>x. x \<noteq> CHR ''.'' \<and> x \<noteq> CHR '':'' \<and> x \<noteq> CHR ''%'') (dotted a b c d) =
      ''.'' @ show_nat (unat b) @ ''.'' @ show_nat (unat c) @ ''.'' @ show_nat (unat d)"
    unfolding dotted_def by (subst dropWhile_append2) (use clean in auto)
  then show ?thesis
    by (simp add: parse_ip_def parse_addr_def parse_ip4_dotted IPv4_def)
qed

lemma dotted_inj [simp]: "dotted a b c d = dotted a' b' c' d' \<longleftrightarrow> a = a' \<and> b = b' \<and> c = c' \<and> d = d'"
  using parse_ip_dotted [of a b c d] parse_ip_dotted [of a' b' c' d'] by (metis IPv4_inj)

lemma dotted_nonempty [simp]: "dotted a b c d \<noteq> []"
  by (simp add: dotted_def)

lemma parse_ip_nil [simp]: "parse_ip [] = []"
  by (simp add: parse_ip_def parse_addr_def)

subsection \<open>Networks\<close>

text \<open>\<^verbatim>\<open>CIDRMask\<close>: \<^verbatim>\<open>nil\<close> when \<open>ones\<close> exceeds \<open>bits\<close>.\<close>

definition mask_byte :: "nat \<Rightarrow> byte" where
  "mask_byte n = (if 8 \<le> n then 255 else NOT (drop_bit n 255))"

definition cidr_mask :: "nat \<Rightarrow> nat \<Rightarrow> ipmask" where
  "cidr_mask ones bits =
     (if bits \<noteq> 32 \<and> bits \<noteq> 128 \<or> bits < ones then []
      else map (\<lambda>i. mask_byte (ones - 8 * i)) [0..<bits div 8])"

definition ip_mask :: "ip \<Rightarrow> ipmask \<Rightarrow> ip" where
  "ip_mask p m =
     (let m' = (if length m = 16 \<and> length p = 4 \<and> (\<forall>b \<in> set (take 12 m). b = 255)
                then drop 12 m else m);
          p' = (if length m' = 4 \<and> length p = 16 \<and> take 12 p = v4_prefix then drop 12 p else p)
      in if length p' \<noteq> length m' then [] else map2 (AND) p' m')"

definition network_number :: "ipnet \<Rightarrow> bytes \<times> bytes" where
  "network_number n =
     (let p4 = to4 (net_ip n); p = (if p4 = [] then net_ip n else p4); m = net_mask n
      in if p4 = [] \<and> length p \<noteq> 16 then ([], [])
         else if length m = 4 then (if length p \<noteq> 4 then ([], []) else (p, m))
         else if length m = 16 then (if length p = 4 then (p, drop 12 m) else (p, m))
         else ([], []))"

definition net_contains :: "ipnet \<Rightarrow> ip \<Rightarrow> bool" where
  "net_contains n p =
     (let (nn, m) = network_number n; x = to4 p; q = (if x = [] then p else x)
      in length q = length nn \<and> map2 (AND) nn m = map2 (AND) q m)"

definition leading_ones :: "byte \<Rightarrow> nat" where
  "leading_ones b = length (takeWhile (\<lambda>i. bit b i) (rev [0..<8]))"

text \<open>\<^verbatim>\<open>IPMask.Size\<close>: the number of leading ones of a canonical mask, 0 for any other.\<close>

definition mask_ones :: "ipmask \<Rightarrow> nat" where
  "mask_ones m =
     (let full = length (takeWhile (\<lambda>b. b = 255) m); r = drop full m
      in case r of [] \<Rightarrow> 8 * full
         | b # bs \<Rightarrow> (if b = mask_byte (leading_ones b) \<and> (\<forall>x \<in> set bs. x = 0)
                      then 8 * full + leading_ones b else 0))"

definition parse_cidr :: "string \<Rightarrow> (ip \<times> ipnet) option" where
  "parse_cidr s =
     (if CHR ''/'' \<notin> set s then None
      else
        let a = takeWhile ((\<noteq>) CHR ''/'') s; m = tl (dropWhile ((\<noteq>) CHR ''/'') s)
        in case parse_addr a of
             None \<Rightarrow> None
           | Some p \<Rightarrow>
               (if m = [] then None
                else case read_digits 0 m of
                  None \<Rightarrow> None
                | Some n \<Rightarrow>
                    (if 8 * length p < n then None
                     else let p16 = (if length p = 4 then v4_prefix @ p else p);
                              mk = cidr_mask n (8 * length p)
                          in Some (p16, \<lparr>net_ip = ip_mask p16 mk, net_mask = mk\<rparr>))))"

definition ipnet_string :: "ipnet \<Rightarrow> string" where
  "ipnet_string n =
     (let (nn, m) = network_number n
      in if nn = [] then ''<nil>'' else ip_string nn @ ''/'' @ show_nat (mask_ones m))"

subsection \<open>SplitHostPort\<close>

definition split_host_port :: "string \<Rightarrow> (string \<times> string) option" where
  "split_host_port s =
     (if CHR '':'' \<notin> set s then None
      else
        let port = rev (takeWhile ((\<noteq>) CHR '':'') (rev s));
            i = length s - length port - 1
        in if hd s = CHR ''['' then
             (if CHR '']'' \<notin> set s then None
              else let e = length (takeWhile ((\<noteq>) CHR '']'') s)
                   in if e + 1 \<noteq> i then None
                      else if CHR ''['' \<in> set (tl s) \<or> CHR '']'' \<in> set (drop (e + 1) s) then None
                      else Some (drop 1 (take e s), port))
           else
             let host = take i s
             in if CHR '':'' \<in> set host \<or> CHR ''['' \<in> set s \<or> CHR '']'' \<in> set s then None
                else Some (host, port))"

end
