(* ===== verification/Ipip.thy ===== *)
theory Ipip
  imports Frame Go_Net
begin

text \<open>
  The client's packet work: IP-in-IP encapsulation and the Internet checksum (\<^verbatim>\<open>internal/client/ipip.go\<close>), and the
  echo replies an exit sends itself (\<^verbatim>\<open>internal/client/icmp.go\<close>). Buffers are byte lists; the checksum is computed at
  32 bits as in the source and shown equal to the sum modulo 65535 on natural numbers.
\<close>

subsection \<open>The checksum\<close>

fun sum_words :: "bytes \<Rightarrow> 32 word \<Rightarrow> 32 word" where
  "sum_words (a # b # r) s = sum_words r (s + ucast (get_u16 a b))"
| "sum_words _ s = s"

lemma unat_fold_step:
  fixes s :: "32 word"
  shows "unat ((s AND 0xffff) + drop_bit 16 s) = unat s mod 65536 + unat s div 65536"
proof -
  have m: "(65535 :: nat) = mask 16" by (simp add: mask_eq_exp_minus_1)
  have "unat (s AND 0xffff) = unat s AND 65535" by (simp add: unsigned_and_eq)
  then have lo: "unat (s AND 0xffff) = unat s mod 65536"
    by (simp only: m take_bit_eq_mask [symmetric] take_bit_eq_mod) simp
  have hi: "unat (drop_bit 16 s) = unat s div 65536"
    by (simp add: unat_drop_bit_eq drop_bit_eq_div unat_div)
  have "unat s < 2 ^ 32" using unsigned_less [of s] by simp
  then have "unat s mod 65536 + unat s div 65536 < 2 ^ 32" by simp
  then show ?thesis by (simp add: unat_word_ariths lo hi)
qed

function fold_carry :: "32 word \<Rightarrow> 32 word" where
  "fold_carry s = (if drop_bit 16 s > 0 then fold_carry ((s AND 0xffff) + drop_bit 16 s) else s)"
  by pat_completeness auto
termination
proof (relation "measure unat")
  fix s :: "32 word"
  assume "drop_bit 16 s > 0"
  then have "0 < unat s div 65536"
    by (simp add: word_less_nat_alt unat_drop_bit_eq drop_bit_eq_div unat_div)
  then have "unat s mod 65536 + unat s div 65536 < unat s"
    using div_mult_mod_eq [of "unat s" 65536] by linarith
  then show "((s AND 0xffff) + drop_bit 16 s, s) \<in> measure unat" by (simp add: unat_fold_step)
qed simp

declare fold_carry.simps [simp del]

definition ipChecksum :: "bytes \<Rightarrow> 16 word" where
  "ipChecksum hdr = NOT (ucast (fold_carry (sum_words hdr 0)))"

text \<open>The sum on natural numbers, and what folding leaves of it: the representative of its class modulo 65535.\<close>

fun ones_sum :: "bytes \<Rightarrow> nat" where
  "ones_sum (a # b # r) = 256 * unat a + unat b + ones_sum r"
| "ones_sum _ = 0"

definition canon :: "nat \<Rightarrow> nat" where
  "canon n = (if n = 0 then 0 else (n - 1) mod 65535 + 1)"

lemma canon_id: "n < 65536 \<Longrightarrow> canon n = n"
  by (cases "n = 65535") (auto simp: canon_def)

lemma canon_le: "canon n \<le> 65535"
  by (auto simp: canon_def intro: less_imp_le_nat Suc_leI)

lemma canon_step: "canon (n mod 65536 + n div 65536) = canon n"
proof (cases "n = 0")
  case False
  let ?m = "n mod 65536 + n div 65536"
  have n: "n = ?m + 65535 * (n div 65536)"
    using div_mult_mod_eq [of n 65536] by linarith
  have "?m \<noteq> 0" using False by (metis add_is_0 div_mult_mod_eq mult_0)
  then have "n - 1 = (?m - 1) + 65535 * (n div 65536)" using n by linarith
  then have "(n - 1) mod 65535 = (?m - 1) mod 65535" by (metis mod_mult_self2)
  with False \<open>?m \<noteq> 0\<close> show ?thesis by (simp add: canon_def)
qed (simp add: canon_def)

lemma unat_fold_carry: "unat (fold_carry s) = canon (unat s)"
proof (induction s rule: fold_carry.induct)
  case (1 s)
  show ?case
  proof (cases "drop_bit 16 s > 0")
    case True
    then show ?thesis
      using 1 [OF True] by (simp add: fold_carry.simps [of s] unat_fold_step canon_step)
  next
    case False
    then have "unat s div 65536 = 0"
      by (simp add: word_less_nat_alt unat_drop_bit_eq drop_bit_eq_div unat_div)
    then have "unat s < 65536" by (simp add: div_eq_0_iff)
    with False show ?thesis by (simp add: fold_carry.simps [of s] canon_id)
  qed
qed

lemma two_bytes_lt: "256 * unat (a :: byte) + unat (b :: byte) < 65536"
  using unat_byte_lt [of a] unat_byte_lt [of b] by linarith

lemma unat_get_u16: "unat (get_u16 a b) = 256 * unat a + unat b"
proof -
  let ?x = "push_bit 8 (ucast a) :: 16 word" and ?y = "ucast b :: 16 word"
  have "?x AND ?y = 0"
    by (rule bit_word_eqI) (auto simp: bit_and_iff bit_push_bit_iff bit_ucast_iff dest: bit_imp_le_length)
  then have "get_u16 a b = ?x + ?y"
    using word_plus_and_or [of ?x ?y] by (simp add: get_u16_def)
  moreover have b: "unat b < 65536" and a: "unat a * 256 < 65536" "unat a < 65536"
    using two_bytes_lt [of a b] by linarith+
  have "unat ?y = unat b" using b by (simp add: unsigned_ucast_eq take_bit_nat_eq_self)
  moreover have "unat ?x = 256 * unat a"
    unfolding unsigned_push_bit_eq unsigned_ucast_eq using a
    by (simp add: push_bit_eq_mult take_bit_nat_eq_self less_imp_le_nat)
  moreover note two_bytes_lt [of a b]
  ultimately show ?thesis by (simp add: unat_word_ariths)
qed

lemma ones_sum_le: "ones_sum bs \<le> 65535 * (length bs div 2)"
proof (induction bs rule: ones_sum.induct)
  case (1 a b r)
  show ?case using 1 two_bytes_lt [of a b] by simp
qed simp_all

lemma unat_sum_words:
  "unat s + ones_sum bs < 2 ^ 32 \<Longrightarrow> unat (sum_words bs s) = unat s + ones_sum bs"
proof (induction bs arbitrary: s rule: ones_sum.induct)
  case (1 a b r)
  have u: "unat (ucast (get_u16 a b) :: 32 word) = 256 * unat a + unat b"
    using two_bytes_lt [of a b] by (simp add: unsigned_ucast_eq unat_get_u16 take_bit_nat_eq_self)
  have "unat (s + ucast (get_u16 a b)) = unat s + (256 * unat a + unat b)"
    using 1(2) by (simp add: unat_word_ariths u)
  with 1 show ?case by simp
qed simp_all

text \<open>The checksum against its specification; a buffer of any size a packet can have does not overflow the sum.\<close>

lemma checksum_canon:
  assumes "length bs < 131072"
  shows "unat (fold_carry (sum_words bs 0)) = canon (ones_sum bs)"
proof -
  have "ones_sum bs \<le> 65535 * (length bs div 2)" by (rule ones_sum_le)
  also have "\<dots> \<le> 65535 * 65535" using assms by (intro mult_le_mono) linarith+
  also have "\<dots> < (2 ^ 32 :: nat)" by simp
  finally have "unat (sum_words bs 0) = ones_sum bs" by (simp add: unat_sum_words)
  then show ?thesis by (simp add: unat_fold_carry)
qed

lemma unat_not16: "unat (NOT w :: 16 word) = 65535 - unat w"
proof -
  have "NOT w = - 1 - w" by (simp add: not_eq_complement)
  then show ?thesis by (simp add: unat_sub word_order.extremum unsigned_minus_1_eq_mask mask_eq_exp_minus_1)
qed

lemma checksum_spec:
  assumes "length bs < 131072"
  shows "unat (ipChecksum bs) = 65535 - canon (ones_sum bs)"
proof -
  have "unat (ucast (fold_carry (sum_words bs 0)) :: 16 word) = canon (ones_sum bs)"
    using checksum_canon [OF assms] canon_le [of "ones_sum bs"] by (simp add: unsigned_ucast_eq take_bit_nat_eq_self)
  then show ?thesis by (simp add: ipChecksum_def unat_not16)
qed

lemma ones_sum_append: "even (length xs) \<Longrightarrow> ones_sum (xs @ ys) = ones_sum xs + ones_sum ys"
  by (induction xs rule: ones_sum.induct) auto

lemma ones_sum_u16 [simp]: "ones_sum (put_u16 w) = unat w"
  using unat_get_u16 [of "ucast (drop_bit 8 w)" "ucast w"] by (simp add: put_u16_def get_put_u16)

text \<open>A field that holds the checksum of the rest makes the whole sum to zero.\<close>

lemma canon_complement: "canon (n + (65535 - canon n)) = 65535"
proof (cases "n = 0")
  case False
  define q r where qr: "q = (n - 1) div 65535" "r = (n - 1) mod 65535"
  have "n = 65535 * q + r + 1" "r < 65535"
    using False div_mult_mod_eq [of "n - 1" 65535] by (simp_all add: qr)
  then have "n + (65535 - canon n) = 65535 * (q + 1)"
    using False by (simp add: canon_def qr [symmetric])
  then show ?thesis
    by (simp add: canon_def)
qed (simp add: canon_def)

subsection \<open>Encapsulation\<close>

definition ipProtoIPIP_c :: byte where "ipProtoIPIP_c = 4"
definition ipv4HdrLen :: nat where "ipv4HdrLen = 20"

text \<open>\<^verbatim>\<open>copy(out[k:], src)\<close>: as much of \<open>src\<close> as fits.\<close>

definition put_at :: "nat \<Rightarrow> bytes \<Rightarrow> bytes \<Rightarrow> bytes" where
  "put_at k src out = take k out @ take (length out - k) src @ drop (k + length src) out"

definition encapsulate :: "bytes \<Rightarrow> ip \<Rightarrow> ip \<Rightarrow> bytes \<Rightarrow> bytes \<times> nat" where
  "encapsulate inner localIP via out =
     (let out = put_at 0 [0x45] out;
          out = put_at 1 [inner ! 1] out;
          out = put_at 2 (put_u16 (of_nat (ipv4HdrLen + length inner))) out;
          out = put_at 4 (put_u16 0) out;
          out = put_at 6 (put_u16 0) out;
          out = put_at 8 [64] out;
          out = put_at 9 [ipProtoIPIP_c] out;
          out = put_at 10 (put_u16 0) out;
          out = put_at 12 (take 4 (to4 localIP)) out;
          out = put_at 16 (take 4 (to4 via)) out;
          out = put_at 10 (put_u16 (ipChecksum (take ipv4HdrLen out))) out;
          out = put_at ipv4HdrLen inner out
      in (out, ipv4HdrLen + length inner))"

definition decapsulate :: "bytes \<Rightarrow> ip \<Rightarrow> bytes option" where
  "decapsulate packet localIP =
     (if length packet < ipv4HdrLen \<or> drop_bit 4 (packet ! 0) \<noteq> 4 \<or> packet ! 9 \<noteq> ipProtoIPIP_c then None
      else let dst = IPv4 (packet ! 16) (packet ! 17) (packet ! 18) (packet ! 19)
           in if \<not> ip_equal dst localIP then None else Some (drop ipv4HdrLen packet))"

definition parseDst :: "bytes \<Rightarrow> ip option" where
  "parseDst packet =
     (if length packet < 20 then None else Some (IPv4 (packet ! 16) (packet ! 17) (packet ! 18) (packet ! 19)))"

lemma put_at_simps [simp]:
  "put_at 0 [] out = out" "put_at 0 (y # src) (x # out) = y # put_at 0 src out"
  "put_at (Suc k) src (x # out) = x # put_at k src out" "put_at (numeral n) src (x # out) = x # put_at (pred_numeral n) src out"
  by (simp_all add: put_at_def numeral_eq_Suc)

lemma put_at_0: "length src \<le> length out \<Longrightarrow> put_at 0 src out = src @ drop (length src) out"
  by (simp add: put_at_def)

text \<open>The outer header, with its checksum field at zero or filled in.\<close>

definition outer_header :: "byte \<Rightarrow> nat \<Rightarrow> 16 word \<Rightarrow> bytes \<Rightarrow> bytes \<Rightarrow> bytes" where
  "outer_header tos n cs src dst =
     [0x45, tos] @ put_u16 (of_nat (20 + n)) @ [0, 0, 0, 0, 64, 4] @ put_u16 cs @ src @ dst"

lemma put_u16_0: "put_u16 0 = [0, 0]"
  by (simp add: put_u16_def)

lemma put_u16_parts: "\<exists>h l. put_u16 w = [h, l]"
  by (simp add: put_u16_def)

lemma encapsulate_header:
  assumes "to4 localIP = [a, b, c, d]" and "to4 via = [e, f, g, h]" and "20 + length inner \<le> length out"
  shows "snd (encapsulate inner localIP via out) = 20 + length inner"
    and "take (20 + length inner) (fst (encapsulate inner localIP via out)) =
      outer_header (inner ! 1) (length inner)
        (ipChecksum (outer_header (inner ! 1) (length inner) 0 [a, b, c, d] [e, f, g, h])) [a, b, c, d] [e, f, g, h] @ inner"
proof -
  show "snd (encapsulate inner localIP via out) = 20 + length inner"
    by (simp add: encapsulate_def Let_def ipv4HdrLen_def)
  obtain o1 o2 where out: "out = o1 @ o2" and o1: "length o1 = 20"
    using assms(3) by (intro that [of "take 20 out" "drop 20 out"]) simp_all
  obtain x0 x1 x2 x3 x4 x5 x6 x7 x8 x9 x10 x11 x12 x13 x14 x15 x16 x17 x18 x19
    where o1': "o1 = [x0, x1, x2, x3, x4, x5, x6, x7, x8, x9, x10, x11, x12, x13, x14, x15, x16, x17, x18, x19]"
    using o1 by (auto simp: numeral_eq_Suc length_Suc_conv)
  obtain l1 l2 where l: "put_u16 (of_nat (20 + length inner)) = [l1, l2]" using put_u16_parts by blast
  let ?h0 = "[0x45, inner ! 1, l1, l2, 0, 0, 0, 0, 64, 4, 0, 0, a, b, c, d, e, f, g, h]"
  obtain k1 k2 where k: "put_u16 (ipChecksum ?h0) = [k1, k2]" using put_u16_parts by blast
  have R: "fst (encapsulate inner localIP via out) =
      [0x45, inner ! 1, l1, l2, 0, 0, 0, 0, 64, 4, k1, k2, a, b, c, d, e, f, g, h] @ (inner @ drop (length inner) o2)"
    using assms(3)
    by (simp add: encapsulate_def Let_def out o1' assms(1,2) l [simplified] k [simplified] put_u16_0 put_at_0 ipv4HdrLen_def ipProtoIPIP_c_def)
  show "take (20 + length inner) (fst (encapsulate inner localIP via out)) =
      outer_header (inner ! 1) (length inner)
        (ipChecksum (outer_header (inner ! 1) (length inner) 0 [a, b, c, d] [e, f, g, h])) [a, b, c, d] [e, f, g, h] @ inner"
    unfolding R take_append by (simp add: outer_header_def l [simplified] k [simplified] put_u16_0)
qed

lemma length_outer_header [simp]:
  "length src = 4 \<Longrightarrow> length dst = 4 \<Longrightarrow> length (outer_header tos n cs src dst) = 20"
  by (simp add: outer_header_def)

lemma outer_header_valid:
  assumes "length src = 4" and "length dst = 4"
  shows "ipChecksum (outer_header tos n (ipChecksum (outer_header tos n 0 src dst)) src dst) = 0"
proof -
  let ?H = "\<lambda>cs. outer_header tos n cs src dst"
  define p where "p = [0x45, tos] @ put_u16 (of_nat (20 + n)) @ [0, 0, 0, 0, 64, 4]"
  have H: "?H cs = p @ (put_u16 cs @ (src @ dst))" for cs
    by (simp add: outer_header_def p_def)
  have even: "even (length p)" by (simp add: p_def)
  have split: "ones_sum (?H cs) = ones_sum (?H 0) + unat cs" for cs
    unfolding H ones_sum_append [OF even] by (simp add: ones_sum_append)
  have len: "length (?H cs) < 131072" for cs using assms by simp
  have "ones_sum (?H (ipChecksum (?H 0))) = ones_sum (?H 0) + (65535 - canon (ones_sum (?H 0)))"
    unfolding split [of "ipChecksum (?H 0)"] checksum_spec [OF len] ..
  then have "unat (ipChecksum (?H (ipChecksum (?H 0)))) = 0"
    unfolding checksum_spec [OF len] by (simp add: canon_complement)
  then show ?thesis by (simp add: unat_eq_0)
qed

lemma to4_cases:
  assumes "to4 p \<noteq> []"
  obtains "length p = 4" "to4 p = p" | "length p = 16" "take 12 p = v4_prefix" "to4 p = drop 12 p"
  using assms by (auto simp: to4_def split: if_splits)

lemma append_eq_split: "length q = 16 \<Longrightarrow> take 12 q = v4_prefix \<and> drop 12 q = p \<longleftrightarrow> q = v4_prefix @ p"
  by (metis append_take_drop_id append_eq_conv_conj length_v4_prefix)

lemma ip_equal_to4:
  assumes "to4 p \<noteq> []"
  shows "ip_equal p q \<longleftrightarrow> to4 q = to4 p"
  using assms
proof (cases rule: to4_cases)
  case 1
  then show ?thesis using assms by (auto simp: ip_equal_def to4_def split: if_splits)
next
  case 2
  then show ?thesis
    using assms by (auto simp: ip_equal_def to4_def split: if_splits) (metis append_take_drop_id)
qed

text \<open>What an encapsulated packet is, for the components that send and receive them.\<close>

lemma encapsulate_facts:
  assumes "to4 localIP \<noteq> []" and "to4 via \<noteq> []" and "20 + length inner \<le> length out" and "length inner \<le> 65515"
    and "pkt = take (snd (encapsulate inner localIP via out)) (fst (encapsulate inner localIP via out))"
  shows "decapsulate pkt via = Some inner \<and> (\<forall>other. \<not> ip_equal via other \<longrightarrow> decapsulate pkt other = None)
    \<and> ipChecksum (take 20 pkt) = 0 \<and> unat (get_u16 (pkt ! 2) (pkt ! 3)) = length pkt
    \<and> take 4 (drop 12 pkt) = to4 localIP \<and> parseDst pkt = Some (v4_prefix @ to4 via)"
proof -
  obtain a b c d where loc: "to4 localIP = [a, b, c, d]" using length_to4 [OF assms(1)] by (rule length4E)
  obtain e f g h where via: "to4 via = [e, f, g, h]" using length_to4 [OF assms(2)] by (rule length4E)
  let ?H = "outer_header (inner ! 1) (length inner) (ipChecksum (outer_header (inner ! 1) (length inner) 0 [a, b, c, d] [e, f, g, h])) [a, b, c, d] [e, f, g, h]"
  have pkt: "pkt = ?H @ inner"
    unfolding assms(5) using encapsulate_header [OF loc via assms(3)] by simp
  obtain l1 l2 where l: "put_u16 (of_nat (20 + length inner)) = [l1, l2]" using put_u16_parts by blast
  obtain k1 k2 where k: "put_u16 (ipChecksum (outer_header (inner ! 1) (length inner) 0 [a, b, c, d] [e, f, g, h])) = [k1, k2]"
    using put_u16_parts by blast
  have H: "?H = [0x45, inner ! 1, l1, l2, 0, 0, 0, 0, 64, 4, k1, k2, a, b, c, d, e, f, g, h]"
    unfolding outer_header_def [of _ _ "ipChecksum _"] l k by simp
  have "get_u16 l1 l2 = of_nat (20 + length inner)"
    using get_put_u16 [of "of_nat (20 + length inner)"] l by (simp add: put_u16_def)
  then have len: "unat (get_u16 l1 l2) = 20 + length inner"
    using assms(4) by (simp add: unat_u16_of_nat del: of_nat_add)
  have cs: "ipChecksum ?H = 0" by (rule outer_header_valid) simp_all
  have hd: "drop_bit 4 (0x45 :: byte) = 4" by (simp add: drop_bit_eq_div)
  have dec: "decapsulate pkt x = (if ip_equal (IPv4 e f g h) x then Some inner else None)" for x
    unfolding pkt H by (simp add: decapsulate_def ipv4HdrLen_def ipProtoIPIP_c_def hd)
  have "ip_equal (IPv4 e f g h) x \<longleftrightarrow> ip_equal via x" for x
    using ip_equal_to4 [of "IPv4 e f g h" x] ip_equal_to4 [OF assms(2), of x] via by simp
  moreover have "ip_equal via via" using ip_equal_to4 [OF assms(2)] by simp
  ultimately have "decapsulate pkt via = Some inner \<and> (\<forall>other. \<not> ip_equal via other \<longrightarrow> decapsulate pkt other = None)"
    using dec by simp
  moreover have "take 20 pkt = ?H" unfolding pkt by (simp add: H)
  moreover have "unat (get_u16 (pkt ! 2) (pkt ! 3)) = length pkt" "take 4 (drop 12 pkt) = to4 localIP"
      "parseDst pkt = Some (v4_prefix @ to4 via)"
    unfolding pkt H by (simp_all add: len loc via parseDst_def IPv4_def)
  ultimately show ?thesis using cs by simp
qed

text \<open>
  C37. The tunnel's encapsulation can be undone and is well formed. What \<^verbatim>\<open>encapsulate\<close> writes for an IPv4 packet of
  at most 65515 bytes, whatever was in the buffer, is a header that passes the checksum test, names protocol 4, the total
  length and the two addresses, followed by the packet; the exit at the destination address strips it to exactly
  the packet, and any other machine does not.
\<close>

theorem encapsulate_roundtrip:
  assumes "to4 localIP \<noteq> []" and "to4 via \<noteq> []" and "20 + length inner \<le> length out" and "length inner \<le> 65515"
    and "pkt = take (snd (encapsulate inner localIP via out)) (fst (encapsulate inner localIP via out))"
  shows "decapsulate pkt via = Some inner \<and> (\<not> ip_equal via other \<longrightarrow> decapsulate pkt other = None)
    \<and> ipChecksum (take 20 pkt) = 0 \<and> unat (get_u16 (pkt ! 2) (pkt ! 3)) = length pkt
    \<and> take 4 (drop 12 pkt) = to4 localIP \<and> parseDst pkt = Some (v4_prefix @ to4 via)"
  using encapsulate_facts [OF assms] by blast

lemma encapsulate_roundtrip_witness:
  "decapsulate (take 22 (fst (encapsulate [7, 9] (IPv4 10 0 0 1) (IPv4 10 0 0 2) (replicate 30 1)))) (IPv4 10 0 0 2) = Some [7, 9]
   \<and> ipChecksum (take 20 (take 22 (fst (encapsulate [7, 9] (IPv4 10 0 0 1) (IPv4 10 0 0 2) (replicate 30 1))))) = 0"
proof -
  let ?pkt = "take 22 (fst (encapsulate [7, 9] (IPv4 10 0 0 1) (IPv4 10 0 0 2) (replicate 30 1)))"
  have "snd (encapsulate [7, 9] (IPv4 10 0 0 1) (IPv4 10 0 0 2) (replicate 30 1)) = 22"
    by (simp add: encapsulate_def Let_def ipv4HdrLen_def)
  then show ?thesis
    using encapsulate_roundtrip [of "IPv4 10 0 0 1" "IPv4 10 0 0 2" "[7, 9]" "replicate 30 1" ?pkt "[]"] by simp
qed

subsection \<open>Echo replies of an exit (icmp.go)\<close>

definition icmpChecksum :: "bytes \<Rightarrow> 16 word" where
  "icmpChecksum b =
     (let s = sum_words b 0; s = (if odd (length b) then s + push_bit 8 (ucast (b ! (length b - 1))) else s)
      in NOT (ucast (fold_carry s)))"

definition icmpEchoReply :: "bytes \<Rightarrow> bytes option" where
  "icmpEchoReply packet =
     (if length packet < 28 \<or> drop_bit 4 (packet ! 0) \<noteq> 4 \<or> packet ! 9 \<noteq> 1 then None
      else if packet ! 20 \<noteq> 8 then None
      else
        let out = put_at 16 (take 4 (drop 12 packet)) packet;
            out = put_at 12 (take 4 (drop 16 packet)) out;
            out = out[20 := 0, 21 := 0, 22 := 0, 23 := 0];
            sum = icmpChecksum (drop 20 out);
            out = out[22 := ucast (drop_bit 8 sum), 23 := ucast sum]
        in Some out)"

text \<open>The last byte of an odd buffer counts as if a zero byte followed.\<close>

definition padded :: "bytes \<Rightarrow> bytes" where
  "padded b = (if odd (length b) then b @ [0] else b)"

lemma last_word: "(ucast (get_u16 v 0) :: 32 word) = push_bit 8 (ucast v)"
  by (rule bit_word_eqI) (auto simp: get_u16_def bit_ucast_iff bit_push_bit_iff bit_or_iff dest: bit_imp_le_length)

lemma sum_words_pad: "odd (length b) \<Longrightarrow> sum_words (b @ [0]) s = sum_words b s + push_bit 8 (ucast (b ! (length b - 1)))"
proof (induction b arbitrary: s rule: ones_sum.induct)
  case (1 a b r)
  then have "r \<noteq> []" by auto
  then show ?case using 1 by simp
qed (simp_all add: last_word)

lemma icmpChecksum_padded: "icmpChecksum b = ipChecksum (padded b)"
  by (simp add: icmpChecksum_def ipChecksum_def padded_def sum_words_pad Let_def)

lemma ones_sum_pair: "ones_sum ([a, b] @ r) = 256 * unat a + unat b + ones_sum r"
  by simp

text \<open>
  An exit answers pings correctly. The reply to an echo request has the length of the request, its
  addresses exchanged, type and code zero, the same identifier, number and payload, an ICMP checksum that verifies, and an
  IP header whose checksum verifies exactly when that of the request does.
\<close>

theorem icmp_reply_ok:
  assumes "icmpEchoReply packet = Some out" and "length packet \<le> 65535"
  shows "length out = length packet \<and> take 12 out = take 12 packet
    \<and> take 4 (drop 12 out) = take 4 (drop 16 packet) \<and> take 4 (drop 16 out) = take 4 (drop 12 packet)
    \<and> out ! 20 = 0 \<and> out ! 21 = 0 \<and> drop 24 out = drop 24 packet
    \<and> icmpChecksum (drop 20 out) = 0 \<and> ipChecksum (take 20 out) = ipChecksum (take 20 packet)"
proof -
  have ok: "\<not> length packet < 28" "drop_bit 4 (packet ! 0) = 4" "packet ! 9 = 1" "packet ! 20 = 8"
    using assms(1) by (auto simp: icmpEchoReply_def split: if_splits)
  obtain o1 r where pk: "packet = o1 @ r" and o1: "length o1 = 24"
    using ok(1) by (intro that [of "take 24 packet" "drop 24 packet"]) simp_all
  obtain x0 x1 x2 x3 x4 x5 x6 x7 x8 x9 x10 x11 x12 x13 x14 x15 x16 x17 x18 x19 x20 x21 x22 x23
    where o1': "o1 = [x0, x1, x2, x3, x4, x5, x6, x7, x8, x9, x10, x11, x12, x13, x14, x15, x16, x17, x18, x19, x20, x21, x22, x23]"
    using o1 by (auto simp: numeral_eq_Suc length_Suc_conv)
  let ?cs = "icmpChecksum ([0, 0, 0, 0] @ r)"
  have out: "out = [x0, x1, x2, x3, x4, x5, x6, x7, x8, x9, x10, x11, x16, x17, x18, x19, x12, x13, x14, x15, 0, 0,
      ucast (drop_bit 8 ?cs), ucast ?cs] @ r"
    using assms(1) ok by (simp add: icmpEchoReply_def Let_def pk o1')
  have "ones_sum (padded ([0, 0, ucast (drop_bit 8 ?cs), ucast ?cs] @ r)) = ones_sum (padded ([0, 0, 0, 0] @ r)) + unat ?cs"
    using ones_sum_u16 [of ?cs] by (simp add: padded_def put_u16_def)
  moreover have short: "length (padded (a # b # c # d # r)) < 131072" for a b c d
    using assms(2) by (simp add: padded_def pk o1)
  ultimately have "unat (icmpChecksum ([0, 0, ucast (drop_bit 8 ?cs), ucast ?cs] @ r)) = 0"
    unfolding icmpChecksum_padded by (simp add: checksum_spec canon_complement)
  then have "icmpChecksum (drop 20 out) = 0" by (simp add: out unat_eq_0)
  moreover have "ipChecksum (take 20 out) = ipChecksum (take 20 packet)"
  proof -
    have "ones_sum (take 20 out) = ones_sum (take 20 packet)" by (simp add: out pk o1')
    moreover have "length (take 20 out) < 131072" "length (take 20 packet) < 131072" by simp_all
    ultimately have "unat (ipChecksum (take 20 out)) = unat (ipChecksum (take 20 packet))"
      using checksum_spec by metis
    then show ?thesis by (simp add: word_unat_eq_iff)
  qed
  ultimately show ?thesis by (simp add: out pk o1')
qed


definition sample_echo :: bytes where
  "sample_echo = [0x45, 0, 0, 29, 0, 0, 0, 0, 64, 1, 0, 0, 10, 0, 0, 1, 8, 8, 8, 8, 8, 0, 0, 0, 0, 1, 0, 1, 7]"

lemma icmp_reply_ok_witness:
  "icmpChecksum (drop 20 (the (icmpEchoReply sample_echo))) = 0
   \<and> take 4 (drop 16 (the (icmpEchoReply sample_echo))) = [10, 0, 0, 1]"
proof -
  have "drop_bit 4 (0x45 :: byte) = 4" by simp
  then obtain out where out: "icmpEchoReply sample_echo = Some out"
    by (simp add: icmpEchoReply_def sample_echo_def Let_def)
  have "length sample_echo \<le> 65535" by (simp add: sample_echo_def)
  from icmp_reply_ok [OF out this] show ?thesis by (simp add: out) (simp add: sample_echo_def)
qed

subsection \<open>The checksum against its specification\<close>

text \<open>
  The two checksum loops, which add 16-bit words in a 32-bit register and fold the carries until none is left,
  compute the checksum of RFC 1071: the complement of the ones' complement sum, the sum of the words taken
  modulo 65535 with 65535 for a non-zero multiple. No buffer of a length an IP packet can have overflows the register, an odd
  byte at the end of an ICMP message counts as the high byte of a last word, and a checksum is zero exactly when the sum is a
  non-zero multiple of 65535.
\<close>

theorem checksum_rfc1071:
  assumes "length bs \<le> 65535"
  shows "unat (ipChecksum bs) = 65535 - canon (ones_sum bs)
    \<and> unat (icmpChecksum bs) = 65535 - canon (ones_sum (padded bs))
    \<and> (ipChecksum bs = 0 \<longleftrightarrow> 0 < ones_sum bs \<and> 65535 dvd ones_sum bs)"
proof -
  have spec: "unat (ipChecksum bs) = 65535 - canon (ones_sum bs)"
    by (rule checksum_spec) (use assms in simp)
  have padded: "length (padded bs) < 131072" using assms by (simp add: padded_def)
  have "canon n = 65535 \<longleftrightarrow> 0 < n \<and> 65535 dvd n" for n
  proof (cases n)
    case (Suc m)
    have "m mod 65535 + 1 = 65535 \<longleftrightarrow> Suc m mod 65535 = 0" by (simp add: mod_Suc)
    then show ?thesis by (simp add: Suc canon_def dvd_eq_mod_eq_0)
  qed (simp add: canon_def)
  moreover have "ipChecksum bs = 0 \<longleftrightarrow> canon (ones_sum bs) = 65535"
    using spec canon_le [of "ones_sum bs"] by (metis diff_is_0_eq diff_self_eq_0 le_antisym unat_0 unat_eq_0)
  ultimately show ?thesis
    using spec by (simp add: icmpChecksum_padded checksum_spec [OF padded])
qed

lemma checksum_rfc1071_witness:
  "unat (ipChecksum [0x45, 0, 0xff]) = 65535 - 17664 \<and> unat (icmpChecksum [0x45, 0, 0xff]) = 65535 - 17409"
  using checksum_rfc1071 [of "[0x45, 0, 0xff]"] by (simp add: padded_def canon_def)

end
