(* ===== verification/Json.thy ===== *)
theory Json
  imports Orbit_Prelude
begin

text \<open>
  The part of \<^verbatim>\<open>encoding/json\<close> that the control messages rest on: values, the compact
  encoder (with its escapes for quotes, backslashes, control characters and the HTML
  characters), the parser, and the decoding of an object into a struct, field by field. The
  last lemma of the theory is the round trip of encoder and parser. Strings are byte
  sequences; bytes above 127 are passed through, which is what Go does for the strings that
  satisfy \<open>text_ok\<close>: valid UTF-8 without the line separators U+2028 and U+2029 (Go writes
  the replacement character for invalid bytes and an escape for the two separators).
\<close>

datatype json =
    JNull
  | JBool bool
  | JNum int
  | JFrac string
  | JStr string
  | JArr "json list"
  | JObj "(string \<times> json) list"

definition utf8_cont :: "nat \<Rightarrow> bool" where
  "utf8_cont b \<longleftrightarrow> 128 \<le> b \<and> b \<le> 191"

fun utf8_ok :: "nat list \<Rightarrow> bool" where
  "utf8_ok [] = True"
| "utf8_ok (a # r) =
     (if a < 128 then utf8_ok r
      else if 194 \<le> a \<and> a \<le> 223
      then (case r of b # q \<Rightarrow> utf8_cont b \<and> utf8_ok q | _ \<Rightarrow> False)
      else if 224 \<le> a \<and> a \<le> 239
      then (case r of
              b # c # q \<Rightarrow> utf8_cont b \<and> utf8_cont c \<and> (a = 224 \<longrightarrow> 160 \<le> b) \<and> (a = 237 \<longrightarrow> b \<le> 159)
                \<and> \<not> (a = 226 \<and> b = 128 \<and> (c = 168 \<or> c = 169)) \<and> utf8_ok q
            | _ \<Rightarrow> False)
      else if 240 \<le> a \<and> a \<le> 244
      then (case r of
              b # c # d # q \<Rightarrow> utf8_cont b \<and> utf8_cont c \<and> utf8_cont d
                \<and> (a = 240 \<longrightarrow> 144 \<le> b) \<and> (a = 244 \<longrightarrow> b \<le> 143) \<and> utf8_ok q
            | _ \<Rightarrow> False)
      else False)"

definition text_ok :: "string \<Rightarrow> bool" where
  "text_ok s \<longleftrightarrow> utf8_ok (map of_char s)"

subsection \<open>Encoding\<close>

definition hexd :: "nat \<Rightarrow> char" where
  "hexd d = char_of (if d < 10 then 48 + d else 87 + d)"

definition esc_char :: "char \<Rightarrow> string" where
  "esc_char c =
     (let n = of_char c :: nat
      in if c = CHR 0x22 then [CHR 0x5C, CHR 0x22]
         else if c = CHR 0x5C then [CHR 0x5C, CHR 0x5C]
         else if n = 8 then [CHR 0x5C, CHR ''b'']
         else if n = 12 then [CHR 0x5C, CHR ''f'']
         else if n = 10 then [CHR 0x5C, CHR ''n'']
         else if n = 13 then [CHR 0x5C, CHR ''r'']
         else if n = 9 then [CHR 0x5C, CHR ''t'']
         else if n < 32 \<or> c = CHR ''<'' \<or> c = CHR ''>'' \<or> c = CHR ''&''
         then [CHR 0x5C, CHR ''u'', CHR ''0'', CHR ''0'', hexd (n div 16), hexd (n mod 16)]
         else [c])"

definition quote :: "string \<Rightarrow> string" where
  "quote s = CHR 0x22 # concat (map esc_char s) @ [CHR 0x22]"

definition sep :: "string list \<Rightarrow> string" where
  "sep ws = (case ws of [] \<Rightarrow> [] | w # r \<Rightarrow> w @ concat (map ((#) CHR '','') r))"

fun jprint :: "json \<Rightarrow> string" where
  "jprint JNull = ''null''"
| "jprint (JBool b) = (if b then ''true'' else ''false'')"
| "jprint (JNum i) = show_int i"
| "jprint (JFrac s) = s"
| "jprint (JStr s) = quote s"
| "jprint (JArr js) = ''['' @ sep (map jprint js) @ '']''"
| "jprint (JObj ms) = ''{'' @ sep (map (\<lambda>(k, v). quote k @ '':'' @ jprint v) ms) @ ''}''"

subsection \<open>Parsing\<close>

definition is_ws :: "char \<Rightarrow> bool" where
  "is_ws c \<longleftrightarrow> of_char c \<in> {9, 10, 13, 32 :: nat}"

definition skip_ws :: "string \<Rightarrow> string" where
  "skip_ws s = dropWhile is_ws s"

definition hexv :: "char \<Rightarrow> nat option" where
  "hexv c = (let n = of_char c :: nat in
     if 48 \<le> n \<and> n \<le> 57 then Some (n - 48)
     else if 97 \<le> n \<and> n \<le> 102 then Some (n - 87)
     else if 65 \<le> n \<and> n \<le> 70 then Some (n - 55) else None)"

text \<open>The UTF-8 encoding of a code point.\<close>

definition utf8 :: "nat \<Rightarrow> string" where
  "utf8 n =
     (if n < 128 then [char_of n]
      else if n < 2048 then [char_of (192 + n div 64), char_of (128 + n mod 64)]
      else if n < 65536
      then [char_of (224 + n div 4096), char_of (128 + n div 64 mod 64), char_of (128 + n mod 64)]
      else [char_of (240 + n div 262144), char_of (128 + n div 4096 mod 64),
            char_of (128 + n div 64 mod 64), char_of (128 + n mod 64)])"

definition hex4 :: "string \<Rightarrow> (nat \<times> string) option" where
  "hex4 s =
     (case s of
        a # b # c # d # r \<Rightarrow>
          (case (hexv a, hexv b, hexv c, hexv d) of
             (Some x, Some y, Some z, Some w) \<Rightarrow> Some (4096 * x + 256 * y + 16 * z + w, r)
           | _ \<Rightarrow> None)
      | _ \<Rightarrow> None)"

text \<open>One code unit after \<open>u\<close>; a surrogate pair is one code point, a lone surrogate U+FFFD.\<close>

definition unescape_u :: "string \<Rightarrow> (string \<times> string) option" where
  "unescape_u s =
     (case hex4 s of
        None \<Rightarrow> None
      | Some (n, r) \<Rightarrow>
          (if 0xD800 \<le> n \<and> n < 0xDC00
           then (case r of
                   a # b # r1 \<Rightarrow>
                     (if a = CHR 0x5C \<and> b = CHR ''u''
                      then (case hex4 r1 of
                              Some (m, r2) \<Rightarrow>
                                (if 0xDC00 \<le> m \<and> m < 0xE000
                                 then Some (utf8 (0x10000 + (n - 0xD800) * 0x400 + (m - 0xDC00)), r2)
                                 else Some (utf8 0xFFFD, r))
                            | None \<Rightarrow> None)
                      else Some (utf8 0xFFFD, r))
                 | _ \<Rightarrow> Some (utf8 0xFFFD, r))
           else if 0xDC00 \<le> n \<and> n < 0xE000 then Some (utf8 0xFFFD, r)
           else Some (utf8 n, r)))"

definition simple_escape :: "char \<Rightarrow> char option" where
  "simple_escape c =
     (if c = CHR 0x22 \<or> c = CHR 0x5C \<or> c = CHR ''/'' then Some c
      else if c = CHR ''b'' then Some (char_of (8::nat))
      else if c = CHR ''f'' then Some (char_of (12::nat))
      else if c = CHR ''n'' then Some (char_of (10::nat))
      else if c = CHR ''r'' then Some (char_of (13::nat))
      else if c = CHR ''t'' then Some (char_of (9::nat))
      else None)"

text \<open>
  The parsers carry fuel: one unit per character read and per level of nesting is enough,
  and \<open>json_parse\<close> gives that much.
\<close>

fun parse_str :: "nat \<Rightarrow> string \<Rightarrow> (string \<times> string) option" where
  "parse_str 0 s = None"
| "parse_str (Suc f) [] = None"
| "parse_str (Suc f) (c # r) =
     (if c = CHR 0x22 then Some ([], r)
      else if c = CHR 0x5C
      then (case r of
              [] \<Rightarrow> None
            | e # r1 \<Rightarrow>
                (if e = CHR ''u''
                 then (case unescape_u r1 of
                         None \<Rightarrow> None
                       | Some (w, r2) \<Rightarrow> map_option (\<lambda>(s, q). (w @ s, q)) (parse_str f r2))
                 else case simple_escape e of
                        None \<Rightarrow> None
                      | Some d \<Rightarrow> map_option (\<lambda>(s, q). (d # s, q)) (parse_str f r1)))
      else if (of_char c :: nat) < 32 then None
      else map_option (\<lambda>(s, q). (c # s, q)) (parse_str f r))"

definition is_digit :: "char \<Rightarrow> bool" where
  "is_digit c \<longleftrightarrow> digit_val c \<noteq> None"

definition is_num_char :: "char \<Rightarrow> bool" where
  "is_num_char c \<longleftrightarrow> is_digit c \<or> c = CHR ''.'' \<or> c = CHR ''e'' \<or> c = CHR ''E'' \<or> c = CHR ''+'' \<or> c = CHR ''-''"

text \<open>What may follow the integer part: a fraction, an exponent, or both.\<close>

definition valid_frac :: "string \<Rightarrow> bool" where
  "valid_frac s =
     (let frac = (s \<noteq> [] \<and> hd s = CHR ''.'');
          ds = (if frac then takeWhile is_digit (tl s) else []);
          r = (if frac then drop (length ds) (tl s) else s);
          q = (if r \<noteq> [] then tl r else []);
          q' = (if q \<noteq> [] \<and> (hd q = CHR ''+'' \<or> hd q = CHR ''-'') then tl q else q)
      in (frac \<longrightarrow> ds \<noteq> []) \<and>
         (r = [] \<or> (hd r = CHR ''e'' \<or> hd r = CHR ''E'') \<and> q' \<noteq> [] \<and> list_all is_digit q'))"

text \<open>A number without fraction and exponent is an integer; any other literal is kept as text.\<close>

definition parse_num :: "string \<Rightarrow> (json \<times> string) option" where
  "parse_num s =
     (let w = takeWhile is_num_char s; r = drop (length w) s;
          neg = (w \<noteq> [] \<and> hd w = CHR ''-''); body = (if neg then tl w else w);
          ds = takeWhile is_digit body
      in if ds = [] \<or> (1 < length ds \<and> hd ds = CHR ''0'') then None
         else if ds = body
         then (case read_digits 0 ds of
                 None \<Rightarrow> None
               | Some n \<Rightarrow> Some (JNum (if neg then - int n else int n), r))
         else if valid_frac (drop (length ds) body) then Some (JFrac w, r)
         else None)"

definition expect :: "string \<Rightarrow> json \<Rightarrow> string \<Rightarrow> (json \<times> string) option" where
  "expect w v s = (if take (length w) s = w then Some (v, drop (length w) s) else None)"

fun parse_val :: "nat \<Rightarrow> string \<Rightarrow> (json \<times> string) option"
  and parse_elems :: "nat \<Rightarrow> string \<Rightarrow> (json list \<times> string) option"
  and parse_members :: "nat \<Rightarrow> string \<Rightarrow> ((string \<times> json) list \<times> string) option" where
  "parse_val 0 s = None"
| "parse_val (Suc f) s =
     (case skip_ws s of
        [] \<Rightarrow> None
      | c # r \<Rightarrow>
          (if c = CHR 0x22 then map_option (\<lambda>(w, q). (JStr w, q)) (parse_str f r)
           else if c = CHR ''['' then
             (case skip_ws r of
                d # q \<Rightarrow> (if d = CHR '']'' then Some (JArr [], q)
                          else map_option (\<lambda>(vs, q). (JArr vs, q)) (parse_elems f r))
              | [] \<Rightarrow> None)
           else if c = CHR ''{'' then
             (case skip_ws r of
                d # q \<Rightarrow> (if d = CHR ''}'' then Some (JObj [], q)
                          else map_option (\<lambda>(ms, q). (JObj ms, q)) (parse_members f r))
              | [] \<Rightarrow> None)
           else if c = CHR ''n'' then expect ''null'' JNull (c # r)
           else if c = CHR ''t'' then expect ''true'' (JBool True) (c # r)
           else if c = CHR ''f'' then expect ''false'' (JBool False) (c # r)
           else parse_num (c # r)))"
| "parse_elems 0 s = None"
| "parse_elems (Suc f) s =
     (case parse_val f s of
        None \<Rightarrow> None
      | Some (v, r) \<Rightarrow>
          (case skip_ws r of
             d # q \<Rightarrow> (if d = CHR '']'' then Some ([v], q)
                       else if d = CHR '','' then map_option (\<lambda>(vs, q). (v # vs, q)) (parse_elems f q)
                       else None)
           | [] \<Rightarrow> None))"
| "parse_members 0 s = None"
| "parse_members (Suc f) s =
     (case skip_ws s of
        c # r \<Rightarrow>
          (if c \<noteq> CHR 0x22 then None
           else case parse_str f r of
             None \<Rightarrow> None
           | Some (k, r1) \<Rightarrow>
               (case skip_ws r1 of
                  d # r2 \<Rightarrow>
                    (if d \<noteq> CHR '':'' then None
                     else case parse_val f r2 of
                       None \<Rightarrow> None
                     | Some (v, r3) \<Rightarrow>
                         (case skip_ws r3 of
                            e # q \<Rightarrow>
                              (if e = CHR ''}'' then Some ([(k, v)], q)
                               else if e = CHR '',''
                               then map_option (\<lambda>(ms, q). ((k, v) # ms, q)) (parse_members f q)
                               else None)
                          | [] \<Rightarrow> None))
                | [] \<Rightarrow> None))
      | [] \<Rightarrow> None)"

definition json_parse :: "string \<Rightarrow> json option" where
  "json_parse s =
     (case parse_val (2 * length s + 2) s of
        Some (v, r) \<Rightarrow> (if skip_ws r = [] then Some v else None)
      | None \<Rightarrow> None)"

subsection \<open>Decoding an object into a struct\<close>

text \<open>
  A struct is described by its fields: the JSON name, and how a value changes the struct
  (\<open>None\<close> for a value of the wrong type, which makes \<^verbatim>\<open>Unmarshal\<close> return an error). Members
  are applied in the order they come; unknown names are skipped; names match up to ASCII
  case; \<open>null\<close> leaves a field that is not a pointer as it is.
\<close>

type_synonym 'a field = "string \<times> (json \<Rightarrow> 'a \<Rightarrow> 'a option)"

definition lower_char :: "char \<Rightarrow> char" where
  "lower_char c = (let n = of_char c :: nat in if 65 \<le> n \<and> n \<le> 90 then char_of (n + 32) else c)"

fun apply_members :: "'a field list \<Rightarrow> (string \<times> json) list \<Rightarrow> 'a \<Rightarrow> 'a option" where
  "apply_members fs [] x = Some x"
| "apply_members fs ((k, v) # ms) x =
     (case map_of fs (map lower_char k) of
        None \<Rightarrow> apply_members fs ms x
      | Some g \<Rightarrow> Option.bind (g v x) (apply_members fs ms))"

definition dec_struct :: "'a field list \<Rightarrow> json \<Rightarrow> 'a \<Rightarrow> 'a option" where
  "dec_struct fs j x =
     (case j of JNull \<Rightarrow> Some x | JObj ms \<Rightarrow> apply_members fs ms x | _ \<Rightarrow> None)"

definition fstr :: "(string \<Rightarrow> 'a \<Rightarrow> 'a) \<Rightarrow> json \<Rightarrow> 'a \<Rightarrow> 'a option" where
  "fstr upd j x = (case j of JStr s \<Rightarrow> Some (upd s x) | JNull \<Rightarrow> Some x | _ \<Rightarrow> None)"

definition fbool :: "(bool \<Rightarrow> 'a \<Rightarrow> 'a) \<Rightarrow> json \<Rightarrow> 'a \<Rightarrow> 'a option" where
  "fbool upd j x = (case j of JBool b \<Rightarrow> Some (upd b x) | JNull \<Rightarrow> Some x | _ \<Rightarrow> None)"

definition fint :: "(int \<Rightarrow> 'a \<Rightarrow> 'a) \<Rightarrow> json \<Rightarrow> 'a \<Rightarrow> 'a option" where
  "fint upd j x =
     (case j of JNum n \<Rightarrow> (if int64 n then Some (upd n x) else None) | JNull \<Rightarrow> Some x | _ \<Rightarrow> None)"

text \<open>A nested struct is decoded onto its current value, a pointer onto the pointed one.\<close>

definition fsub :: "'b field list \<Rightarrow> ('a \<Rightarrow> 'b) \<Rightarrow> ('b \<Rightarrow> 'a \<Rightarrow> 'a) \<Rightarrow> json \<Rightarrow> 'a \<Rightarrow> 'a option" where
  "fsub fs get upd j x = map_option (\<lambda>b. upd b x) (dec_struct fs j (get x))"

definition fptr :: "'b field list \<Rightarrow> 'b \<Rightarrow> ('a \<Rightarrow> 'b option) \<Rightarrow> ('b option \<Rightarrow> 'a \<Rightarrow> 'a)
    \<Rightarrow> json \<Rightarrow> 'a \<Rightarrow> 'a option" where
  "fptr fs zero get upd j x =
     (if j = JNull then Some (upd None x)
      else map_option (\<lambda>b. upd (Some b) x)
             (dec_struct fs j (case get x of None \<Rightarrow> zero | Some b \<Rightarrow> b)))"

definition fstrs :: "(string list \<Rightarrow> 'a \<Rightarrow> 'a) \<Rightarrow> json \<Rightarrow> 'a \<Rightarrow> 'a option" where
  "fstrs upd j x =
     (case j of
        JNull \<Rightarrow> Some (upd [] x)
      | JArr js \<Rightarrow> map_option (\<lambda>ss. upd ss x)
          (those (map (\<lambda>j. case j of JStr s \<Rightarrow> Some s | JNull \<Rightarrow> Some [] | _ \<Rightarrow> None) js))
      | _ \<Rightarrow> None)"

definition flist :: "'b field list \<Rightarrow> 'b \<Rightarrow> ('b list \<Rightarrow> 'a \<Rightarrow> 'a) \<Rightarrow> json \<Rightarrow> 'a \<Rightarrow> 'a option" where
  "flist fs zero upd j x =
     (case j of
        JNull \<Rightarrow> Some (upd [] x)
      | JArr js \<Rightarrow> map_option (\<lambda>bs. upd bs x) (those (map (\<lambda>j. dec_struct fs j zero) js))
      | _ \<Rightarrow> None)"

lemma apply_members_append:
  "apply_members fs (ms @ ns) x = Option.bind (apply_members fs ms x) (apply_members fs ns)"
proof (induction ms arbitrary: x)
  case Nil
  then show ?case by simp
next
  case (Cons m ms)
  obtain k v where m: "m = (k, v)" by fastforce
  show ?case
  proof (cases "map_of fs (map lower_char k)")
    case None
    then show ?thesis by (simp add: m Cons.IH)
  next
    case (Some g)
    then show ?thesis by (cases "g v x") (simp_all add: m Cons.IH)
  qed
qed

lemma those_map_Some: "\<forall>x \<in> set xs. f (g x) = Some x \<Longrightarrow> those (map f (map g xs)) = Some xs"
  by (induction xs) auto

subsection \<open>Parsing what was printed\<close>

fun plain :: "json \<Rightarrow> bool" where
  "plain (JFrac s) = False"
| "plain (JArr js) = list_all plain js"
| "plain (JObj ms) = list_all (\<lambda>(k, v). plain v) ms"
| "plain _ = True"

lemma hexv_hexd: "d < 16 \<Longrightarrow> hexv (hexd d) = Some d"
  by (simp add: hexv_def hexd_def Let_def)

lemma hex4_byte: "n < 256 \<Longrightarrow>
    hex4 (CHR ''0'' # CHR ''0'' # hexd (n div 16) # hexd (n mod 16) # r) = Some (n, r)"
  by (simp add: hex4_def hexv_hexd hexv_def [of "CHR ''0''"] less_mult_imp_div_less)

lemma unescape_u_byte: "n < 128 \<Longrightarrow>
    unescape_u (CHR ''0'' # CHR ''0'' # hexd (n div 16) # hexd (n mod 16) # r) = Some ([char_of n], r)"
  by (simp add: unescape_u_def hex4_byte utf8_def)

lemma char_of_nat_eqI: "(of_char c :: nat) = n \<Longrightarrow> char_of n = c"
  by auto

lemma parse_str_esc:
  "parse_str (Suc f) (esc_char c @ r) = map_option (\<lambda>(s, q). (c # s, q)) (parse_str f r)"
proof -
  let ?n = "of_char c :: nat"
  consider "c = CHR 0x22" | "c = CHR 0x5C" | "?n = 8" | "?n = 12" | "?n = 10" | "?n = 13" | "?n = 9"
    | (u) "?n \<notin> {8, 9, 10, 12, 13}" "?n < 32 \<or> c = CHR ''<'' \<or> c = CHR ''>'' \<or> c = CHR ''&''"
    | (other) "c \<noteq> CHR 0x22" "c \<noteq> CHR 0x5C" "\<not> ?n < 32" "c \<noteq> CHR ''<''" "c \<noteq> CHR ''>''" "c \<noteq> CHR ''&''"
    by auto
  then show ?thesis
  proof cases
    case u
    then have e: "esc_char c = [CHR 0x5C, CHR ''u'', CHR ''0'', CHR ''0'', hexd (?n div 16), hexd (?n mod 16)]"
      by (auto simp: esc_char_def Let_def)
    have "?n < 128" using u by auto
    then show ?thesis
      unfolding e by (simp add: unescape_u_byte)
  next
    case other
    then have "esc_char c = [c]" by (auto simp: esc_char_def Let_def)
    with other show ?thesis by simp
  qed (auto simp: esc_char_def Let_def simple_escape_def dest: char_of_nat_eqI)
qed

lemma esc_char_nonempty: "0 < length (esc_char c)"
  by (simp add: esc_char_def Let_def)

lemma parse_str_quote:
  "length (concat (map esc_char s)) < f \<Longrightarrow>
     parse_str f (concat (map esc_char s) @ CHR 0x22 # rest) = Some (s, rest)"
proof (induction s arbitrary: f)
  case Nil
  then show ?case by (cases f) simp_all
next
  case (Cons c s)
  then obtain g where f: "f = Suc g" by (cases f) simp_all
  with Cons.prems have "length (esc_char c) + length (concat (map esc_char s)) < Suc g" by simp
  with esc_char_nonempty [of c] have "length (concat (map esc_char s)) < g" by linarith
  then show ?case by (simp add: f parse_str_esc Cons.IH)
qed

lemma takeWhile_stop: "\<forall>x \<in> set w. P x \<Longrightarrow> r = [] \<or> \<not> P (hd r) \<Longrightarrow> takeWhile P (w @ r) = w"
  by (cases r) (auto simp: takeWhile_append)

lemma show_nat_is_digit: "\<forall>c \<in> set (show_nat n). is_digit c"
  using show_nat_digits by (force simp: is_digit_def)

lemma takeWhile_all_digits [simp]: "takeWhile is_digit (show_nat n) = show_nat n"
  using show_nat_is_digit by simp

lemma show_nat_lead: "1 < length (show_nat n) \<Longrightarrow> hd (show_nat n) \<noteq> CHR ''0''"
proof (induction n rule: show_nat.induct)
  case (1 n)
  then have ge: "\<not> n < 10" by (auto simp: show_nat.simps [of n])
  show ?case
  proof (cases "1 < length (show_nat (n div 10))")
    case True
    with 1 ge show ?thesis by (simp add: show_nat.simps [of n])
  next
    case False
    then have lt: "n div 10 < 10"
      by (rule_tac ccontr) (simp add: show_nat.simps [of "n div 10"])
    have "digit_val (hd (show_nat n)) = Some (n div 10)"
      using ge lt by (simp add: show_nat.simps [of n] show_nat.simps [of "n div 10"])
    moreover have "n div 10 \<noteq> 0" using ge by simp
    ultimately show ?thesis by (auto simp: digit_val_def)
  qed
qed

lemma parse_num_show:
  assumes "rest = [] \<or> \<not> is_num_char (hd rest)"
  shows "parse_num (show_int i @ rest) = Some (JNum i, rest)"
proof -
  have num: "\<forall>c \<in> set (show_int i). is_num_char c"
    using show_nat_is_digit by (auto simp: show_int_def is_num_char_def)
  have tw: "takeWhile is_num_char (show_int i @ rest) = show_int i"
    by (rule takeWhile_stop [OF num assms])
  have dr: "drop (length (show_int i)) (show_int i @ rest) = rest" by simp
  show ?thesis
  proof (cases "i < 0")
    case True
    then show ?thesis
      using show_nat_lead [of "nat (- i)"] unfolding parse_num_def Let_def tw dr
      by (simp add: show_int_def read_show_nat)
  next
    case False
    then show ?thesis
      using show_nat_lead [of "nat i"] hd_show_nat(1) [of "nat i"]
      unfolding parse_num_def Let_def tw dr
      by (simp add: show_int_def read_show_nat)
  qed
qed

lemma show_int_hd: "\<exists>c cs. show_int i = c # cs \<and> (is_digit c \<or> c = CHR ''-'')"
proof -
  have "show_int i \<noteq> []" by simp
  then obtain c cs where s: "show_int i = c # cs" by (cases "show_int i") auto
  then have "c \<in> set (show_int i)" by simp
  then have "is_digit c \<or> c = CHR ''-''"
    using show_nat_is_digit by (auto simp: show_int_def split: if_splits)
  with s show ?thesis by blast
qed

lemma digit_not: "is_digit c \<Longrightarrow> 48 \<le> (of_char c :: nat) \<and> (of_char c :: nat) \<le> 57"
  by (auto simp: is_digit_def digit_val_def Let_def split: if_splits)

text \<open>Every printed value starts with a character that is no white space and closes nothing.\<close>

lemma jprint_hd:
  "plain v \<Longrightarrow> \<exists>c cs. jprint v = c # cs \<and> \<not> is_ws c \<and> c \<noteq> CHR '']'' \<and> c \<noteq> CHR ''}''"
proof (cases v)
  case (JNum i)
  obtain c cs where "show_int i = c # cs" "is_digit c \<or> c = CHR ''-''"
    using show_int_hd by blast
  then show ?thesis
    using digit_not [of c] by (auto simp: JNum is_ws_def)
qed (auto simp: quote_def is_ws_def)

lemma skip_ws_jprint [simp]: "plain v \<Longrightarrow> skip_ws (jprint v @ r) = jprint v @ r"
  using jprint_hd [of v] by (auto simp: skip_ws_def)

lemma skip_ws_Cons [simp]: "\<not> is_ws c \<Longrightarrow> skip_ws (c # r) = c # r"
  by (simp add: skip_ws_def)

lemma not_ws [simp]:
  "\<not> is_ws CHR 0x22" "\<not> is_ws CHR ''[''" "\<not> is_ws CHR '']''" "\<not> is_ws CHR ''{''" "\<not> is_ws CHR ''}''"
  "\<not> is_ws CHR '',''" "\<not> is_ws CHR '':''" "\<not> is_ws CHR ''n''" "\<not> is_ws CHR ''t''" "\<not> is_ws CHR ''f''"
  by (simp_all add: is_ws_def)

lemma sep_Cons: "sep (w # ws) = w @ (if ws = [] then [] else CHR '','' # sep ws)"
  by (cases ws) (simp_all add: sep_def)

definition stops :: "string \<Rightarrow> bool" where
  "stops r \<longleftrightarrow> r = [] \<or> \<not> is_num_char (hd r)"

lemma stops_simps [simp]: "stops []" "stops (CHR '','' # r)" "stops (CHR '']'' # r)" "stops (CHR ''}'' # r)"
  by (simp_all add: stops_def is_num_char_def is_digit_def digit_val_def)

definition parses :: "json \<Rightarrow> bool" where
  "parses v \<longleftrightarrow> (\<forall>f r. length (jprint v) \<le> f \<longrightarrow> stops r \<longrightarrow> parse_val f (jprint v @ r) = Some (v, r))"

lemma parsesD: "parses v \<Longrightarrow> length (jprint v) \<le> f \<Longrightarrow> stops r \<Longrightarrow> parse_val f (jprint v @ r) = Some (v, r)"
  by (simp add: parses_def)

lemma parse_elems_sep:
  "js \<noteq> [] \<Longrightarrow> \<forall>v \<in> set js. parses v \<Longrightarrow> length (sep (map jprint js)) < f \<Longrightarrow>
     parse_elems f (sep (map jprint js) @ CHR '']'' # r) = Some (js, r)"
proof (induction js arbitrary: f)
  case Nil
  then show ?case by simp
next
  case (Cons v js)
  then obtain g where f: "f = Suc g" by (cases f) simp_all
  show ?case
  proof (cases "js = []")
    case True
    with Cons.prems f have "parse_val g (jprint v @ CHR '']'' # r) = Some (v, CHR '']'' # r)"
      by (intro parsesD) (auto simp: sep_Cons)
    with True f show ?thesis by (simp add: sep_Cons)
  next
    case False
    let ?q = "sep (map jprint js) @ CHR '']'' # r"
    from Cons.prems f False have "parse_val g (jprint v @ CHR '','' # ?q) = Some (v, CHR '','' # ?q)"
      by (intro parsesD) (auto simp: sep_Cons)
    moreover from Cons.prems f False have "parse_elems g ?q = Some (js, r)"
      by (intro Cons.IH) (auto simp: sep_Cons)
    ultimately show ?thesis using False f by (simp add: sep_Cons)
  qed
qed

abbreviation pmember :: "string \<times> json \<Rightarrow> string" where
  "pmember \<equiv> \<lambda>(k, v). quote k @ '':'' @ jprint v"

lemma parse_str_key:
  "length (quote k) \<le> Suc f \<Longrightarrow> parse_str f (concat (map esc_char k) @ CHR 0x22 # r) = Some (k, r)"
  by (rule parse_str_quote) (simp add: quote_def)

lemma parse_members_sep:
  "ms \<noteq> [] \<Longrightarrow> \<forall>(k, v) \<in> set ms. parses v \<Longrightarrow> length (sep (map pmember ms)) < f \<Longrightarrow>
     parse_members f (sep (map pmember ms) @ CHR ''}'' # r) = Some (ms, r)"
proof (induction ms arbitrary: f)
  case Nil
  then show ?case by simp
next
  case (Cons m ms)
  obtain k v where m: "m = (k, v)" by fastforce
  from Cons.prems obtain g where f: "f = Suc g" by (cases f) simp_all
  have len: "length (quote k) + 1 + length (jprint v) \<le> g"
    using Cons.prems(3) by (simp add: f m sep_Cons)
  then have key: "parse_str g (concat (map esc_char k) @ CHR 0x22 # q) = Some (k, q)" for q
    by (intro parse_str_key) simp
  have val: "stops q \<Longrightarrow> parse_val g (jprint v @ q) = Some (v, q)" for q
    using Cons.prems(2) len by (intro parsesD) (auto simp: m)
  show ?case
  proof (cases "ms = []")
    case True
    then show ?thesis by (simp add: m f sep_Cons quote_def key val)
  next
    case False
    with Cons.prems f m have "parse_members g (sep (map pmember ms) @ CHR ''}'' # r) = Some (ms, r)"
      by (intro Cons.IH) (auto simp: sep_Cons)
    then show ?thesis using False by (simp add: m f sep_Cons quote_def key val)
  qed
qed

text \<open>The round trip of the printer and the parser.\<close>

lemma parsesI:
  assumes "plain v"
    and "\<And>f r. length (jprint v) \<le> Suc f \<Longrightarrow> stops r \<Longrightarrow> parse_val (Suc f) (jprint v @ r) = Some (v, r)"
  shows "parses v"
  unfolding parses_def
proof (intro allI impI)
  fix f r
  assume "length (jprint v) \<le> f" and "stops r"
  moreover from \<open>plain v\<close> have "0 < length (jprint v)"
    using jprint_hd by fastforce
  ultimately show "parse_val f (jprint v @ r) = Some (v, r)"
    by (cases f) (simp_all add: assms(2) del: parse_val.simps(2))
qed

lemma parses_JNum: "parses (JNum i)"
proof (rule parsesI)
  fix f r
  assume r: "stops r"
  obtain c cs where c: "show_int i = c # cs" and d: "is_digit c \<or> c = CHR ''-''"
    using show_int_hd by blast
  have "\<not> is_ws c \<and> c \<noteq> CHR 0x22 \<and> c \<noteq> CHR ''['' \<and> c \<noteq> CHR ''{'' \<and> c \<noteq> CHR ''n'' \<and> c \<noteq> CHR ''t'' \<and> c \<noteq> CHR ''f''"
    using d digit_not [of c] by (auto simp: is_ws_def)
  moreover have "parse_num (c # cs @ r) = Some (JNum i, r)"
    using parse_num_show [of r i] r by (simp add: c stops_def)
  ultimately show "parse_val (Suc f) (jprint (JNum i) @ r) = Some (JNum i, r)"
    by (simp add: c)
qed simp

lemma parses_JArr:
  assumes "plain (JArr js)" and "\<forall>v \<in> set js. parses v"
  shows "parses (JArr js)"
proof (rule parsesI)
  fix f r
  assume len: "length (jprint (JArr js)) \<le> Suc f"
  show "parse_val (Suc f) (jprint (JArr js) @ r) = Some (JArr js, r)"
  proof (cases js)
    case Nil
    then show ?thesis by (simp add: sep_def)
  next
    case (Cons v vs)
    let ?q = "sep (map jprint js) @ CHR '']'' # r"
    have "plain v" using assms(1) Cons by simp
    then obtain c cs where c: "jprint v = c # cs" "\<not> is_ws c" "c \<noteq> CHR '']''"
      using jprint_hd [of v] by blast
    have q: "skip_ws ?q = c # tl ?q"
      using c by (simp add: Cons sep_Cons)
    have "parse_elems f ?q = Some (js, r)"
      using len assms(2) Cons by (intro parse_elems_sep) simp_all
    then show ?thesis using q c by simp
  qed
qed (use assms in simp)

lemma parses_JObj:
  assumes "plain (JObj ms)" and "\<forall>(k, v) \<in> set ms. parses v"
  shows "parses (JObj ms)"
proof (rule parsesI)
  fix f r
  assume len: "length (jprint (JObj ms)) \<le> Suc f"
  show "parse_val (Suc f) (jprint (JObj ms) @ r) = Some (JObj ms, r)"
  proof (cases ms)
    case Nil
    then show ?thesis by (simp add: sep_def)
  next
    case (Cons m ms')
    let ?q = "sep (map pmember ms) @ CHR ''}'' # r"
    obtain k v where m: "m = (k, v)" by fastforce
    have q: "skip_ws ?q = CHR 0x22 # tl ?q"
      by (simp add: Cons m sep_Cons quote_def)
    have "parse_members f ?q = Some (ms, r)"
      using len assms(2) Cons by (intro parse_members_sep) simp_all
    then show ?thesis using q by simp
  qed
qed (use assms in simp)

lemma parses_plain: "plain v \<Longrightarrow> parses v"
proof (induction v)
  case JNull
  show ?case by (rule parsesI) (simp_all add: expect_def)
next
  case (JBool b)
  show ?case by (rule parsesI) (cases b; simp add: expect_def)+
next
  case (JStr s)
  show ?case
    by (rule parsesI) (simp_all add: quote_def parse_str_quote)
next
  case (JArr js)
  then show ?case by (intro parses_JArr) (auto simp: list_all_iff)
next
  case (JObj ms)
  then have "\<forall>(k, v) \<in> set ms. parses v"
    by (fastforce simp: list_all_iff)
  with JObj.prems show ?case by (rule parses_JObj)
qed (auto intro: parses_JNum)

lemma json_roundtrip: "plain v \<Longrightarrow> json_parse (jprint v) = Some v"
  using parsesD [OF parses_plain, of v "2 * length (jprint v) + 2" "[]"]
  by (simp add: json_parse_def skip_ws_def)

end
