(* ===== verification/Control.thy ===== *)
theory Control
  imports Json Frame
begin

text \<open>
  The control messages of \<^verbatim>\<open>internal/protocol/control.go\<close>: the structs, their JSON form
  (field names and \<^verbatim>\<open>omitempty\<close> as the struct tags say), \<^verbatim>\<open>EncodeCtrl\<close> and \<^verbatim>\<open>DecodeCtrl\<close>, and
  the round trip of the two.
\<close>

subsection \<open>Message types, authentication modes, client modes (const.go)\<close>

definition MsgHello :: string where "MsgHello = ''hello''"
definition MsgWelcome :: string where "MsgWelcome = ''welcome''"
definition MsgPeerJoin :: string where "MsgPeerJoin = ''peer_join''"
definition MsgPeerLeave :: string where "MsgPeerLeave = ''peer_leave''"
definition MsgReject :: string where "MsgReject = ''reject''"
definition MsgSession :: string where "MsgSession = ''session''"
definition MsgQuota :: string where "MsgQuota = ''quota''"

definition AuthPassword :: string where "AuthPassword = ''password''"
definition AuthDevice :: string where "AuthDevice = ''device''"

definition ModeSimple :: string where "ModeSimple = ''simple''"
definition ModeSmart :: string where "ModeSmart = ''smart''"
definition ModeGlobal :: string where "ModeGlobal = ''global''"

lemmas msg_types = MsgHello_def MsgWelcome_def MsgPeerJoin_def MsgPeerLeave_def MsgReject_def
  MsgSession_def MsgQuota_def

subsection \<open>The structs\<close>

record auth =
  au_mode :: string
  au_password :: string
  au_token :: string

record hello =
  he_user :: string
  he_device :: string
  he_auth :: auth
  he_hostname :: string
  he_os :: string
  he_egress :: bool
  he_mode :: string

record peer_info =
  pi_ip :: string
  pi_hostname :: string
  pi_os :: string
  pi_egress :: bool

record quota =
  qu_period :: string
  qu_used :: int
  qu_limit :: int
  qu_egress_used :: int
  qu_egress_limit :: int

record session =
  se_account :: string
  se_device :: string
  se_tier :: string
  se_quota :: "quota option"

record welcome_msg =
  we_ip :: string
  we_cidr :: string
  we_network :: string
  we_mtu :: int
  we_peers :: "peer_info list"
  we_session :: "session option"

record ctrl_msg =
  cm_type :: string
  cm_hello :: "hello option"
  cm_welcome :: "welcome_msg option"
  cm_peer_join :: "peer_info option"
  cm_peer_leave :: "string option"
  cm_reject :: "string option"
  cm_session :: "session option"
  cm_quota :: "quota option"

text \<open>\<open>cm_peer_leave\<close> holds the address of \<^verbatim>\<open>PeerLeave\<close>, \<open>cm_reject\<close> the reason of \<^verbatim>\<open>Reject\<close>.\<close>

definition zero_auth :: auth where
  "zero_auth = \<lparr>au_mode = [], au_password = [], au_token = []\<rparr>"
definition zero_hello :: hello where
  "zero_hello = \<lparr>he_user = [], he_device = [], he_auth = zero_auth, he_hostname = [], he_os = [],
     he_egress = False, he_mode = []\<rparr>"
definition zero_peer :: peer_info where
  "zero_peer = \<lparr>pi_ip = [], pi_hostname = [], pi_os = [], pi_egress = False\<rparr>"
definition zero_quota :: quota where
  "zero_quota = \<lparr>qu_period = [], qu_used = 0, qu_limit = 0, qu_egress_used = 0, qu_egress_limit = 0\<rparr>"
definition zero_session :: session where
  "zero_session = \<lparr>se_account = [], se_device = [], se_tier = [], se_quota = None\<rparr>"
definition zero_welcome :: welcome_msg where
  "zero_welcome = \<lparr>we_ip = [], we_cidr = [], we_network = [], we_mtu = 0, we_peers = [], we_session = None\<rparr>"
definition ctrl :: "string \<Rightarrow> ctrl_msg" where
  "ctrl t = \<lparr>cm_type = t, cm_hello = None, cm_welcome = None, cm_peer_join = None,
     cm_peer_leave = None, cm_reject = None, cm_session = None, cm_quota = None\<rparr>"

lemmas zero_defs = zero_auth_def zero_hello_def zero_peer_def zero_quota_def zero_session_def
  zero_welcome_def ctrl_def

subsection \<open>JSON form\<close>

definition om_str :: "string \<Rightarrow> string \<Rightarrow> (string \<times> json) list" where
  "om_str k s = (if s = [] then [] else [(k, JStr s)])"
definition om_bool :: "string \<Rightarrow> bool \<Rightarrow> (string \<times> json) list" where
  "om_bool k b = (if b then [(k, JBool b)] else [])"
definition om_int :: "string \<Rightarrow> int \<Rightarrow> (string \<times> json) list" where
  "om_int k n = (if n = 0 then [] else [(k, JNum n)])"
definition om_ptr :: "string \<Rightarrow> ('a \<Rightarrow> json) \<Rightarrow> 'a option \<Rightarrow> (string \<times> json) list" where
  "om_ptr k enc v = (case v of None \<Rightarrow> [] | Some x \<Rightarrow> [(k, enc x)])"

definition enc_auth :: "auth \<Rightarrow> json" where
  "enc_auth a = JObj ([(''mode'', JStr (au_mode a))] @ om_str ''password'' (au_password a)
     @ om_str ''token'' (au_token a))"

definition enc_hello :: "hello \<Rightarrow> json" where
  "enc_hello h = JObj ([(''user'', JStr (he_user h)), (''device_id'', JStr (he_device h)),
     (''auth'', enc_auth (he_auth h)), (''hostname'', JStr (he_hostname h)), (''os'', JStr (he_os h))]
     @ om_bool ''egress'' (he_egress h) @ om_str ''mode'' (he_mode h))"

definition enc_peer :: "peer_info \<Rightarrow> json" where
  "enc_peer p = JObj ([(''ip'', JStr (pi_ip p)), (''hostname'', JStr (pi_hostname p)),
     (''os'', JStr (pi_os p))] @ om_bool ''egress'' (pi_egress p))"

definition enc_quota :: "quota \<Rightarrow> json" where
  "enc_quota q = JObj ([(''period'', JStr (qu_period q)), (''used_bytes'', JNum (qu_used q))]
     @ om_int ''limit_bytes'' (qu_limit q) @ om_int ''egress_used_bytes'' (qu_egress_used q)
     @ om_int ''egress_limit_bytes'' (qu_egress_limit q))"

definition enc_session :: "session \<Rightarrow> json" where
  "enc_session s = JObj ([(''account_id'', JStr (se_account s)), (''device_id'', JStr (se_device s)),
     (''tier'', JStr (se_tier s))] @ om_ptr ''quota'' enc_quota (se_quota s))"

definition enc_welcome :: "welcome_msg \<Rightarrow> json" where
  "enc_welcome w = JObj ([(''virtual_ip'', JStr (we_ip w)), (''cidr'', JStr (we_cidr w)),
     (''network_id'', JStr (we_network w)), (''mtu'', JNum (we_mtu w)),
     (''peers'', JArr (map enc_peer (we_peers w)))] @ om_ptr ''session'' enc_session (we_session w))"

definition enc_leave :: "string \<Rightarrow> json" where
  "enc_leave p = JObj [(''ip'', JStr p)]"
definition enc_reject :: "string \<Rightarrow> json" where
  "enc_reject r = JObj [(''reason'', JStr r)]"

definition enc_ctrl :: "ctrl_msg \<Rightarrow> json" where
  "enc_ctrl m = JObj ([(''type'', JStr (cm_type m))]
     @ om_ptr ''hello'' enc_hello (cm_hello m) @ om_ptr ''welcome'' enc_welcome (cm_welcome m)
     @ om_ptr ''peer_join'' enc_peer (cm_peer_join m) @ om_ptr ''peer_leave'' enc_leave (cm_peer_leave m)
     @ om_ptr ''reject'' enc_reject (cm_reject m) @ om_ptr ''session'' enc_session (cm_session m)
     @ om_ptr ''quota'' enc_quota (cm_quota m))"

definition auth_fields :: "auth field list" where
  "auth_fields = [(''mode'', fstr (\<lambda>s x. x\<lparr>au_mode := s\<rparr>)),
     (''password'', fstr (\<lambda>s x. x\<lparr>au_password := s\<rparr>)), (''token'', fstr (\<lambda>s x. x\<lparr>au_token := s\<rparr>))]"

definition hello_fields :: "hello field list" where
  "hello_fields = [(''user'', fstr (\<lambda>s x. x\<lparr>he_user := s\<rparr>)),
     (''device_id'', fstr (\<lambda>s x. x\<lparr>he_device := s\<rparr>)),
     (''auth'', fsub auth_fields he_auth (\<lambda>a x. x\<lparr>he_auth := a\<rparr>)),
     (''hostname'', fstr (\<lambda>s x. x\<lparr>he_hostname := s\<rparr>)), (''os'', fstr (\<lambda>s x. x\<lparr>he_os := s\<rparr>)),
     (''egress'', fbool (\<lambda>b x. x\<lparr>he_egress := b\<rparr>)), (''mode'', fstr (\<lambda>s x. x\<lparr>he_mode := s\<rparr>))]"

definition peer_fields :: "peer_info field list" where
  "peer_fields = [(''ip'', fstr (\<lambda>s x. x\<lparr>pi_ip := s\<rparr>)), (''hostname'', fstr (\<lambda>s x. x\<lparr>pi_hostname := s\<rparr>)),
     (''os'', fstr (\<lambda>s x. x\<lparr>pi_os := s\<rparr>)), (''egress'', fbool (\<lambda>b x. x\<lparr>pi_egress := b\<rparr>))]"

definition quota_fields :: "quota field list" where
  "quota_fields = [(''period'', fstr (\<lambda>s x. x\<lparr>qu_period := s\<rparr>)),
     (''used_bytes'', fint (\<lambda>n x. x\<lparr>qu_used := n\<rparr>)), (''limit_bytes'', fint (\<lambda>n x. x\<lparr>qu_limit := n\<rparr>)),
     (''egress_used_bytes'', fint (\<lambda>n x. x\<lparr>qu_egress_used := n\<rparr>)),
     (''egress_limit_bytes'', fint (\<lambda>n x. x\<lparr>qu_egress_limit := n\<rparr>))]"

definition session_fields :: "session field list" where
  "session_fields = [(''account_id'', fstr (\<lambda>s x. x\<lparr>se_account := s\<rparr>)),
     (''device_id'', fstr (\<lambda>s x. x\<lparr>se_device := s\<rparr>)), (''tier'', fstr (\<lambda>s x. x\<lparr>se_tier := s\<rparr>)),
     (''quota'', fptr quota_fields zero_quota se_quota (\<lambda>q x. x\<lparr>se_quota := q\<rparr>))]"

definition welcome_fields :: "welcome_msg field list" where
  "welcome_fields = [(''virtual_ip'', fstr (\<lambda>s x. x\<lparr>we_ip := s\<rparr>)), (''cidr'', fstr (\<lambda>s x. x\<lparr>we_cidr := s\<rparr>)),
     (''network_id'', fstr (\<lambda>s x. x\<lparr>we_network := s\<rparr>)), (''mtu'', fint (\<lambda>n x. x\<lparr>we_mtu := n\<rparr>)),
     (''peers'', flist peer_fields zero_peer (\<lambda>ps x. x\<lparr>we_peers := ps\<rparr>)),
     (''session'', fptr session_fields zero_session we_session (\<lambda>s x. x\<lparr>we_session := s\<rparr>))]"

definition leave_fields :: "string field list" where
  "leave_fields = [(''ip'', fstr (\<lambda>s x. s))]"
definition reject_fields :: "string field list" where
  "reject_fields = [(''reason'', fstr (\<lambda>s x. s))]"

definition ctrl_fields :: "ctrl_msg field list" where
  "ctrl_fields = [(''type'', fstr (\<lambda>s x. x\<lparr>cm_type := s\<rparr>)),
     (''hello'', fptr hello_fields zero_hello cm_hello (\<lambda>h x. x\<lparr>cm_hello := h\<rparr>)),
     (''welcome'', fptr welcome_fields zero_welcome cm_welcome (\<lambda>w x. x\<lparr>cm_welcome := w\<rparr>)),
     (''peer_join'', fptr peer_fields zero_peer cm_peer_join (\<lambda>p x. x\<lparr>cm_peer_join := p\<rparr>)),
     (''peer_leave'', fptr leave_fields [] cm_peer_leave (\<lambda>p x. x\<lparr>cm_peer_leave := p\<rparr>)),
     (''reject'', fptr reject_fields [] cm_reject (\<lambda>r x. x\<lparr>cm_reject := r\<rparr>)),
     (''session'', fptr session_fields zero_session cm_session (\<lambda>s x. x\<lparr>cm_session := s\<rparr>)),
     (''quota'', fptr quota_fields zero_quota cm_quota (\<lambda>q x. x\<lparr>cm_quota := q\<rparr>))]"

text \<open>Go's conversions between \<^verbatim>\<open>[]byte\<close> and \<^verbatim>\<open>string\<close>.\<close>

definition bytes_of :: "string \<Rightarrow> bytes" where
  "bytes_of s = map (\<lambda>c. of_nat (of_char c)) s"

definition string_of :: "bytes \<Rightarrow> string" where
  "string_of bs = map (\<lambda>b. char_of (unat b)) bs"

definition EncodeCtrl :: "ctrl_msg \<Rightarrow> bytes" where
  "EncodeCtrl m = bytes_of (jprint (enc_ctrl m))"

definition DecodeCtrl :: "bytes \<Rightarrow> ctrl_msg option" where
  "DecodeCtrl b =
     (case json_parse (string_of b) of
        None \<Rightarrow> None
      | Some j \<Rightarrow> dec_struct ctrl_fields j (ctrl []))"

subsection \<open>Round trip\<close>

lemma string_of_bytes_of [simp]: "string_of (bytes_of s) = s"
proof -
  have "unat (of_nat (of_char c) :: byte) = (of_char c :: nat)" for c
    using nat_of_char_less_256 [of c] by (simp add: unat_of_nat)
  then show ?thesis by (simp add: string_of_def bytes_of_def comp_def)
qed

lemma length_bytes_of [simp]: "length (bytes_of s) = length s"
  by (simp add: bytes_of_def)

text \<open>What Go can put on the wire unchanged: integers of \<^verbatim>\<open>int64\<close> and valid text.\<close>

definition ok_hello :: "hello \<Rightarrow> bool" where
  "ok_hello h \<longleftrightarrow> list_all text_ok [he_user h, he_device h, he_hostname h, he_os h, he_mode h,
     au_mode (he_auth h), au_password (he_auth h), au_token (he_auth h)]"
definition ok_peer :: "peer_info \<Rightarrow> bool" where
  "ok_peer p \<longleftrightarrow> list_all text_ok [pi_ip p, pi_hostname p, pi_os p]"
definition ok_quota :: "quota \<Rightarrow> bool" where
  "ok_quota q \<longleftrightarrow> text_ok (qu_period q) \<and> int64 (qu_used q) \<and> int64 (qu_limit q)
     \<and> int64 (qu_egress_used q) \<and> int64 (qu_egress_limit q)"
definition ok_session :: "session \<Rightarrow> bool" where
  "ok_session s \<longleftrightarrow> list_all text_ok [se_account s, se_device s, se_tier s] \<and> pred_option ok_quota (se_quota s)"
definition ok_welcome :: "welcome_msg \<Rightarrow> bool" where
  "ok_welcome w \<longleftrightarrow> list_all text_ok [we_ip w, we_cidr w, we_network w] \<and> int64 (we_mtu w)
     \<and> list_all ok_peer (we_peers w) \<and> pred_option ok_session (we_session w)"
definition ok_ctrl :: "ctrl_msg \<Rightarrow> bool" where
  "ok_ctrl m \<longleftrightarrow> text_ok (cm_type m) \<and> pred_option ok_hello (cm_hello m)
     \<and> pred_option ok_welcome (cm_welcome m) \<and> pred_option ok_peer (cm_peer_join m)
     \<and> pred_option text_ok (cm_peer_leave m) \<and> pred_option text_ok (cm_reject m)
     \<and> pred_option ok_session (cm_session m) \<and> pred_option ok_quota (cm_quota m)"

lemma dec_struct_obj: "dec_struct fs (JObj ms) x = apply_members fs ms x"
  by (simp add: dec_struct_def)

lemma field_values [simp]:
  "fstr upd (JStr s) x = Some (upd s x)"
  "int64 n \<Longrightarrow> fint fup (JNum n) y = Some (fup n y)"
  by (simp_all add: fstr_def fint_def)

lemma fsub_dec: "dec_struct fs j (get x) = Some b \<Longrightarrow> fsub fs get upd j x = Some (upd b x)"
  by (simp add: fsub_def)

lemma apply_om_str:
  "map_of fs (map lower_char k) = Some (fstr upd) \<Longrightarrow> (s = [] \<Longrightarrow> upd s x = x) \<Longrightarrow>
     apply_members fs (om_str k s) x = Some (upd s x)"
  by (simp add: om_str_def fstr_def)

lemma apply_om_bool:
  "map_of fs (map lower_char k) = Some (fbool upd) \<Longrightarrow> (\<not> b \<Longrightarrow> upd b x = x) \<Longrightarrow>
     apply_members fs (om_bool k b) x = Some (upd b x)"
  by (cases b) (simp_all add: om_bool_def fbool_def)

lemma apply_om_int:
  "map_of fs (map lower_char k) = Some (fint upd) \<Longrightarrow> int64 n \<Longrightarrow> (n = 0 \<Longrightarrow> upd n x = x) \<Longrightarrow>
     apply_members fs (om_int k n) x = Some (upd n x)"
  by (simp add: om_int_def fint_def)

lemma apply_om_ptr:
  assumes "map_of fs (map lower_char k) = Some (fptr gs zero get upd)"
    and "get x = None" and "upd None x = x"
    and "\<And>b. v = Some b \<Longrightarrow> enc b \<noteq> JNull \<and> dec_struct gs (enc b) zero = Some b"
  shows "apply_members fs (om_ptr k enc v) x = Some (upd v x)"
  using assms by (cases v) (simp_all add: om_ptr_def fptr_def)

lemmas members = dec_struct_obj apply_members_append apply_om_str apply_om_bool apply_om_int lower_char_def

lemma dec_auth: "dec_struct auth_fields (enc_auth a) zero_auth = Some a"
  by (simp add: enc_auth_def auth_fields_def members zero_defs)

lemma dec_hello: "dec_struct hello_fields (enc_hello h) zero_hello = Some h"
  by (simp add: enc_hello_def hello_fields_def members zero_hello_def
      fsub_def dec_auth)

lemma dec_peer: "dec_struct peer_fields (enc_peer p) zero_peer = Some p"
  by (simp add: enc_peer_def peer_fields_def members zero_defs)

lemma dec_quota: "ok_quota q \<Longrightarrow> dec_struct quota_fields (enc_quota q) zero_quota = Some q"
  by (simp add: enc_quota_def quota_fields_def members zero_defs ok_quota_def)

lemma enc_not_null [simp]:
  "enc_hello h \<noteq> JNull" "enc_peer p \<noteq> JNull" "enc_quota q \<noteq> JNull" "enc_session s \<noteq> JNull"
  "enc_welcome w \<noteq> JNull" "enc_leave l \<noteq> JNull" "enc_reject r \<noteq> JNull"
  by (simp_all add: enc_hello_def enc_peer_def enc_quota_def enc_session_def enc_welcome_def
      enc_leave_def enc_reject_def)

lemma dec_session: "ok_session s \<Longrightarrow> dec_struct session_fields (enc_session s) zero_session = Some s"
  by (simp add: enc_session_def session_fields_def members apply_om_ptr dec_quota zero_session_def
      ok_session_def option.pred_set)

lemma dec_peers: "those (map (\<lambda>j. dec_struct peer_fields j zero_peer) (map enc_peer ps)) = Some ps"
  by (induction ps) (simp_all add: dec_peer)

lemma dec_welcome: "ok_welcome w \<Longrightarrow> dec_struct welcome_fields (enc_welcome w) zero_welcome = Some w"
  using dec_peers [of "we_peers w"]
  by (simp add: enc_welcome_def welcome_fields_def members apply_om_ptr dec_session zero_welcome_def
      ok_welcome_def option.pred_set flist_def)

lemma dec_leave: "dec_struct leave_fields (enc_leave p) [] = Some p"
  by (simp add: enc_leave_def leave_fields_def members)

lemma dec_reject: "dec_struct reject_fields (enc_reject p) [] = Some p"
  by (simp add: enc_reject_def reject_fields_def members)

lemma dec_ctrl: "ok_ctrl m \<Longrightarrow> dec_struct ctrl_fields (enc_ctrl m) (ctrl []) = Some m"
  by (simp add: enc_ctrl_def ctrl_fields_def members apply_om_ptr dec_hello dec_welcome dec_peer
      dec_leave dec_reject dec_session dec_quota ok_ctrl_def option.pred_set ctrl_def)


text \<open>A printed message contains no fraction.\<close>

abbreviation plain_members :: "(string \<times> json) list \<Rightarrow> bool" where
  "plain_members ms \<equiv> list_all (\<lambda>(k, v). plain v) ms"

lemma plain_om [simp]:
  "plain_members (om_str k s)" "plain_members (om_bool k b)" "plain_members (om_int k n)"
  "(\<And>x. v = Some x \<Longrightarrow> plain (enc x)) \<Longrightarrow> plain_members (om_ptr k enc v)"
  by (simp_all add: om_str_def om_bool_def om_int_def om_ptr_def split: option.splits)

lemma plain_enc [simp]:
  "plain (enc_auth a)" "plain (enc_hello h)" "plain (enc_peer p)" "plain (enc_quota q)"
  "plain (enc_session s)" "plain (enc_welcome w)" "plain (enc_leave l)" "plain (enc_reject r)"
proof -
  show "plain (enc_auth a)" for a by (simp add: enc_auth_def)
  then show "plain (enc_hello h)" by (simp add: enc_hello_def)
  show peer: "plain (enc_peer p)" for p by (simp add: enc_peer_def)
  show quota: "plain (enc_quota q)" for q by (simp add: enc_quota_def)
  show session: "plain (enc_session s)" for s by (simp add: enc_session_def quota)
  have "list_all plain (map enc_peer ps)" for ps by (simp add: list_all_iff peer)
  then show "plain (enc_welcome w)" by (simp add: enc_welcome_def session)
  show "plain (enc_leave l)" by (simp add: enc_leave_def)
  show "plain (enc_reject r)" by (simp add: enc_reject_def)
qed

lemma plain_ctrl: "plain (enc_ctrl m)"
  by (simp add: enc_ctrl_def)

lemma decode_encode: "ok_ctrl m \<Longrightarrow> DecodeCtrl (EncodeCtrl m) = Some m"
  by (simp add: DecodeCtrl_def EncodeCtrl_def json_roundtrip plain_ctrl dec_ctrl)

text \<open>
  C27. Every control message whose numbers are in the range of \<^verbatim>\<open>int64\<close> and whose strings are valid
  text survives the wire: decoding the bytes \<^verbatim>\<open>EncodeCtrl\<close> produces gives the same message back,
  whatever its strings contain (quotes, control characters, the characters Go escapes for
  HTML), whichever of its payloads are present and whichever fields \<^verbatim>\<open>omitempty\<close> leaves out.
\<close>

theorem ctrl_roundtrip: "ok_ctrl m \<Longrightarrow> DecodeCtrl (EncodeCtrl m) = Some m"
  by (rule decode_encode)

definition sample_hello :: ctrl_msg where
  "sample_hello = (ctrl MsgHello)\<lparr>cm_hello := Some \<lparr>he_user = ''net1'', he_device = ''d1'',
     he_auth = \<lparr>au_mode = AuthDevice, au_password = [], au_token = ''t<&>''\<rparr>,
     he_hostname = [CHR 0x22, CHR 0x0A], he_os = ''linux'', he_egress = True, he_mode = ModeSmart\<rparr>\<rparr>"

lemma ctrl_roundtrip_witness:
  "ok_ctrl sample_hello \<and> DecodeCtrl (EncodeCtrl sample_hello) = Some sample_hello"
proof -
  have "ok_ctrl sample_hello"
    by (simp add: ok_ctrl_def ok_hello_def sample_hello_def ctrl_def text_ok_def MsgHello_def
        AuthDevice_def ModeSmart_def)
  with ctrl_roundtrip [OF this] show ?thesis by simp
qed

end
