(* ===== verification/Account_Store.thy ===== *)
theory Account_Store
  imports Json
begin

text \<open>
  Accounts and devices: \<^verbatim>\<open>internal/account/account.go\<close>, \<^verbatim>\<open>auth.go\<close>, \<^verbatim>\<open>store.go\<close> and \<^verbatim>\<open>mgmt.go\<close>.

  A store is the two maps of the Go struct and the content of its JSON file. Operations run
  under the store's lock and are functions on the store; \<open>io\<close> says whether writing the file
  works. Where the source changes the maps before it saves, so does the model: a failed save
  leaves the change in memory. The bytes of \<^verbatim>\<open>crypto/rand\<close> are arguments (\<open>None\<close> for an error),
  and bcrypt (\<^verbatim>\<open>golang.org/x/crypto\<close>, not part of the repository) is the pair of parameters
  \<open>gen\<close> (\<^verbatim>\<open>GenerateFromPassword\<close> at minimal cost) and \<open>cmp\<close> (\<^verbatim>\<open>CompareHashAndPassword\<close>).
\<close>

subsection \<open>Data (account.go)\<close>

record account =
  ac_id :: string
  ac_name :: string
  ac_tier :: string
  ac_created :: time

record device =
  de_id :: string
  de_account :: string
  de_name :: string
  de_token_hash :: string
  de_egress :: bool
  de_acl :: "string list"
  de_created :: time
  de_seen :: time

type_synonym store_file = "account list \<times> device list"

record store =
  sto_accounts :: "(string, account) gomap"
  sto_devices :: "(string, device) gomap"
  sto_file :: "store_file file_read"

datatype store_error =
    ErrNotFound
  | ErrBadToken
  | ErrNameEmpty
  | ErrNameTooLong
  | ErrAccountNotFound
  | ErrDeviceLimit
  | ErrOrphanDevice
  | ErrRand
  | ErrHash
  | ErrSave
  | ErrOpen

subsection \<open>Identifiers and tokens (auth.go)\<close>

definition hex_encode :: "bytes \<Rightarrow> string" where
  "hex_encode bs = concat (map (\<lambda>b. [hexd (unat b div 16), hexd (unat b mod 16)]) bs)"

definition randID :: "bytes option \<Rightarrow> string" where
  "randID r = (case r of None \<Rightarrow> ''x'' @ hex_encode (replicate 12 0) | Some b \<Rightarrow> hex_encode b)"

definition NewToken :: "bytes option \<Rightarrow> string option" where
  "NewToken r = map_option hex_encode r"

type_synonym bcrypt_gen = "string \<Rightarrow> string option"
type_synonym bcrypt_cmp = "string \<Rightarrow> string \<Rightarrow> bool"

definition HashToken :: "bcrypt_gen \<Rightarrow> string \<Rightarrow> string option" where
  "HashToken gen token = gen token"

definition VerifyToken :: "bcrypt_cmp \<Rightarrow> string \<Rightarrow> string \<Rightarrow> bool" where
  "VerifyToken cmp hash token = cmp hash token"

text \<open>
  What bcrypt documents: it hashes passwords of at most 72 bytes, and a hash matches exactly
  the password it was made from (among the passwords it can hash).
\<close>

definition bcrypt_ok :: "bcrypt_gen \<Rightarrow> bcrypt_cmp \<Rightarrow> bool" where
  "bcrypt_ok gen cmp \<longleftrightarrow> (\<forall>p h. gen p = Some h \<longrightarrow> (\<forall>q. length q \<le> 72 \<longrightarrow> cmp h q = (q = p)))
     \<and> (\<forall>p. length p \<le> 72 \<longrightarrow> gen p \<noteq> None)"

text \<open>A concrete pair with these properties, for the witnesses.\<close>

definition toy_gen :: bcrypt_gen where
  "toy_gen p = (if length p \<le> 72 then Some (''$2a$04$'' @ p) else None)"
definition toy_cmp :: bcrypt_cmp where
  "toy_cmp h p \<longleftrightarrow> h = ''$2a$04$'' @ p"

lemma toy_bcrypt_ok: "bcrypt_ok toy_gen toy_cmp"
  by (auto simp: bcrypt_ok_def toy_gen_def toy_cmp_def)

lemma length_hex_encode [simp]: "length (hex_encode bs) = 2 * length bs"
  by (induction bs) (simp_all add: hex_encode_def)

subsection \<open>The store (store.go)\<close>

definition empty_store :: store where
  "empty_store = \<lparr>sto_accounts = [], sto_devices = [], sto_file = Absent\<rparr>"

definition accountsSlice :: "store \<Rightarrow> account list" where
  "accountsSlice s = map snd (sto_accounts s)"
definition devicesSlice :: "store \<Rightarrow> device list" where
  "devicesSlice s = map snd (sto_devices s)"

definition load_store :: "store_file \<Rightarrow> store" where
  "load_store fd = \<lparr>sto_accounts = index_by ac_id (fst fd), sto_devices = index_by de_id (snd fd),
     sto_file = Content fd\<rparr>"

definition OpenStore :: "bool \<Rightarrow> store_file file_read \<Rightarrow> store_error + store" where
  "OpenStore mkdir_ok raw =
     (if \<not> mkdir_ok then Inl ErrOpen
      else case raw of
          Absent \<Rightarrow> Inr empty_store
        | ReadError \<Rightarrow> Inl ErrOpen
        | Malformed \<Rightarrow> Inl ErrOpen
        | Content fd \<Rightarrow> Inr (load_store fd))"

definition save_store :: "bool \<Rightarrow> store \<Rightarrow> store \<times> store_error option" where
  "save_store io s =
     (s\<lparr>sto_file := save_file io (accountsSlice s, devicesSlice s) (sto_file s)\<rparr>,
      if io then None else Some ErrSave)"

definition AddAccount :: "bool \<Rightarrow> account \<Rightarrow> store \<Rightarrow> store \<times> store_error option" where
  "AddAccount io a s = save_store io (s\<lparr>sto_accounts := put (ac_id a) a (sto_accounts s)\<rparr>)"

definition ListAccounts :: "store \<Rightarrow> account list" where
  "ListAccounts s = accountsSlice s"
definition ListDevicesAll :: "store \<Rightarrow> device list" where
  "ListDevicesAll s = devicesSlice s"

definition SetAccountTier :: "bool \<Rightarrow> string \<Rightarrow> string \<Rightarrow> store \<Rightarrow> store \<times> store_error option" where
  "SetAccountTier io acc tier s =
     (case map_of (sto_accounts s) acc of
        None \<Rightarrow> (s, Some ErrNotFound)
      | Some a \<Rightarrow> save_store io (s\<lparr>sto_accounts := put acc (a\<lparr>ac_tier := tier\<rparr>) (sto_accounts s)\<rparr>))"

definition RemoveAccount :: "bool \<Rightarrow> string \<Rightarrow> store \<Rightarrow> store \<times> store_error option" where
  "RemoveAccount io acc s = save_store io
     (s\<lparr>sto_devices := filter (\<lambda>(k, d). de_account d \<noteq> acc) (sto_devices s),
        sto_accounts := del acc (sto_accounts s)\<rparr>)"

definition get_account :: "string \<Rightarrow> store \<Rightarrow> store_error + account" where
  "get_account i s = (case map_of (sto_accounts s) i of None \<Rightarrow> Inl ErrNotFound | Some a \<Rightarrow> Inr a)"

definition AddDevice :: "bool \<Rightarrow> device \<Rightarrow> store \<Rightarrow> store \<times> store_error option" where
  "AddDevice io d s = save_store io (s\<lparr>sto_devices := put (de_id d) d (sto_devices s)\<rparr>)"

definition get_device :: "string \<Rightarrow> store \<Rightarrow> store_error + device" where
  "get_device i s = (case map_of (sto_devices s) i of None \<Rightarrow> Inl ErrNotFound | Some d \<Rightarrow> Inr d)"

definition DevicesByAccount :: "string \<Rightarrow> store \<Rightarrow> device list" where
  "DevicesByAccount acc s = map snd (filter (\<lambda>e. de_account (snd e) = acc) (sto_devices s))"

definition RemoveDevice :: "bool \<Rightarrow> string \<Rightarrow> store \<Rightarrow> store \<times> store_error option" where
  "RemoveDevice io i s =
     (case map_of (sto_devices s) i of
        None \<Rightarrow> (s, Some ErrNotFound)
      | Some _ \<Rightarrow> save_store io (s\<lparr>sto_devices := del i (sto_devices s)\<rparr>))"

definition update_device :: "string \<Rightarrow> device \<Rightarrow> store \<Rightarrow> store" where
  "update_device i d s = s\<lparr>sto_devices := put i d (sto_devices s)\<rparr>"

definition SetDeviceEgress :: "bool \<Rightarrow> string \<Rightarrow> bool \<Rightarrow> string list \<Rightarrow> store \<Rightarrow> store \<times> store_error option" where
  "SetDeviceEgress io i enabled acl s =
     (case map_of (sto_devices s) i of
        None \<Rightarrow> (s, Some ErrNotFound)
      | Some d \<Rightarrow> save_store io (update_device i (d\<lparr>de_egress := enabled, de_acl := acl\<rparr>) s))"

subsection \<open>Account management (mgmt.go)\<close>

text \<open>The random bytes of one call: account id, device id, token.\<close>

record entropy =
  en_account :: "bytes option"
  en_device :: "bytes option"
  en_token :: "bytes option"

definition new_device :: "string \<Rightarrow> string \<Rightarrow> string \<Rightarrow> string \<Rightarrow> time \<Rightarrow> device" where
  "new_device i acc name h now = \<lparr>de_id = i, de_account = acc, de_name = name, de_token_hash = h,
     de_egress = False, de_acl = [], de_created = now, de_seen = 0\<rparr>"

text \<open>
  \<open>de_seen = 0\<close> stands for Go's zero time. The functions return the new store and either an
  error or the values of the call.
\<close>

definition CreateAccountWithTier ::
  "bcrypt_gen \<Rightarrow> bool \<Rightarrow> entropy \<Rightarrow> time \<Rightarrow> string \<Rightarrow> string \<Rightarrow> store
     \<Rightarrow> store \<times> (store_error + account \<times> device \<times> string)" where
  "CreateAccountWithTier gen io en now name tier s =
     (let i = ''acc_'' @ randID (en_account en)
      in case NewToken (en_token en) of
           None \<Rightarrow> (s, Inl ErrRand)
         | Some token \<Rightarrow>
             (case HashToken gen token of
                None \<Rightarrow> (s, Inl ErrHash)
              | Some h \<Rightarrow>
                  let a = \<lparr>ac_id = i, ac_name = name, ac_tier = tier, ac_created = now\<rparr>;
                      d = new_device (''dev_'' @ randID (en_device en)) i ''main'' h now;
                      s1 = s\<lparr>sto_accounts := put i a (sto_accounts s),
                             sto_devices := put (de_id d) d (sto_devices s)\<rparr>;
                      (s2, err) = save_store io s1
                  in (case err of Some e \<Rightarrow> (s2, Inl e) | None \<Rightarrow> (s2, Inr (a, d, token)))))"

definition CreateAccount ::
  "bcrypt_gen \<Rightarrow> bool \<Rightarrow> entropy \<Rightarrow> time \<Rightarrow> string \<Rightarrow> store
     \<Rightarrow> store \<times> (store_error + account \<times> device \<times> string)" where
  "CreateAccount gen io en now name s = CreateAccountWithTier gen io en now name ''free'' s"

definition MaxDevicesPerAccount :: nat where
  "MaxDevicesPerAccount = 16"

text \<open>
  \<^verbatim>\<open>AddDeviceForAccount\<close> takes the store's lock three times: to look at the account, to count
  its devices, and to add the new one. \<open>add_device_check\<close> is what happens before the last.
\<close>

definition add_device_check :: "string \<Rightarrow> store \<Rightarrow> store_error option" where
  "add_device_check acc s =
     (case get_account acc s of
        Inl _ \<Rightarrow> Some ErrAccountNotFound
      | Inr _ \<Rightarrow> (if length (DevicesByAccount acc s) \<ge> MaxDevicesPerAccount
                  then Some ErrDeviceLimit else None))"

definition add_device_commit ::
  "bcrypt_gen \<Rightarrow> bool \<Rightarrow> entropy \<Rightarrow> time \<Rightarrow> string \<Rightarrow> string \<Rightarrow> store
     \<Rightarrow> store \<times> (store_error + device \<times> string)" where
  "add_device_commit gen io en now acc name s =
     (case NewToken (en_token en) of
        None \<Rightarrow> (s, Inl ErrRand)
      | Some token \<Rightarrow>
          (case HashToken gen token of
             None \<Rightarrow> (s, Inl ErrHash)
           | Some h \<Rightarrow>
               let d = new_device (''dev_'' @ randID (en_device en)) acc name h now;
                   (s1, err) = AddDevice io d s
               in (case err of Some e \<Rightarrow> (s1, Inl e) | None \<Rightarrow> (s1, Inr (d, token)))))"

definition AddDeviceForAccount ::
  "bcrypt_gen \<Rightarrow> bool \<Rightarrow> entropy \<Rightarrow> time \<Rightarrow> string \<Rightarrow> string \<Rightarrow> store
     \<Rightarrow> store \<times> (store_error + device \<times> string)" where
  "AddDeviceForAccount gen io en now acc name s =
     (let name' = (if name = [] then ''device'' else name)
      in case add_device_check acc s of
           Some e \<Rightarrow> (s, Inl e)
         | None \<Rightarrow> add_device_commit gen io en now acc name' s)"

definition VerifyDevice :: "bcrypt_cmp \<Rightarrow> string \<Rightarrow> string \<Rightarrow> store \<Rightarrow> store_error + device \<times> account" where
  "VerifyDevice cmp i token s =
     (case get_device i s of
        Inl _ \<Rightarrow> Inl ErrBadToken
      | Inr d \<Rightarrow>
          (if \<not> VerifyToken cmp (de_token_hash d) token then Inl ErrBadToken
           else case get_account (de_account d) s of
                  Inl _ \<Rightarrow> Inl ErrOrphanDevice
                | Inr a \<Rightarrow> Inr (d, a)))"

text \<open>
  \<^verbatim>\<open>MarkSeen\<close>, \<^verbatim>\<open>RenameDevice\<close> and \<^verbatim>\<open>RotateToken\<close> write through the pointer the map holds.
\<close>

definition MarkSeen :: "time \<Rightarrow> string \<Rightarrow> store \<Rightarrow> store" where
  "MarkSeen now i s =
     (case map_of (sto_devices s) i of
        None \<Rightarrow> s
      | Some d \<Rightarrow> update_device i (d\<lparr>de_seen := now\<rparr>) s)"

definition RenameDevice :: "bool \<Rightarrow> string \<Rightarrow> string \<Rightarrow> store \<Rightarrow> store \<times> (store_error + device)" where
  "RenameDevice io i name s =
     (let name = trim_space name
      in if name = [] then (s, Inl ErrNameEmpty)
         else if length name > 64 then (s, Inl ErrNameTooLong)
         else case get_device i s of
                Inl e \<Rightarrow> (s, Inl e)
              | Inr d \<Rightarrow>
                  let d' = d\<lparr>de_name := name\<rparr>;
                      (s1, err) = save_store io (update_device i d' s)
                  in (case err of Some e \<Rightarrow> (s1, Inl e) | None \<Rightarrow> (s1, Inr d')))"

definition RotateToken ::
  "bcrypt_gen \<Rightarrow> bool \<Rightarrow> bytes option \<Rightarrow> string \<Rightarrow> store \<Rightarrow> store \<times> (store_error + string)" where
  "RotateToken gen io r i s =
     (case NewToken r of
        None \<Rightarrow> (s, Inl ErrRand)
      | Some token \<Rightarrow>
          (case HashToken gen token of
             None \<Rightarrow> (s, Inl ErrHash)
           | Some h \<Rightarrow>
               (case get_device i s of
                  Inl e \<Rightarrow> (s, Inl e)
                | Inr d \<Rightarrow>
                    let (s1, err) = save_store io (update_device i (d\<lparr>de_token_hash := h\<rparr>) s)
                    in (case err of Some e \<Rightarrow> (s1, Inl e) | None \<Rightarrow> (s1, Inr token)))))"

subsection \<open>The invariant of the store\<close>

text \<open>
  Every record is filed under its own id, every device belongs to an account of the store, and
  no account has more devices than the limit. The same holds for what a restart would load
  from the file.
\<close>

definition store_ok :: "store \<Rightarrow> bool" where
  "store_ok s \<longleftrightarrow> keyed ac_id (sto_accounts s) \<and> keyed de_id (sto_devices s)
     \<and> (\<forall>e \<in> set (sto_devices s). map_of (sto_accounts s) (de_account (snd e)) \<noteq> None)
     \<and> (\<forall>acc. length (DevicesByAccount acc s) \<le> MaxDevicesPerAccount)"

definition file_ok :: "store_file file_read \<Rightarrow> bool" where
  "file_ok f = (case f of Content fd \<Rightarrow> store_ok (load_store fd) | _ \<Rightarrow> True)"

definition store_inv :: "store \<Rightarrow> bool" where
  "store_inv s \<longleftrightarrow> store_ok s \<and> file_ok (sto_file s)"

definition same_store :: "store \<Rightarrow> store \<Rightarrow> bool" where
  "same_store s t \<longleftrightarrow> sto_accounts s = sto_accounts t \<and> sto_devices s = sto_devices t"

lemma store_ok_file [simp]: "store_ok (s\<lparr>sto_file := f\<rparr>) = store_ok s"
  by (simp add: store_ok_def DevicesByAccount_def)

lemma load_slices:
  "store_ok s \<Longrightarrow> load_store (accountsSlice s, devicesSlice s) =
     s\<lparr>sto_file := Content (accountsSlice s, devicesSlice s)\<rparr>"
  by (simp add: load_store_def accountsSlice_def devicesSlice_def index_by_keyed store_ok_def)

interpretation acct_file: file_store store_ok "\<lambda>s. (accountsSlice s, devicesSlice s)" load_store same_store
  by unfold_locales (auto simp: load_slices same_store_def)

lemma store_inv_save [inv_intros]:
  "store_ok s \<Longrightarrow> file_ok (sto_file s) \<Longrightarrow> store_inv (fst (save_store io s))"
  by (simp add: store_inv_def save_store_def save_file_def file_ok_def load_slices)

lemma save_store_mem [simp]:
  "sto_accounts (fst (save_store io s)) = sto_accounts s"
  "sto_devices (fst (save_store io s)) = sto_devices s"
  by (simp_all add: save_store_def)

lemma store_ok_account_put [inv_intros]:
  "store_ok s \<Longrightarrow> store_ok (s\<lparr>sto_accounts := put (ac_id a) a (sto_accounts s)\<rparr>)"
  by (auto simp: store_ok_def DevicesByAccount_def)

text \<open>Replacing a device by one of the same id and account keeps the invariant.\<close>

lemma store_ok_update [inv_intros]:
  assumes "store_ok s" and "map_of (sto_devices s) i = Some d" and "de_id d' = de_id d"
    and "de_account d' = de_account d"
  shows "store_ok (update_device i d' s)"
proof -
  have wf: "wf_map (sto_devices s)" and i: "de_id d = i"
    using assms(1,2) by (auto simp: store_ok_def intro: keyed_wf dest: keyed_Some)
  have "map_of (sto_accounts s) (de_account d) \<noteq> None"
    using assms(1,2) by (fastforce simp: store_ok_def dest: map_of_SomeD)
  moreover have "DevicesByAccount acc (update_device i d' s) = map snd
      (filter (\<lambda>e. de_account (snd e) = acc) (put i d' (sto_devices s)))" for acc
    by (simp add: DevicesByAccount_def update_device_def)
  moreover have "length (filter (\<lambda>e. de_account (snd e) = acc) (put i d' (sto_devices s))) =
      length (filter (\<lambda>e. de_account (snd e) = acc) (sto_devices s))" for acc
    using wf assms(2,4) by (intro count_put_same) auto
  ultimately show ?thesis
    using assms i wf by (auto simp: store_ok_def update_device_def set_put DevicesByAccount_def)
qed

lemma file_update [simp]: "sto_file (update_device i d s) = sto_file s"
  by (simp add: update_device_def)

lemma store_ok_add [inv_intros]:
  assumes "store_ok s" and "map_of (sto_accounts s) (de_account d) \<noteq> None"
    and "length (DevicesByAccount (de_account d) s) < MaxDevicesPerAccount"
  shows "store_ok (s\<lparr>sto_devices := put (de_id d) d (sto_devices s)\<rparr>)"
proof -
  have wf: "wf_map (sto_devices s)" using assms(1) by (auto simp: store_ok_def intro: keyed_wf)
  have "length (DevicesByAccount acc (s\<lparr>sto_devices := put (de_id d) d (sto_devices s)\<rparr>)) \<le> MaxDevicesPerAccount"
    for acc
  proof (cases "acc = de_account d")
    case True
    with assms(3) count_put_le [OF wf, of "\<lambda>e. de_account e = acc" "de_id d" d] show ?thesis
      by (simp add: DevicesByAccount_def)
  next
    case False
    then have "int (length (filter (\<lambda>e. de_account (snd e) = acc) (put (de_id d) d (sto_devices s))))
        \<le> int (length (filter (\<lambda>e. de_account (snd e) = acc) (sto_devices s)))"
      using count_put [OF wf, of "\<lambda>e. de_account e = acc" "de_id d" d]
      by (auto simp: of_bool_def split: option.splits if_splits)
    moreover have "length (DevicesByAccount acc s) \<le> MaxDevicesPerAccount"
      using assms(1) by (simp add: store_ok_def)
    ultimately show ?thesis by (simp add: DevicesByAccount_def)
  qed
  with assms(1,2) show ?thesis by (auto simp: store_ok_def set_put)
qed

lemma store_ok_filter [inv_intros]:
  "store_ok s \<Longrightarrow> store_ok (s\<lparr>sto_devices := filter P (sto_devices s)\<rparr>)"
proof -
  assume s: "store_ok s"
  have "length (filter (\<lambda>e. de_account (snd e) = acc) (filter P (sto_devices s))) \<le> MaxDevicesPerAccount"
    for acc
  proof -
    have "length (DevicesByAccount acc s) \<le> MaxDevicesPerAccount"
      using s by (simp add: store_ok_def)
    then show ?thesis
      using count_filter_le [of "\<lambda>e. de_account (snd e) = acc" P "sto_devices s"]
      by (simp add: DevicesByAccount_def del: filter_filter)
  qed
  with s show ?thesis
    by (auto simp: store_ok_def DevicesByAccount_def simp del: filter_filter)
qed

text \<open>Removing an account together with its devices keeps the invariant; a fresh account has none.\<close>

lemma store_ok_remove_account [inv_intros]:
  assumes "store_ok s"
  shows "store_ok (s\<lparr>sto_devices := filter (\<lambda>(k, d). de_account d \<noteq> acc) (sto_devices s),
     sto_accounts := del acc (sto_accounts s)\<rparr>)"
proof -
  let ?t = "s\<lparr>sto_devices := filter (\<lambda>(k, d). de_account d \<noteq> acc) (sto_devices s)\<rparr>"
  have "store_ok ?t" using assms by (rule store_ok_filter)
  then show ?thesis by (auto simp: store_ok_def DevicesByAccount_def)
qed

lemma no_devices_of_fresh:
  assumes "store_ok s" and "map_of (sto_accounts s) acc = None"
  shows "DevicesByAccount acc s = []"
  using assms by (fastforce simp: store_ok_def DevicesByAccount_def filter_empty_conv)

lemma store_inv_create:
  assumes s: "store_inv s" and fresh: "map_of (sto_accounts s) (''acc_'' @ randID (en_account en)) = None"
  shows "store_inv (fst (CreateAccountWithTier gen io en now name tier s))"
proof -
  have fin: "store_inv (fst (save_store io (s\<lparr>sto_accounts := put (ac_id a) a (sto_accounts s),
      sto_devices := put (de_id d) d (sto_devices s)\<rparr>)))"
    if "ac_id a = ''acc_'' @ randID (en_account en)" and "de_account d = ac_id a" for a d
  proof -
    let ?t = "s\<lparr>sto_accounts := put (ac_id a) a (sto_accounts s)\<rparr>"
    have "DevicesByAccount (ac_id a) ?t = []"
      using no_devices_of_fresh [of s "ac_id a"] s fresh that(1)
      by (simp add: store_inv_def DevicesByAccount_def)
    then have "store_ok (?t\<lparr>sto_devices := put (de_id d) d (sto_devices ?t)\<rparr>)"
      using s that(2) by (intro store_ok_add store_ok_account_put)
        (simp_all add: store_inv_def MaxDevicesPerAccount_def)
    with s show ?thesis
      by (intro store_inv_save) (simp_all add: store_inv_def)
  qed
  show ?thesis
  proof (cases "NewToken (en_token en)")
    case None
    with s show ?thesis by (simp add: CreateAccountWithTier_def)
  next
    case token: (Some token)
    show ?thesis
    proof (cases "HashToken gen token")
      case None
      with s token show ?thesis by (simp add: CreateAccountWithTier_def)
    next
      case (Some h)
      with token show ?thesis
        using fin [of "\<lparr>ac_id = ''acc_'' @ randID (en_account en), ac_name = name, ac_tier = tier,
            ac_created = now\<rparr>" "new_device (''dev_'' @ randID (en_device en))
            (''acc_'' @ randID (en_account en)) ''main'' h now"]
        by (simp add: CreateAccountWithTier_def Let_def new_device_def)
    qed
  qed
qed

lemma store_inv_add_device:
  assumes "store_inv s"
  shows "store_inv (fst (AddDeviceForAccount gen io en now acc name s))"
proof (cases "add_device_check acc s")
  case (Some e)
  with assms show ?thesis by (simp add: AddDeviceForAccount_def Let_def)
next
  case None
  then have "store_inv (fst (AddDevice io (new_device i acc n h now) s))" for i n h
    using assms unfolding AddDevice_def
    by (intro store_inv_save store_ok_add)
      (auto simp: store_inv_def add_device_check_def get_account_def new_device_def split: option.splits if_splits)
  with None assms show ?thesis
    by (simp add: AddDeviceForAccount_def add_device_commit_def Let_def split: option.split)
qed

lemma store_inv_update:
  "store_inv s \<Longrightarrow> map_of (sto_devices s) i = Some d \<Longrightarrow> de_id d' = de_id d \<Longrightarrow>
     de_account d' = de_account d \<Longrightarrow> store_inv (update_device i d' s)"
  by (simp add: store_inv_def store_ok_update)

lemma store_inv_update_save:
  "store_inv s \<Longrightarrow> map_of (sto_devices s) i = Some d \<Longrightarrow> de_id d' = de_id d \<Longrightarrow>
     de_account d' = de_account d \<Longrightarrow> store_inv (fst (save_store io (update_device i d' s)))"
  by (intro store_inv_save) (simp_all add: store_inv_def store_ok_update)

lemma get_device_Inr [simp]: "get_device i s = Inr d \<longleftrightarrow> map_of (sto_devices s) i = Some d"
  by (simp add: get_device_def split: option.splits)

lemma get_account_Inr [simp]: "get_account i s = Inr a \<longleftrightarrow> map_of (sto_accounts s) i = Some a"
  by (simp add: get_account_def split: option.splits)

lemma store_ok_tier:
  assumes "store_ok s" and "map_of (sto_accounts s) acc = Some a"
  shows "store_ok (s\<lparr>sto_accounts := put acc (a\<lparr>ac_tier := tier\<rparr>) (sto_accounts s)\<rparr>)"
proof -
  have "ac_id a = acc" using assms by (auto simp: store_ok_def dest: keyed_Some)
  then show ?thesis
    using store_ok_account_put [OF assms(1), of "a\<lparr>ac_tier := tier\<rparr>"] by simp
qed

text \<open>The operations the servers call, and a restart, as the steps of a transition system.\<close>

inductive store_step :: "bcrypt_gen \<Rightarrow> store \<Rightarrow> store \<Rightarrow> bool" for gen where
  step_create: "map_of (sto_accounts s) (''acc_'' @ randID (en_account en)) = None \<Longrightarrow>
    store_step gen s (fst (CreateAccountWithTier gen io en now name tier s))"
| step_add_device: "store_step gen s (fst (AddDeviceForAccount gen io en now acc name s))"
| step_tier: "store_step gen s (fst (SetAccountTier io acc tier s))"
| step_remove_account: "store_step gen s (fst (RemoveAccount io acc s))"
| step_remove_device: "store_step gen s (fst (RemoveDevice io i s))"
| step_egress: "store_step gen s (fst (SetDeviceEgress io i enabled acl s))"
| step_seen: "store_step gen s (MarkSeen now i s)"
| step_rename: "store_step gen s (fst (RenameDevice io i name s))"
| step_rotate: "store_step gen s (fst (RotateToken gen io r i s))"
| step_restart: "OpenStore ok (sto_file s) = Inr t \<Longrightarrow> store_step gen s t"

lemma store_inv_empty [simp]: "store_inv empty_store"
  by (simp add: store_inv_def store_ok_def empty_store_def file_ok_def DevicesByAccount_def)

lemma store_inv_step: "store_step gen s t \<Longrightarrow> store_inv s \<Longrightarrow> store_inv t"
proof (induction rule: store_step.induct)
  case (step_create s en io now name tier)
  then show ?case by (rule store_inv_create [rotated])
next
  case (step_tier s io acc tier)
  then show ?case
    by (auto simp: SetAccountTier_def store_inv_def split: option.splits
        intro!: store_inv_save [unfolded store_inv_def] store_ok_tier)
next
  case (step_restart ok s t)
  then show ?case
    using store_inv_empty
    by (auto simp: OpenStore_def store_inv_def file_ok_def load_store_def split: if_splits file_read.splits)
next
  case (step_remove_device s io i)
  then show ?case
    using store_ok_filter [of s "\<lambda>e. fst e \<noteq> i"]
    by (auto simp: RemoveDevice_def del_filter store_inv_def split: option.splits
        intro!: store_inv_save [unfolded store_inv_def])
next
  case (step_remove_account s io acc)
  then show ?case
    unfolding RemoveAccount_def by (intro store_inv_save store_ok_remove_account) (simp_all add: store_inv_def)
qed (auto simp: SetDeviceEgress_def MarkSeen_def RenameDevice_def RotateToken_def Let_def store_inv_add_device
    split: option.split sum.split intro!: store_inv_update_save store_inv_update)

interpretation acct_sys: transition_system "(=) empty_store" "store_step gen" store_inv for gen
  by unfold_locales (auto intro: store_inv_step)

inductive_cases store_stepE: "store_step gen s t"

text \<open>
  Whatever sequence of account operations, failed saves and restarts the server goes
  through, every device record belongs to an existing account and is filed under its own id,
  no account has more than 16 devices, and a restart at any moment loads a store with the same
  guarantees (account ids are assumed fresh when they are drawn).
\<close>

theorem store_reachable_ok:
  assumes "reach ((=) empty_store) (store_step gen) s"
  shows "(\<forall>d \<in> set (ListDevicesAll s). \<exists>a. get_account (de_account d) s = Inr a \<and> ac_id a = de_account d
      \<and> get_device (de_id d) s = Inr d)
    \<and> (\<forall>acc. length (DevicesByAccount acc s) \<le> 16)
    \<and> (\<forall>t. OpenStore True (sto_file s) = Inr t \<longrightarrow> store_ok t)"
proof -
  have inv: "store_inv s" using assms by (rule acct_sys.reach_inv)
  then have ok: "store_ok s" and disk: "file_ok (sto_file s)" by (simp_all add: store_inv_def)
  have "\<exists>a. get_account (de_account d) s = Inr a \<and> ac_id a = de_account d \<and> get_device (de_id d) s = Inr d"
    if d: "d \<in> set (ListDevicesAll s)" for d
  proof -
    obtain k where k: "(k, d) \<in> set (sto_devices s)"
      using d by (auto simp: ListDevicesAll_def devicesSlice_def)
    then have "de_id d = k" and "map_of (sto_accounts s) (de_account d) \<noteq> None"
      using ok by (fastforce simp: store_ok_def keyed_def)+
    moreover have "map_of (sto_devices s) k = Some d"
      using ok k by (auto simp: store_ok_def keyed_def wf_map_Some_iff)
    ultimately show ?thesis using ok by (auto simp: store_ok_def dest: keyed_Some)
  qed
  moreover have "store_ok t" if "OpenStore True (sto_file s) = Inr t" for t
    using that disk store_inv_empty
    by (auto simp: OpenStore_def file_ok_def store_inv_def split: file_read.splits)
  ultimately show ?thesis
    using ok by (simp add: store_ok_def MaxDevicesPerAccount_def)
qed

definition sample_entropy :: entropy where
  "sample_entropy = \<lparr>en_account = Some [1], en_device = Some [2], en_token = Some [171]\<rparr>"

definition sample_store :: store where
  "sample_store = fst (CreateAccountWithTier toy_gen True sample_entropy 5 ''bob'' ''free'' empty_store)"

lemma sample_store_eq:
  "sample_store = \<lparr>
     sto_accounts = [(''acc_01'', \<lparr>ac_id = ''acc_01'', ac_name = ''bob'', ac_tier = ''free'', ac_created = 5\<rparr>)],
     sto_devices = [(''dev_02'', new_device ''dev_02'' ''acc_01'' ''main'' ''$2a$04$ab'' 5)],
     sto_file = Content ([\<lparr>ac_id = ''acc_01'', ac_name = ''bob'', ac_tier = ''free'', ac_created = 5\<rparr>],
       [new_device ''dev_02'' ''acc_01'' ''main'' ''$2a$04$ab'' 5])\<rparr>"
  by (simp add: sample_store_def CreateAccountWithTier_def sample_entropy_def randID_def NewToken_def
      HashToken_def toy_gen_def empty_store_def save_store_def save_file_def accountsSlice_def
      devicesSlice_def hex_encode_def hexd_def Let_def char_of_def new_device_def bit_0)

lemma sample_store_ok: "store_ok sample_store"
proof -
  have "store_inv sample_store"
    unfolding sample_store_def by (rule store_inv_create) (simp_all add: empty_store_def store_inv_empty [unfolded empty_store_def])
  then show ?thesis by (simp add: store_inv_def)
qed

lemma store_reachable_ok_witness:
  "length (DevicesByAccount ''acc_01'' sample_store) \<le> 16 \<and> (\<exists>t. OpenStore True (sto_file sample_store) = Inr t \<and> store_ok t)"
proof -
  have "reach ((=) empty_store) (store_step toy_gen) sample_store"
    unfolding sample_store_def
    by (rule reach_step [OF reach_init], rule refl, rule step_create) (simp add: empty_store_def)
  note ok = store_reachable_ok [OF this]
  have "\<exists>t. OpenStore True (sto_file sample_store) = Inr t"
    by (simp add: sample_store_eq OpenStore_def)
  with ok show ?thesis by blast
qed

text \<open>
  Authentication of a device succeeds for exactly the tokens that match the hash of a
  registered device whose account exists, and gives that device and that account; an unknown
  device and a wrong token are answered alike.
\<close>

theorem VerifyDevice_sound:
  "(VerifyDevice cmp i token s = Inr (d, a) \<longleftrightarrow>
      get_device i s = Inr d \<and> cmp (de_token_hash d) token \<and> get_account (de_account d) s = Inr a)
   \<and> (VerifyDevice cmp i token s = Inl ErrBadToken \<longleftrightarrow>
      (\<forall>d. get_device i s = Inr d \<longrightarrow> \<not> cmp (de_token_hash d) token))"
  by (auto simp: VerifyDevice_def VerifyToken_def get_device_def get_account_def
      split: sum.splits option.splits if_splits)

text \<open>What a restart makes of the store.\<close>

definition restart :: "store \<Rightarrow> store" where
  "restart s = (case OpenStore True (sto_file s) of Inr t \<Rightarrow> t | Inl _ \<Rightarrow> empty_store)"

lemma restart_saved:
  "store_ok s \<Longrightarrow> same_store (restart (fst (save_store True s))) s"
  by (simp add: restart_def OpenStore_def save_store_def save_file_def load_slices same_store_def)

lemma VerifyDevice_same: "same_store s t \<Longrightarrow> VerifyDevice cmp i token s = VerifyDevice cmp i token t"
  by (simp add: VerifyDevice_def get_device_def get_account_def same_store_def split: option.split)

lemma VerifyDevice_gone: "map_of (sto_devices s) i = None \<Longrightarrow> VerifyDevice cmp i token s = Inl ErrBadToken"
  by (simp add: VerifyDevice_def get_device_def)

text \<open>
  After \<^verbatim>\<open>RemoveDevice\<close> no token authenticates the device any more, and all other devices
  authenticate as before; this holds even when writing the file fails. When the call reports
  success, a restart does not bring the device back either.
\<close>

theorem RemoveDevice_revokes:
  assumes "store_ok s"
  shows "VerifyDevice cmp i token (fst (RemoveDevice io i s)) = Inl ErrBadToken
    \<and> (j \<noteq> i \<longrightarrow> VerifyDevice cmp j token (fst (RemoveDevice io i s)) = VerifyDevice cmp j token s)
    \<and> (snd (RemoveDevice io i s) = None \<longrightarrow>
         VerifyDevice cmp i token (restart (fst (RemoveDevice io i s))) = Inl ErrBadToken)"
proof (cases "map_of (sto_devices s) i")
  case None
  then show ?thesis by (simp add: RemoveDevice_def VerifyDevice_gone)
next
  case (Some d)
  let ?t = "s\<lparr>sto_devices := del i (sto_devices s)\<rparr>"
  have "store_ok ?t" using assms store_ok_filter by (simp add: del_filter)
  then have "VerifyDevice cmp i token (restart (fst (save_store True ?t))) = Inl ErrBadToken"
    using VerifyDevice_same [OF restart_saved] by (simp add: VerifyDevice_gone)
  moreover have "VerifyDevice cmp j token (fst (save_store io ?t)) = VerifyDevice cmp j token s" if "j \<noteq> i"
    using that by (simp add: VerifyDevice_def get_device_def get_account_def split: option.split)
  ultimately show ?thesis
    using Some by (cases io) (simp_all add: RemoveDevice_def VerifyDevice_gone save_store_def)
qed

lemma RemoveDevice_revokes_witness:
  "VerifyDevice toy_cmp ''dev_02'' ''ab'' sample_store \<noteq> Inl ErrBadToken \<and>
   (VerifyDevice toy_cmp ''dev_02'' ''ab'' (fst (RemoveDevice True ''dev_02'' sample_store)) = Inl ErrBadToken
    \<and> (''x'' \<noteq> ''dev_02'' \<longrightarrow> VerifyDevice toy_cmp ''x'' ''ab'' (fst (RemoveDevice True ''dev_02'' sample_store))
        = VerifyDevice toy_cmp ''x'' ''ab'' sample_store)
    \<and> (snd (RemoveDevice True ''dev_02'' sample_store) = None \<longrightarrow>
        VerifyDevice toy_cmp ''dev_02'' ''ab'' (restart (fst (RemoveDevice True ''dev_02'' sample_store)))
          = Inl ErrBadToken))"
proof
  show "VerifyDevice toy_cmp ''dev_02'' ''ab'' sample_store \<noteq> Inl ErrBadToken"
    by (simp add: sample_store_eq VerifyDevice_def get_device_def get_account_def VerifyToken_def
        toy_cmp_def new_device_def)
  show "VerifyDevice toy_cmp ''dev_02'' ''ab'' (fst (RemoveDevice True ''dev_02'' sample_store)) = Inl ErrBadToken
    \<and> (''x'' \<noteq> ''dev_02'' \<longrightarrow> VerifyDevice toy_cmp ''x'' ''ab'' (fst (RemoveDevice True ''dev_02'' sample_store))
        = VerifyDevice toy_cmp ''x'' ''ab'' sample_store)
    \<and> (snd (RemoveDevice True ''dev_02'' sample_store) = None \<longrightarrow>
        VerifyDevice toy_cmp ''dev_02'' ''ab'' (restart (fst (RemoveDevice True ''dev_02'' sample_store)))
          = Inl ErrBadToken)"
    by (rule RemoveDevice_revokes [OF sample_store_ok])
qed

text \<open>
  After \<^verbatim>\<open>RotateToken\<close> the new token authenticates the device and every other token (old
  ones included) is rejected, in the running server and after a restart, given that bcrypt
  does what it documents for tokens of at most 72 bytes.
\<close>

theorem RotateToken_replaces:
  assumes "bcrypt_ok gen cmp" and "store_ok s" and "length r \<le> 36"
    and "RotateToken gen io (Some r) i s = (t, Inr token)"
    and "get_device i s = Inr d" and "get_account (de_account d) s = Inr a"
  shows "(\<exists>d'. VerifyDevice cmp i token t = Inr (d', a) \<and> de_id d' = de_id d)
    \<and> (\<forall>old. length old \<le> 72 \<longrightarrow> old \<noteq> token \<longrightarrow>
         VerifyDevice cmp i old t = Inl ErrBadToken \<and> VerifyDevice cmp i old (restart t) = Inl ErrBadToken)"
proof -
  obtain h where h: "gen token = Some h" and token: "token = hex_encode r" and io
    and t: "t = fst (save_store True (update_device i (d\<lparr>de_token_hash := h\<rparr>) s))"
    using assms(4) unfolding RotateToken_def assms(5)
    by (auto simp: NewToken_def HashToken_def save_store_def Let_def split: option.splits if_splits)
  let ?u = "update_device i (d\<lparr>de_token_hash := h\<rparr>) s"
  have ok: "store_ok ?u" using assms(2,5) by (intro store_ok_update) simp_all
  have new: "length q \<le> 72 \<Longrightarrow> cmp h q = (q = token)" for q
    using assms(1) h by (auto simp: bcrypt_ok_def)
  have verify: "VerifyDevice cmp i q t = (if cmp h q then Inr (d\<lparr>de_token_hash := h\<rparr>, a) else Inl ErrBadToken)" for q
    using assms(6) by (simp add: t VerifyDevice_def get_device_def get_account_def VerifyToken_def
        update_device_def split: option.splits)
  moreover have "same_store (restart t) ?u"
    unfolding t using ok by (rule restart_saved)
  then have "VerifyDevice cmp i q (restart t) = VerifyDevice cmp i q t" for q
    by (simp add: t VerifyDevice_same [of "restart _" ?u] VerifyDevice_same [of "fst (save_store _ _)" ?u]
        same_store_def)
  ultimately show ?thesis
    using assms(3) by (simp add: new token)
qed

lemma RotateToken_replaces_witness:
  "(\<exists>d'. VerifyDevice toy_cmp ''dev_02'' ''07'' (fst (RotateToken toy_gen True (Some [7]) ''dev_02'' sample_store))
        = Inr (d', snd (hd (sto_accounts sample_store))) \<and> de_id d' = de_id (snd (hd (sto_devices sample_store))))
    \<and> VerifyDevice toy_cmp ''dev_02'' ''06'' (restart (fst (RotateToken toy_gen True (Some [7]) ''dev_02'' sample_store))) = Inl ErrBadToken"
proof -
  note new = RotateToken_replaces [OF toy_bcrypt_ok sample_store_ok]
  have "length [7 :: byte] \<le> 36" by simp
  moreover have "RotateToken toy_gen True (Some [7]) ''dev_02'' sample_store = ((fst (RotateToken toy_gen True (Some [7]) ''dev_02'' sample_store)), Inr ''07'')"
    by (simp add: sample_store_eq RotateToken_def NewToken_def HashToken_def toy_gen_def hex_encode_def
        hexd_def char_of_def bit_0 get_device_def save_store_def)
  moreover have "get_device ''dev_02'' sample_store = Inr (snd (hd (sto_devices sample_store)))"
    by (simp add: sample_store_eq get_device_def)
  moreover have "get_account (de_account (snd (hd (sto_devices sample_store)))) sample_store = Inr (snd (hd (sto_accounts sample_store)))"
    by (simp add: sample_store_eq get_account_def new_device_def)
  ultimately have "(\<exists>d'. VerifyDevice toy_cmp ''dev_02'' ''07'' (fst (RotateToken toy_gen True (Some [7]) ''dev_02'' sample_store)) = Inr (d', snd (hd (sto_accounts sample_store)))
      \<and> de_id d' = de_id (snd (hd (sto_devices sample_store))))
    \<and> (\<forall>old. length old \<le> 72 \<longrightarrow> old \<noteq> ''07'' \<longrightarrow> VerifyDevice toy_cmp ''dev_02'' old (fst (RotateToken toy_gen True (Some [7]) ''dev_02'' sample_store)) = Inl ErrBadToken
         \<and> VerifyDevice toy_cmp ''dev_02'' old (restart (fst (RotateToken toy_gen True (Some [7]) ''dev_02'' sample_store))) = Inl ErrBadToken)"
    by (rule new)
  then show ?thesis by simp
qed

subsection \<open>Two concurrent additions\<close>

lemma commit_devices:
  assumes "NewToken (en_token en) = Some tok" and "gen tok = Some h"
    and "map_of (sto_devices s) (''dev_'' @ randID (en_device en)) = None" and "wf_map (sto_devices s)"
  shows "length (DevicesByAccount acc (fst (add_device_commit gen io en now acc name s)))
      = Suc (length (DevicesByAccount acc s))"
    and "sto_devices (fst (add_device_commit gen io en now acc name s)) =
      put (''dev_'' @ randID (en_device en))
        (new_device (''dev_'' @ randID (en_device en)) acc name h now) (sto_devices s)"
    and "sto_accounts (fst (add_device_commit gen io en now acc name s)) = sto_accounts s"
proof -
  let ?d = "new_device (''dev_'' @ randID (en_device en)) acc name h now"
  have eq: "fst (add_device_commit gen io en now acc name s) = fst (AddDevice io ?d s)"
    using assms(1,2) by (simp add: add_device_commit_def HashToken_def Let_def)
  then show "sto_devices (fst (add_device_commit gen io en now acc name s)) =
      put (''dev_'' @ randID (en_device en)) ?d (sto_devices s)"
    and "sto_accounts (fst (add_device_commit gen io en now acc name s)) = sto_accounts s"
    by (simp_all add: AddDevice_def new_device_def)
  then show "length (DevicesByAccount acc (fst (add_device_commit gen io en now acc name s)))
      = Suc (length (DevicesByAccount acc s))"
    using count_put [OF assms(4), of "\<lambda>d. de_account d = acc" "''dev_'' @ randID (en_device en)" ?d] assms(3)
    by (simp add: DevicesByAccount_def new_device_def)
qed

text \<open>
  The device limit is checked before the lock of the insertion is taken. Two requests that
  both look at an account with 15 devices before either inserts leave it with 17, although
  the second one would be refused if it ran after the first.
\<close>

theorem device_limit_race:
  assumes "map_of (sto_accounts s) acc = Some a" and "length (DevicesByAccount acc s) = 15"
    and "wf_map (sto_devices s)"
    and "NewToken (en_token en1) = Some tok1" and "gen tok1 = Some h1"
    and "NewToken (en_token en2) = Some tok2" and "gen tok2 = Some h2"
    and "map_of (sto_devices s) (''dev_'' @ randID (en_device en1)) = None"
    and "map_of (sto_devices s) (''dev_'' @ randID (en_device en2)) = None"
    and "randID (en_device en1) \<noteq> randID (en_device en2)"
  shows "add_device_check acc s = None \<and>
    (let t1 = fst (add_device_commit gen io en1 now acc name s);
         t2 = fst (add_device_commit gen io en2 now acc name t1)
     in length (DevicesByAccount acc t1) = 16 \<and> length (DevicesByAccount acc t2) = 17 \<and>
        snd (AddDeviceForAccount gen io en2 now acc name t1) = Inl ErrDeviceLimit)"
proof -
  let ?t1 = "fst (add_device_commit gen io en1 now acc name s)"
  note one = commit_devices [where gen = gen and acc = acc and io = io and now = now and name = name, OF assms(4,5,8,3)]
  have "map_of (sto_devices ?t1) (''dev_'' @ randID (en_device en2)) = None" and "wf_map (sto_devices ?t1)"
    using assms(3,9,10) by (auto simp: one(2))
  note two = commit_devices(1) [where gen = gen and acc = acc and io = io and now = now and name = name, OF assms(6,7) this]
  have "length (DevicesByAccount acc ?t1) = 16" using one(1) assms(2) by simp
  moreover from this have "add_device_check acc ?t1 = Some ErrDeviceLimit"
    using assms(1) one(3) by (simp add: add_device_check_def get_account_def MaxDevicesPerAccount_def)
  moreover have "add_device_check acc s = None"
    using assms(1,2) by (simp add: add_device_check_def get_account_def MaxDevicesPerAccount_def)
  ultimately show ?thesis
    using two by (simp add: Let_def AddDeviceForAccount_def)
qed

definition crowded_store :: store where
  "crowded_store = \<lparr>
     sto_accounts = [(''acc'', \<lparr>ac_id = ''acc'', ac_name = ''bob'', ac_tier = ''free'', ac_created = 5\<rparr>)],
     sto_devices = map (\<lambda>n. (replicate n CHR ''d'', new_device (replicate n CHR ''d'') ''acc'' ''x'' ''h'' 5)) [0..<15],
     sto_file = Absent\<rparr>"

lemma device_limit_race_witness:
  "add_device_check ''acc'' crowded_store = None \<and>
    (let t1 = fst (add_device_commit toy_gen True (sample_entropy\<lparr>en_device := Some [3]\<rparr>) 7 ''acc'' ''n'' crowded_store);
         t2 = fst (add_device_commit toy_gen True (sample_entropy\<lparr>en_device := Some [4]\<rparr>) 7 ''acc'' ''n'' t1)
     in length (DevicesByAccount ''acc'' t1) = 16 \<and> length (DevicesByAccount ''acc'' t2) = 17 \<and>
        snd (AddDeviceForAccount toy_gen True (sample_entropy\<lparr>en_device := Some [4]\<rparr>) 7 ''acc'' ''n'' t1)
          = Inl ErrDeviceLimit)"
proof (rule device_limit_race [where ?h1.0 = "''$2a$04$ab''" and ?h2.0 = "''$2a$04$ab''"])
  show "map_of (sto_accounts crowded_store) ''acc'' =
      Some \<lparr>ac_id = ''acc'', ac_name = ''bob'', ac_tier = ''free'', ac_created = 5\<rparr>"
    and "wf_map (sto_devices crowded_store)"
    by (simp_all add: crowded_store_def wf_map_def comp_def distinct_map inj_on_def)
  show "length (DevicesByAccount ''acc'' crowded_store) = 15"
    by (simp add: crowded_store_def DevicesByAccount_def filter_map comp_def new_device_def)
  have no: "map_of (sto_devices crowded_store) (''dev_'' @ x) = None" for x
    by (auto simp: crowded_store_def map_of_eq_None_iff Cons_replicate_eq)
  then show "map_of (sto_devices crowded_store) (''dev_'' @ randID (en_device (sample_entropy\<lparr>en_device := Some [3]\<rparr>))) = None"
    and "map_of (sto_devices crowded_store) (''dev_'' @ randID (en_device (sample_entropy\<lparr>en_device := Some [4]\<rparr>))) = None"
    by blast+
qed (simp_all add: sample_entropy_def NewToken_def toy_gen_def randID_def hex_encode_def hexd_def char_of_def bit_0,
    simp_all)

end
