(* ===== verification/Invites.thy ===== *)
theory Invites
  imports Orbit_Prelude
begin

text \<open>
  Invite codes: \<^verbatim>\<open>internal/account/invite.go\<close>. The store is the map of the Go struct and the content
  of its file; \<open>io\<close> says whether the file can be written, \<open>rnd i\<close> is what \<^verbatim>\<open>crypto/rand\<close> gives
  for the \<open>i\<close>-th code (\<open>None\<close>: an error).
\<close>

record invite =
  iv_code :: string
  iv_account :: string
  iv_created :: time

record invite_store =
  is_codes :: "(string, invite) gomap"
  is_file :: "invite list file_read"

datatype invite_error =
    ErrInviteInvalid
  | ErrInviteUsed
  | ErrInviteNotFound
  | ErrInviteConsumed
  | ErrInviteSave
  | ErrInviteOpen

definition load_invites :: "invite list \<Rightarrow> invite_store" where
  "load_invites cs = \<lparr>is_codes = index_by iv_code cs, is_file = Content cs\<rparr>"

definition OpenInvites :: "bool \<Rightarrow> invite list file_read \<Rightarrow> invite_error + invite_store" where
  "OpenInvites mkdir_ok raw =
     (if \<not> mkdir_ok then Inl ErrInviteOpen
      else case raw of
          Content cs \<Rightarrow> Inr (load_invites cs)
        | Malformed \<Rightarrow> Inl ErrInviteOpen
        | Absent \<Rightarrow> Inr \<lparr>is_codes = [], is_file = Absent\<rparr>
        | ReadError \<Rightarrow> Inl ErrInviteOpen)"

definition save_invites :: "bool \<Rightarrow> invite_store \<Rightarrow> invite_store \<times> invite_error option" where
  "save_invites io s =
     (s\<lparr>is_file := save_file io (map snd (is_codes s)) (is_file s)\<rparr>, if io then None else Some ErrInviteSave)"

definition invite_alphabet :: string where
  "invite_alphabet = ''ABCDEFGHJKLMNPQRSTUVWXYZ23456789''"

definition randInviteCode :: "bytes option \<Rightarrow> string" where
  "randInviteCode r =
     (case r of
        None \<Rightarrow> ''FALLBACK''
      | Some b \<Rightarrow> map (\<lambda>x. invite_alphabet ! (unat x mod length invite_alphabet)) b)"

fun generate_loop :: "(nat \<Rightarrow> bytes option) \<Rightarrow> time \<Rightarrow> nat list \<Rightarrow> (string, invite) gomap \<times> string list
    \<Rightarrow> (string, invite) gomap \<times> string list" where
  "generate_loop rnd now [] acc = acc"
| "generate_loop rnd now (i # is) (m, out) =
     (let code = randInviteCode (rnd i)
      in generate_loop rnd now is
           (put code \<lparr>iv_code = code, iv_account = [], iv_created = now\<rparr> m, out @ [code]))"

definition Generate :: "bool \<Rightarrow> int \<Rightarrow> (nat \<Rightarrow> bytes option) \<Rightarrow> time \<Rightarrow> invite_store
    \<Rightarrow> invite_store \<times> (invite_error + string list)" where
  "Generate io n rnd now s =
     (let (m, out) = generate_loop rnd now [0..<nat n] (is_codes s, []);
          (s1, err) = save_invites io (s\<lparr>is_codes := m\<rparr>)
      in (case err of Some e \<Rightarrow> (s1, Inl e) | None \<Rightarrow> (s1, Inr out)))"

definition Consume :: "bool \<Rightarrow> string \<Rightarrow> string \<Rightarrow> invite_store \<Rightarrow> invite_store \<times> invite_error option" where
  "Consume io code acc s =
     (case map_of (is_codes s) code of
        None \<Rightarrow> (s, Some ErrInviteInvalid)
      | Some c \<Rightarrow>
          (if iv_account c \<noteq> [] then (s, Some ErrInviteUsed)
           else save_invites io (s\<lparr>is_codes := put code (c\<lparr>iv_account := acc\<rparr>) (is_codes s)\<rparr>)))"

definition ListInvites :: "invite_store \<Rightarrow> invite list" where
  "ListInvites s = map snd (is_codes s)"

definition RemoveInvite :: "bool \<Rightarrow> string \<Rightarrow> invite_store \<Rightarrow> invite_store \<times> invite_error option" where
  "RemoveInvite io code s =
     (case map_of (is_codes s) code of
        None \<Rightarrow> (s, Some ErrInviteNotFound)
      | Some c \<Rightarrow>
          (if iv_account c \<noteq> [] then (s, Some ErrInviteConsumed)
           else save_invites io (s\<lparr>is_codes := del code (is_codes s)\<rparr>)))"

subsection \<open>Lemmas\<close>

abbreviation invites_ok :: "invite_store \<Rightarrow> bool" where
  "invites_ok s \<equiv> keyed iv_code (is_codes s)"

definition same_invites :: "invite_store \<Rightarrow> invite_store \<Rightarrow> bool" where
  "same_invites s t \<longleftrightarrow> is_codes s = is_codes t"

interpretation invite_file: file_store invites_ok "\<lambda>s. map snd (is_codes s)" load_invites same_invites
  by unfold_locales (auto simp: load_invites_def same_invites_def index_by_keyed keyed_index_by)

lemma save_invites_codes [simp]: "is_codes (fst (save_invites io s)) = is_codes s"
  by (simp add: save_invites_def)

lemma generate_loop_keyed: "keyed iv_code m \<Longrightarrow> keyed iv_code (fst (generate_loop rnd now is (m, out)))"
  by (induction "is" arbitrary: m out) (simp_all add: Let_def)

lemma generate_loop_other:
  "\<forall>i \<in> set is. randInviteCode (rnd i) \<noteq> c \<Longrightarrow>
     map_of (fst (generate_loop rnd now is (m, out))) c = map_of m c"
  by (induction "is" arbitrary: m out) (auto simp: Let_def)

lemma generate_loop_out:
  "snd (generate_loop rnd now is (m, out)) = out @ map (\<lambda>i. randInviteCode (rnd i)) is"
  by (induction "is" arbitrary: m out) (simp_all add: Let_def)

lemma generate_loop_new:
  "c \<in> set (map (\<lambda>i. randInviteCode (rnd i)) is) \<Longrightarrow>
     map_of (fst (generate_loop rnd now is (m, out))) c = Some \<lparr>iv_code = c, iv_account = [], iv_created = now\<rparr>"
proof (induction "is" arbitrary: m out)
  case Nil
  then show ?case by simp
next
  case (Cons i js)
  show ?case
  proof (cases "c \<in> set (map (\<lambda>i. randInviteCode (rnd i)) js)")
    case True
    then show ?thesis by (simp add: Let_def Cons.IH)
  next
    case False
    then have "\<forall>i \<in> set js. randInviteCode (rnd i) \<noteq> c" by auto
    with Cons.prems False show ?thesis by (simp add: Let_def generate_loop_other)
  qed
qed

lemma fst_Generate:
  "fst (Generate io n rnd now s) =
     fst (save_invites io (s\<lparr>is_codes := fst (generate_loop rnd now [0..<nat n] (is_codes s, []))\<rparr>))"
  by (simp add: Generate_def split: prod.split)

text \<open>The operations of the server, a restart included.\<close>

inductive invite_step :: "invite_store \<Rightarrow> invite_store \<Rightarrow> bool" where
  iv_generate: "\<forall>i < nat n. randInviteCode (rnd i) \<notin> fst ` set (is_codes s) \<Longrightarrow>
    invite_step s (fst (Generate io n rnd now s))"
| iv_consume: "invite_step s (fst (Consume io code acc s))"
| iv_remove: "invite_step s (fst (RemoveInvite io code s))"
| iv_restart: "OpenInvites ok (is_file s) = Inr t \<Longrightarrow> invite_step s t"

text \<open>A code that is bound to an account, in memory and in the file.\<close>

definition bound :: "string \<Rightarrow> string \<Rightarrow> invite_store \<Rightarrow> bool" where
  "bound code acc s \<longleftrightarrow> invites_ok s
     \<and> (\<exists>iv. map_of (is_codes s) code = Some iv \<and> iv_account iv = acc)
     \<and> (\<exists>cs iv. is_file s = Content cs \<and> map_of (index_by iv_code cs) code = Some iv \<and> iv_account iv = acc)"

lemma bound_save:
  assumes "keyed iv_code m" and "map_of m code = Some iv" and "iv_account iv = acc" and "bound code acc s"
  shows "bound code acc (fst (save_invites io (s\<lparr>is_codes := m\<rparr>)))"
  using assms by (auto simp: bound_def save_invites_def save_file_def index_by_keyed)

lemma bound_step:
  assumes "acc \<noteq> []"
  shows "invite_step s t \<Longrightarrow> bound code acc s \<Longrightarrow> bound code acc t"
proof (induction rule: invite_step.induct)
  case (iv_generate n rnd s io now)
  then obtain iv where iv: "map_of (is_codes s) code = Some iv" "iv_account iv = acc" "invites_ok s"
    by (auto simp: bound_def)
  then have "code \<in> fst ` set (is_codes s)" by (metis domI dom_map_of_conv_image_fst)
  with iv_generate.hyps have "\<forall>i \<in> set [0..<nat n]. randInviteCode (rnd i) \<noteq> code" by auto
  with iv iv_generate.prems show ?case
    unfolding fst_Generate by (intro bound_save) (auto simp: generate_loop_other generate_loop_keyed)
next
  case (iv_restart ok s t)
  then show ?case
    by (auto simp: OpenInvites_def bound_def load_invites_def keyed_index_by split: if_splits file_read.splits)
next
  case (iv_consume s io c a)
  obtain iv where iv: "map_of (is_codes s) code = Some iv" "iv_account iv = acc" "invites_ok s"
    using iv_consume.prems by (auto simp: bound_def)
  show ?case
  proof (cases "map_of (is_codes s) c")
    case None
    with iv_consume.prems show ?thesis by (simp add: Consume_def)
  next
    case (Some x)
    have "iv_account x = [] \<Longrightarrow> c \<noteq> code" using iv Some assms by auto
    moreover have "iv_code x = c" using iv(3) Some by (rule keyed_Some)
    ultimately show ?thesis
      using Some iv iv_consume.prems by (auto simp: Consume_def intro: bound_save)
  qed
next
  case (iv_remove s io c)
  obtain iv where iv: "map_of (is_codes s) code = Some iv" "iv_account iv = acc" "invites_ok s"
    using iv_remove.prems by (auto simp: bound_def)
  show ?case
  proof (cases "map_of (is_codes s) c")
    case None
    with iv_remove.prems show ?thesis by (simp add: RemoveInvite_def)
  next
    case (Some x)
    have "iv_account x = [] \<Longrightarrow> c \<noteq> code" using iv Some assms by auto
    then show ?thesis
      using Some iv iv_remove.prems by (auto simp: RemoveInvite_def intro: bound_save)
  qed
qed

interpretation invite_sys: transition_system "(=) s0" invite_step
    "\<lambda>s. acc \<noteq> [] \<longrightarrow> bound code acc s0 \<longrightarrow> bound code acc s" for s0 code acc
  by unfold_locales (auto intro: bound_step)

text \<open>
  C36. An invite code is used once. After a \<^verbatim>\<open>Consume\<close> that reported success the code stays
  bound to that account through any sequence of later operations, failed saves and restarts: it
  cannot be consumed again, by anybody, nor revoked. (\<^verbatim>\<open>Generate\<close> is assumed to draw codes that
  are not in the store.)
\<close>

theorem invite_single_use:
  assumes "invites_ok s0" and "acc \<noteq> []" and "Consume io code acc s0 = (s, None)"
    and "reach ((=) s) invite_step t"
  shows "(\<exists>iv \<in> set (ListInvites t). iv_code iv = code \<and> iv_account iv = acc)
    \<and> Consume io' code acc' t = (t, Some ErrInviteUsed)
    \<and> RemoveInvite io' code t = (t, Some ErrInviteConsumed)"
proof -
  obtain c where c: "map_of (is_codes s0) code = Some c" and codes: "is_codes s = put code (c\<lparr>iv_account := acc\<rparr>) (is_codes s0)"
    and saved: "is_file s = Content (map snd (is_codes s))"
    using assms(3) by (auto simp: Consume_def save_invites_def save_file_def split: option.splits if_splits)
  have "invites_ok s" using assms(1) keyed_Some [OF assms(1) c] by (simp add: codes keyed_put)
  then have "bound code acc s" by (simp add: bound_def saved index_by_keyed) (simp add: codes)
  then have t: "bound code acc t"
    using invite_sys.reach_inv [OF assms(4), of acc code] assms(2) by simp
  then obtain iv where iv: "map_of (is_codes t) code = Some iv" "iv_account iv = acc" and ok: "invites_ok t"
    by (auto simp: bound_def)
  from ok iv(1) have "(code, iv) \<in> set (is_codes t)" and "iv_code iv = code"
    by (auto dest: map_of_SomeD keyed_Some)
  with iv assms(2) show ?thesis
    by (force simp: ListInvites_def Consume_def RemoveInvite_def)
qed

definition sample_invites :: invite_store where
  "sample_invites = fst (Generate True 2 (\<lambda>i. Some [of_nat i, 33]) 9 \<lparr>is_codes = [], is_file = Absent\<rparr>)"

lemma sample_invites_eq:
  "is_codes sample_invites = [(''AB'', \<lparr>iv_code = ''AB'', iv_account = [], iv_created = 9\<rparr>),
     (''BB'', \<lparr>iv_code = ''BB'', iv_account = [], iv_created = 9\<rparr>)]"
  by (simp add: sample_invites_def fst_Generate randInviteCode_def invite_alphabet_def Let_def upt_rec)

lemma invite_single_use_witness:
  "(\<exists>iv \<in> set (ListInvites (fst (Consume True ''AB'' ''acc_1'' sample_invites))).
        iv_code iv = ''AB'' \<and> iv_account iv = ''acc_1'')
    \<and> Consume True ''AB'' ''acc_2'' (fst (Consume True ''AB'' ''acc_1'' sample_invites))
        = (fst (Consume True ''AB'' ''acc_1'' sample_invites), Some ErrInviteUsed)
    \<and> RemoveInvite True ''AB'' (fst (Consume True ''AB'' ''acc_1'' sample_invites))
        = (fst (Consume True ''AB'' ''acc_1'' sample_invites), Some ErrInviteConsumed)"
proof (rule invite_single_use)
  show "invites_ok sample_invites"
    by (simp add: sample_invites_eq keyed_def wf_map_def)
  show "Consume True ''AB'' ''acc_1'' sample_invites = (fst (Consume True ''AB'' ''acc_1'' sample_invites), None)"
    by (simp add: Consume_def sample_invites_eq save_invites_def)
qed (auto intro: reach_init)

text \<open>
  Two ways a code goes wrong. When the file cannot be written, \<^verbatim>\<open>Consume\<close> reports an error
  but the code is used up in memory all the same: a second attempt is refused. And when the
  random source fails, \<^verbatim>\<open>Generate\<close> always produces the same code, which makes a code that was
  already consumed valid again.
\<close>

theorem invite_failure_paths:
  assumes "map_of (is_codes s) code = Some iv" and "iv_account iv = []" and "acc \<noteq> []"
    and "0 < n" and "\<forall>i. rnd i = None"
  shows "(let (s1, err) = Consume False code acc s
      in err = Some ErrInviteSave \<and> snd (Consume io code acc' s1) = Some ErrInviteUsed)
    \<and> snd (Consume True ''FALLBACK'' acc (fst (Generate True n rnd now u))) = None"
proof
  show "let (s1, err) = Consume False code acc s
      in err = Some ErrInviteSave \<and> snd (Consume io code acc' s1) = Some ErrInviteUsed"
    using assms(1-3) by (simp add: Consume_def save_invites_def)
  have "''FALLBACK'' \<in> set (map (\<lambda>i. randInviteCode (rnd i)) [0..<nat n])"
    using assms(4,5) by (auto simp: randInviteCode_def image_iff intro: exI [of _ 0])
  then show "snd (Consume True ''FALLBACK'' acc (fst (Generate True n rnd now u))) = None"
    by (simp add: fst_Generate Consume_def generate_loop_new save_invites_def)
qed

lemma invite_failure_paths_witness:
  "(let (s1, err) = Consume False ''AB'' ''a'' sample_invites
      in err = Some ErrInviteSave \<and> snd (Consume True ''AB'' ''b'' s1) = Some ErrInviteUsed)
    \<and> snd (Consume True ''FALLBACK'' ''a''
        (fst (Generate True 1 (\<lambda>_. None) 9
          \<lparr>is_codes = [(''FALLBACK'', \<lparr>iv_code = ''FALLBACK'', iv_account = ''x'', iv_created = 1\<rparr>)],
             is_file = Absent\<rparr>))) = None"
  by (rule invite_failure_paths [where iv = "\<lparr>iv_code = ''AB'', iv_account = [], iv_created = 9\<rparr>"])
    (simp_all add: sample_invites_eq)

end
