(* ===== verification/Lease.thy ===== *)
theory Lease
  imports Go_Net
begin

text \<open>
  Virtual addresses: \<^verbatim>\<open>internal/account/lease.go\<close>. Each network (one per account) has its own
  leases over the same address range; \<open>Next\<close> is the next candidate. The first part relates the
  byte arithmetic of \<^verbatim>\<open>nextIP\<close>, \<^verbatim>\<open>broadcastAddr\<close> and the masks to numbers, the second part is the
  store, the third its invariant and what allocation guarantees.
\<close>

subsection \<open>Address arithmetic\<close>

text \<open>The loop of \<^verbatim>\<open>nextIP\<close>, from the last byte on: the list is reversed.\<close>

fun nextIP_loop :: "int \<Rightarrow> bytes \<Rightarrow> bytes" where
  "nextIP_loop step [] = []"
| "nextIP_loop step (b # bs) =
     (if step > 0
      then let v = uint b + step in word_of_int v # nextIP_loop (v div 256) bs
      else b # bs)"

definition nextIP :: "ip \<Rightarrow> int \<Rightarrow> ip" where
  "nextIP p step = rev (nextIP_loop step (rev p))"

definition broadcastAddr :: "ipnet \<Rightarrow> ip" where
  "broadcastAddr n = map2 (\<lambda>b m. b OR NOT m) (net_ip n) (net_mask n)"

text \<open>The number a big-endian byte list stands for.\<close>

fun be_num :: "bytes \<Rightarrow> nat" where
  "be_num [] = 0"
| "be_num (b # bs) = unat b * 256 ^ length bs + be_num bs"

fun le_num :: "bytes \<Rightarrow> nat" where
  "le_num [] = 0"
| "le_num (b # bs) = unat b + 256 * le_num bs"

lemma be_num_append: "be_num (xs @ ys) = be_num xs * 256 ^ length ys + be_num ys"
  by (induction xs) (simp_all add: algebra_simps power_add)

lemma be_num_rev: "be_num (rev bs) = le_num bs"
  by (induction bs) (simp_all add: be_num_append)

lemma be_num_lt: "be_num bs < 256 ^ length bs"
proof (induction bs)
  case Nil
  then show ?case by simp
next
  case (Cons b bs)
  have "unat b * 256 ^ length bs + be_num bs < unat b * 256 ^ length bs + 256 ^ length bs"
    using Cons.IH by simp
  also have "\<dots> = Suc (unat b) * 256 ^ length bs" by simp
  also have "\<dots> \<le> 256 * 256 ^ length bs"
    using unat_byte_lt [of b] by (intro mult_right_mono) linarith+
  finally show ?case by simp
qed

lemma be_num_inj: "length xs = length ys \<Longrightarrow> be_num xs = be_num ys \<Longrightarrow> xs = ys"
proof (induction xs ys rule: list_induct2)
  case Nil
  then show ?case by simp
next
  case (Cons x xs y ys)
  have "be_num (x # xs) div 256 ^ length xs = unat x" "be_num (y # ys) div 256 ^ length ys = unat y"
    using be_num_lt [of xs] be_num_lt [of ys] by simp_all
  moreover have "be_num (x # xs) mod 256 ^ length xs = be_num xs" "be_num (y # ys) mod 256 ^ length ys = be_num ys"
    using be_num_lt [of xs] be_num_lt [of ys] by simp_all
  ultimately show ?case
    using Cons by (metis word_unat_eq_iff)
qed

lemma length_nextIP_loop [simp]: "length (nextIP_loop step bs) = length bs"
  by (induction step bs rule: nextIP_loop.induct) (simp_all add: Let_def)

lemma length_nextIP [simp]: "length (nextIP p step) = length p"
  by (simp add: nextIP_def)

lemma le_num_nextIP_loop:
  "0 \<le> step \<Longrightarrow> int (le_num (nextIP_loop step bs)) = (int (le_num bs) + step) mod 256 ^ length bs"
proof (induction step bs rule: nextIP_loop.induct)
  case (1 step)
  then show ?case by simp
next
  case (2 step b bs)
  let ?v = "uint b + step" and ?M = "256 ^ length bs :: int"
  have v: "0 \<le> ?v" using 2(2) by simp
  have byte: "uint (word_of_int ?v :: byte) = ?v mod 256"
    using uint_word_of_int [of ?v, where ?'a = 8] by (simp del: of_int_add)
  show ?case
  proof (cases "step > 0")
    case True
    have "0 \<le> ?v div 256" using v by (simp add: pos_imp_zdiv_nonneg_iff)
    from 2(1) [OF True refl this]
    have ih: "int (le_num (nextIP_loop (?v div 256) bs)) = (int (le_num bs) + ?v div 256) mod ?M" .
    have "int (le_num (nextIP_loop step (b # bs)))
        = ?v mod 256 + 256 * ((int (le_num bs) + ?v div 256) mod ?M)"
      using True by (simp add: Let_def ih byte del: of_int_add)
    also have "\<dots> = (?v + 256 * int (le_num bs)) mod (256 * ?M)"
      using zmod_zmult2_eq [of ?M "?v + 256 * int (le_num bs)" 256] by (simp add: add.commute)
    finally show ?thesis by (simp add: algebra_simps)
  next
    case False
    then have "step = 0" using 2(2) by simp
    moreover have "int (le_num (b # bs)) < int (256 ^ length (b # bs))"
      using be_num_lt [of "rev (b # bs)"] by (simp only: be_num_rev length_rev of_nat_less_iff)
    ultimately show ?thesis by simp
  qed
qed

lemma be_num_nextIP:
  "0 \<le> step \<Longrightarrow> int (be_num (nextIP p step)) = (int (be_num p) + step) mod 256 ^ length p"
  using le_num_nextIP_loop [of step "rev p"] be_num_rev [of "rev p"]
  by (simp add: nextIP_def be_num_rev)


text \<open>Masking with the first \<open>n\<close> bits set rounds down to a multiple of \<open>2 ^ (bits - n)\<close>.\<close>

fun prefix_mask :: "nat \<Rightarrow> nat \<Rightarrow> bytes" where
  "prefix_mask n 0 = []"
| "prefix_mask n (Suc l) = mask_byte n # prefix_mask (n - 8) l"

lemma prefix_mask_map: "prefix_mask n l = map (\<lambda>i. mask_byte (n - 8 * i)) [0..<l]"
proof (induction l arbitrary: n)
  case 0
  then show ?case by simp
next
  case (Suc l)
  have "[0..<Suc l] = 0 # map Suc [0..<l]" unfolding map_Suc_upt by (rule upt_conv_Cons) simp
  then show ?case by (simp add: Suc.IH comp_def diff_diff_left del: upt_Suc)
qed

lemma cidr_mask_prefix: "n \<le> 32 \<Longrightarrow> cidr_mask n 32 = prefix_mask n 4"
  by (simp add: cidr_mask_def prefix_mask_map)

lemma mask_byte_mask: "n \<le> 8 \<Longrightarrow> mask_byte n = NOT (mask (8 - n))"
proof -
  assume "n \<le> 8"
  then have "n \<in> {0, 1, 2, 3, 4, 5, 6, 7, 8}" by auto
  then show ?thesis by (auto simp: mask_byte_def mask_eq_exp_minus_1 drop_bit_eq_div)
qed

lemma mask_byte_0 [simp]: "mask_byte 0 = 0"
  by (simp add: mask_byte_mask mask_eq_exp_minus_1)

lemma unat_and_mask_byte: "n \<le> 8 \<Longrightarrow> unat (b AND mask_byte n) = unat b div 2 ^ (8 - n) * 2 ^ (8 - n)"
proof -
  assume n: "n \<le> 8"
  have "b AND mask_byte n = push_bit (8 - n) (drop_bit (8 - n) b)"
    unfolding mask_byte_mask [OF n] by (rule bit_word_eqI) (auto simp: bit_simps)
  moreover have "unat (push_bit (8 - n) (drop_bit (8 - n) b)) =
      take_bit 8 (push_bit (8 - n) (drop_bit (8 - n) (unat b)))"
    using unat_byte_lt [of b]
    by (simp add: unsigned_push_bit_eq unsigned_drop_bit_eq take_bit_nat_eq_self del: unat_byte_lt)
  moreover have "unat b div 2 ^ (8 - n) * 2 ^ (8 - n) < 256"
    using unat_byte_lt [of b] by (meson div_times_less_eq_dividend le_less_trans)
  ultimately show ?thesis
    by (simp only: take_bit_eq_mod push_bit_eq_mult drop_bit_eq_div) simp
qed


lemma unat_mask_byte: "k \<le> 8 \<Longrightarrow> unat (mask k :: byte) = 2 ^ k - 1"
proof -
  assume "k \<le> 8"
  then have "k \<in> {0, 1, 2, 3, 4, 5, 6, 7, 8}" by auto
  then show ?thesis by (auto simp: mask_eq_exp_minus_1)
qed

lemma unat_or_mask_byte:
  assumes "n \<le> 8"
  shows "unat (b OR NOT (mask_byte n)) = unat b div 2 ^ (8 - n) * 2 ^ (8 - n) + (2 ^ (8 - n) - 1)"
proof -
  let ?k = "8 - n" and ?q = "unat b div 2 ^ (8 - n)"
  have disj: "(b AND mask_byte n) AND mask ?k = 0"
    unfolding mask_byte_mask [OF assms] by (rule bit_word_eqI) (auto simp: bit_simps)
  have "b OR NOT (mask_byte n) = (b AND mask_byte n) OR mask ?k"
    unfolding mask_byte_mask [OF assms] by (rule bit_word_eqI) (auto simp: bit_simps)
  then have sum: "b OR NOT (mask_byte n) = (b AND mask_byte n) + mask ?k"
    using disjunctive_add_eq_or [OF disj] by simp
  have pow: "(256 :: nat) = 2 ^ n * 2 ^ ?k" using assms by (simp flip: power_add)
  have "?q < 2 ^ n"
    using unat_byte_lt [of b] unfolding pow by (rule less_mult_imp_div_less)
  then have "Suc ?q * 2 ^ ?k \<le> 2 ^ n * 2 ^ ?k" by (intro mult_le_mono1) simp
  moreover have "0 < (2 :: nat) ^ ?k" by simp
  ultimately have "?q * 2 ^ ?k + (2 ^ ?k - 1) < 256" unfolding pow by (simp only: mult_Suc) linarith
  then show ?thesis
    using assms by (simp add: sum unat_word_ariths unat_and_mask_byte unat_mask_byte)
qed

lemma be_num_Cons_div:
  assumes "n \<le> 8"
  shows "be_num (b # bs) div 2 ^ (8 * length (b # bs) - n) = unat b div 2 ^ (8 - n)"
proof -
  have k: "8 * length (b # bs) - n = 8 * length bs + (8 - n)" using assms by simp
  have "be_num (b # bs) div 2 ^ (8 * length bs) = unat b"
    using be_num_lt [of bs] by (simp add: power_mult)
  then show ?thesis unfolding k power_add div_mult2_eq by simp
qed

lemma length_prefix_mask [simp]: "length (prefix_mask n l) = l"
  by (simp add: prefix_mask_map)

lemma be_num_masked:
  "n \<le> 8 * length p \<Longrightarrow> be_num (map2 (AND) p (prefix_mask n (length p)))
     = be_num p div 2 ^ (8 * length p - n) * 2 ^ (8 * length p - n)"
proof (induction p arbitrary: n)
  case Nil
  then show ?case by simp
next
  case (Cons b bs)
  let ?L = "length bs" and ?k = "8 * length (b # bs) - n"
  have pow: "(256 :: nat) ^ ?L = 2 ^ (8 * ?L)" by (simp add: power_mult)
  show ?case
  proof (cases "8 \<le> n")
    case True
    then have k: "?k = 8 * ?L - (n - 8)" and le: "?k \<le> 8 * ?L" by simp_all
    then obtain j where j: "8 * ?L = ?k + j" using le_Suc_ex by blast
    have "mask_byte n = - 1" using True by (simp add: mask_byte_def)
    then have "be_num (map2 (AND) (b # bs) (prefix_mask n (length (b # bs))))
        = unat b * 256 ^ ?L + be_num bs div 2 ^ ?k * 2 ^ ?k"
      using Cons.IH [of "n - 8"] Cons.prems True by (simp add: k add.commute)
    also have "\<dots> = (unat b * 256 ^ ?L + be_num bs) div 2 ^ ?k * 2 ^ ?k"
      unfolding pow j power_add by (simp add: algebra_simps flip: mult.assoc)
    finally show ?thesis by simp
  next
    case False
    then have n: "n \<le> 8" and z: "n - 8 = 0" by simp_all
    have zero: "be_num (map2 (AND) xs (prefix_mask 0 (length xs))) = 0" for xs :: bytes
      by (induction xs) simp_all
    have "?k = (8 - n) + 8 * ?L" using n by simp
    then have kpow: "(2 :: nat) ^ ?k = 2 ^ (8 - n) * 2 ^ (8 * ?L)" by (simp only: power_add)
    show ?thesis
      unfolding be_num_Cons_div [OF n] unfolding kpow using n by (simp add: z zero unat_and_mask_byte pow)
  qed
qed


lemma be_num_broadcast:
  "n \<le> 8 * length p \<Longrightarrow> be_num (map2 (\<lambda>b m. b OR NOT m) p (prefix_mask n (length p)))
     = be_num p div 2 ^ (8 * length p - n) * 2 ^ (8 * length p - n) + (2 ^ (8 * length p - n) - 1)"
proof (induction p arbitrary: n)
  case Nil
  then show ?case by simp
next
  case (Cons b bs)
  let ?L = "length bs" and ?k = "8 * length (b # bs) - n"
  have pow: "(256 :: nat) ^ ?L = 2 ^ (8 * ?L)" by (simp add: power_mult)
  show ?case
  proof (cases "8 \<le> n")
    case True
    then have k: "?k = 8 * ?L - (n - 8)" and le: "?k \<le> 8 * ?L" by simp_all
    then obtain j where j: "8 * ?L = ?k + j" using le_Suc_ex by blast
    have "mask_byte n = - 1" using True by (simp add: mask_byte_def)
    then have "be_num (map2 (\<lambda>b m. b OR NOT m) (b # bs) (prefix_mask n (length (b # bs))))
        = unat b * 256 ^ ?L + (be_num bs div 2 ^ ?k * 2 ^ ?k + (2 ^ ?k - 1))"
      using Cons.IH [of "n - 8"] Cons.prems True by (simp add: k add.commute)
    moreover have "unat b * 256 ^ ?L + be_num bs div 2 ^ ?k * 2 ^ ?k
        = (unat b * 256 ^ ?L + be_num bs) div 2 ^ ?k * 2 ^ ?k"
      unfolding pow j power_add by (simp add: algebra_simps flip: mult.assoc)
    moreover obtain q where "(2 :: nat) ^ ?k = Suc q" by (metis not0_implies_Suc power_not_zero zero_neq_numeral)
    ultimately show ?thesis by (simp only: be_num.simps diff_Suc_1 add.assoc)
  next
    case False
    then have n: "n \<le> 8" and z: "n - 8 = 0" by simp_all
    have ones: "be_num (map2 (\<lambda>b m. b OR NOT m) xs (prefix_mask 0 (length xs))) = 256 ^ length xs - 1"
      for xs :: bytes
    proof (induction xs)
      case (Cons x xs)
      have "unat (- 1 :: byte) = 255" by code_simp
      moreover have "(1 :: nat) \<le> 256 ^ length xs" by simp
      ultimately show ?case using Cons by simp
    qed simp
    have "?k = (8 - n) + 8 * ?L" using n by simp
    then have kpow: "(2 :: nat) ^ ?k = 2 ^ (8 - n) * 2 ^ (8 * ?L)" by (simp only: power_add)
    have tail: "(2 ^ (8 - n) - 1) * 2 ^ (8 * ?L) + (2 ^ (8 * ?L) - 1) = (2 :: nat) ^ ?k - 1"
    proof -
      have "(1 :: nat) \<le> 2 ^ (8 - n)" "(1 :: nat) \<le> 2 ^ (8 * ?L)" by simp_all
      then show ?thesis unfolding kpow by (simp add: diff_mult_distrib)
    qed
    have "be_num (map2 (\<lambda>b m. b OR NOT m) (b # bs) (prefix_mask n (length (b # bs))))
        = (unat b div 2 ^ (8 - n) * 2 ^ (8 - n) + (2 ^ (8 - n) - 1)) * 2 ^ (8 * ?L) + (2 ^ (8 * ?L) - 1)"
      using n by (simp add: z ones unat_or_mask_byte pow)
    also have "\<dots> = unat b div 2 ^ (8 - n) * 2 ^ ?k + (2 ^ ?k - 1)"
      unfolding add_mult_distrib add.assoc tail by (simp only: kpow mult.assoc)
    finally show ?thesis unfolding be_num_Cons_div [OF n] .
  qed
qed


subsection \<open>The subnet as an interval\<close>

text \<open>What \<^verbatim>\<open>ParseCIDR\<close> yields for an IPv4 prefix of length \<open>n\<close>.\<close>

definition v4net :: "ipnet \<Rightarrow> nat \<Rightarrow> bool" where
  "v4net ipn n \<longleftrightarrow> n \<le> 32 \<and> length (net_ip ipn) = 4 \<and> net_mask ipn = cidr_mask n 32 \<and>
     map2 (AND) (net_ip ipn) (net_mask ipn) = net_ip ipn"

abbreviation base_num :: "ipnet \<Rightarrow> nat" where
  "base_num ipn \<equiv> be_num (net_ip ipn)"
abbreviation bcast_num :: "ipnet \<Rightarrow> nat" where
  "bcast_num ipn \<equiv> be_num (broadcastAddr ipn)"

lemma v4netD:
  assumes "v4net ipn n"
  shows "n \<le> 32" "length (net_ip ipn) = 4" "net_mask ipn = prefix_mask n 4"
    "base_num ipn div 2 ^ (32 - n) * 2 ^ (32 - n) = base_num ipn"
proof -
  show n: "n \<le> 32" and len: "length (net_ip ipn) = 4" and mask: "net_mask ipn = prefix_mask n 4"
    using assms by (simp_all add: v4net_def cidr_mask_prefix)
  have "map2 (AND) (net_ip ipn) (prefix_mask n (length (net_ip ipn))) = net_ip ipn"
    unfolding len using assms by (auto simp: v4net_def cidr_mask_prefix)
  then show "base_num ipn div 2 ^ (32 - n) * 2 ^ (32 - n) = base_num ipn"
    using be_num_masked [of n "net_ip ipn"] n by (simp add: len)
qed

lemma bcast_num_eq: "v4net ipn n \<Longrightarrow> bcast_num ipn = base_num ipn + (2 ^ (32 - n) - 1)"
  using be_num_broadcast [of n "net_ip ipn"] v4netD [of ipn n]
  by (simp add: broadcastAddr_def)

lemma length_bcast: "v4net ipn n \<Longrightarrow> length (broadcastAddr ipn) = 4"
  using v4netD [of ipn n] by (simp add: broadcastAddr_def)

lemma be_num_lt_4: "length p = 4 \<Longrightarrow> be_num p < 2 ^ 32"
  using be_num_lt [of p] by simp

lemma div_interval:
  assumes "(b :: nat) div m * m = b" and "0 < m"
  shows "x div m = b div m \<longleftrightarrow> b \<le> x \<and> x < b + m"
proof
  assume "x div m = b div m"
  moreover have "x div m * m \<le> x" and "x < x div m * m + m"
    using div_mult_mod_eq [of x m] mod_less_divisor [OF assms(2), of x] by linarith+
  ultimately show "b \<le> x \<and> x < b + m" using assms(1) by simp
next
  assume x: "b \<le> x \<and> x < b + m"
  then show "x div m = b div m"
    using assms(1) by (intro div_nat_eqI) (simp_all add: mult.commute)
qed

lemma contains_iff:
  assumes "v4net ipn n" and "length x = 4"
  shows "net_contains ipn x \<longleftrightarrow> base_num ipn \<le> be_num x \<and> be_num x \<le> bcast_num ipn"
proof -
  note net = v4netD [OF assms(1)]
  let ?m = "2 ^ (32 - n) :: nat"
  have masked: "be_num (map2 (AND) p (prefix_mask n 4)) = be_num p div ?m * ?m" if "length p = 4" for p
    using be_num_masked [of n p] net(1) that by simp
  have "net_contains ipn x \<longleftrightarrow> map2 (AND) (net_ip ipn) (prefix_mask n 4) = map2 (AND) x (prefix_mask n 4)"
  proof -
    have "net_ip ipn \<noteq> []" and "x \<noteq> []" using net(2) assms(2) by auto
    then show ?thesis
      using net(2,3) assms(2) by (simp add: net_contains_def network_number_def to4_len4 Let_def)
  qed
  also have "\<dots> \<longleftrightarrow> be_num (map2 (AND) (net_ip ipn) (prefix_mask n 4)) = be_num (map2 (AND) x (prefix_mask n 4))"
    using net(2) assms(2) by (auto intro: be_num_inj)
  also have "\<dots> \<longleftrightarrow> be_num x div ?m = base_num ipn div ?m"
    using net(2) assms(2) by (auto simp: masked)
  also have "\<dots> \<longleftrightarrow> base_num ipn \<le> be_num x \<and> be_num x < base_num ipn + ?m"
    by (rule div_interval [OF net(4)]) simp
  also have "\<dots> \<longleftrightarrow> base_num ipn \<le> be_num x \<and> be_num x \<le> bcast_num ipn"
  proof -
    have "0 < ?m" by simp
    then show ?thesis unfolding bcast_num_eq [OF assms(1)] by linarith
  qed
  finally show ?thesis .
qed

lemma ip_equal_4 [simp]: "length p = 4 \<Longrightarrow> length q = 4 \<Longrightarrow> ip_equal p q \<longleftrightarrow> p = q"
  by (simp add: ip_equal_def)

lemma ip_string_inj: "length p = 4 \<Longrightarrow> length q = 4 \<Longrightarrow> ip_string p = ip_string q \<longleftrightarrow> p = q"
  by (elim length4E) simp

text \<open>One step of \<^verbatim>\<open>nextIP\<close> on an IPv4 address.\<close>

lemma be_num_next4: "length p = 4 \<Longrightarrow> be_num (nextIP p 1) = (be_num p + 1) mod 2 ^ 32"
proof -
  assume p: "length p = 4"
  have "int (be_num (nextIP p 1)) = int ((be_num p + 1) mod 2 ^ 32)"
    using be_num_nextIP [of 1 p] by (simp add: p zmod_int add.commute)
  then show ?thesis by (simp only: of_nat_eq_iff)
qed

lemma next_in_subnet:
  assumes "v4net ipn n" and "length p = 4" and "be_num p < bcast_num ipn"
  shows "be_num (nextIP p 1) = be_num p + 1"
  using be_num_next4 [OF assms(2)] be_num_lt_4 [OF length_bcast [OF assms(1)]] assms(3) by simp

text \<open>After the broadcast address the candidate leaves the subnet for good.\<close>

lemma next_after_bcast:
  assumes "v4net ipn n" and "0 < n" and "length p = 4" and "be_num p = bcast_num ipn"
  shows "\<not> net_contains ipn (nextIP p 1)"
proof (cases "be_num p + 1 < 2 ^ 32")
  case True
  then have "be_num (nextIP p 1) = be_num p + 1" by (simp add: be_num_next4 assms(3))
  then show ?thesis using assms by (simp add: contains_iff)
next
  case False
  then have p: "be_num p + 1 = 2 ^ 32" using be_num_lt_4 [OF assms(3)] by simp
  then have zero: "be_num (nextIP p 1) = 0" by (simp add: be_num_next4 assms(3))
  have "(2 :: nat) ^ (32 - n) < 2 ^ 32"
    using assms(2) v4netD(1) [OF assms(1)] by (intro power_strict_increasing) simp_all
  moreover have "base_num ipn + 2 ^ (32 - n) = 2 ^ 32"
    using p assms(4) by (simp add: bcast_num_eq [OF assms(1)])
  ultimately have "0 < base_num ipn" by linarith
  with zero assms show ?thesis by (simp add: contains_iff)
qed


lemma map2_and_idem: "map2 (AND) (map2 (AND) p m) m = map2 (AND) (p :: bytes) m"
  by (rule nth_equalityI) (auto simp: and.assoc)

lemma parse_cidr_v4net:
  assumes "parse_cidr s = Some (p, ipn)" and "length (net_ip ipn) = 4"
  shows "\<exists>n. v4net ipn n"
proof -
  have "\<exists>q n. n \<le> 8 * length q \<and> ipn = \<lparr>net_ip = ip_mask (if length q = 4 then v4_prefix @ q else q)
      (cidr_mask n (8 * length q)), net_mask = cidr_mask n (8 * length q)\<rparr>"
    using assms(1) unfolding parse_cidr_def Let_def
    by (auto split: if_splits option.splits simp del: not_less simp: not_less [symmetric])
  then obtain q n where n: "n \<le> 8 * length q" and ipn: "net_mask ipn = cidr_mask n (8 * length q)"
    and base: "net_ip ipn = ip_mask (if length q = 4 then v4_prefix @ q else q) (net_mask ipn)"
    by (metis ipnet.select_convs)
  have q: "length q = 4"
  proof (rule ccontr)
    assume "length q \<noteq> 4"
    then have len: "length (net_mask ipn) = 0 \<or> length (net_mask ipn) = 16"
      unfolding ipn by (auto simp: cidr_mask_def)
    have "length (net_ip ipn) = 0 \<or> length (net_ip ipn) = length (net_mask ipn) \<or> length q = 4"
      unfolding base using \<open>length q \<noteq> 4\<close> by (auto simp: ip_mask_def Let_def)
    with len assms(2) \<open>length q \<noteq> 4\<close> show False by auto
  qed
  then have "net_mask ipn = cidr_mask n 32" and "n \<le> 32" using ipn n by simp_all
  moreover have "length (cidr_mask n 32) = 4" using \<open>n \<le> 32\<close> by (simp add: cidr_mask_prefix)
  ultimately have "net_ip ipn = map2 (AND) q (net_mask ipn)"
    using base q by (simp add: ip_mask_def)
  moreover from this have "map2 (AND) (net_ip ipn) (net_mask ipn) = net_ip ipn"
    by (simp add: map2_and_idem)
  ultimately show ?thesis
    using assms(2) \<open>net_mask ipn = cidr_mask n 32\<close> \<open>n \<le> 32\<close> by (auto simp: v4net_def)
qed


subsection \<open>The lease store\<close>

record lease =
  le_network :: string
  le_account :: string
  le_device :: string
  le_ipv4 :: string
  le_at :: time

record net_state =
  ns_next :: ip
  ns_leases :: "(string, lease) gomap"

record lease_store =
  ls_ipn :: ipnet
  ls_nets :: "(string, net_state) gomap"
  ls_file :: "lease list file_read"

datatype lease_error = ErrCIDR | ErrLeaseOpen | ErrExhausted | ErrNoLease | ErrLeaseSave

definition defaultCIDR :: string where
  "defaultCIDR = ''10.0.0.0/24''"

definition first_ip :: "ipnet \<Rightarrow> ip" where
  "first_ip ipn = nextIP (to4 (net_ip ipn)) 1"

definition getStateLocked :: "string \<Rightarrow> lease_store \<Rightarrow> lease_store \<times> net_state" where
  "getStateLocked net ls =
     (case map_of (ls_nets ls) net of
        Some st \<Rightarrow> (ls, st)
      | None \<Rightarrow>
          let st = \<lparr>ns_next = first_ip (ls_ipn ls), ns_leases = []\<rparr>
          in (ls\<lparr>ls_nets := put net st (ls_nets ls)\<rparr>, st))"

fun recompute_loop :: "nat \<Rightarrow> (string, lease) gomap \<Rightarrow> ip \<Rightarrow> ip" where
  "recompute_loop 0 leases nx = nx"
| "recompute_loop (Suc f) leases nx =
     (let nx' = nextIP nx 1
      in if ip_equal nx' nx then nx
         else if map_of leases (ip_string nx') = None then nx'
         else recompute_loop f leases nx')"

definition recompute_next :: "ipnet \<Rightarrow> (string, lease) gomap \<Rightarrow> ip" where
  "recompute_next ipn leases =
     (let nx = first_ip ipn
      in if map_of leases (ip_string nx) = None then nx else recompute_loop 65536 leases nx)"

definition recomputeNextLocked :: "lease_store \<Rightarrow> lease_store" where
  "recomputeNextLocked ls = ls\<lparr>ls_nets :=
     map (\<lambda>(k, st). (k, st\<lparr>ns_next := recompute_next (ls_ipn ls) (ns_leases st)\<rparr>)) (ls_nets ls)\<rparr>"

definition load_lease :: "lease_store \<Rightarrow> lease \<Rightarrow> lease_store" where
  "load_lease ls l =
     (let (ls1, st) = getStateLocked (le_network l) ls
      in ls1\<lparr>ls_nets := put (le_network l)
           (st\<lparr>ns_leases := put (le_ipv4 l) l (ns_leases st)\<rparr>) (ls_nets ls1)\<rparr>)"

definition load_leases :: "ipnet \<Rightarrow> lease list \<Rightarrow> lease_store" where
  "load_leases ipn ll = recomputeNextLocked
     (foldl load_lease \<lparr>ls_ipn = ipn, ls_nets = [], ls_file = Content ll\<rparr> ll)"

definition OpenLeases :: "bool \<Rightarrow> lease list file_read \<Rightarrow> string \<Rightarrow> lease_error + lease_store" where
  "OpenLeases mkdir_ok raw cidr =
     (let cidr = (if cidr = [] then defaultCIDR else cidr)
      in case parse_cidr cidr of
           None \<Rightarrow> Inl ErrCIDR
         | Some (_, ipn) \<Rightarrow>
             (if \<not> mkdir_ok then Inl ErrLeaseOpen
              else case raw of
                  Content ll \<Rightarrow> Inr (load_leases ipn ll)
                | Malformed \<Rightarrow> Inl ErrLeaseOpen
                | Absent \<Rightarrow> Inr \<lparr>ls_ipn = ipn, ls_nets = [], ls_file = Absent\<rparr>
                | ReadError \<Rightarrow> Inl ErrLeaseOpen))"

definition all_leases :: "lease_store \<Rightarrow> lease list" where
  "all_leases ls = concat (map (\<lambda>(k, st). map snd (ns_leases st)) (ls_nets ls))"

definition Array :: "lease_store \<Rightarrow> lease list" where
  "Array ls = all_leases ls"

definition save_leases :: "bool \<Rightarrow> lease_store \<Rightarrow> lease_store \<times> lease_error option" where
  "save_leases io ls =
     (ls\<lparr>ls_file := save_file io (all_leases ls) (ls_file ls)\<rparr>, if io then None else Some ErrLeaseSave)"

text \<open>
  The search of \<^verbatim>\<open>Allocate\<close>: the new \<open>Next\<close> and the address found. The first argument is the
  number of rounds left.
\<close>

fun alloc_loop :: "nat \<Rightarrow> ipnet \<Rightarrow> (string, lease) gomap \<Rightarrow> ip \<Rightarrow> ip \<times> string option" where
  "alloc_loop 0 ipn leases nx = (nx, None)"
| "alloc_loop (Suc f) ipn leases nx =
     (if \<not> net_contains ipn nx then (nx, None)
      else if ip_equal nx (broadcastAddr ipn) then alloc_loop f ipn leases (nextIP nx 1)
      else
        let ipv4 = ip_string nx; nx' = nextIP nx 1
        in if map_of leases ipv4 \<noteq> None then alloc_loop f ipn leases nx'
           else (nx', Some ipv4))"

definition device_lease :: "string \<Rightarrow> (string, lease) gomap \<Rightarrow> lease option" where
  "device_lease dev leases = map_option snd (List.find (\<lambda>e. le_device (snd e) = dev) leases)"

definition Allocate :: "bool \<Rightarrow> time \<Rightarrow> string \<Rightarrow> string \<Rightarrow> string \<Rightarrow> lease_store
    \<Rightarrow> lease_store \<times> (lease_error + lease)" where
  "Allocate io now net acc dev ls =
     (let (ls1, st) = getStateLocked net ls
      in case device_lease dev (ns_leases st) of
           Some l \<Rightarrow>
             let l' = l\<lparr>le_account := acc\<rparr>
             in (ls1\<lparr>ls_nets := put net (st\<lparr>ns_leases := put (le_ipv4 l) l' (ns_leases st)\<rparr>) (ls_nets ls1)\<rparr>,
                 Inr l')
         | None \<Rightarrow>
             (case alloc_loop 65536 (ls_ipn ls) (ns_leases st) (ns_next st) of
                (nx, None) \<Rightarrow> (ls1\<lparr>ls_nets := put net (st\<lparr>ns_next := nx\<rparr>) (ls_nets ls1)\<rparr>, Inl ErrExhausted)
              | (nx, Some ipv4) \<Rightarrow>
                  let l = \<lparr>le_network = net, le_account = acc, le_device = dev, le_ipv4 = ipv4, le_at = now\<rparr>;
                      st' = \<lparr>ns_next = nx, ns_leases = put ipv4 l (ns_leases st)\<rparr>;
                      (ls2, err) = save_leases io (ls1\<lparr>ls_nets := put net st' (ls_nets ls1)\<rparr>)
                  in (case err of Some e \<Rightarrow> (ls2, Inl e) | None \<Rightarrow> (ls2, Inr l))))"

definition find_lease :: "string \<Rightarrow> string \<Rightarrow> lease_store \<Rightarrow> lease_error + lease" where
  "find_lease net dev ls =
     (case map_of (ls_nets ls) net of
        None \<Rightarrow> Inl ErrNoLease
      | Some st \<Rightarrow> (case device_lease dev (ns_leases st) of None \<Rightarrow> Inl ErrNoLease | Some l \<Rightarrow> Inr l))"


subsection \<open>The invariant\<close>

definition host_addr :: "ipnet \<Rightarrow> ip \<Rightarrow> bool" where
  "host_addr ipn a \<longleftrightarrow> length a = 4 \<and> base_num ipn < be_num a \<and> be_num a < bcast_num ipn"

definition is_host :: "ipnet \<Rightarrow> string \<Rightarrow> bool" where
  "is_host ipn s \<longleftrightarrow> (\<exists>a. host_addr ipn a \<and> s = ip_string a)"

definition leases_ok :: "ipnet \<Rightarrow> string \<Rightarrow> (string, lease) gomap \<Rightarrow> bool" where
  "leases_ok ipn net leases \<longleftrightarrow> keyed le_ipv4 leases
     \<and> (\<forall>l \<in> set (map snd leases). le_network l = net \<and> is_host ipn (le_ipv4 l))
     \<and> distinct (map (\<lambda>e. le_device (snd e)) leases)"

text \<open>Every host address the candidate has passed is taken.\<close>

definition frontier :: "ipnet \<Rightarrow> (string, lease) gomap \<Rightarrow> ip \<Rightarrow> bool" where
  "frontier ipn leases nx \<longleftrightarrow> length nx = 4
     \<and> (net_contains ipn nx \<longrightarrow> base_num ipn < be_num nx)
     \<and> (\<forall>a. host_addr ipn a \<longrightarrow> (net_contains ipn nx \<longrightarrow> be_num a < be_num nx) \<longrightarrow>
          map_of leases (ip_string a) \<noteq> None)"

definition net_ok :: "ipnet \<Rightarrow> string \<Rightarrow> net_state \<Rightarrow> bool" where
  "net_ok ipn net st \<longleftrightarrow> leases_ok ipn net (ns_leases st) \<and> frontier ipn (ns_leases st) (ns_next st)"

definition ls_ok :: "nat \<Rightarrow> lease_store \<Rightarrow> bool" where
  "ls_ok n ls \<longleftrightarrow> v4net (ls_ipn ls) n \<and> 0 < n \<and> wf_map (ls_nets ls)
     \<and> (\<forall>(net, st) \<in> set (ls_nets ls). net_ok (ls_ipn ls) net st)"

lemma frontier_step:
  assumes "v4net ipn n" and "0 < n" and "frontier ipn leases nx" and "net_contains ipn nx"
    and "be_num nx = bcast_num ipn \<or> map_of leases (ip_string nx) \<noteq> None"
  shows "frontier ipn leases (nextIP nx 1)"
proof -
  have nx: "length nx = 4" "base_num ipn < be_num nx" and passed:
    "host_addr ipn a \<Longrightarrow> be_num a < be_num nx \<Longrightarrow> map_of leases (ip_string a) \<noteq> None" for a
    using assms(3,4) by (auto simp: frontier_def)
  have le: "be_num nx \<le> bcast_num ipn" using assms(1,4) nx(1) by (simp add: contains_iff)
  show ?thesis
  proof (cases "be_num nx = bcast_num ipn")
    case True
    then have "\<not> net_contains ipn (nextIP nx 1)"
      using next_after_bcast assms(1,2) nx(1) by blast
    then show ?thesis using passed nx(1) True by (auto simp: frontier_def host_addr_def)
  next
    case False
    then have nxt: "be_num (nextIP nx 1) = be_num nx + 1"
      using le by (intro next_in_subnet [OF assms(1) nx(1)]) simp
    then have inside: "net_contains ipn (nextIP nx 1)"
      using assms(1) nx le False by (simp add: contains_iff)
    have "map_of leases (ip_string a) \<noteq> None" if "host_addr ipn a" "be_num a < be_num nx + 1" for a
    proof (cases "be_num a = be_num nx")
      case True
      then have "a = nx" using that(1) nx(1) by (auto simp: host_addr_def intro: be_num_inj)
      with assms(5) False show ?thesis by blast
    next
      case False
      with that passed show ?thesis by simp
    qed
    with nxt nx inside show ?thesis by (simp add: frontier_def)
  qed
qed

lemma frontier_put: "frontier ipn leases nx \<Longrightarrow> frontier ipn (put s l leases) nx"
  by (auto simp: frontier_def)

text \<open>What the search returns.\<close>

lemma alloc_loop_spec:
  assumes "v4net ipn n" and "0 < n"
  shows "frontier ipn leases nx \<Longrightarrow> alloc_loop f ipn leases nx = (nx', r) \<Longrightarrow>
    (case r of
       None \<Rightarrow> frontier ipn leases nx' \<and>
         (net_contains ipn nx \<longrightarrow> bcast_num ipn - be_num nx < f \<longrightarrow> \<not> net_contains ipn nx')
     | Some s \<Rightarrow> is_host ipn s \<and> map_of leases s = None \<and> frontier ipn (put s l leases) nx')"
proof (induction f arbitrary: nx)
  case 0
  then show ?case by auto
next
  case (Suc f)
  have len: "length nx = 4" using Suc.prems(1) by (simp add: frontier_def)
  have eq: "ip_equal nx (broadcastAddr ipn) \<longleftrightarrow> be_num nx = bcast_num ipn"
    using len length_bcast [OF assms(1)] by (auto intro: be_num_inj)
  show ?case
  proof (cases "net_contains ipn nx")
    case False
    with Suc.prems show ?thesis by auto
  next
    case True
    then have bounds: "base_num ipn < be_num nx" "be_num nx \<le> bcast_num ipn"
      using Suc.prems(1) assms(1) len by (auto simp: frontier_def contains_iff)
    show ?thesis
    proof (cases "be_num nx = bcast_num ipn \<or> map_of leases (ip_string nx) \<noteq> None")
      case skip: True
      then have rec: "alloc_loop f ipn leases (nextIP nx 1) = (nx', r)"
        using Suc.prems(2) True eq by (auto simp: Let_def split: if_splits)
      have step: "frontier ipn leases (nextIP nx 1)"
        by (rule frontier_step [OF assms Suc.prems(1) True skip])
      have "bcast_num ipn - be_num (nextIP nx 1) < f"
        if "net_contains ipn (nextIP nx 1)" "bcast_num ipn - be_num nx < Suc f"
      proof -
        have "be_num nx < bcast_num ipn"
          using next_after_bcast [OF assms len] that(1) bounds(2) by (metis le_neq_implies_less)
        then show ?thesis
          using next_in_subnet [OF assms(1) len] that(2) by linarith
      qed
      moreover have "\<not> net_contains ipn (nextIP nx 1) \<Longrightarrow> nx' = nextIP nx 1 \<and> r = None"
        using rec by (cases f) auto
      ultimately show ?thesis
        using Suc.IH [OF step rec] by (cases r) auto
    next
      case free: False
      then have r: "r = Some (ip_string nx)" "nx' = nextIP nx 1"
        using Suc.prems(2) True eq by (auto simp: Let_def)
      have "frontier ipn (put (ip_string nx) l leases) nx'"
        unfolding r by (rule frontier_step [OF assms frontier_put [OF Suc.prems(1)] True]) simp
      moreover have "is_host ipn (ip_string nx)"
        using bounds free len by (auto simp: is_host_def host_addr_def)
      ultimately show ?thesis using free by (simp add: r)
    qed
  qed
qed


text \<open>Recomputing the candidate after a restart.\<close>

lemma frontier_first:
  assumes "v4net ipn n" and "0 < n"
  shows "frontier ipn leases (first_ip ipn)"
proof -
  have len: "length (net_ip ipn) = 4" by (rule v4netD [OF assms(1)])
  then have first: "length (first_ip ipn) = 4" "be_num (first_ip ipn) = (base_num ipn + 1) mod 2 ^ 32"
    by (simp_all add: first_ip_def to4_len4 be_num_next4)
  show ?thesis
  proof (cases "base_num ipn < bcast_num ipn")
    case True
    then have "be_num (first_ip ipn) = base_num ipn + 1"
      using first be_num_lt_4 [OF length_bcast [OF assms(1)]] by simp
    moreover from this have "net_contains ipn (first_ip ipn)"
      using True first assms(1) by (simp add: contains_iff)
    ultimately show ?thesis using first(1) by (simp add: frontier_def host_addr_def)
  next
    case False
    then have "bcast_num ipn = base_num ipn" by (simp add: bcast_num_eq [OF assms(1)])
    moreover from this have "\<not> net_contains ipn (first_ip ipn)"
      using next_after_bcast [OF assms len] len by (simp add: first_ip_def to4_len4)
    ultimately show ?thesis using first by (auto simp: frontier_def host_addr_def)
  qed
qed

lemma taken_host:
  assumes "leases_ok ipn net leases" and "map_of leases (ip_string nx) \<noteq> None" and "length nx = 4"
  shows "host_addr ipn nx"
proof -
  obtain l where l: "map_of leases (ip_string nx) = Some l" using assms(2) by blast
  then have "l \<in> set (map snd leases)" by (simp add: map_of_Some_val)
  moreover have "le_ipv4 l = ip_string nx" using assms(1) l by (auto simp: leases_ok_def dest: keyed_Some)
  ultimately have "is_host ipn (ip_string nx)" using assms(1) unfolding leases_ok_def by metis
  then obtain a where a: "host_addr ipn a" "ip_string nx = ip_string a" by (auto simp: is_host_def)
  then have "nx = a" using assms(3) ip_string_inj [of nx a] by (simp add: host_addr_def)
  with a show ?thesis by simp
qed

lemma host_contained: "v4net ipn n \<Longrightarrow> host_addr ipn a \<Longrightarrow> net_contains ipn a"
  by (auto simp: host_addr_def contains_iff)

lemma frontier_recompute_loop:
  assumes "v4net ipn n" and "0 < n" and "leases_ok ipn net leases"
  shows "frontier ipn leases nx \<Longrightarrow> map_of leases (ip_string nx) \<noteq> None \<Longrightarrow>
    frontier ipn leases (recompute_loop f leases nx)"
proof (induction f arbitrary: nx)
  case 0
  then show ?case by simp
next
  case (Suc f)
  have "host_addr ipn nx"
    using taken_host [OF assms(3) Suc.prems(2)] Suc.prems(1) by (simp add: frontier_def)
  then have "frontier ipn leases (nextIP nx 1)"
    using Suc.prems(2) by (intro frontier_step [OF assms(1,2) Suc.prems(1) host_contained [OF assms(1)]]) simp_all
  then show ?case
    using Suc by (simp add: Let_def)
qed

lemma frontier_recompute:
  "v4net ipn n \<Longrightarrow> 0 < n \<Longrightarrow> leases_ok ipn net leases \<Longrightarrow> frontier ipn leases (recompute_next ipn leases)"
  using frontier_first frontier_recompute_loop by (auto simp: recompute_next_def Let_def)

text \<open>The leases of one network, and how loading and allocating change them.\<close>

definition leases_of :: "lease_store \<Rightarrow> string \<Rightarrow> (string, lease) gomap" where
  "leases_of ls net = (case map_of (ls_nets ls) net of None \<Rightarrow> [] | Some st \<Rightarrow> ns_leases st)"

definition file_leases :: "lease list \<Rightarrow> string \<Rightarrow> (string, lease) gomap" where
  "file_leases ll net = index_by le_ipv4 (filter (\<lambda>l. le_network l = net) ll)"

definition lfile_ok :: "ipnet \<Rightarrow> lease list file_read \<Rightarrow> bool" where
  "lfile_ok ipn f = (case f of Content ll \<Rightarrow> (\<forall>net. leases_ok ipn net (file_leases ll net)) | _ \<Rightarrow> True)"

lemma leases_of_put [simp]:
  "leases_of (ls\<lparr>ls_nets := put net st nets\<rparr>) m = (if m = net then ns_leases st else leases_of (ls\<lparr>ls_nets := nets\<rparr>) m)"
  by (simp add: leases_of_def)

lemma leases_of_self [simp]:
  "leases_of (ls\<lparr>ls_nets := ls_nets ls\<rparr>) m = leases_of ls m"
  "leases_of (ls\<lparr>ls_file := f\<rparr>) m = leases_of ls m"
  by (simp_all add: leases_of_def)

lemma leases_of_recompute [simp]: "leases_of (recomputeNextLocked ls) net = leases_of ls net"
  by (simp add: leases_of_def recomputeNextLocked_def map_of_map split: option.split)

lemma load_lease_leases:
  "leases_of (load_lease ls l) net =
     (if net = le_network l then put (le_ipv4 l) l (leases_of ls net) else leases_of ls net)"
  by (simp add: load_lease_def getStateLocked_def leases_of_def Let_def split: option.splits)

lemma leases_of_load: "leases_of (load_leases ipn ll) net = file_leases ll net"
proof -
  have "leases_of (foldl load_lease ls ll) net =
      foldl (\<lambda>m l. put (le_ipv4 l) l m) (leases_of ls net) (filter (\<lambda>l. le_network l = net) ll)" for ls
    by (induction ll arbitrary: ls) (simp_all add: load_lease_leases)
  then show ?thesis
    by (simp add: load_leases_def file_leases_def index_by_def leases_of_def [of "\<lparr>ls_ipn = _, ls_nets = _, ls_file = _\<rparr>"])
qed

lemma load_leases_struct:
  "wf_map (ls_nets (load_leases ipn ll)) \<and> ls_ipn (load_leases ipn ll) = ipn \<and> ls_file (load_leases ipn ll) = Content ll"
proof -
  have "wf_map (ls_nets ls) \<Longrightarrow> wf_map (ls_nets (foldl load_lease ls ll)) \<and> ls_ipn (foldl load_lease ls ll) = ls_ipn ls
      \<and> ls_file (foldl load_lease ls ll) = ls_file ls" for ls
    by (induction ll arbitrary: ls) (simp_all add: load_lease_def getStateLocked_def Let_def split: option.split)
  moreover have "map fst (map (\<lambda>(k, st). (k, g k st)) m) = map fst m"
    for g :: "string \<Rightarrow> net_state \<Rightarrow> net_state" and m
    by (induction m) auto
  ultimately show ?thesis
    by (simp add: load_leases_def recomputeNextLocked_def wf_map_def del: map_map)
qed

lemma ls_ok_load:
  assumes "v4net ipn n" and "0 < n" and "lfile_ok ipn (Content ll)"
  shows "ls_ok n (load_leases ipn ll)"
proof -
  let ?ls = "load_leases ipn ll"
  have wf: "wf_map (ls_nets ?ls)" and ipn: "ls_ipn ?ls = ipn" using load_leases_struct by auto
  have "net_ok ipn net st" if st: "(net, st) \<in> set (ls_nets ?ls)" for net st
  proof -
    have "ns_leases st = file_leases ll net"
      using st wf leases_of_load [of ipn ll net] by (simp add: leases_of_def flip: wf_map_Some_iff)
    then have ok: "leases_ok ipn net (ns_leases st)" using assms(3) by (simp add: lfile_ok_def)
    have "ns_next st = recompute_next ipn (ns_leases st)"
      using st ipn by (auto simp: load_leases_def recomputeNextLocked_def)
    then show ?thesis using ok frontier_recompute [OF assms(1,2) ok] by (simp add: net_ok_def)
  qed
  then show ?thesis using assms wf ipn by (auto simp: ls_ok_def)
qed


lemma filter_leases:
  "distinct (map fst nets) \<Longrightarrow> \<forall>(k, st) \<in> set nets. \<forall>l \<in> set (map snd (ns_leases st)). le_network l = k \<Longrightarrow>
     filter (\<lambda>l. le_network l = net) (concat (map (\<lambda>(k, st). map snd (ns_leases st)) nets)) =
       (case map_of nets net of None \<Rightarrow> [] | Some st \<Rightarrow> map snd (ns_leases st))"
proof (induction nets)
  case Nil
  then show ?case by simp
next
  case (Cons e nets)
  obtain k st where e: "e = (k, st)" by fastforce
  have own: "\<forall>l \<in> set (map snd (ns_leases st)). le_network l = k" using Cons.prems(2) by (auto simp: e)
  have rest: "filter (\<lambda>l. le_network l = net) (concat (map (\<lambda>(k, st). map snd (ns_leases st)) nets)) =
       (case map_of nets net of None \<Rightarrow> [] | Some st \<Rightarrow> map snd (ns_leases st))"
    using Cons.prems by (intro Cons.IH) auto
  show ?case
  proof (cases "k = net")
    case True
    then have "map_of nets net = None" using Cons.prems(1) by (auto simp: e map_of_eq_None_iff)
    moreover have "filter (\<lambda>l. le_network l = net) (map snd (ns_leases st)) = map snd (ns_leases st)"
      using own True by (intro filter_True) simp
    ultimately show ?thesis using rest by (simp add: e True)
  next
    case False
    then have "filter (\<lambda>l. le_network l = net) (map snd (ns_leases st)) = []"
      using own by (simp add: filter_empty_conv)
    then show ?thesis using rest False by (simp add: e)
  qed
qed

lemma leases_ok_of: "ls_ok n ls \<Longrightarrow> leases_ok (ls_ipn ls) net (leases_of ls net)"
proof (cases "map_of (ls_nets ls) net")
  case None
  then show ?thesis by (simp add: leases_of_def leases_ok_def)
next
  case (Some st)
  assume "ls_ok n ls"
  then show ?thesis
    using Some by (auto simp: ls_ok_def leases_of_def net_ok_def dest: map_of_SomeD)
qed

lemma file_leases_all: "ls_ok n ls \<Longrightarrow> file_leases (all_leases ls) net = leases_of ls net"
proof -
  assume ls: "ls_ok n ls"
  have "filter (\<lambda>l. le_network l = net) (all_leases ls) = map snd (leases_of ls net)"
    unfolding all_leases_def leases_of_def using ls
    by (subst filter_leases) (auto simp: ls_ok_def wf_map_def net_ok_def leases_ok_def split: option.split)
  then show ?thesis
    using leases_ok_of [OF ls, of net] by (simp add: file_leases_def index_by_keyed leases_ok_def)
qed

lemma lfile_ok_save: "ls_ok n ls \<Longrightarrow> lfile_ok (ls_ipn ls) (ls_file ls) \<Longrightarrow>
    lfile_ok (ls_ipn ls) (ls_file (fst (save_leases io ls)))"
  using leases_ok_of file_leases_all
  by (simp add: save_leases_def save_file_def lfile_ok_def)

lemma ls_ok_file [simp]: "ls_ok n (ls\<lparr>ls_file := f\<rparr>) = ls_ok n ls"
  by (simp add: ls_ok_def)

lemma save_leases_simps [simp]:
  "ls_nets (fst (save_leases io ls)) = ls_nets ls" "ls_ipn (fst (save_leases io ls)) = ls_ipn ls"
  "leases_of (fst (save_leases io ls)) net = leases_of ls net" "ls_ok n (fst (save_leases io ls)) = ls_ok n ls"
  by (simp_all add: save_leases_def)

lemma ls_ok_put:
  "ls_ok n ls \<Longrightarrow> net_ok (ls_ipn ls) net st \<Longrightarrow> ls_ok n (ls\<lparr>ls_nets := put net st (ls_nets ls)\<rparr>)"
  by (auto simp: ls_ok_def set_put)

lemma getState:
  assumes "ls_ok n ls" and "getStateLocked net ls = (ls1, st)"
  shows "ls_ok n ls1" "net_ok (ls_ipn ls) net st" "ls_ipn ls1 = ls_ipn ls" "ls_file ls1 = ls_file ls"
    "ns_leases st = leases_of ls net" "leases_of ls1 m = leases_of ls m"
proof -
  have "net_ok (ls_ipn ls) net \<lparr>ns_next = first_ip (ls_ipn ls), ns_leases = []\<rparr>"
    using assms(1) by (auto simp: net_ok_def leases_ok_def ls_ok_def intro: frontier_first)
  then show ok: "net_ok (ls_ipn ls) net st"
    using assms by (auto simp: getStateLocked_def ls_ok_def Let_def split: option.splits dest: map_of_SomeD)
  show "ls_ipn ls1 = ls_ipn ls" "ls_file ls1 = ls_file ls" "ns_leases st = leases_of ls net"
    and "leases_of ls1 m = leases_of ls m"
    using assms(2) by (auto simp: getStateLocked_def leases_of_def Let_def split: option.splits if_splits)
  show "ls_ok n ls1"
    using assms ok by (auto simp: getStateLocked_def Let_def ls_ok_put split: option.splits)
qed

lemma device_lease_Some:
  assumes "leases_ok ipn net leases"
  shows "device_lease dev leases = Some l \<longleftrightarrow> map_of leases (le_ipv4 l) = Some l \<and> le_device l = dev"
proof -
  have keys: "keyed le_ipv4 leases" and dist: "distinct (map (\<lambda>e. le_device (snd e)) leases)"
    using assms by (simp_all add: leases_ok_def)
  have "device_lease dev leases = Some l \<longleftrightarrow> (\<exists>k. (k, l) \<in> set leases \<and> le_device l = dev)"
    using dist
  proof (induction leases)
    case Nil
    then show ?case by (simp add: device_lease_def)
  next
    case (Cons e es)
    then show ?case by (cases e) (force simp: device_lease_def)
  qed
  also have "\<dots> \<longleftrightarrow> map_of leases (le_ipv4 l) = Some l \<and> le_device l = dev"
    using keys by (auto simp: keyed_def wf_map_Some_iff)
  finally show ?thesis .
qed

lemma device_lease_None: "device_lease dev leases = None \<longleftrightarrow> dev \<notin> set (map (\<lambda>e. le_device (snd e)) leases)"
  by (induction leases) (auto simp: device_lease_def)


text \<open>The three outcomes of \<^verbatim>\<open>Allocate\<close>.\<close>

lemma leases_ok_same_device:
  assumes "leases_ok ipn net m" and "map_of m k = Some l" and "le_device l' = le_device l"
    and "le_ipv4 l' = le_ipv4 l" and "le_network l' = le_network l"
  shows "leases_ok ipn net (put k l' m)"
proof -
  have "le_ipv4 l = k" using assms(1,2) by (auto simp: leases_ok_def dest: keyed_Some)
  moreover have "l \<in> set (map snd m)" using assms(2) by (simp add: map_of_Some_val)
  moreover have "wf_map m" using assms(1) by (auto simp: leases_ok_def)
  ultimately show ?thesis
    using assms map_put_same [OF assms(2), of le_device l'] by (auto simp: leases_ok_def set_put)
qed

lemma leases_ok_new:
  assumes "leases_ok ipn net m" and "map_of m (le_ipv4 l) = None" and "is_host ipn (le_ipv4 l)"
    and "le_network l = net" and "device_lease (le_device l) m = None"
  shows "leases_ok ipn net (put (le_ipv4 l) l m)"
proof -
  have "put (le_ipv4 l) l m = m @ [(le_ipv4 l, l)]"
    using assms(2) by (intro put_fresh) (simp add: map_of_eq_None_iff)
  moreover have "keyed le_ipv4 (put (le_ipv4 l) l m)" using assms(1) by (simp add: leases_ok_def keyed_put)
  ultimately show ?thesis
    using assms by (auto simp: leases_ok_def device_lease_None)
qed

lemma Allocate_known:
  assumes "ls_ok n ls" and "device_lease dev (leases_of ls net) = Some l"
    and "Allocate io now net acc dev ls = (t, r)"
  shows "r = Inr (l\<lparr>le_account := acc\<rparr>) \<and> ls_ok n t \<and> ls_ipn t = ls_ipn ls \<and> ls_file t = ls_file ls
    \<and> (\<forall>m. leases_of t m =
        (if m = net then put (le_ipv4 l) (l\<lparr>le_account := acc\<rparr>) (leases_of ls net) else leases_of ls m))"
proof -
  obtain ls1 st where g: "getStateLocked net ls = (ls1, st)" by fastforce
  note gs = getState [OF assms(1) g]
  let ?m = "put (le_ipv4 l) (l\<lparr>le_account := acc\<rparr>) (ns_leases st)"
  let ?st = "st\<lparr>ns_leases := ?m\<rparr>"
  have t: "t = ls1\<lparr>ls_nets := put net ?st (ls_nets ls1)\<rparr>" and r: "r = Inr (l\<lparr>le_account := acc\<rparr>)"
    using assms(2,3) by (simp_all add: Allocate_def g gs(5) Let_def)
  have ok: "leases_ok (ls_ipn ls) net (ns_leases st)" and fr: "frontier (ls_ipn ls) (ns_leases st) (ns_next st)"
    using gs(2) by (simp_all add: net_ok_def)
  have "map_of (ns_leases st) (le_ipv4 l) = Some l"
    using assms(2) device_lease_Some [OF ok] by (simp add: gs(5))
  then have "leases_ok (ls_ipn ls) net ?m" by (intro leases_ok_same_device [OF ok]) simp_all
  then have "net_ok (ls_ipn ls1) net ?st" using fr by (simp add: net_ok_def frontier_put gs(3))
  then have "ls_ok n t" unfolding t by (rule ls_ok_put [OF gs(1)])
  then show ?thesis using r t gs by simp
qed

lemma Allocate_new:
  assumes "ls_ok n ls" and "device_lease dev (leases_of ls net) = None"
    and "Allocate io now net acc dev ls = (t, r)"
  shows "ls_ok n t \<and> ls_ipn t = ls_ipn ls \<and> (\<forall>m. m \<noteq> net \<longrightarrow> leases_of t m = leases_of ls m) \<and>
    (r = Inl ErrExhausted \<and> leases_of t net = leases_of ls net \<and> ls_file t = ls_file ls
       \<and> (16 \<le> n \<longrightarrow> (\<forall>a. host_addr (ls_ipn ls) a \<longrightarrow> map_of (leases_of ls net) (ip_string a) \<noteq> None))
     \<or> (\<exists>l. le_network l = net \<and> le_account l = acc \<and> le_device l = dev \<and> is_host (ls_ipn ls) (le_ipv4 l)
       \<and> map_of (leases_of ls net) (le_ipv4 l) = None
       \<and> leases_of t net = put (le_ipv4 l) l (leases_of ls net)
       \<and> ls_file t = save_file io (all_leases t) (ls_file ls)
       \<and> r = (if io then Inr l else Inl ErrLeaseSave)))"
proof -
  obtain ls1 st where g: "getStateLocked net ls = (ls1, st)" by fastforce
  note gs = getState [OF assms(1) g]
  have v4: "v4net (ls_ipn ls) n" "0 < n" using assms(1) by (simp_all add: ls_ok_def)
  have ok: "leases_ok (ls_ipn ls) net (ns_leases st)" and fr: "frontier (ls_ipn ls) (ns_leases st) (ns_next st)"
    using gs(2) by (simp_all add: net_ok_def)
  have dev: "device_lease dev (ns_leases st) = None" using assms(2) by (simp add: gs(5))
  obtain nx res where loop: "alloc_loop 65536 (ls_ipn ls) (ns_leases st) (ns_next st) = (nx, res)" by fastforce
  show ?thesis
  proof (cases res)
    case None
    then have t: "t = ls1\<lparr>ls_nets := put net (st\<lparr>ns_next := nx\<rparr>) (ls_nets ls1)\<rparr>" and r: "r = Inl ErrExhausted"
      using assms(3) dev by (simp_all add: Allocate_def g loop)
    have spec: "frontier (ls_ipn ls) (ns_leases st) nx \<and>
        (net_contains (ls_ipn ls) (ns_next st) \<longrightarrow> bcast_num (ls_ipn ls) - be_num (ns_next st) < 65536 \<longrightarrow>
          \<not> net_contains (ls_ipn ls) nx)"
      using alloc_loop_spec [OF v4 fr loop] None by simp
    have "\<not> net_contains (ls_ipn ls) nx" if "16 \<le> n"
    proof (cases "net_contains (ls_ipn ls) (ns_next st)")
      case True
      then have "base_num (ls_ipn ls) < be_num (ns_next st)" using fr by (simp add: frontier_def)
      moreover have "(2 :: nat) ^ (32 - n) \<le> 2 ^ 16" using that by (intro power_increasing) simp_all
      ultimately have "bcast_num (ls_ipn ls) - be_num (ns_next st) < 65536"
        unfolding bcast_num_eq [OF v4(1)] by simp
      with True spec show ?thesis by blast
    next
      case False
      then have "nx = ns_next st"
        using loop by (metis alloc_loop.simps(2) fst_conv numeral_eq_Suc)
      with False show ?thesis by simp
    qed
    then have full: "16 \<le> n \<longrightarrow> (\<forall>a. host_addr (ls_ipn ls) a \<longrightarrow> map_of (leases_of ls net) (ip_string a) \<noteq> None)"
      using spec gs(5) by (simp add: frontier_def)
    have "ls_ok n t" unfolding t using spec ok by (intro ls_ok_put gs(1)) (simp add: net_ok_def gs(3))
    with full r t gs show ?thesis by simp
  next
    case (Some s)
    define l where "l = \<lparr>le_network = net, le_account = acc, le_device = dev, le_ipv4 = s, le_at = now\<rparr>"
    let ?st = "\<lparr>ns_next = nx, ns_leases = put s l (ns_leases st)\<rparr>"
    let ?t = "ls1\<lparr>ls_nets := put net ?st (ls_nets ls1)\<rparr>"
    have t: "t = fst (save_leases io ?t)" and r: "r = (if io then Inr l else Inl ErrLeaseSave)"
      using assms(3) dev Some by (cases io; simp add: Allocate_def g loop l_def save_leases_def Let_def)+
    have spec: "is_host (ls_ipn ls) s \<and> map_of (ns_leases st) s = None \<and> frontier (ls_ipn ls) (put s l (ns_leases st)) nx"
      using alloc_loop_spec [OF v4 fr loop] Some by simp
    have "leases_ok (ls_ipn ls) net (put s l (ns_leases st))"
      using leases_ok_new [OF ok, of l] spec dev by (simp add: l_def)
    then have okt: "ls_ok n ?t" using spec by (intro ls_ok_put gs(1)) (simp add: net_ok_def gs(3))
    have "ls_file t = save_file io (all_leases t) (ls_file ls)"
      by (simp add: t save_leases_def all_leases_def gs(4))
    moreover have "leases_of t m = (if m = net then put s l (leases_of ls net) else leases_of ls m)" for m
      by (simp add: t gs l_def)
    moreover have "ls_ok n t" and "ls_ipn t = ls_ipn ls" using okt by (simp_all add: t gs l_def)
    ultimately show ?thesis
      using spec r gs(5) by (intro conjI disjI2 exI [of _ l]) (simp_all add: l_def)
  qed
qed


subsection \<open>Runs of the store\<close>

definition ls_inv :: "nat \<Rightarrow> lease_store \<Rightarrow> bool" where
  "ls_inv n ls \<longleftrightarrow> ls_ok n ls \<and> lfile_ok (ls_ipn ls) (ls_file ls)"

inductive lease_step :: "lease_store \<Rightarrow> lease_store \<Rightarrow> bool" where
  lst_alloc: "Allocate io now net acc dev s = (t, r) \<Longrightarrow> lease_step s t"
| lst_restart: "OpenLeases ok (ls_file s) cidr = Inr t \<Longrightarrow> ls_ipn t = ls_ipn s \<Longrightarrow> lease_step s t"

text \<open>The store of a first start with an IPv4 network of prefix length \<open>n\<close>.\<close>

definition lease_init :: "nat \<Rightarrow> lease_store \<Rightarrow> bool" where
  "lease_init n s \<longleftrightarrow> (\<exists>ok cidr. OpenLeases ok Absent cidr = Inr s) \<and> v4net (ls_ipn s) n \<and> 0 < n"

lemma OpenLeases_cases:
  assumes "OpenLeases ok raw cidr = Inr t"
  obtains (fresh) "raw = Absent" "ls_nets t = []" "ls_file t = Absent"
    | (loaded) ll where "raw = Content ll" "t = load_leases (ls_ipn t) ll"
  using assms load_leases_struct unfolding OpenLeases_def Let_def
  by (auto split: option.splits prod.splits if_splits file_read.splits)

lemma ls_inv_init: "lease_init n s \<Longrightarrow> ls_inv n s"
  unfolding lease_init_def by (auto elim!: OpenLeases_cases simp: ls_inv_def ls_ok_def lfile_ok_def)

lemma Allocate_inv:
  assumes "ls_inv n s" and "Allocate io now net acc dev s = (t, r)"
  shows "ls_inv n t \<and> ls_ipn t = ls_ipn s"
proof -
  have ok: "ls_ok n s" and lf: "lfile_ok (ls_ipn s) (ls_file s)" using assms(1) by (simp_all add: ls_inv_def)
  show ?thesis
  proof (cases "device_lease dev (leases_of s net)")
    case (Some l)
    from Allocate_known [OF ok Some assms(2)] show ?thesis using lf by (simp add: ls_inv_def)
  next
    case None
    note new = Allocate_new [OF ok None assms(2)]
    then have "ls_file t = ls_file s \<or> (\<exists>io. ls_file t = save_file io (all_leases t) (ls_file s))"
      by blast
    then have "lfile_ok (ls_ipn t) (ls_file t)"
      using new lf leases_ok_of [of n t] file_leases_all [of n t]
      by (auto simp: save_file_def lfile_ok_def)
    with new show ?thesis by (simp add: ls_inv_def)
  qed
qed

lemma ls_inv_step: "lease_step s t \<Longrightarrow> ls_inv n s \<Longrightarrow> ls_inv n t \<and> ls_ipn t = ls_ipn s"
proof (induction rule: lease_step.induct)
  case (lst_alloc io now net acc dev s t r)
  then show ?case using Allocate_inv by blast
next
  case (lst_restart ok s cidr t)
  then have v4: "v4net (ls_ipn s) n" "0 < n" by (simp_all add: ls_inv_def ls_ok_def)
  from lst_restart.hyps(1) show ?case
  proof (cases rule: OpenLeases_cases)
    case fresh
    with lst_restart v4 show ?thesis by (simp add: ls_inv_def ls_ok_def lfile_ok_def)
  next
    case (loaded ll)
    then have t: "t = load_leases (ls_ipn s) ll" using lst_restart.hyps(2) by simp
    have "lfile_ok (ls_ipn s) (Content ll)" using lst_restart.prems loaded by (simp add: ls_inv_def)
    with v4 show ?thesis unfolding t ls_inv_def using load_leases_struct ls_ok_load by simp
  qed
qed

interpretation lease_sys: transition_system "lease_init n" lease_step "ls_inv n" for n
  by unfold_locales (auto simp: ls_inv_init ls_inv_step)

interpretation lease_run: transition_system "(=) s0" lease_step "\<lambda>s. ls_inv n s0 \<longrightarrow> ls_inv n s \<and> ls_ipn s = ls_ipn s0"
  for s0 n
  by unfold_locales (auto simp: ls_inv_step)

lemma in_Array: "ls_ok n s \<Longrightarrow> l \<in> set (Array s) \<longleftrightarrow> (\<exists>net. map_of (leases_of s net) (le_ipv4 l) = Some l \<and> le_network l = net)"
proof -
  assume ls: "ls_ok n s"
  have mem: "map_of (leases_of s net) (le_ipv4 l) = Some l \<longleftrightarrow> (le_ipv4 l, l) \<in> set (leases_of s net)" for net
  proof (rule wf_map_Some_iff)
    show "wf_map (leases_of s net)" using leases_ok_of [OF ls, of net] by (auto simp: leases_ok_def)
  qed
  have "l \<in> set (Array s) \<longleftrightarrow> (\<exists>net st. (net, st) \<in> set (ls_nets s) \<and> l \<in> set (map snd (ns_leases st)))"
    by (auto simp: Array_def all_leases_def)
  also have "\<dots> \<longleftrightarrow> (\<exists>net. l \<in> set (map snd (leases_of s net)))"
  proof -
    have "(net, st) \<in> set (ls_nets s) \<longleftrightarrow> map_of (ls_nets s) net = Some st" for net st
      using ls by (simp add: ls_ok_def wf_map_Some_iff)
    moreover have "l \<in> set (map snd (leases_of s net)) \<longleftrightarrow>
        (\<exists>st. map_of (ls_nets s) net = Some st \<and> l \<in> set (map snd (ns_leases st)))" for net
      by (cases "map_of (ls_nets s) net") (simp_all add: leases_of_def)
    ultimately show ?thesis by simp
  qed
  also have "\<dots> \<longleftrightarrow> (\<exists>net. map_of (leases_of s net) (le_ipv4 l) = Some l \<and> le_network l = net)"
  proof -
    have own: "l \<in> set (map snd m) \<longleftrightarrow> (le_ipv4 l, l) \<in> set m \<and> le_network l = net"
      if "leases_ok (ls_ipn s) net m" for m net
    proof
      assume "l \<in> set (map snd m)"
      then obtain k where k: "(k, l) \<in> set m" by auto
      then have "le_ipv4 l = k" "le_network l = net" using that by (auto simp: leases_ok_def keyed_def)
      with k show "(le_ipv4 l, l) \<in> set m \<and> le_network l = net" by simp
    qed force
    show ?thesis unfolding mem own [OF leases_ok_of [OF ls]] ..
  qed
  finally show ?thesis .
qed

text \<open>
  C6. In every state the lease store can reach from a first start, through allocations (with
  working or failing disk) and restarts: within one network no two leases share an address or
  a device, and every leased address is a host address of the configured subnet, neither the
  network address nor the broadcast address.
\<close>

theorem leases_unique:
  assumes "reach (lease_init n) lease_step s"
    and "l1 \<in> set (Array s)" and "l2 \<in> set (Array s)" and "le_network l1 = le_network l2"
  shows "is_host (ls_ipn s) (le_ipv4 l1) \<and>
    (le_ipv4 l1 = le_ipv4 l2 \<or> le_device l1 = le_device l2 \<longrightarrow> l1 = l2)"
proof -
  have "ls_ok n s" using lease_sys.reach_inv [OF assms(1)] by (simp add: ls_inv_def)
  note ok = leases_ok_of [OF this, of "le_network l1"] and mem = in_Array [OF this]
  have m1: "map_of (leases_of s (le_network l1)) (le_ipv4 l1) = Some l1"
    and m2: "map_of (leases_of s (le_network l1)) (le_ipv4 l2) = Some l2"
    using assms(2-4) mem by auto
  then have "l1 \<in> set (map snd (leases_of s (le_network l1)))"
    by (simp add: map_of_Some_val)
  then have "is_host (ls_ipn s) (le_ipv4 l1)" using ok unfolding leases_ok_def by blast
  moreover have "le_device l1 = le_device l2 \<Longrightarrow> l1 = l2"
    using m1 m2 device_lease_Some [OF ok] by (metis option.inject)
  moreover have "l1 = l2" if "le_ipv4 l1 = le_ipv4 l2"
  proof -
    from m1 have "map_of (leases_of s (le_network l1)) (le_ipv4 l2) = Some l1" unfolding that .
    then have "Some l1 = Some l2" using m2 by (rule trans [OF sym])
    then show ?thesis by simp
  qed
  ultimately show ?thesis by blast
qed


definition sample_leases :: lease_store where
  "sample_leases = \<lparr>ls_ipn = \<lparr>net_ip = [10, 0, 0, 0], net_mask = [255, 255, 255, 252]\<rparr>, ls_nets = [], ls_file = Absent\<rparr>"

lemma sample_leases_init: "lease_init 30 sample_leases"
proof -
  have "OpenLeases True Absent ''10.0.0.0/30'' = Inr sample_leases"
    by code_simp
  moreover have "v4net (ls_ipn sample_leases) 30" by code_simp
  ultimately show ?thesis unfolding lease_init_def by auto
qed


text \<open>Evaluating \<^verbatim>\<open>Allocate\<close> on concrete stores.\<close>

lemma alloc_loop_numeral:
  "alloc_loop (numeral k) ipn leases nx =
     (if \<not> net_contains ipn nx then (nx, None)
      else if ip_equal nx (broadcastAddr ipn) then alloc_loop (pred_numeral k) ipn leases (nextIP nx 1)
      else if map_of leases (ip_string nx) \<noteq> None then alloc_loop (pred_numeral k) ipn leases (nextIP nx 1)
      else (nextIP nx 1, Some (ip_string nx)))"
  by (simp add: numeral_eq_Suc Let_def)

lemmas alloc_simps = Allocate_def getStateLocked_def sample_leases_def first_ip_def nextIP_def to4_def
  net_contains_def network_number_def broadcastAddr_def ip_equal_def device_lease_def save_leases_def
  save_file_def all_leases_def alloc_loop_numeral Let_def

definition sample_leases1 :: lease_store where
  "sample_leases1 = fst (Allocate True 1 ''n'' ''n'' ''d1'' sample_leases)"
definition sample_leases2 :: lease_store where
  "sample_leases2 = fst (Allocate True 2 ''n'' ''n'' ''d2'' sample_leases1)"

definition sample_lease :: "string \<Rightarrow> byte \<Rightarrow> time \<Rightarrow> lease" where
  "sample_lease dev b now = \<lparr>le_network = ''n'', le_account = ''n'', le_device = dev,
     le_ipv4 = dotted 10 0 0 b, le_at = now\<rparr>"

lemma sample_leases1_eq:
  "Allocate True 1 ''n'' ''n'' ''d1'' sample_leases = (sample_leases1, Inr (sample_lease ''d1'' 1 1))"
  "sample_leases1 = sample_leases\<lparr>ls_nets := [(''n'', \<lparr>ns_next = [10, 0, 0, 2],
       ns_leases = [(dotted 10 0 0 1, sample_lease ''d1'' 1 1)]\<rparr>)],
     ls_file := Content [sample_lease ''d1'' 1 1]\<rparr>"
  by (simp_all add: sample_leases1_def alloc_simps sample_lease_def)

lemma sample_leases2_eq:
  "Allocate True 2 ''n'' ''n'' ''d2'' sample_leases1 = (sample_leases2, Inr (sample_lease ''d2'' 2 2))"
  "sample_leases2 = sample_leases\<lparr>ls_nets := [(''n'', \<lparr>ns_next = [10, 0, 0, 3],
       ns_leases = [(dotted 10 0 0 1, sample_lease ''d1'' 1 1), (dotted 10 0 0 2, sample_lease ''d2'' 2 2)]\<rparr>)],
     ls_file := Content [sample_lease ''d1'' 1 1, sample_lease ''d2'' 2 2]\<rparr>"
  by (simp_all add: sample_leases2_def sample_leases1_eq(2) alloc_simps sample_lease_def)

lemma sample_reach:
  "reach (lease_init 30) lease_step sample_leases1" "reach (lease_init 30) lease_step sample_leases2"
proof -
  show "reach (lease_init 30) lease_step sample_leases1"
    by (rule reach_step [where step = lease_step, OF reach_init [where init = "lease_init 30", OF sample_leases_init] lst_alloc [OF sample_leases1_eq(1)]])
  then show "reach (lease_init 30) lease_step sample_leases2"
    by (rule reach_step [where step = lease_step, OF _ lst_alloc [OF sample_leases2_eq(1)]])
qed

lemma leases_unique_witness:
  "is_host (ls_ipn sample_leases2) (le_ipv4 (sample_lease ''d1'' 1 1))
    \<and> le_ipv4 (sample_lease ''d1'' 1 1) \<noteq> le_ipv4 (sample_lease ''d2'' 2 2)"
proof -
  have "sample_lease ''d1'' 1 1 \<in> set (Array sample_leases2)" "sample_lease ''d2'' 2 2 \<in> set (Array sample_leases2)"
    "le_network (sample_lease ''d1'' 1 1) = le_network (sample_lease ''d2'' 2 2)"
    "sample_lease ''d1'' 1 1 \<noteq> sample_lease ''d2'' 2 2"
    by (simp_all add: Array_def all_leases_def sample_leases2_eq(2)) (simp_all add: sample_lease_def)
  with leases_unique [OF sample_reach(2), of "sample_lease ''d1'' 1 1" "sample_lease ''d2'' 2 2"] show ?thesis by blast
qed

text \<open>
  \<^verbatim>\<open>Allocate\<close> reports an exhausted network only when it is full: in a reachable store over a
  subnet of at most 65536 addresses, every host address of the subnet is then leased in that
  network. (The search never stops early, whatever has been skipped or reloaded.)
\<close>

theorem Allocate_complete:
  assumes "reach (lease_init n) lease_step s" and "16 \<le> n"
    and "Allocate io now net acc dev s = (t, Inl ErrExhausted)" and "host_addr (ls_ipn s) a"
  shows "\<exists>l \<in> set (Array s). le_network l = net \<and> le_ipv4 l = ip_string a \<and> le_device l \<noteq> dev"
proof -
  have ok: "ls_ok n s" using lease_sys.reach_inv [OF assms(1)] by (simp add: ls_inv_def)
  note lok = leases_ok_of [OF ok, of net]
  have none: "device_lease dev (leases_of s net) = None"
    using Allocate_known [OF ok _ assms(3)] by fastforce
  with Allocate_new [OF ok none assms(3)] assms(2,4)
  have "map_of (leases_of s net) (ip_string a) \<noteq> None" by (auto split: if_splits)
  then obtain l where l: "map_of (leases_of s net) (ip_string a) = Some l" by blast
  then have ip: "le_ipv4 l = ip_string a" using lok by (auto simp: leases_ok_def dest: keyed_Some)
  have "le_network l = net" using lok l unfolding leases_ok_def by (metis image_set map_of_Some_val)
  moreover have "l \<in> set (Array s)" using in_Array [OF ok] l ip calculation by simp
  moreover have "le_device l \<noteq> dev"
    using none l device_lease_Some [OF lok, of dev l] ip by auto
  ultimately show ?thesis using ip by blast
qed

lemma sample_host: "host_addr (ls_ipn sample_leases2) [10, 0, 0, 2]"
  by (simp add: host_addr_def sample_leases2_eq(2) sample_leases_def broadcastAddr_def)

lemma Allocate_complete_witness:
  "\<exists>l \<in> set (Array sample_leases2). le_network l = ''n'' \<and> le_ipv4 l = ip_string [10, 0, 0, 2] \<and> le_device l \<noteq> ''d3''"
proof (rule Allocate_complete [OF sample_reach(2)])
  show "Allocate True 3 ''n'' ''n'' ''d3'' sample_leases2 = (sample_leases2\<lparr>ls_nets := [(''n'', \<lparr>ns_next = [10, 0, 0, 4],
       ns_leases = [(dotted 10 0 0 1, sample_lease ''d1'' 1 1), (dotted 10 0 0 2, sample_lease ''d2'' 2 2)]\<rparr>)]\<rparr>,
     Inl ErrExhausted)"
    by (simp add: sample_leases2_eq(2) alloc_simps sample_lease_def)
qed (simp_all add: sample_host)

text \<open>A device's address, in memory and in the file.\<close>

definition lbound :: "string \<Rightarrow> string \<Rightarrow> string \<Rightarrow> lease_store \<Rightarrow> bool" where
  "lbound net dev ip s \<longleftrightarrow> (\<exists>l. map_of (leases_of s net) ip = Some l \<and> le_device l = dev)
     \<and> (\<exists>ll l. ls_file s = Content ll \<and> map_of (file_leases ll net) ip = Some l \<and> le_device l = dev)"

lemma lbound_step:
  assumes "lease_step s t" and "ls_inv n s" and "lbound net dev ip s"
  shows "lbound net dev ip t"
  using assms
proof (induction rule: lease_step.induct)
  case (lst_alloc io now net' acc dev' s t r)
  have ok: "ls_ok n s" using lst_alloc.prems by (simp add: ls_inv_def)
  obtain l where l: "map_of (leases_of s net) ip = Some l" "le_device l = dev"
    using lst_alloc.prems by (auto simp: lbound_def)
  show ?case
  proof (cases "device_lease dev' (leases_of s net')")
    case (Some l')
    have "map_of (leases_of s net') (le_ipv4 l') = Some l'"
      using Some device_lease_Some [OF leases_ok_of [OF ok]] by blast
    then show ?thesis
      using Allocate_known [OF ok Some lst_alloc.hyps] lst_alloc.prems l by (auto simp: lbound_def)
  next
    case None
    note new = Allocate_new [OF ok None lst_alloc.hyps]
    then have "map_of (leases_of t net) ip = Some l"
      using l(1) by (cases "net' = net") auto
    moreover have "file_leases (all_leases t) net = leases_of t net"
      using new by (intro file_leases_all) blast
    ultimately show ?thesis
      using new lst_alloc.prems l by (auto simp: lbound_def save_file_def)
  qed
next
  case (lst_restart ok s cidr t)
  from lst_restart.hyps(1) show ?case
  proof (cases rule: OpenLeases_cases)
    case fresh
    with lst_restart.prems show ?thesis by (simp add: lbound_def)
  next
    case (loaded ll)
    with lst_restart.prems show ?thesis
      using leases_of_load [of "ls_ipn t" ll net] load_leases_struct [of "ls_ipn t" ll] by (auto simp: lbound_def)
  qed
qed

interpretation lease_keep: transition_system "(=) s0" lease_step
    "\<lambda>s. ls_inv n s0 \<longrightarrow> lbound net dev ip s0 \<longrightarrow> ls_inv n s \<and> lbound net dev ip s" for s0 n net dev ip
  by unfold_locales (auto dest: ls_inv_step lbound_step)

text \<open>
  C15. A device keeps its address. Once \<^verbatim>\<open>Allocate\<close> has handed out (and saved) a new lease, the
  device has that same address after any sequence of further allocations, failed saves and
  restarts, and asking again returns it.
\<close>

theorem Allocate_stable:
  assumes "reach (lease_init n) lease_step s" and "find_lease net dev s = Inl ErrNoLease"
    and "Allocate True now net acc dev s = (t, Inr l)" and "reach ((=) t) lease_step u"
  shows "(\<exists>l'. find_lease net dev u = Inr l' \<and> le_ipv4 l' = le_ipv4 l) \<and>
    (\<exists>u' l'. Allocate io' now' net acc' dev u = (u', Inr l') \<and> le_ipv4 l' = le_ipv4 l \<and> le_account l' = acc')"
proof -
  have inv: "ls_inv n s" using lease_sys.reach_inv [OF assms(1)] .
  then have ok: "ls_ok n s" by (simp add: ls_inv_def)
  have none: "device_lease dev (leases_of s net) = None"
    using assms(2) by (auto simp: find_lease_def leases_of_def device_lease_def split: option.splits)
  have new: "leases_of t net = put (le_ipv4 l) l (leases_of s net)" "le_device l = dev" "ls_ok n t"
    "ls_file t = save_file True (all_leases t) (ls_file s)"
    using Allocate_new [OF ok none assms(3)] by (auto split: if_splits)
  then have "lbound net dev (le_ipv4 l) t"
    using file_leases_all [OF new(3), of net] by (simp add: lbound_def save_file_def)
  moreover have "ls_inv n t" using Allocate_inv [OF inv assms(3)] by simp
  ultimately have u: "ls_ok n u" "lbound net dev (le_ipv4 l) u"
    using lease_keep.reach_inv [OF assms(4), of n net dev "le_ipv4 l"] by (simp_all add: ls_inv_def)
  then obtain l' where l': "map_of (leases_of u net) (le_ipv4 l) = Some l'" "le_device l' = dev"
    by (auto simp: lbound_def)
  then have ip: "le_ipv4 l' = le_ipv4 l"
    using leases_ok_of [OF u(1), of net] by (auto simp: leases_ok_def dest: keyed_Some)
  then have dl: "device_lease dev (leases_of u net) = Some l'"
    using l' device_lease_Some [OF leases_ok_of [OF u(1)], of dev net l'] by simp
  then have "find_lease net dev u = Inr l'"
    by (auto simp: find_lease_def leases_of_def device_lease_def split: option.splits)
  moreover obtain u' r where "Allocate io' now' net acc' dev u = (u', r)" by fastforce
  ultimately show ?thesis
    using Allocate_known [OF u(1) dl] ip by fastforce
qed

lemma Allocate_stable_witness:
  "(\<exists>l'. find_lease ''n'' ''d1'' sample_leases2 = Inr l' \<and> le_ipv4 l' = le_ipv4 (sample_lease ''d1'' 1 1)) \<and>
    (\<exists>u' l'. Allocate False 9 ''n'' ''n2'' ''d1'' sample_leases2 = (u', Inr l')
      \<and> le_ipv4 l' = le_ipv4 (sample_lease ''d1'' 1 1) \<and> le_account l' = ''n2'')"
proof (rule Allocate_stable [OF reach_init [where init = "lease_init 30", OF sample_leases_init] _ sample_leases1_eq(1)])
  show "find_lease ''n'' ''d1'' sample_leases = Inl ErrNoLease"
    by (simp add: find_lease_def sample_leases_def)
  show "reach ((=) sample_leases1) lease_step sample_leases2"
    by (rule reach_step [where step = lease_step and init = "(=) sample_leases1", OF reach_init lst_alloc [OF sample_leases2_eq(1)]]) simp
qed

text \<open>
  The exception: when the save of a new lease fails, \<^verbatim>\<open>Allocate\<close> reports an error but keeps
  the lease, and the next request of the device is answered with it, successfully and without
  saving it. A restart then does not know the address the device is using.
\<close>

theorem lease_lost_after_failed_save:
  assumes "reach (lease_init n) lease_step s" and "ls_file s = Absent"
    and "Allocate False now net acc dev s = (t, Inl ErrLeaseSave)"
  shows "\<exists>u l. Allocate True now' net acc dev t = (u, Inr l) \<and> find_lease net dev u = Inr l \<and>
    (\<forall>ok cidr v. OpenLeases ok (ls_file u) cidr = Inr v \<longrightarrow> find_lease net dev v = Inl ErrNoLease)"
proof -
  have ok: "ls_ok n s" using lease_sys.reach_inv [OF assms(1)] by (simp add: ls_inv_def)
  have none: "device_lease dev (leases_of s net) = None"
    using Allocate_known [OF ok _ assms(3)] by fastforce
  obtain l where new: "leases_of t net = put (le_ipv4 l) l (leases_of s net)" "le_device l = dev" "ls_ok n t"
    and absent: "ls_file t = Absent"
    using Allocate_new [OF ok none assms(3)] assms(2) by (auto simp: save_file_def split: if_splits)
  have dl: "device_lease dev (leases_of t net) = Some l"
    using new device_lease_Some [OF leases_ok_of [OF new(3)], of dev net l] by simp
  obtain u r where u: "Allocate True now' net acc dev t = (u, r)" by fastforce
  note known = Allocate_known [OF new(3) dl u]
  then have "device_lease dev (leases_of u net) = Some (l\<lparr>le_account := acc\<rparr>)"
    using device_lease_Some [OF leases_ok_of, of n u dev net "l\<lparr>le_account := acc\<rparr>"] new(2) by simp
  then have "find_lease net dev u = Inr (l\<lparr>le_account := acc\<rparr>)"
    by (auto simp: find_lease_def leases_of_def device_lease_def split: option.splits)
  moreover have "ls_file u = Absent" using known absent by simp
  ultimately show ?thesis
    using u known by (auto simp: find_lease_def elim!: OpenLeases_cases)
qed

lemma lease_lost_after_failed_save_witness:
  "\<exists>u l. Allocate True 2 ''n'' ''n'' ''d1'' (fst (Allocate False 1 ''n'' ''n'' ''d1'' sample_leases)) = (u, Inr l)
    \<and> find_lease ''n'' ''d1'' u = Inr l \<and>
    (\<forall>ok cidr v. OpenLeases ok (ls_file u) cidr = Inr v \<longrightarrow> find_lease ''n'' ''d1'' v = Inl ErrNoLease)"
proof (rule lease_lost_after_failed_save [OF reach_init [where init = "lease_init 30", OF sample_leases_init]])
  show "Allocate False 1 ''n'' ''n'' ''d1'' sample_leases =
      (fst (Allocate False 1 ''n'' ''n'' ''d1'' sample_leases), Inl ErrLeaseSave)"
    by (simp add: alloc_simps)
qed (simp add: sample_leases_def)


subsection \<open>The interface the server uses\<close>

text \<open>
  What a client of the lease store relies on: \<open>alloc s n d r t\<close> is a request of device \<open>d\<close> in
  network \<open>n\<close> that takes the store from \<open>s\<close> to \<open>t\<close> and grants \<open>r\<close> (or nothing), \<open>addr\<close> the address a
  device has.
\<close>

locale lease_provider =
  fixes wf :: "'s \<Rightarrow> bool"
    and alloc :: "'s \<Rightarrow> 'n \<Rightarrow> 'd \<Rightarrow> 'a option \<Rightarrow> 's \<Rightarrow> bool"
    and addr :: "'s \<Rightarrow> 'n \<Rightarrow> 'd \<Rightarrow> 'a option"
  assumes wf_alloc: "wf s \<Longrightarrow> alloc s n d r t \<Longrightarrow> wf t"
    and granted: "wf s \<Longrightarrow> alloc s n d (Some a) t \<Longrightarrow> addr t n d = Some a"
    and keeps: "wf s \<Longrightarrow> alloc s n d r t \<Longrightarrow> addr s m e = Some b \<Longrightarrow> addr t m e = Some b"
    and unique: "wf s \<Longrightarrow> addr s n d = Some a \<Longrightarrow> addr s n e = Some a \<Longrightarrow> d = e"
begin

abbreviation request :: "'s \<Rightarrow> 's \<Rightarrow> bool" where
  "request s t \<equiv> \<exists>n d r. alloc s n d r t"

lemma addr_forever: "reach ((=) s) request t \<Longrightarrow> wf s \<Longrightarrow> wf t \<and> (\<forall>m e b. addr s m e = Some b \<longrightarrow> addr t m e = Some b)"
  by (induction rule: reach.induct) (auto intro: wf_alloc keeps)

text \<open>Two devices of a network are never granted the same address, however far apart the requests.\<close>

lemma grants_distinct:
  assumes "wf s" and "alloc s n d (Some a) t" and "reach ((=) t) request u" and "alloc u n e (Some b) v" and "d \<noteq> e"
  shows "a \<noteq> b"
proof
  assume "a = b"
  have "wf t" using assms(1,2) by (rule wf_alloc)
  then have u: "wf u" "addr u n d = Some a"
    using addr_forever [OF assms(3)] granted [OF assms(1,2)] by auto
  then have "wf v" "addr v n d = Some a" "addr v n e = Some a"
    using assms(4) wf_alloc keeps granted \<open>a = b\<close> by blast+
  then show False using unique assms(5) by blast
qed

end

definition lease_request :: "lease_store \<Rightarrow> string \<Rightarrow> string \<Rightarrow> string option \<Rightarrow> lease_store \<Rightarrow> bool" where
  "lease_request s net dev r t \<longleftrightarrow> (\<exists>io now acc x. Allocate io now net acc dev s = (t, x) \<and>
     r = (case x of Inr l \<Rightarrow> Some (le_ipv4 l) | Inl _ \<Rightarrow> None))"

definition lease_addr :: "lease_store \<Rightarrow> string \<Rightarrow> string \<Rightarrow> string option" where
  "lease_addr s net dev = map_option le_ipv4 (device_lease dev (leases_of s net))"

lemma lease_addr_iff:
  "ls_ok n s \<Longrightarrow> lease_addr s net dev = Some ip \<longleftrightarrow> (\<exists>l. map_of (leases_of s net) ip = Some l \<and> le_device l = dev)"
proof -
  assume "ls_ok n s"
  note ok = leases_ok_of [OF this, of net]
  have "lease_addr s net dev = Some ip \<longleftrightarrow> (\<exists>l. device_lease dev (leases_of s net) = Some l \<and> le_ipv4 l = ip)"
    by (auto simp: lease_addr_def)
  also have "\<dots> \<longleftrightarrow> (\<exists>l. map_of (leases_of s net) ip = Some l \<and> le_device l = dev)"
    unfolding device_lease_Some [OF ok] using ok by (auto simp: leases_ok_def dest: keyed_Some)
  finally show ?thesis .
qed

interpretation lp: lease_provider "ls_ok n" lease_request lease_addr for n
proof unfold_locales
  fix s t net dev r m e b
  assume ok: "ls_ok n s" and req: "lease_request s net dev r t"
  then obtain io now acc x where a: "Allocate io now net acc dev s = (t, x)"
    and r: "r = (case x of Inr l \<Rightarrow> Some (le_ipv4 l) | Inl _ \<Rightarrow> None)"
    by (auto simp: lease_request_def)
  note known = Allocate_known [OF ok _ a] and new = Allocate_new [OF ok _ a]
  show okt: "ls_ok n t" using known new by (cases "device_lease dev (leases_of s net)") auto
  show "lease_addr t m e = Some b" if "lease_addr s m e = Some b"
  proof (cases "device_lease dev (leases_of s net)")
    case (Some l)
    have "map_of (leases_of s net) (le_ipv4 l) = Some l"
      using Some device_lease_Some [OF leases_ok_of [OF ok]] by blast
    with known [OF Some] that show ?thesis unfolding lease_addr_iff [OF ok] lease_addr_iff [OF okt] by auto
  next
    case None
    with new [OF None] that show ?thesis
      unfolding lease_addr_iff [OF ok] lease_addr_iff [OF okt] by (cases "m = net") auto
  qed
next
  fix s t net dev a
  assume ok: "ls_ok n s" and "lease_request s net dev (Some a) t"
  then obtain io now acc x where x: "Allocate io now net acc dev s = (t, x)"
    and r: "Some a = (case x of Inr l \<Rightarrow> Some (le_ipv4 l) | Inl _ \<Rightarrow> None)"
    by (auto simp: lease_request_def)
  from r obtain l where l: "x = Inr l" "le_ipv4 l = a" by (cases x) auto
  note a = x [unfolded l(1)]
  note known = Allocate_known [OF ok _ a] and new = Allocate_new [OF ok _ a]
  show "lease_addr t net dev = Some a"
  proof (cases "device_lease dev (leases_of s net)")
    case (Some l')
    have "le_device l' = dev" using Some device_lease_Some [OF leases_ok_of [OF ok]] by blast
    with known [OF Some] l show ?thesis by (auto simp: lease_addr_iff)
  next
    case None
    from new [OF None] l show ?thesis by (auto simp: lease_addr_iff split: if_splits)
  qed
next
  fix s net d e a
  assume "ls_ok n s" and "lease_addr s net d = Some a" and "lease_addr s net e = Some a"
  then show "d = e" by (auto simp: lease_addr_iff)
qed

end
