(* ===== verification/Usage.thy ===== *)
theory Usage
  imports Orbit_Prelude
begin

text \<open>
  Traffic accounting: \<^verbatim>\<open>internal/account/usage.go\<close>. Counters per (account, device, exit device,
  hour), their totals, the per-consumer table, and the file with its string keys. Counters are
  \<^verbatim>\<open>int64\<close>: every addition is \<open>add64\<close>.
\<close>

record bucket =
  bk_account :: string
  bk_device :: string
  bk_egress :: string
  bk_hour :: int

record counters =
  ct_rx :: int
  ct_tx :: int

record usage_store =
  us_buckets :: "(bucket, counters) gomap"
  us_file :: "(string, counters) gomap file_read"

datatype usage_error = ErrUsageOpen | ErrUsageSave

definition zero_counters :: counters where
  "zero_counters = \<lparr>ct_rx = 0, ct_tx = 0\<rparr>"

definition empty_usage :: usage_store where
  "empty_usage = \<lparr>us_buckets = [], us_file = Absent\<rparr>"

definition hour_of :: "time \<Rightarrow> int" where
  "hour_of t = unix_sec (truncate_time hour t)"

subsection \<open>Opening\<close>

text \<open>A row of the file: the bucket its key stands for, or nothing when the key has fewer than four parts.\<close>

definition parse_bucket :: "string \<Rightarrow> bucket option" where
  "parse_bucket k =
     (case split_n 4 CHR ''|'' k of
        [a, d, e, h] \<Rightarrow> Some \<lparr>bk_account = a, bk_device = d, bk_egress = e, bk_hour = parse_int_or h\<rparr>
      | _ \<Rightarrow> None)"

definition migrate :: "counters \<Rightarrow> counters" where
  "migrate c = (if ct_rx c = ct_tx c then c\<lparr>ct_rx := 0\<rparr> else c)"

definition load_row :: "(bucket, counters) gomap \<Rightarrow> string \<times> counters \<Rightarrow> (bucket, counters) gomap" where
  "load_row m kc =
     (let c = migrate (snd kc)
      in case parse_bucket (fst kc) of None \<Rightarrow> m | Some b \<Rightarrow> put b c m)"

definition load_usage :: "(string, counters) gomap \<Rightarrow> usage_store" where
  "load_usage rawMap = \<lparr>us_buckets = foldl load_row [] rawMap, us_file = Content rawMap\<rparr>"

definition OpenUsage :: "bool \<Rightarrow> (string, counters) gomap file_read \<Rightarrow> usage_error + usage_store" where
  "OpenUsage mkdir_ok raw =
     (if \<not> mkdir_ok then Inl ErrUsageOpen
      else case raw of
          Content m \<Rightarrow> Inr (load_usage m)
        | Malformed \<Rightarrow> Inl ErrUsageOpen
        | Absent \<Rightarrow> Inr empty_usage
        | ReadError \<Rightarrow> Inl ErrUsageOpen)"

subsection \<open>Adding and totalling\<close>

definition Add :: "string \<Rightarrow> string \<Rightarrow> string \<Rightarrow> int \<Rightarrow> int \<Rightarrow> time \<Rightarrow> usage_store \<Rightarrow> usage_store" where
  "Add acc dev egress rx tx at u =
     (let b = \<lparr>bk_account = acc, bk_device = dev, bk_egress = egress, bk_hour = hour_of at\<rparr>;
          c = (case map_of (us_buckets u) b of None \<Rightarrow> zero_counters | Some c \<Rightarrow> c)
      in u\<lparr>us_buckets := put b \<lparr>ct_rx = add64 (ct_rx c) rx, ct_tx = add64 (ct_tx c) tx\<rparr> (us_buckets u)\<rparr>)"

text \<open>The loop the three totals share: add up the counters of the selected buckets.\<close>

definition accumulate :: "(bucket \<Rightarrow> bool) \<Rightarrow> (bucket, counters) gomap \<Rightarrow> counters" where
  "accumulate sel m = foldl (\<lambda>out (b, c).
     if sel b then \<lparr>ct_rx = add64 (ct_rx out) (ct_rx c), ct_tx = add64 (ct_tx out) (ct_tx c)\<rparr> else out)
     zero_counters m"

definition Totals :: "string \<Rightarrow> time \<Rightarrow> usage_store \<Rightarrow> counters" where
  "Totals acc since u = accumulate (\<lambda>b. bk_account b = acc \<and> bk_hour b \<ge> hour_of since) (us_buckets u)"

definition EgressTotals :: "string \<Rightarrow> time \<Rightarrow> usage_store \<Rightarrow> counters" where
  "EgressTotals egress since u = accumulate (\<lambda>b. bk_egress b = egress \<and> bk_hour b \<ge> hour_of since) (us_buckets u)"

definition EgressLaneTotals :: "string \<Rightarrow> time \<Rightarrow> usage_store \<Rightarrow> counters" where
  "EgressLaneTotals consumer since u =
     accumulate (\<lambda>b. bk_device b = consumer \<and> bk_egress b \<noteq> [] \<and> bk_hour b \<ge> hour_of since) (us_buckets u)"

record consumer_row =
  cr_account :: string
  cr_device :: string
  cr_rx :: int
  cr_tx :: int
  cr_egress :: int

definition consumer_step :: "int \<Rightarrow> (string, nat) gomap \<times> consumer_row list \<Rightarrow> bucket \<times> counters
    \<Rightarrow> (string, nat) gomap \<times> consumer_row list" where
  "consumer_step hh st bc =
     (let (idx, out) = st; (b, c) = bc
      in if bk_hour b < hh then (idx, out)
         else
           let k = bk_account b @ ''|'' @ bk_device b;
               (idx, out, i) =
                 (case map_of idx k of
                    Some i \<Rightarrow> (idx, out, i)
                  | None \<Rightarrow>
                      (put k (length out) idx,
                       out @ [\<lparr>cr_account = bk_account b, cr_device = bk_device b, cr_rx = 0, cr_tx = 0, cr_egress = 0\<rparr>],
                       length out));
               r = out ! i;
               r = r\<lparr>cr_rx := add64 (cr_rx r) (ct_rx c), cr_tx := add64 (cr_tx r) (ct_tx c)\<rparr>;
               r = (if bk_egress b \<noteq> [] then r\<lparr>cr_egress := add64 (cr_egress r) (ct_tx c)\<rparr> else r)
           in (idx, out[i := r]))"

definition PerConsumer :: "time \<Rightarrow> usage_store \<Rightarrow> consumer_row list" where
  "PerConsumer since u = snd (foldl (consumer_step (hour_of since)) ([], []) (us_buckets u))"

subsection \<open>Saving\<close>

definition bucket_key :: "bucket \<Rightarrow> string" where
  "bucket_key b = bk_account b @ ''|'' @ bk_device b @ ''|'' @ bk_egress b @ ''|'' @ show_int (bk_hour b)"

definition keyedBuckets :: "usage_store \<Rightarrow> (string, counters) gomap" where
  "keyedBuckets u = foldl (\<lambda>out (b, c). put (bucket_key b) c out) [] (us_buckets u)"

definition SaveUsage :: "bool \<Rightarrow> usage_store \<Rightarrow> usage_store \<times> usage_error option" where
  "SaveUsage io u =
     (u\<lparr>us_file := save_file io (keyedBuckets u) (us_file u)\<rparr>, if io then None else Some ErrUsageSave)"

subsection \<open>Totals are sums over the history\<close>

text \<open>
  A ledger: a state to which events are added and a total that grows by the amount of every
  event it counts, in \<^verbatim>\<open>int64\<close>. After any history the total is the wrapped sum of the amounts.
\<close>

locale ledger =
  fixes wf :: "'s \<Rightarrow> bool"
    and record_event :: "'e \<Rightarrow> 's \<Rightarrow> 's"
    and total :: "'s \<Rightarrow> int"
    and counts :: "'e \<Rightarrow> bool"
    and amount :: "'e \<Rightarrow> int"
  assumes wf_record: "wf s \<Longrightarrow> wf (record_event e s)"
    and total_record: "wf s \<Longrightarrow> total (record_event e s) = wrap64 (total s + (if counts e then amount e else 0))"
    and total_int64: "wf s \<Longrightarrow> int64 (total s)"
begin

lemma wf_history: "wf s \<Longrightarrow> wf (fold record_event es s)"
  by (induction es arbitrary: s) (auto intro: wf_record)

lemma total_history:
  "wf s \<Longrightarrow> total (fold record_event es s) = wrap64 (total s + sum_list (map amount (filter counts es)))"
proof (induction es arbitrary: s)
  case Nil
  then show ?case by (simp add: total_int64)
next
  case (Cons e es)
  have "total (fold record_event (e # es) s) =
      wrap64 (total (record_event e s) + sum_list (map amount (filter counts es)))"
    using Cons.IH [OF wf_record [OF Cons.prems]] by simp
  also have "\<dots> = wrap64 (total s + sum_list (map amount (filter counts (e # es))))"
    by (simp add: total_record [OF Cons.prems] add.assoc)
  finally show ?case .
qed

text \<open>Without overflow the total is the plain sum.\<close>

lemma total_exact:
  "wf s \<Longrightarrow> total s = 0 \<Longrightarrow> int64 (sum_list (map amount (filter counts es))) \<Longrightarrow>
     total (fold record_event es s) = sum_list (map amount (filter counts es))"
  by (simp add: total_history)

end

record usage_event =
  ue_account :: string
  ue_device :: string
  ue_egress :: string
  ue_rx :: int
  ue_tx :: int
  ue_at :: time

definition add_event :: "usage_event \<Rightarrow> usage_store \<Rightarrow> usage_store" where
  "add_event e = Add (ue_account e) (ue_device e) (ue_egress e) (ue_rx e) (ue_tx e) (ue_at e)"

definition event_bucket :: "usage_event \<Rightarrow> bucket" where
  "event_bucket e = \<lparr>bk_account = ue_account e, bk_device = ue_device e, bk_egress = ue_egress e,
     bk_hour = hour_of (ue_at e)\<rparr>"

abbreviation usage_wf :: "usage_store \<Rightarrow> bool" where
  "usage_wf u \<equiv> wf_map (us_buckets u)"

lemma accumulate_sums:
  "ct_rx (accumulate sel m) = wrap64 (sum_list (map (\<lambda>e. if sel (fst e) then ct_rx (snd e) else 0) m))"
  "ct_tx (accumulate sel m) = wrap64 (sum_list (map (\<lambda>e. if sel (fst e) then ct_tx (snd e) else 0) m))"
proof -
  have "ct_rx (foldl (\<lambda>out (b, c). if sel b then \<lparr>ct_rx = add64 (ct_rx out) (ct_rx c), ct_tx = add64 (ct_tx out) (ct_tx c)\<rparr>
      else out) o1 m) = wrap64 (ct_rx o1 + sum_list (map (\<lambda>e. if sel (fst e) then ct_rx (snd e) else 0) m))
    \<and> ct_tx (foldl (\<lambda>out (b, c). if sel b then \<lparr>ct_rx = add64 (ct_rx out) (ct_rx c), ct_tx = add64 (ct_tx out) (ct_tx c)\<rparr>
      else out) o1 m) = wrap64 (ct_tx o1 + sum_list (map (\<lambda>e. if sel (fst e) then ct_tx (snd e) else 0) m))"
    if "int64 (ct_rx o1)" "int64 (ct_tx o1)" for o1
    using that by (induction m arbitrary: o1) (auto simp: add64_def add.assoc)
  from this [of zero_counters]
  show "ct_rx (accumulate sel m) = wrap64 (sum_list (map (\<lambda>e. if sel (fst e) then ct_rx (snd e) else 0) m))"
    "ct_tx (accumulate sel m) = wrap64 (sum_list (map (\<lambda>e. if sel (fst e) then ct_tx (snd e) else 0) m))"
    by (simp_all add: accumulate_def zero_counters_def int64_def)
qed


lemma wrap64_replace: "wrap64 (s + wrap64 x - y) = wrap64 (s + x - y)"
  by (metis add.commute add_diff_eq wrap64_add_right)

lemma accumulate_add:
  assumes "usage_wf u"
  shows "ct_tx (accumulate sel (us_buckets (add_event e u))) =
      wrap64 (ct_tx (accumulate sel (us_buckets u)) + (if sel (event_bucket e) then ue_tx e else 0))"
    and "ct_rx (accumulate sel (us_buckets (add_event e u))) =
      wrap64 (ct_rx (accumulate sel (us_buckets u)) + (if sel (event_bucket e) then ue_rx e else 0))"
proof -
  let ?b = "event_bucket e"
  let ?c = "case map_of (us_buckets u) ?b of None \<Rightarrow> zero_counters | Some c \<Rightarrow> c"
  have us: "us_buckets (add_event e u) =
      put ?b \<lparr>ct_rx = add64 (ct_rx ?c) (ue_rx e), ct_tx = add64 (ct_tx ?c) (ue_tx e)\<rparr> (us_buckets u)"
    by (simp add: add_event_def Add_def event_bucket_def Let_def)
  show "ct_tx (accumulate sel (us_buckets (add_event e u))) =
      wrap64 (ct_tx (accumulate sel (us_buckets u)) + (if sel ?b then ue_tx e else 0))"
    unfolding us accumulate_sums am.sum_assign [OF assms]
    by (auto simp: add64_def wrap64_replace zero_counters_def algebra_simps split: option.split)
  show "ct_rx (accumulate sel (us_buckets (add_event e u))) =
      wrap64 (ct_rx (accumulate sel (us_buckets u)) + (if sel ?b then ue_rx e else 0))"
    unfolding us accumulate_sums am.sum_assign [OF assms]
    by (auto simp: add64_def wrap64_replace zero_counters_def algebra_simps split: option.split)
qed

lemma usage_wf_add: "usage_wf u \<Longrightarrow> usage_wf (add_event e u)"
  by (simp add: add_event_def Add_def Let_def)

lemma accumulate_int64: "int64 (ct_tx (accumulate sel m))" "int64 (ct_rx (accumulate sel m))"
  by (simp_all add: accumulate_sums)

interpretation tx_ledger: ledger usage_wf add_event "\<lambda>u. ct_tx (accumulate sel (us_buckets u))"
    "\<lambda>e. sel (event_bucket e)" ue_tx for sel
  by unfold_locales (simp_all add: usage_wf_add accumulate_add accumulate_int64)

interpretation rx_ledger: ledger usage_wf add_event "\<lambda>u. ct_rx (accumulate sel (us_buckets u))"
    "\<lambda>e. sel (event_bucket e)" ue_rx for sel
  by unfold_locales (simp_all add: usage_wf_add accumulate_add accumulate_int64)

lemma empty_usage_simps [simp]:
  "usage_wf empty_usage" "ct_tx (accumulate sel (us_buckets empty_usage)) = 0"
  "ct_rx (accumulate sel (us_buckets empty_usage)) = 0"
  by (simp_all add: empty_usage_def accumulate_def zero_counters_def)

text \<open>
  C30. The totals are what was added. After any sequence of \<^verbatim>\<open>Add\<close> calls, \<^verbatim>\<open>Totals\<close> of an account is
  the sum of the bytes of its events since the hour of \<open>since\<close>, \<^verbatim>\<open>EgressTotals\<close> the sum over the
  events through that exit device, and \<^verbatim>\<open>EgressLaneTotals\<close> the sum over the consumer device's
  events through any exit device, each modulo the wrap-around of \<^verbatim>\<open>int64\<close>.
\<close>

theorem totals_of_history:
  "ct_tx (Totals acc since (fold add_event es empty_usage)) = wrap64 (\<Sum>e \<leftarrow> es.
      if ue_account e = acc \<and> hour_of (ue_at e) \<ge> hour_of since then ue_tx e else 0)
   \<and> ct_rx (Totals acc since (fold add_event es empty_usage)) = wrap64 (\<Sum>e \<leftarrow> es.
      if ue_account e = acc \<and> hour_of (ue_at e) \<ge> hour_of since then ue_rx e else 0)
   \<and> ct_tx (EgressTotals egress since (fold add_event es empty_usage)) = wrap64 (\<Sum>e \<leftarrow> es.
      if ue_egress e = egress \<and> hour_of (ue_at e) \<ge> hour_of since then ue_tx e else 0)
   \<and> ct_tx (EgressLaneTotals dev since (fold add_event es empty_usage)) = wrap64 (\<Sum>e \<leftarrow> es.
      if ue_device e = dev \<and> ue_egress e \<noteq> [] \<and> hour_of (ue_at e) \<ge> hour_of since then ue_tx e else 0)"
proof -
  have sums: "sum_list (map f (filter P xs)) = (\<Sum>e \<leftarrow> xs. if P e then f e else (0 :: int))"
    for f :: "usage_event \<Rightarrow> int" and P xs
    by (induction xs) simp_all
  show ?thesis
    by (simp add: Totals_def EgressTotals_def EgressLaneTotals_def tx_ledger.total_history
        rx_ledger.total_history sums event_bucket_def)
qed

text \<open>The hour of an instant.\<close>

lemma hour_of_eq: "hour_of t = 3600 * (t div hour)"
proof -
  have "t - t mod hour = second * (3600 * (t div hour))"
    by (simp add: minus_mod_eq_mult_div hour_def minute_def second_def)
  then have "hour_of t = second * (3600 * (t div hour)) div second"
    by (simp only: hour_of_def unix_sec_def truncate_hour)
  then show ?thesis by (simp add: second_def)
qed

lemma hour_of_le: "hour_of a \<le> hour_of b \<longleftrightarrow> a div hour \<le> b div hour"
  by (simp add: hour_of_eq)


subsection \<open>The file\<close>

definition bucket_ok :: "bucket \<Rightarrow> bool" where
  "bucket_ok b \<longleftrightarrow> CHR ''|'' \<notin> set (bk_account b) \<and> CHR ''|'' \<notin> set (bk_device b)
     \<and> CHR ''|'' \<notin> set (bk_egress b) \<and> int64 (bk_hour b)"

text \<open>Rows that survive a save and a restart: ids without a bar, and not the pattern the migration rewrites.\<close>

definition usage_ok :: "usage_store \<Rightarrow> bool" where
  "usage_ok u \<longleftrightarrow> usage_wf u \<and> (\<forall>(b, c) \<in> set (us_buckets u). bucket_ok b \<and> migrate c = c)"

lemma parse_bucket_key: "bucket_ok b \<Longrightarrow> parse_bucket (bucket_key b) = Some b"
proof -
  assume ok: "bucket_ok b"
  have four: "(4 :: nat) = Suc (Suc (Suc (Suc 0)))" by simp
  have "split_n 4 CHR ''|'' (bucket_key b) = [bk_account b, bk_device b, bk_egress b, show_int (bk_hour b)]"
    using ok unfolding bucket_ok_def bucket_key_def four
    by (simp only: append_Cons append_Nil split_n_sep split_n.simps(2) not_False_eq_True)
  with ok show ?thesis by (simp add: parse_bucket_def bucket_ok_def parse_show_int)
qed

lemma bucket_key_inj: "bucket_ok a \<Longrightarrow> bucket_ok b \<Longrightarrow> bucket_key a = bucket_key b \<longleftrightarrow> a = b"
  using parse_bucket_key by (metis option.inject)

lemma keyedBuckets_eq: "usage_ok u \<Longrightarrow> keyedBuckets u = map (\<lambda>(b, c). (bucket_key b, c)) (us_buckets u)"
proof -
  assume u: "usage_ok u"
  have "distinct (map fst m @ map (bucket_key \<circ> fst) bs) \<Longrightarrow>
      foldl (\<lambda>out (b, c). put (bucket_key b) c out) m bs = m @ map (\<lambda>(b, c). (bucket_key b, c)) bs"
    for m :: "(string, counters) gomap" and bs
    by (induction bs arbitrary: m) (auto simp: put_fresh)
  moreover have "distinct (map (bucket_key \<circ> fst) (us_buckets u))"
  proof -
    have "inj_on bucket_key (fst ` set (us_buckets u))"
    proof (rule inj_onI)
      fix a b
      assume "a \<in> fst ` set (us_buckets u)" "b \<in> fst ` set (us_buckets u)" and eq: "bucket_key a = bucket_key b"
      then have "bucket_ok a" "bucket_ok b" using u by (auto simp: usage_ok_def)
      with eq show "a = b" using bucket_key_inj by blast
    qed
    then show ?thesis
      using u by (simp add: usage_ok_def wf_map_def distinct_map comp_inj_on)
  qed
  ultimately show ?thesis by (simp add: keyedBuckets_def)
qed

lemma load_saved: "usage_ok u \<Longrightarrow> us_buckets (load_usage (keyedBuckets u)) = us_buckets u"
proof -
  assume u: "usage_ok u"
  have "distinct (map fst m @ map fst bs) \<Longrightarrow> \<forall>(b, c) \<in> set bs. bucket_ok b \<and> migrate c = c \<Longrightarrow>
      foldl load_row m (map (\<lambda>(b, c). (bucket_key b, c)) bs) = m @ bs" for m bs
  proof (induction bs arbitrary: m)
    case (Cons e bs)
    then show ?case
      using Cons.IH [of "m @ [e]"]
      by (auto simp: load_row_def parse_bucket_key put_fresh split: prod.splits)
  qed simp
  from this [of "[]" "us_buckets u"] u show ?thesis
    by (simp add: load_usage_def keyedBuckets_eq usage_ok_def wf_map_def)
qed

definition same_usage :: "usage_store \<Rightarrow> usage_store \<Rightarrow> bool" where
  "same_usage u v \<longleftrightarrow> us_buckets u = us_buckets v"

interpretation usage_file: file_store usage_ok keyedBuckets load_usage same_usage
  by unfold_locales (auto simp: load_saved same_usage_def usage_ok_def)

text \<open>What \<^verbatim>\<open>Add\<close> calls of the hub keep: no byte is received, a positive number is sent.\<close>

lemma usage_ok_add:
  assumes "usage_ok u" and "bucket_ok (event_bucket e)" and "ue_rx e = 0"
    and "\<forall>(b, c) \<in> set (us_buckets u). ct_rx c = 0"
  shows "usage_ok (add_event e u) \<and> (\<forall>(b, c) \<in> set (us_buckets (add_event e u)). ct_rx c = 0)"
proof -
  have "ct_rx (case map_of (us_buckets u) b of None \<Rightarrow> zero_counters | Some c \<Rightarrow> c) = 0" for b
    using assms(4) by (auto simp: zero_counters_def dest: map_of_SomeD split: option.split)
  moreover have "wf_map (us_buckets u)" using assms(1) by (simp add: usage_ok_def)
  moreover have "add64 0 0 = 0" by (simp add: add64_def int64_def)
  ultimately show ?thesis
    using assms by (auto simp: add_event_def Add_def Let_def usage_ok_def set_put event_bucket_def migrate_def)
qed

text \<open>
  Accounting survives a restart. After any sequence of \<^verbatim>\<open>Add\<close> calls as the hub makes them
  (nothing received, ids without a bar), \<^verbatim>\<open>Save\<close> followed by \<^verbatim>\<open>OpenUsage\<close> on the file gives the same
  counters, and in particular the same totals.
\<close>

theorem usage_restart:
  assumes "\<forall>e \<in> set es. ue_rx e = 0 \<and> bucket_ok (event_bucket e)"
    and "SaveUsage True (fold add_event es empty_usage) = (u, err)"
  shows "err = None \<and> (\<exists>v. OpenUsage True (us_file u) = Inr v \<and> us_buckets v = us_buckets u \<and>
    Totals acc since v = Totals acc since (fold add_event es empty_usage))"
proof -
  have "usage_ok (fold add_event es w) \<and> (\<forall>(b, c) \<in> set (us_buckets (fold add_event es w)). ct_rx c = 0)"
    if "usage_ok w" "\<forall>(b, c) \<in> set (us_buckets w). ct_rx c = 0" for w
    using that assms(1)
  proof (induction es arbitrary: w)
    case (Cons e es)
    have "usage_ok (add_event e w) \<and> (\<forall>(b, c) \<in> set (us_buckets (add_event e w)). ct_rx c = 0)"
      using Cons.prems by (intro usage_ok_add) simp_all
    then show ?case using Cons.IH [of "add_event e w"] Cons.prems(3) by simp
  qed simp
  from this [of empty_usage] have ok: "usage_ok (fold add_event es empty_usage)"
    by (simp add: usage_ok_def empty_usage_def)
  then have "us_buckets (load_usage (keyedBuckets (fold add_event es empty_usage)))
      = us_buckets (fold add_event es empty_usage)"
    by (rule load_saved)
  with assms(2) show ?thesis
    by (auto simp: SaveUsage_def save_file_def OpenUsage_def Totals_def)
qed

definition sample_events :: "usage_event list" where
  "sample_events = [\<lparr>ue_account = ''a'', ue_device = ''d'', ue_egress = [], ue_rx = 0, ue_tx = 100, ue_at = 5\<rparr>,
     \<lparr>ue_account = ''a'', ue_device = ''d'', ue_egress = ''x'', ue_rx = 0, ue_tx = 7, ue_at = 5\<rparr>]"

lemma usage_restart_witness:
  "snd (SaveUsage True (fold add_event sample_events empty_usage)) = None \<and>
   (\<exists>v. OpenUsage True (us_file (fst (SaveUsage True (fold add_event sample_events empty_usage)))) = Inr v
    \<and> us_buckets v = us_buckets (fst (SaveUsage True (fold add_event sample_events empty_usage)))
    \<and> Totals ''a'' 0 v = Totals ''a'' 0 (fold add_event sample_events empty_usage))"
proof (rule usage_restart)
  show "\<forall>e \<in> set sample_events. ue_rx e = 0 \<and> bucket_ok (event_bucket e)"
    by (simp add: sample_events_def bucket_ok_def event_bucket_def hour_of_eq hour_def minute_def second_def int64_def)
qed simp


subsection \<open>The per-consumer table\<close>

text \<open>The row a consumer should have: the wrapped sums over its buckets since hour \<open>hh\<close>.\<close>

definition in_row :: "int \<Rightarrow> string \<Rightarrow> string \<Rightarrow> bucket \<Rightarrow> bool" where
  "in_row hh a d b \<longleftrightarrow> bk_account b = a \<and> bk_device b = d \<and> hh \<le> bk_hour b"

definition sum_if :: "(bucket \<Rightarrow> bool) \<Rightarrow> (counters \<Rightarrow> int) \<Rightarrow> (bucket \<times> counters) list \<Rightarrow> int" where
  "sum_if sel f bs = (\<Sum>e \<leftarrow> bs. if sel (fst e) then f (snd e) else 0)"

definition row_of :: "int \<Rightarrow> (bucket \<times> counters) list \<Rightarrow> string \<Rightarrow> string \<Rightarrow> consumer_row" where
  "row_of hh bs a d = \<lparr>cr_account = a, cr_device = d, cr_rx = wrap64 (sum_if (in_row hh a d) ct_rx bs),
     cr_tx = wrap64 (sum_if (in_row hh a d) ct_tx bs),
     cr_egress = wrap64 (sum_if (\<lambda>b. in_row hh a d b \<and> bk_egress b \<noteq> []) ct_tx bs)\<rparr>"

definition rowkey :: "consumer_row \<Rightarrow> string" where
  "rowkey r = cr_account r @ ''|'' @ cr_device r"

lemma sum_if_append [simp]: "sum_if sel f (bs @ [e]) = sum_if sel f bs + (if sel (fst e) then f (snd e) else 0)"
  by (simp add: sum_if_def)

lemma key_inj: "CHR ''|'' \<notin> set a \<Longrightarrow> CHR ''|'' \<notin> set a' \<Longrightarrow>
    a @ CHR ''|'' # d = a' @ CHR ''|'' # d' \<longleftrightarrow> a = a' \<and> d = d'"
proof (induction a arbitrary: a')
  case Nil
  then show ?case by (cases a') auto
next
  case (Cons c a)
  then show ?case by (cases a') auto
qed

definition table_ok :: "int \<Rightarrow> (bucket \<times> counters) list \<Rightarrow> (string, nat) gomap \<times> consumer_row list \<Rightarrow> bool" where
  "table_ok hh bs st \<longleftrightarrow> (case st of (idx, out) \<Rightarrow>
     (\<forall>k i. map_of idx k = Some i \<longleftrightarrow> i < length out \<and> rowkey (out ! i) = k)
     \<and> (\<forall>r \<in> set out. r = row_of hh bs (cr_account r) (cr_device r) \<and> CHR ''|'' \<notin> set (cr_account r))
     \<and> (\<forall>(b, c) \<in> set bs. hh \<le> bk_hour b \<longrightarrow>
          (\<exists>r \<in> set out. cr_account r = bk_account b \<and> cr_device r = bk_device b)))"

lemma row_of_other:
  "\<not> in_row hh a d b \<Longrightarrow> row_of hh (bs @ [(b, c)]) a d = row_of hh bs a d"
  by (simp add: row_of_def)

lemma row_of_hit:
  assumes "in_row hh a d b"
  shows "row_of hh (bs @ [(b, c)]) a d =
    (let r = row_of hh bs a d;
         r = r\<lparr>cr_rx := add64 (cr_rx r) (ct_rx c), cr_tx := add64 (cr_tx r) (ct_tx c)\<rparr>
     in if bk_egress b \<noteq> [] then r\<lparr>cr_egress := add64 (cr_egress r) (ct_tx c)\<rparr> else r)"
  using assms by (simp add: row_of_def add64_def)

lemma row_of_fresh:
  "\<forall>(b, c) \<in> set bs. \<not> in_row hh a d b \<Longrightarrow>
     row_of hh bs a d = \<lparr>cr_account = a, cr_device = d, cr_rx = 0, cr_tx = 0, cr_egress = 0\<rparr>"
proof -
  assume none: "\<forall>(b, c) \<in> set bs. \<not> in_row hh a d b"
  have "sum_if sel f bs = 0" if "\<forall>(b, c) \<in> set bs. \<not> sel b" for sel f
    using that by (induction bs) (auto simp: sum_if_def)
  moreover have "\<forall>(b, c) \<in> set bs. \<not> (in_row hh a d b \<and> bk_egress b \<noteq> [])" using none by auto
  ultimately show ?thesis using none by (simp add: row_of_def int64_def)
qed

lemma table_ok_step:
  assumes "table_ok hh bs (idx, out)" and "CHR ''|'' \<notin> set (bk_account b)"
  shows "table_ok hh (bs @ [(b, c)]) (consumer_step hh (idx, out) (b, c))"
proof (cases "bk_hour b < hh")
  case True
  then have "\<not> in_row hh a d b" for a d by (simp add: in_row_def)
  with True assms show ?thesis
    by (auto simp: table_ok_def consumer_step_def row_of_other)
next
  case False
  let ?a = "bk_account b" and ?d = "bk_device b"
  let ?k = "?a @ ''|'' @ ?d"
  let ?new = "\<lparr>cr_account = ?a, cr_device = ?d, cr_rx = 0, cr_tx = 0, cr_egress = 0\<rparr>"
  have idx: "\<And>k i. map_of idx k = Some i \<longleftrightarrow> i < length out \<and> rowkey (out ! i) = k"
    and rows: "\<And>r. r \<in> set out \<Longrightarrow> r = row_of hh bs (cr_account r) (cr_device r) \<and> CHR ''|'' \<notin> set (cr_account r)"
    and cover: "\<And>b c. (b, c) \<in> set bs \<Longrightarrow> hh \<le> bk_hour b \<Longrightarrow>
        \<exists>r \<in> set out. cr_account r = bk_account b \<and> cr_device r = bk_device b"
    using assms(1) by (auto simp: table_ok_def)
  have same: "rowkey r = ?k \<longleftrightarrow> cr_account r = ?a \<and> cr_device r = ?d" if "CHR ''|'' \<notin> set (cr_account r)" for r
    using that assms(2) by (simp add: rowkey_def key_inj)
  have hit: "in_row hh a d b \<longleftrightarrow> a = ?a \<and> d = ?d" for a d
    using False by (auto simp: in_row_def)
  obtain idx' out' i where pick: "(case map_of idx ?k of Some i \<Rightarrow> (idx, out, i)
      | None \<Rightarrow> (put ?k (length out) idx, out @ [?new], length out)) = (idx', out', i)"
    by (metis prod_cases3)
  have i: "i < length out'" and out_sub: "set out \<subseteq> set out'" and at_i: "out' ! i = row_of hh bs ?a ?d"
    and idx': "\<And>k j. map_of idx' k = Some j \<longleftrightarrow> j < length out' \<and> rowkey (out' ! j) = k"
    and rows': "\<And>r. r \<in> set out' \<Longrightarrow> r = row_of hh bs (cr_account r) (cr_device r) \<and> CHR ''|'' \<notin> set (cr_account r)"
  proof -
    show "i < length out'" "set out \<subseteq> set out'"
      using pick idx by (auto split: option.splits)
    show "out' ! i = row_of hh bs ?a ?d"
    proof (cases "map_of idx ?k")
      case None
      have "\<not> in_row hh ?a ?d b'" if mem: "(b', c') \<in> set bs" for b' c'
      proof
        assume "in_row hh ?a ?d b'"
        then obtain r where "r \<in> set out" "cr_account r = ?a" "cr_device r = ?d"
          using cover [OF mem] by (auto simp: in_row_def)
        then have "\<exists>j < length out. rowkey (out ! j) = ?k" by (auto simp: rowkey_def in_set_conv_nth)
        with None idx [of ?k] show False by auto
      qed
      then have "row_of hh bs ?a ?d = ?new" by (intro row_of_fresh) auto
      with None pick show ?thesis by (auto split: option.splits)
    next
      case (Some j)
      then have j: "j < length out" "rowkey (out ! j) = ?k" using idx by auto
      note row = rows [OF nth_mem [OF j(1)]]
      then have "cr_account (out ! j) = ?a \<and> cr_device (out ! j) = ?d" using same j(2) by blast
      with row have "out ! j = row_of hh bs ?a ?d" by metis
      with Some pick show ?thesis by (auto split: option.splits)
    qed
    show "map_of idx' k = Some j \<longleftrightarrow> j < length out' \<and> rowkey (out' ! j) = k" for k j
    proof (cases "map_of idx ?k")
      case None
      then have no: "\<And>j. j < length out \<Longrightarrow> rowkey (out ! j) \<noteq> ?k" using idx [of ?k] by auto
      have eq: "idx' = put ?k (length out) idx" "out' = out @ [?new]" using None pick by auto
      show ?thesis
      proof (cases "j = length out")
        case True
        then show ?thesis using idx [of k "length out"] by (auto simp: eq rowkey_def)
      next
        case False
        then have "j < length out' \<longleftrightarrow> j < length out" by (auto simp: eq)
        then show ?thesis using idx [of k j] no [of j] False by (auto simp: eq nth_append)
      qed
    next
      case (Some m)
      then have "idx' = idx" "out' = out" using pick by auto
      then show ?thesis using idx by simp
    qed
    show "r = row_of hh bs (cr_account r) (cr_device r) \<and> CHR ''|'' \<notin> set (cr_account r)" if "r \<in> set out'" for r
    proof (cases "r \<in> set out")
      case False
      then have "map_of idx ?k = None" and r: "r = ?new"
        using that pick by (auto split: option.splits)
      then have "out' ! i = ?new" using pick by (auto split: option.splits)
      with r assms(2) show ?thesis using \<open>out' ! i = row_of hh bs ?a ?d\<close> by simp
    qed (rule rows)
  qed
  define R where "R = row_of hh (bs @ [(b, c)]) ?a ?d"
  have R: "cr_account R = ?a" "cr_device R = ?d" "rowkey R = ?k" by (simp_all add: R_def row_of_def rowkey_def)
  have "in_row hh ?a ?d b" using False by (simp add: in_row_def)
  from row_of_hit [OF this, of bs c]
  have step: "consumer_step hh (idx, out) (b, c) = (idx', out'[i := R])"
    unfolding consumer_step_def Let_def prod.case pick using False by (simp add: at_i R_def Let_def)
  have key_i: "rowkey (out' ! i) = ?k" by (simp add: at_i rowkey_def row_of_def)
  have "map_of idx' k = Some j \<longleftrightarrow> j < length (out'[i := R]) \<and> rowkey (out'[i := R] ! j) = k" for k j
    using idx' key_i R(3) i by (cases "j = i") auto
  moreover have "r = row_of hh (bs @ [(b, c)]) (cr_account r) (cr_device r) \<and> CHR ''|'' \<notin> set (cr_account r)"
    if mem: "r \<in> set (out'[i := R])" for r
  proof -
    obtain j where j: "j < length out'" "r = out'[i := R] ! j" using mem by (auto simp: in_set_conv_nth)
    show ?thesis
    proof (cases "j = i")
      case True
      then have "r = R" using j by simp
      then show ?thesis using R assms(2) by (simp add: R_def)
    next
      case False
      then have r: "r = out' ! j" using j by simp
      note row = rows' [OF nth_mem [OF j(1), folded r]]
      have "rowkey r \<noteq> ?k" using idx' [of ?k] key_i i j(1) False r by (metis option.inject)
      then have "\<not> in_row hh (cr_account r) (cr_device r) b" using same row hit by blast
      with row show ?thesis by (simp add: row_of_other)
    qed
  qed
  moreover have "\<exists>r \<in> set (out'[i := R]). cr_account r = bk_account b' \<and> cr_device r = bk_device b'"
    if mem: "(b', c') \<in> set (bs @ [(b, c)])" and late: "hh \<le> bk_hour b'" for b' c'
  proof (cases "bk_account b' = ?a \<and> bk_device b' = ?d")
    case True
    then show ?thesis using R i by (metis set_update_memI)
  next
    case False
    then have "(b', c') \<in> set bs" using mem by auto
    then obtain r where "r \<in> set out'" and r: "cr_account r = bk_account b'" "cr_device r = bk_device b'"
      using cover late out_sub by blast
    then obtain j where j: "j < length out'" "r = out' ! j" by (auto simp: in_set_conv_nth)
    have "j \<noteq> i" using False j r at_i by (auto simp: row_of_def)
    then have "r \<in> set (out'[i := R])" using j by (metis length_list_update nth_list_update_neq nth_mem)
    with r show ?thesis by blast
  qed
  ultimately show ?thesis unfolding step table_ok_def by blast
qed


lemma table_ok_fold:
  "\<forall>(b, c) \<in> set cs. CHR ''|'' \<notin> set (bk_account b) \<Longrightarrow> table_ok hh bs st \<Longrightarrow>
     table_ok hh (bs @ cs) (foldl (consumer_step hh) st cs)"
proof (induction cs arbitrary: bs st)
  case (Cons e cs)
  obtain b c idx out where e: "e = (b, c)" and st: "st = (idx, out)" by fastforce
  have "table_ok hh (bs @ [e]) (consumer_step hh st e)"
    using Cons.prems unfolding e st by (intro table_ok_step) auto
  then show ?case using Cons.IH [of "bs @ [e]"] Cons.prems(1) by simp
qed simp

lemma table_ok_PerConsumer:
  assumes "\<forall>(b, c) \<in> set (us_buckets u). CHR ''|'' \<notin> set (bk_account b)"
  shows "\<exists>idx. table_ok (hour_of since) (us_buckets u) (idx, PerConsumer since u)"
proof -
  have "table_ok (hour_of since) [] ([], [])" by (simp add: table_ok_def)
  from table_ok_fold [OF assms this]
  show ?thesis by (simp add: PerConsumer_def) (metis prod.collapse)
qed

text \<open>
  The per-consumer table is right: it has one row per (account, device) with traffic since the
  given hour and no two rows for the same one; a row's bytes are the sum over the consumer's
  buckets, and its exit bytes the sum over those that went through an exit, which is what
  \<^verbatim>\<open>EgressLaneTotals\<close> counts when the device id belongs to one account. (Account ids contain no
  bar, as the ids the store draws.)
\<close>

theorem PerConsumer_rows:
  assumes "\<forall>(b, c) \<in> set (us_buckets u). CHR ''|'' \<notin> set (bk_account b)"
  shows "distinct (map (\<lambda>r. (cr_account r, cr_device r)) (PerConsumer since u))
    \<and> (\<forall>(b, c) \<in> set (us_buckets u). bk_hour b \<ge> hour_of since \<longrightarrow>
         (\<exists>r \<in> set (PerConsumer since u). cr_account r = bk_account b \<and> cr_device r = bk_device b))
    \<and> (\<forall>r \<in> set (PerConsumer since u).
         cr_tx r = wrap64 (\<Sum>(b, c) \<leftarrow> us_buckets u. if bk_account b = cr_account r \<and> bk_device b = cr_device r
            \<and> bk_hour b \<ge> hour_of since then ct_tx c else 0)
       \<and> ((\<forall>(b, c) \<in> set (us_buckets u). bk_device b = cr_device r \<longrightarrow> bk_account b = cr_account r) \<longrightarrow>
          cr_egress r = ct_tx (EgressLaneTotals (cr_device r) since u)))"
proof -
  obtain idx where ok: "table_ok (hour_of since) (us_buckets u) (idx, PerConsumer since u)"
    using table_ok_PerConsumer [OF assms] by blast
  let ?out = "PerConsumer since u"
  have idx: "map_of idx k = Some i \<longleftrightarrow> i < length ?out \<and> rowkey (?out ! i) = k" for k i
    using ok by (auto simp: table_ok_def)
  have rows: "r = row_of (hour_of since) (us_buckets u) (cr_account r) (cr_device r)" if "r \<in> set ?out" for r
    using ok that by (auto simp: table_ok_def)
  have "distinct (map rowkey ?out)"
    unfolding distinct_conv_nth using idx by (metis length_map nth_map option.inject)
  moreover have "map rowkey ?out = map (\<lambda>(a, d). a @ ''|'' @ d) (map (\<lambda>r. (cr_account r, cr_device r)) ?out)"
    by (simp add: rowkey_def)
  ultimately have "distinct (map (\<lambda>(a, d). a @ ''|'' @ d) (map (\<lambda>r. (cr_account r, cr_device r)) ?out))"
    by (simp only:)
  then have "distinct (map (\<lambda>r. (cr_account r, cr_device r)) ?out)"
    unfolding distinct_map [of "\<lambda>(a, d). a @ ''|'' @ d"] by (rule conjunct1)
  moreover have "cr_tx r = wrap64 (\<Sum>(b, c) \<leftarrow> us_buckets u. if bk_account b = cr_account r \<and> bk_device b = cr_device r
      \<and> bk_hour b \<ge> hour_of since then ct_tx c else 0)" if "r \<in> set ?out" for r
    using arg_cong [OF rows [OF that], of cr_tx]
    by (simp add: row_of_def sum_if_def in_row_def case_prod_unfold)
  moreover have "cr_egress r = ct_tx (EgressLaneTotals (cr_device r) since u)"
    if "r \<in> set ?out" and own: "\<forall>(b, c) \<in> set (us_buckets u). bk_device b = cr_device r \<longrightarrow> bk_account b = cr_account r" for r
  proof -
    have "cr_egress r = wrap64 (sum_if (\<lambda>b. in_row (hour_of since) (cr_account r) (cr_device r) b \<and> bk_egress b \<noteq> [])
        ct_tx (us_buckets u))"
      using arg_cong [OF rows [OF that(1)], of cr_egress] by (simp add: row_of_def)
    also have "\<dots> = ct_tx (EgressLaneTotals (cr_device r) since u)"
      unfolding EgressLaneTotals_def accumulate_sums sum_if_def using own
      by (intro arg_cong [where f = wrap64] arg_cong [where f = sum_list] map_cong) (auto simp: in_row_def)
    finally show ?thesis .
  qed
  moreover have "\<forall>(b, c) \<in> set (us_buckets u). bk_hour b \<ge> hour_of since \<longrightarrow>
      (\<exists>r \<in> set ?out. cr_account r = bk_account b \<and> cr_device r = bk_device b)"
    using ok by (simp add: table_ok_def)
  ultimately show ?thesis by blast
qed

lemma PerConsumer_rows_witness:
  "distinct (map (\<lambda>r. (cr_account r, cr_device r)) (PerConsumer 0 (fold add_event sample_events empty_usage)))"
  by (rule PerConsumer_rows [THEN conjunct1]) (simp add: sample_events_def add_event_def Add_def empty_usage_def Let_def)

end
