(* ===== verification/Rate.thy ===== *)
theory Rate
  imports Orbit_Prelude
begin

text \<open>
  The in-memory limiter of \<^verbatim>\<open>internal/server/rate.go\<close>: a counter per key that starts again when
  its window has passed, and the pruning of passed windows when there are many keys. One
  limiter serves all callers; each call brings its own limit and window.
\<close>

record rw =
  rw_start :: time
  rw_n :: int

type_synonym limiter = "(string, rw) gomap"

definition newRateLimiter :: limiter where
  "newRateLimiter = []"

definition prune :: "time \<Rightarrow> duration \<Rightarrow> limiter \<Rightarrow> limiter" where
  "prune now window hits = filter (\<lambda>(k, e). \<not> now - rw_start e \<ge> window) hits"

text \<open>
  \<^verbatim>\<open>e.n++\<close> writes through the pointer: when pruning has dropped the new entry (a window of no
  length), the counter that is incremented is no longer in the map.
\<close>

definition Allow :: "time \<Rightarrow> string \<Rightarrow> int \<Rightarrow> duration \<Rightarrow> limiter \<Rightarrow> limiter \<times> bool" where
  "Allow now key limit window hits =
     (let fresh = (case map_of hits key of None \<Rightarrow> True | Some e \<Rightarrow> now - rw_start e \<ge> window);
          e = (if fresh then \<lparr>rw_start = now, rw_n = 0\<rparr> else the (map_of hits key));
          hits = (if fresh
                  then let hits = put key e hits
                       in if length hits > 10000 then prune now window hits else hits
                  else hits);
          e = e\<lparr>rw_n := rw_n e + 1\<rparr>;
          hits = (if map_of hits key = None then hits else put key e hits)
      in (hits, rw_n e \<le> limit))"

record call =
  ca_at :: time
  ca_key :: string
  ca_limit :: int
  ca_window :: duration

definition allow_call :: "call \<Rightarrow> limiter \<Rightarrow> limiter \<times> bool" where
  "allow_call c = Allow (ca_at c) (ca_key c) (ca_limit c) (ca_window c)"

text \<open>How many of the calls for a key are allowed.\<close>

fun allowed :: "string \<Rightarrow> limiter \<Rightarrow> call list \<Rightarrow> int" where
  "allowed k hits [] = 0"
| "allowed k hits (c # cs) =
     (let (hits', ok) = allow_call c hits
      in (if ca_key c = k \<and> ok then 1 else 0) + allowed k hits' cs)"

lemma prune_wf [simp]: "wf_map m \<Longrightarrow> wf_map (prune now w m)"
  by (simp add: prune_def)

lemma map_of_prune:
  "wf_map m \<Longrightarrow> map_of (prune now w m) k =
     (case map_of m k of None \<Rightarrow> None | Some e \<Rightarrow> if now - rw_start e \<ge> w then None else Some e)"
  by (simp add: prune_def map_of_filter split: option.split)

lemma Allow_wf [simp]: "wf_map m \<Longrightarrow> wf_map (fst (Allow now key l w m))"
  by (simp add: Allow_def Let_def)

text \<open>The entry of a key as far as a window \<open>w\<close> can still see it at time \<open>now\<close>.\<close>

definition live :: "duration \<Rightarrow> time \<Rightarrow> limiter \<Rightarrow> string \<Rightarrow> rw option" where
  "live w now m k = (case map_of m k of None \<Rightarrow> None | Some e \<Rightarrow> if now - rw_start e \<ge> w then None else Some e)"

lemma Allow_result:
  assumes "wf_map m" and "0 < w"
  shows "snd (Allow now k l w m) = (case live w now m k of None \<Rightarrow> 1 \<le> l | Some e \<Rightarrow> rw_n e + 1 \<le> l)"
  using assms by (auto simp: Allow_def Let_def live_def split: option.splits)

lemma Allow_entry:
  assumes "wf_map m" and "0 < w"
  shows "map_of (fst (Allow now k l w m)) k = (case live w now m k of
      None \<Rightarrow> Some \<lparr>rw_start = now, rw_n = 1\<rparr> | Some e \<Rightarrow> Some (e\<lparr>rw_n := rw_n e + 1\<rparr>))"
  using assms by (auto simp: Allow_def Let_def live_def map_of_prune split: option.splits)

text \<open>A call for another key only drops entries that are no longer live.\<close>

lemma Allow_other:
  assumes "wf_map m" and "0 < w" and "k \<noteq> k'"
  shows "map_of (fst (Allow now k' l w m)) k = map_of m k \<or>
    (map_of (fst (Allow now k' l w m)) k = None \<and> live w now m k = None)"
  using assms by (auto simp: Allow_def Let_def live_def map_of_prune split: option.splits)

lemma live_later: "live w t m k = None \<Longrightarrow> t \<le> t' \<Longrightarrow> live w t' m k = None"
  by (auto simp: live_def split: option.splits if_splits)


text \<open>Once a key's entry started inside an interval of one window, its count is what was allowed since.\<close>

lemma allowed_started:
  assumes "0 < w"
  shows "wf_map m \<Longrightarrow> sorted (map ca_at cs) \<Longrightarrow>
    \<forall>c \<in> set cs. ca_window c = w \<and> (ca_key c = k \<longrightarrow> ca_limit c = l) \<and> T \<le> ca_at c \<and> ca_at c < T + w \<Longrightarrow>
    map_of m k = Some e \<Longrightarrow> T \<le> rw_start e \<Longrightarrow> \<forall>c \<in> set cs. rw_start e \<le> ca_at c \<Longrightarrow>
    allowed k m cs \<le> max 0 (l - rw_n e)"
proof (induction cs arbitrary: m e)
  case Nil
  then show ?case by simp
next
  case (Cons c cs)
  let ?m = "fst (allow_call c m)"
  have c: "ca_window c = w" "T \<le> ca_at c" "ca_at c < T + w" using Cons.prems by auto
  have live: "live w (ca_at c) m k = Some e"
    using Cons.prems(4,5) c by (auto simp: live_def)
  have wf: "wf_map ?m" using Cons.prems(1) by (simp add: allow_call_def)
  show ?case
  proof (cases "ca_key c = k")
    case True
    then have "ca_limit c = l" using Cons.prems by auto
    then have ok: "snd (allow_call c m) \<longleftrightarrow> rw_n e + 1 \<le> l"
      and e': "map_of ?m k = Some (e\<lparr>rw_n := rw_n e + 1\<rparr>)"
      using Allow_result [OF Cons.prems(1) assms, of "ca_at c" k l] Allow_entry [OF Cons.prems(1) assms, of "ca_at c" k l]
        live True c by (simp_all add: allow_call_def)
    have "allowed k ?m cs \<le> max 0 (l - (rw_n e + 1))"
      using Cons.IH [OF wf _ _ e'] Cons.prems by simp
    then show ?thesis using ok True by (auto simp: Let_def case_prod_unfold)
  next
    case False
    then have "map_of ?m k = Some e"
      using Allow_other [OF Cons.prems(1) assms, of k "ca_key c" "ca_at c" "ca_limit c"] live Cons.prems(4) c
      by (auto simp: allow_call_def)
    then have "allowed k ?m cs \<le> max 0 (l - rw_n e)"
      using Cons.IH [OF wf _ _ _ Cons.prems(5)] Cons.prems by simp
    then show ?thesis using False by (simp add: Let_def case_prod_unfold)
  qed
qed

text \<open>
  A key passes at most twice its limit in any interval as long as its window: for calls at
  non-decreasing times inside such an interval, all with that window, at most \<open>2 * limit\<close> calls
  of the key are allowed, whatever other keys do and however often the map is pruned. (The
  counter is a fixed window that starts at its first call, so one full window can end and
  another be used up inside the interval; the bound is reached.)
\<close>

theorem rate_limit_bound:
  assumes "wf_map m" and "0 < w" and "0 \<le> l" and "\<forall>(k, e) \<in> set m. 0 \<le> rw_n e" and "sorted (map ca_at cs)"
    and "\<forall>c \<in> set cs. ca_window c = w \<and> (ca_key c = k \<longrightarrow> ca_limit c = l) \<and> T \<le> ca_at c \<and> ca_at c < T + w"
  shows "allowed k m cs \<le> 2 * l"
proof -
  have "allowed k m cs \<le> max 0 (l - n) + l"
    if "wf_map m" "sorted (map ca_at cs)"
      "\<forall>c \<in> set cs. ca_window c = w \<and> (ca_key c = k \<longrightarrow> ca_limit c = l) \<and> T \<le> ca_at c \<and> ca_at c < T + w"
      "0 \<le> n" "\<forall>e. map_of m k = Some e \<longrightarrow> rw_n e = n" for n
    using that
  proof (induction cs arbitrary: m n)
    case Nil
    then show ?case using assms(3) by simp
  next
    case (Cons c cs)
    let ?m = "fst (allow_call c m)"
    have c: "ca_window c = w" "T \<le> ca_at c" "ca_at c < T + w" using Cons.prems by auto
    have wf: "wf_map ?m" using Cons.prems(1) by (simp add: allow_call_def)
    note rest = Cons.IH [OF wf]
    show ?case
    proof (cases "ca_key c = k")
      case True
      then have lim: "ca_limit c = l" using Cons.prems by auto
      note res = Allow_result [OF Cons.prems(1) assms(2), of "ca_at c" k l]
        and ent = Allow_entry [OF Cons.prems(1) assms(2), of "ca_at c" k l]
      show ?thesis
      proof (cases "live w (ca_at c) m k")
        case None
        then have e': "map_of ?m k = Some \<lparr>rw_start = ca_at c, rw_n = 1\<rparr>"
          using ent True c lim by (simp add: allow_call_def)
        have "allowed k ?m cs \<le> max 0 (l - 1)"
          using allowed_started [OF assms(2) wf _ _ e', of cs l T] Cons.prems c by simp
        then show ?thesis
          using None res True c lim assms(3) by (auto simp: allow_call_def Let_def case_prod_unfold)
      next
        case (Some e)
        then have e: "map_of m k = Some e" by (auto simp: live_def split: option.splits if_splits)
        have n: "rw_n e = n" using e Cons.prems(5) by simp
        have e': "map_of ?m k = Some (e\<lparr>rw_n := rw_n e + 1\<rparr>)"
          using ent Some True c lim by (simp add: allow_call_def)
        have "allowed k ?m cs \<le> max 0 (l - (n + 1)) + l"
        proof (rule rest)
          show "\<forall>x. map_of ?m k = Some x \<longrightarrow> rw_n x = n + 1" using e' n by simp
        qed (use Cons.prems(2-4) in simp_all)
        then show ?thesis
          using Some res True c lim n by (simp add: allow_call_def Let_def case_prod_unfold max_def split: if_splits)
      qed
    next
      case False
      then have "map_of ?m k = map_of m k \<or> map_of ?m k = None"
        using Allow_other [OF Cons.prems(1) assms(2), of k "ca_key c" "ca_at c" "ca_limit c"] c
        by (auto simp: allow_call_def)
      then have "allowed k ?m cs \<le> max 0 (l - n) + l"
        using rest [of n] Cons.prems by auto
      then show ?thesis using False by (simp add: Let_def case_prod_unfold)
    qed
  qed
  note bound = this
  let ?n = "case map_of m k of None \<Rightarrow> 0 | Some e \<Rightarrow> rw_n e"
  have nn: "0 \<le> ?n"
    using assms(4) by (auto dest: map_of_SomeD split: option.split)
  then have "allowed k m cs \<le> max 0 (l - ?n) + l"
    by (intro bound [OF assms(1,5,6)]) auto
  then show ?thesis using assms(3) nn by linarith
qed


definition sample_calls :: "call list" where
  "sample_calls = map (\<lambda>t. \<lparr>ca_at = t, ca_key = ''k'', ca_limit = 2, ca_window = 60\<rparr>) [59, 59, 60, 61, 62]"

lemma rate_limit_bound_witness:
  "allowed ''k'' [(''k'', \<lparr>rw_start = 0, rw_n = 0\<rparr>)] sample_calls \<le> 2 * 2
   \<and> allowed ''k'' [(''k'', \<lparr>rw_start = 0, rw_n = 0\<rparr>)] sample_calls = 4"
proof
  show "allowed ''k'' [(''k'', \<lparr>rw_start = 0, rw_n = 0\<rparr>)] sample_calls \<le> 2 * 2"
    by (rule rate_limit_bound [where w = 60 and T = 59]) (auto simp: sample_calls_def wf_map_def)
  show "allowed ''k'' [(''k'', \<lparr>rw_start = 0, rw_n = 0\<rparr>)] sample_calls = 4"
    by (simp add: sample_calls_def allow_call_def Allow_def)
qed

text \<open>
  The limiter is shared by callers with different windows, and pruning uses the window of
  the call that triggers it: when a call with a one-minute window brings the number of keys
  above 10000, an hourly entry older than a minute is dropped, and a key that had used up its
  hourly limit is allowed again within the hour.
\<close>

theorem prune_forgets_longer_windows:
  assumes "wf_map m" and "10000 \<le> length m" and "map_of m k' = None"
    and "map_of m k = Some e" and "minute \<le> now - rw_start e" and "now - rw_start e < hour" and "l \<le> rw_n e" and "1 \<le> l"
  shows "snd (Allow now k l hour m) = False \<and>
    snd (Allow now k l hour (fst (Allow now k' l' minute m))) = True"
proof
  have k: "k \<noteq> k'" using assms(3,4) by auto
  have pos: "0 < minute" "0 < hour" by (simp_all add: time_units)
  show "snd (Allow now k l hour m) = False"
    using Allow_result [OF assms(1) pos(2), of now k l] assms(4,6,7) by (simp add: live_def)
  have "put k' \<lparr>rw_start = now, rw_n = 0\<rparr> m = m @ [(k', \<lparr>rw_start = now, rw_n = 0\<rparr>)]"
    using assms(3) by (intro put_fresh) (simp add: map_of_eq_None_iff)
  then have "10000 < length (put k' \<lparr>rw_start = now, rw_n = 0\<rparr> m)" using assms(2) by simp
  then have "map_of (fst (Allow now k' l' minute m)) k = None"
    using assms(1,3-5) k pos(1) by (simp add: Allow_def Let_def map_of_prune)
  moreover have "wf_map (fst (Allow now k' l' minute m))" using assms(1) by simp
  ultimately show "snd (Allow now k l hour (fst (Allow now k' l' minute m))) = True"
    using Allow_result [OF _ pos(2), of "fst (Allow now k' l' minute m)" now k l] assms(8)
    by (simp add: live_def)
qed

definition crowded_limiter :: limiter where
  "crowded_limiter = (''enroll:a'', \<lparr>rw_start = 0, rw_n = 30\<rparr>) #
     map (\<lambda>i. (replicate i CHR ''x'', \<lparr>rw_start = 0, rw_n = 1\<rparr>)) [0..<10000]"

lemma prune_forgets_longer_windows_witness:
  "snd (Allow (2 * minute) ''enroll:a'' 30 hour crowded_limiter) = False \<and>
    snd (Allow (2 * minute) ''enroll:a'' 30 hour
      (fst (Allow (2 * minute) ''hello:b'' 10 minute crowded_limiter))) = True"
proof (rule prune_forgets_longer_windows [where e = "\<lparr>rw_start = 0, rw_n = 30\<rparr>"])
  have no: "replicate i CHR ''x'' \<noteq> c # cs" if "c \<noteq> CHR ''x''" for i c cs
    using that by (cases i) auto
  have "inj_on (\<lambda>i. replicate i CHR ''x'') A" for A
    by (rule inj_onI) (metis length_replicate)
  then show "wf_map crowded_limiter"
    using no [of "CHR ''e''", symmetric] by (auto simp: crowded_limiter_def wf_map_def comp_def distinct_map)
  show "map_of crowded_limiter ''hello:b'' = None"
    using no [of "CHR ''h''", symmetric] by (auto simp: crowded_limiter_def map_of_eq_None_iff)
qed (simp_all add: crowded_limiter_def time_units)

end
