(* ===== verification/Server_Config.thy ===== *)
theory Server_Config
  imports Orbit_Prelude
begin

text \<open>
  The server's configuration: the records and the two lookups of \<^verbatim>\<open>internal/server/config.go\<close>.
  (\<^verbatim>\<open>New\<close>, which opens the stores and builds the hub, is in the theory Server.) A nil map is
  \<open>None\<close>.
\<close>

record quota_spec =
  qs_bytes :: int
  qs_egress :: int

record config =
  cf_listen :: string
  cf_cert :: string
  cf_key :: string
  cf_networks :: "(string, string) gomap"
  cf_resolver :: string
  cf_admin_addr :: string
  cf_admin_token :: string
  cf_public_addr :: string
  cf_public_ca :: string
  cf_data_dir :: string
  cf_log_file :: string
  cf_log_max :: int
  cf_log_keep :: int
  cf_default_quota :: quota_spec
  cf_default_tier :: string
  cf_tiers :: "(string, quota_spec) gomap option"

definition QuotaFor :: "config \<Rightarrow> string \<Rightarrow> quota_spec" where
  "QuotaFor c tier =
     (case cf_tiers c of
        None \<Rightarrow> cf_default_quota c
      | Some tiers \<Rightarrow> (case map_of tiers tier of Some q \<Rightarrow> q | None \<Rightarrow> cf_default_quota c))"

definition NetworkCIDR :: "config \<Rightarrow> string" where
  "NetworkCIDR c =
     (let cidr = (case map_of (cf_networks c) ''default'' of Some v \<Rightarrow> v | None \<Rightarrow> [])
      in if cidr \<noteq> [] then cidr else ''10.0.0.0/24'')"

end
