(* ===== verification/Quota.thy ===== *)
theory Quota
  imports Account_Store Lease Usage Server_Config "HOL-Library.Multiset"
begin

text \<open>
  The daily hard limits: \<^verbatim>\<open>internal/server/quota.go\<close>. Two counters per day, one per account and
  one per consumer device for traffic through an exit; \<^verbatim>\<open>admit\<close> compares, \<^verbatim>\<open>inc\<close> counts, and both
  start again when the day changes. The account store is shared with the rest of the server: the
  tracker keeps the fact that it was installed (\<open>qt_acct\<close>), the store itself is an argument.
\<close>

record quota_trk =
  qt_defaults :: quota_spec
  qt_tiers :: "(string, quota_spec) gomap option"
  qt_acct :: bool
  qt_day :: int
  qt_acctBy :: "(string, int) gomap"
  qt_egressBy :: "(string, int) gomap"

definition day_of :: "time \<Rightarrow> int" where
  "day_of t = go_div (unix_sec t) 86400"

text \<open>\<^verbatim>\<open>m[k]\<close> and \<^verbatim>\<open>m[k] += n\<close> on a map of counters.\<close>

definition count_of :: "(string, int) gomap \<Rightarrow> string \<Rightarrow> int" where
  "count_of m k = (case map_of m k of None \<Rightarrow> 0 | Some n \<Rightarrow> n)"

definition bump :: "string \<Rightarrow> int \<Rightarrow> (string, int) gomap \<Rightarrow> (string, int) gomap" where
  "bump k n m = put k (add64 (count_of m k) n) m"

definition refill :: "usage_store \<Rightarrow> time \<Rightarrow> quota_trk \<Rightarrow> lease \<Rightarrow> quota_trk" where
  "refill usage since q l =
     (let q = (if map_of (qt_acctBy q) (le_account l) = None
               then let t = Totals (le_account l) since usage
                    in q\<lparr>qt_acctBy := put (le_account l) (add64 (ct_rx t) (ct_tx t)) (qt_acctBy q)\<rparr>
               else q)
      in if map_of (qt_egressBy q) (le_device l) = None
         then let e = EgressLaneTotals (le_device l) since usage
              in q\<lparr>qt_egressBy := put (le_device l) (add64 (ct_rx e) (ct_tx e)) (qt_egressBy q)\<rparr>
         else q)"

text \<open>The clock is read twice: for the day and for the start of the refilled period.\<close>

definition newQuotaTrk :: "time \<Rightarrow> time \<Rightarrow> quota_spec \<Rightarrow> usage_store option \<Rightarrow> lease_store option \<Rightarrow> quota_trk" where
  "newQuotaTrk now now' defaults usage leases =
     (let q = \<lparr>qt_defaults = defaults, qt_tiers = None, qt_acct = False, qt_day = day_of now,
               qt_acctBy = [], qt_egressBy = []\<rparr>
      in case (usage, leases) of
           (Some u, Some ls) \<Rightarrow> foldl (refill u (truncate_time (24 * hour) now')) q (Array ls)
         | _ \<Rightarrow> q)"

definition enableTiers :: "(string, quota_spec) gomap option \<Rightarrow> bool \<Rightarrow> quota_trk \<Rightarrow> quota_trk" where
  "enableTiers tiers acct q = q\<lparr>qt_tiers := tiers, qt_acct := acct\<rparr>"

definition specFor :: "store \<Rightarrow> string \<Rightarrow> quota_trk \<Rightarrow> quota_spec" where
  "specFor acct acc q =
     (case qt_tiers q of
        None \<Rightarrow> qt_defaults q
      | Some tiers \<Rightarrow>
          if \<not> qt_acct q then qt_defaults q
          else case get_account acc acct of
              Inl _ \<Rightarrow> qt_defaults q
            | Inr a \<Rightarrow> (case map_of tiers (ac_tier a) of Some sp \<Rightarrow> sp | None \<Rightarrow> qt_defaults q))"

definition rolloverLocked :: "time \<Rightarrow> quota_trk \<Rightarrow> quota_trk" where
  "rolloverLocked now q =
     (let day = day_of now
      in if day \<noteq> qt_day q then q\<lparr>qt_day := day, qt_acctBy := [], qt_egressBy := []\<rparr> else q)"

text \<open>The result is the blocking reason, if any; reading the clock may start a new day.\<close>

definition admit :: "store \<Rightarrow> time \<Rightarrow> string \<Rightarrow> string \<Rightarrow> bool \<Rightarrow> int \<Rightarrow> quota_trk \<Rightarrow> quota_trk \<times> string option" where
  "admit acct now acc dev egressPath n q =
     (let q = rolloverLocked now q;
          spec = specFor acct acc q;
          used = count_of (qt_acctBy q) acc; limit = qs_bytes spec;
          eused = count_of (qt_egressBy q) dev; elimit = qs_egress spec
      in if limit > 0 \<and> add64 used n > limit
         then (q, Some (''account daily bytes '' @ show_int (add64 used n) @ ''/'' @ show_int limit))
         else if egressPath \<and> elimit > 0 \<and> add64 eused n > elimit
         then (q, Some (''egress daily bytes '' @ show_int (add64 eused n) @ ''/'' @ show_int elimit))
         else (q, None))"

definition inc :: "store \<Rightarrow> time \<Rightarrow> string \<Rightarrow> string \<Rightarrow> bool \<Rightarrow> int \<Rightarrow> quota_trk \<Rightarrow> quota_trk" where
  "inc acct now acc dev egressPath n q =
     (let q = rolloverLocked now q;
          spec = specFor acct acc q
      in if qs_bytes spec \<le> 0 \<and> qs_egress spec \<le> 0 then q
         else let q = q\<lparr>qt_acctBy := bump acc n (qt_acctBy q)\<rparr>
              in if egressPath then q\<lparr>qt_egressBy := bump dev n (qt_egressBy q)\<rparr> else q)"

subsection \<open>Basic facts\<close>

lemma count_of_Nil [simp]: "count_of [] k = 0"
  by (simp add: count_of_def)

lemma count_of_bump [simp]: "count_of (bump k n m) k' = (if k' = k then add64 (count_of m k) n else count_of m k')"
  by (simp add: count_of_def bump_def)

lemma rollover_simps [simp]:
  "qt_day (rolloverLocked now q) = day_of now"
  "qt_defaults (rolloverLocked now q) = qt_defaults q"
  "qt_tiers (rolloverLocked now q) = qt_tiers q"
  "qt_acct (rolloverLocked now q) = qt_acct q"
  by (simp_all add: rolloverLocked_def Let_def)

lemma rollover_same: "day_of now = qt_day q \<Longrightarrow> rolloverLocked now q = q"
  by (simp add: rolloverLocked_def)

lemma rollover_counts:
  "qt_acctBy (rolloverLocked now q) = (if day_of now = qt_day q then qt_acctBy q else [])"
  "qt_egressBy (rolloverLocked now q) = (if day_of now = qt_day q then qt_egressBy q else [])"
  by (simp_all add: rolloverLocked_def Let_def)

lemma specFor_cong:
  "qt_defaults q = qt_defaults q' \<Longrightarrow> qt_tiers q = qt_tiers q' \<Longrightarrow> qt_acct q = qt_acct q' \<Longrightarrow>
     specFor acct acc q = specFor acct acc q'"
  by (simp only: specFor_def)

lemma specFor_rollover [simp]: "specFor acct acc (rolloverLocked now q) = specFor acct acc q"
  by (rule specFor_cong) simp_all

lemma fst_admit [simp]: "fst (admit acct now acc dev eg n q) = rolloverLocked now q"
  by (simp add: admit_def Let_def)

lemma inc_simps [simp]:
  "qt_day (inc acct now acc dev eg n q) = day_of now"
  "qt_defaults (inc acct now acc dev eg n q) = qt_defaults q"
  "qt_tiers (inc acct now acc dev eg n q) = qt_tiers q"
  "qt_acct (inc acct now acc dev eg n q) = qt_acct q"
  by (simp_all add: inc_def Let_def)

lemma specFor_inc [simp]: "specFor acct' acc' (inc acct now acc dev eg n q) = specFor acct' acc' q"
  by (rule specFor_cong) simp_all

lemma inc_acctBy:
  "qt_acctBy (inc acct now acc dev eg n q) =
     (if qs_bytes (specFor acct acc q) \<le> 0 \<and> qs_egress (specFor acct acc q) \<le> 0
      then qt_acctBy (rolloverLocked now q) else bump acc n (qt_acctBy (rolloverLocked now q)))"
  by (simp add: inc_def Let_def)

lemma inc_egressBy:
  "qt_egressBy (inc acct now acc dev eg n q) =
     (if \<not> eg \<or> qs_bytes (specFor acct acc q) \<le> 0 \<and> qs_egress (specFor acct acc q) \<le> 0
      then qt_egressBy (rolloverLocked now q) else bump dev n (qt_egressBy (rolloverLocked now q)))"
  by (auto simp: inc_def Let_def)

text \<open>What was used today, as a call at time \<open>now\<close> sees it.\<close>

definition used_today :: "time \<Rightarrow> string \<Rightarrow> quota_trk \<Rightarrow> int" where
  "used_today now acc q = (if day_of now = qt_day q then count_of (qt_acctBy q) acc else 0)"

definition egress_today :: "time \<Rightarrow> string \<Rightarrow> quota_trk \<Rightarrow> int" where
  "egress_today now dev q = (if day_of now = qt_day q then count_of (qt_egressBy q) dev else 0)"

lemma used_rollover [simp]:
  "count_of (qt_acctBy (rolloverLocked now q)) acc = used_today now acc q"
  "count_of (qt_egressBy (rolloverLocked now q)) dev = egress_today now dev q"
  by (simp_all add: rollover_counts used_today_def egress_today_def)

text \<open>
  \<^verbatim>\<open>admit\<close> decides exactly by the two lanes: a packet passes if and only if the account's limit is
  0 or not exceeded by today's bytes plus the packet's, and, for a packet through an exit, the same
  holds of the device's exit lane. On the first call of a new day the bytes used count as 0. The
  call changes nothing but the day.
\<close>

theorem admit_decides:
  "(snd (admit acct now acc dev eg n q) = None \<longleftrightarrow>
     \<not> (qs_bytes (specFor acct acc q) > 0 \<and> add64 (used_today now acc q) n > qs_bytes (specFor acct acc q))
     \<and> \<not> (eg \<and> qs_egress (specFor acct acc q) > 0 \<and> add64 (egress_today now dev q) n > qs_egress (specFor acct acc q)))
   \<and> fst (admit acct now acc dev eg n q) = rolloverLocked now q"
  by (auto simp: admit_def Let_def)

subsection \<open>The limit under concurrency\<close>

text \<open>
  \<^verbatim>\<open>Relay\<close> admits a packet, writes it without a lock, and counts it afterwards. A lane is such a
  check-then-count pair seen from one counter; \<open>lane_step\<close> lets \<open>K\<close> connections have one admitted
  packet each in flight, in any order, and a packet whose write fails is dropped uncounted.
\<close>

record packet =
  pk_acct :: string
  pk_dev :: string
  pk_egress :: bool
  pk_size :: int

inductive lane_step ::
    "('t \<Rightarrow> 'p \<Rightarrow> 's \<Rightarrow> 's \<times> bool) \<Rightarrow> ('t \<Rightarrow> 'p \<Rightarrow> 's \<Rightarrow> 's) \<Rightarrow> ('p \<Rightarrow> bool) \<Rightarrow> nat
      \<Rightarrow> 's \<times> 'p multiset \<Rightarrow> 's \<times> 'p multiset \<Rightarrow> bool"
  for adm cnt legal K where
  lane_admit: "size fl < K \<Longrightarrow> legal p \<Longrightarrow> adm t p s = (s', True) \<Longrightarrow>
     lane_step adm cnt legal K (s, fl) (s', add_mset p fl)"
| lane_refuse: "adm t p s = (s', False) \<Longrightarrow> lane_step adm cnt legal K (s, fl) (s', fl)"
| lane_count: "p \<in># fl \<Longrightarrow> lane_step adm cnt legal K (s, fl) (cnt t p s, fl - {#p#})"
| lane_drop: "p \<in># fl \<Longrightarrow> lane_step adm cnt legal K (s, fl) (s, fl - {#p#})"

inductive_cases lane_stepE: "lane_step adm cnt legal K sf tf"

locale lane =
  fixes adm :: "'t \<Rightarrow> 'p \<Rightarrow> 's \<Rightarrow> 's \<times> bool"
    and cnt :: "'t \<Rightarrow> 'p \<Rightarrow> 's \<Rightarrow> 's"
    and legal :: "'p \<Rightarrow> bool"
    and used :: "'s \<Rightarrow> int"
    and weight :: "'p \<Rightarrow> int"
    and good :: "'s \<Rightarrow> bool"
    and limit :: int and M :: int
  assumes weight_bounds: "legal p \<Longrightarrow> 0 \<le> weight p \<and> weight p \<le> M"
    and good_adm: "good s \<Longrightarrow> good (fst (adm t p s)) \<and> used (fst (adm t p s)) \<le> used s"
    and adm_ok: "good s \<Longrightarrow> legal p \<Longrightarrow> used s + M < 2 ^ 63 \<Longrightarrow> snd (adm t p s) \<Longrightarrow>
      weight p = 0 \<or> used (fst (adm t p s)) + weight p \<le> limit"
    and good_cnt: "good s \<Longrightarrow> legal p \<Longrightarrow> used s + M < 2 ^ 63 \<Longrightarrow>
      good (cnt t p s) \<and> used (cnt t p s) \<le> used s + weight p"
    and used_nonneg: "good s \<Longrightarrow> 0 \<le> used s"
begin

definition lane_inv :: "nat \<Rightarrow> 's \<times> 'p multiset \<Rightarrow> bool" where
  "lane_inv K sf \<longleftrightarrow> good (fst sf) \<and> size (snd sf) \<le> K \<and> (\<forall>p \<in># snd sf. legal p)
     \<and> used (fst sf) + (\<Sum>p \<in># snd sf. weight p) \<le> limit + (int K - 1) * M"

lemma weights_le: "\<forall>p \<in># fl. legal p \<Longrightarrow> 0 \<le> (\<Sum>p \<in># fl. weight p) \<and> (\<Sum>p \<in># fl. weight p) \<le> int (size fl) * M"
proof (induction fl)
  case (add p fl)
  then show ?case using weight_bounds [of p] by (simp add: algebra_simps)
qed simp

lemma used_room:
  assumes "lane_inv K (s, fl)" and "limit + int K * M < 2 ^ 63"
  shows "used s + M < 2 ^ 63"
proof -
  have "0 \<le> (\<Sum>p \<in># fl. weight p)" using assms(1) weights_le [of fl] by (simp add: lane_inv_def)
  then have "used s \<le> limit + int K * M - M" using assms(1) by (simp add: lane_inv_def algebra_simps)
  with assms(2) show ?thesis by linarith
qed

lemma lane_inv_step:
  assumes "lane_step adm cnt legal K sf tf" and "lane_inv K sf" and "0 \<le> M" and "limit + int K * M < 2 ^ 63"
  shows "lane_inv K tf"
  using assms(1)
proof (cases rule: lane_step.cases)
  case (lane_admit fl p t s s')
  have inv: "good s" "\<forall>p \<in># fl. legal p" "used s + (\<Sum>p \<in># fl. weight p) \<le> limit + (int K - 1) * M"
    using assms(2) lane_admit by (simp_all add: lane_inv_def)
  have room: "used s + M < 2 ^ 63" using used_room assms(2,4) lane_admit(1) by blast
  have s': "good s'" "used s' \<le> used s" "weight p = 0 \<or> used s' + weight p \<le> limit"
    using good_adm [OF inv(1), of t p] adm_ok [OF inv(1) lane_admit(4) room, of t] lane_admit(5) by auto
  have "(\<Sum>p \<in># fl. weight p) \<le> int (size fl) * M" using weights_le inv(2) by blast
  also have "\<dots> \<le> (int K - 1) * M" using lane_admit(3) assms(3) by (intro mult_right_mono) auto
  finally have "used s' + weight p + (\<Sum>p \<in># fl. weight p) \<le> limit + (int K - 1) * M"
    using s' inv(3) by linarith
  then show ?thesis using s'(1) inv(2) lane_admit by (simp add: lane_inv_def)
next
  case (lane_refuse t p s s' fl)
  then show ?thesis using assms(2) good_adm [of s t p] by (auto simp: lane_inv_def)
next
  case (lane_count p fl s t)
  have inv: "good s" "\<forall>p \<in># fl. legal p" "used s + (\<Sum>p \<in># fl. weight p) \<le> limit + (int K - 1) * M" "size fl \<le> K"
    using assms(2) lane_count by (simp_all add: lane_inv_def)
  obtain fl' where fl: "fl = add_mset p fl'" using lane_count(3) by (metis insert_DiffM)
  have "used s + M < 2 ^ 63" using used_room assms(2,4) lane_count(1) by blast
  then have "good (cnt t p s)" "used (cnt t p s) \<le> used s + weight p"
    using good_cnt [OF inv(1), of p t] inv(2) lane_count(3) by auto
  then show ?thesis using inv lane_count(2) by (simp add: lane_inv_def fl)
next
  case (lane_drop p fl s)
  obtain fl' where fl: "fl = add_mset p fl'" using lane_drop(3) by (metis insert_DiffM)
  have "0 \<le> weight p" using assms(2) lane_drop weight_bounds by (auto simp: lane_inv_def)
  then show ?thesis using assms(2) lane_drop by (simp add: lane_inv_def fl)
qed

lemma lane_bound:
  assumes "reach (\<lambda>sf. good (fst sf) \<and> used (fst sf) \<le> limit \<and> snd sf = {#}) (lane_step adm cnt legal K) sf"
    and "0 < K" and "0 \<le> M" and "limit + int K * M < 2 ^ 63"
  shows "lane_inv K sf"
  using assms(1)
proof (induction rule: reach.induct)
  case (reach_init sf)
  have "0 \<le> (int K - 1) * M" using assms(2,3) by simp
  with reach_init show ?case by (simp add: lane_inv_def)
next
  case (reach_step sf tf)
  then show ?case using lane_inv_step assms(3,4) by blast
qed

text \<open>In flight or counted, and counted alone, the lane stays below the limit plus one packet per other connection.\<close>

lemma lane_used:
  assumes "reach (\<lambda>sf. good (fst sf) \<and> used (fst sf) \<le> limit \<and> snd sf = {#}) (lane_step adm cnt legal K) (s, fl)"
    and "0 < K" and "0 \<le> M" and "limit + int K * M < 2 ^ 63"
  shows "used s + (\<Sum>p \<in># fl. weight p) \<le> limit + (int K - 1) * M \<and> used s \<le> limit + (int K - 1) * M"
  using lane_bound [OF assms] weights_le [of fl] by (simp add: lane_inv_def)

end

definition admit_packet :: "store \<Rightarrow> time \<Rightarrow> packet \<Rightarrow> quota_trk \<Rightarrow> quota_trk \<times> bool" where
  "admit_packet acct now p q =
     (let (q', r) = admit acct now (pk_acct p) (pk_dev p) (pk_egress p) (pk_size p) q in (q', r = None))"

definition inc_packet :: "store \<Rightarrow> time \<Rightarrow> packet \<Rightarrow> quota_trk \<Rightarrow> quota_trk" where
  "inc_packet acct now p q = inc acct now (pk_acct p) (pk_dev p) (pk_egress p) (pk_size p) q"

text \<open>Packets have a size between 0 and \<open>M\<close>, and a device's packets are its account's.\<close>

definition legal_packet :: "(string \<Rightarrow> string) \<Rightarrow> int \<Rightarrow> packet \<Rightarrow> bool" where
  "legal_packet owner M p \<longleftrightarrow> 0 \<le> pk_size p \<and> pk_size p \<le> M \<and> pk_acct p = owner (pk_dev p)"

definition acct_good :: "store \<Rightarrow> string \<Rightarrow> int \<Rightarrow> quota_trk \<Rightarrow> bool" where
  "acct_good acct a limit q \<longleftrightarrow> 0 < limit \<and> qs_bytes (specFor acct a q) = limit \<and> 0 \<le> count_of (qt_acctBy q) a"

definition egress_good :: "store \<Rightarrow> (string \<Rightarrow> string) \<Rightarrow> string \<Rightarrow> int \<Rightarrow> quota_trk \<Rightarrow> bool" where
  "egress_good acct owner d limit q \<longleftrightarrow>
     0 < limit \<and> qs_egress (specFor acct (owner d) q) = limit \<and> 0 \<le> count_of (qt_egressBy q) d"

lemma used_today_le: "0 \<le> count_of (qt_acctBy q) a \<Longrightarrow> 0 \<le> used_today now a q \<and> used_today now a q \<le> count_of (qt_acctBy q) a"
  "0 \<le> count_of (qt_egressBy q) d \<Longrightarrow> 0 \<le> egress_today now d q \<and> egress_today now d q \<le> count_of (qt_egressBy q) d"
  by (simp_all add: used_today_def egress_today_def)

lemma admit_packet_simps:
  "fst (admit_packet acct now p q) = rolloverLocked now q"
  "snd (admit_packet acct now p q) \<longleftrightarrow> snd (admit acct now (pk_acct p) (pk_dev p) (pk_egress p) (pk_size p) q) = None"
  by (simp_all add: admit_packet_def case_prod_unfold)

lemma admit_None:
  "snd (admit acct now acc dev eg n q) = None \<Longrightarrow>
     (qs_bytes (specFor acct acc q) > 0 \<longrightarrow> add64 (used_today now acc q) n \<le> qs_bytes (specFor acct acc q))
     \<and> (eg \<and> qs_egress (specFor acct acc q) > 0 \<longrightarrow> add64 (egress_today now dev q) n \<le> qs_egress (specFor acct acc q))"
  by (auto simp: admit_def Let_def split: if_splits)

interpretation acct_lane: lane "admit_packet acct" "inc_packet acct" "legal_packet owner M"
    "\<lambda>q. count_of (qt_acctBy q) a" "\<lambda>p. if pk_acct p = a then pk_size p else 0" "acct_good acct a limit" limit M
  for acct owner a limit M
proof unfold_locales
  fix p q t
  assume good: "acct_good acct a limit q"
  note le = used_today_le(1) [of q a t]
  show "acct_good acct a limit (fst (admit_packet acct t p q)) \<and>
      count_of (qt_acctBy (fst (admit_packet acct t p q))) a \<le> count_of (qt_acctBy q) a"
    using good le by (simp add: admit_packet_simps acct_good_def)
  assume "legal_packet owner M p" and room: "count_of (qt_acctBy q) a + M < 2 ^ 63"
  then have p: "0 \<le> pk_size p" "pk_size p \<le> M" by (simp_all add: legal_packet_def)
  have sum: "add64 (used_today t a q) (pk_size p) = used_today t a q + pk_size p"
    using good le p room by (intro add64_nonneg) (auto simp: acct_good_def)
  show "acct_good acct a limit (inc_packet acct t p q) \<and> count_of (qt_acctBy (inc_packet acct t p q)) a \<le>
      count_of (qt_acctBy q) a + (if pk_acct p = a then pk_size p else 0)"
    using good le p sum by (auto simp: inc_packet_def acct_good_def inc_acctBy)
  assume "snd (admit_packet acct t p q)"
  then show "(if pk_acct p = a then pk_size p else 0) = 0 \<or>
      count_of (qt_acctBy (fst (admit_packet acct t p q))) a + (if pk_acct p = a then pk_size p else 0) \<le> limit"
    using admit_None [of acct t a "pk_dev p" "pk_egress p" "pk_size p" q] good sum
    by (auto simp: admit_packet_simps acct_good_def)
qed (auto simp: legal_packet_def acct_good_def)

interpretation egress_lane: lane "admit_packet acct" "inc_packet acct" "legal_packet owner M"
    "\<lambda>q. count_of (qt_egressBy q) d" "\<lambda>p. if pk_dev p = d \<and> pk_egress p then pk_size p else 0"
    "egress_good acct owner d limit" limit M
  for acct owner d limit M
proof unfold_locales
  fix p q t
  assume good: "egress_good acct owner d limit q"
  note le = used_today_le(2) [of q d t]
  show "egress_good acct owner d limit (fst (admit_packet acct t p q)) \<and>
      count_of (qt_egressBy (fst (admit_packet acct t p q))) d \<le> count_of (qt_egressBy q) d"
    using good le by (simp add: admit_packet_simps egress_good_def)
  assume "legal_packet owner M p" and room: "count_of (qt_egressBy q) d + M < 2 ^ 63"
  then have p: "0 \<le> pk_size p" "pk_size p \<le> M" "pk_acct p = owner (pk_dev p)" by (simp_all add: legal_packet_def)
  have sum: "add64 (egress_today t d q) (pk_size p) = egress_today t d q + pk_size p"
    using good le p room by (intro add64_nonneg) (auto simp: egress_good_def)
  show "egress_good acct owner d limit (inc_packet acct t p q) \<and> count_of (qt_egressBy (inc_packet acct t p q)) d \<le>
      count_of (qt_egressBy q) d + (if pk_dev p = d \<and> pk_egress p then pk_size p else 0)"
    using good le p sum by (auto simp: inc_packet_def egress_good_def inc_egressBy)
  assume "snd (admit_packet acct t p q)"
  then show "(if pk_dev p = d \<and> pk_egress p then pk_size p else 0) = 0 \<or>
      count_of (qt_egressBy (fst (admit_packet acct t p q))) d + (if pk_dev p = d \<and> pk_egress p then pk_size p else 0) \<le> limit"
    using admit_None [of acct t "pk_acct p" d "pk_egress p" "pk_size p" q] good sum p(3)
    by (auto simp: admit_packet_simps egress_good_def)
qed (auto simp: legal_packet_def egress_good_def)

text \<open>
  C4. The hard limits under concurrency. Whatever the order of admissions, writes, failed writes and
  day changes, with at most \<open>K\<close> connections relaying and packets of at most \<open>M\<close> bytes, the bytes counted
  for an account today, together with those admitted and not yet counted, stay below its limit plus
  \<open>K - 1\<close> packets; the same holds for a device's exit lane. With one connection the limits are exact.
\<close>

theorem quota_race_bound:
  assumes "acct_good acct a limit q0" and "count_of (qt_acctBy q0) a \<le> limit"
    and "egress_good acct owner d elimit q0" and "count_of (qt_egressBy q0) d \<le> elimit"
    and "0 < K" and "0 \<le> M" and "limit + int K * M < 2 ^ 63" and "elimit + int K * M < 2 ^ 63"
    and "reach ((=) (q0, {#})) (lane_step (admit_packet acct) (inc_packet acct) (legal_packet owner M) K) (q, fl)"
  shows "count_of (qt_acctBy q) a + (\<Sum>p \<in># fl. if pk_acct p = a then pk_size p else 0) \<le> limit + (int K - 1) * M
    \<and> count_of (qt_acctBy q) a \<le> limit + (int K - 1) * M
    \<and> count_of (qt_egressBy q) d \<le> elimit + (int K - 1) * M"
proof -
  have "reach (\<lambda>sf. acct_good acct a limit (fst sf) \<and> count_of (qt_acctBy (fst sf)) a \<le> limit \<and> snd sf = {#})
      (lane_step (admit_packet acct) (inc_packet acct) (legal_packet owner M) K) (q, fl)"
    using assms(9) by (rule reach_mono) (use assms(1,2) in auto)
  note acct = acct_lane.lane_used [OF this assms(5,6,7)]
  have "reach (\<lambda>sf. egress_good acct owner d elimit (fst sf) \<and> count_of (qt_egressBy (fst sf)) d \<le> elimit \<and> snd sf = {#})
      (lane_step (admit_packet acct) (inc_packet acct) (legal_packet owner M) K) (q, fl)"
    using assms(9) by (rule reach_mono) (use assms(3,4) in auto)
  with acct egress_lane.lane_used [OF this assms(5,6,8)] show ?thesis by blast
qed

definition sample_trk :: quota_trk where
  "sample_trk = newQuotaTrk 0 0 \<lparr>qs_bytes = 100, qs_egress = 100\<rparr> None None"

definition sample_packet :: packet where
  "sample_packet = \<lparr>pk_acct = ''a'', pk_dev = ''d'', pk_egress = True, pk_size = 60\<rparr>"

text \<open>Two connections admit a packet each before either is counted: 120 of 100 bytes.\<close>

definition overshot_trk :: quota_trk where
  "overshot_trk = inc_packet empty_store 0 sample_packet (inc_packet empty_store 0 sample_packet sample_trk)"

lemma sample_trk_eq:
  "sample_trk = \<lparr>qt_defaults = \<lparr>qs_bytes = 100, qs_egress = 100\<rparr>, qt_tiers = None, qt_acct = False, qt_day = 0,
     qt_acctBy = [], qt_egressBy = []\<rparr>"
  by (simp add: sample_trk_def newQuotaTrk_def day_of_def go_div_def unix_sec_def)

lemma overshot_counts:
  "count_of (qt_acctBy overshot_trk) ''a'' = 120" "count_of (qt_egressBy overshot_trk) ''d'' = 120"
  by (simp_all add: overshot_trk_def inc_packet_def inc_def rolloverLocked_def sample_trk_eq sample_packet_def
      day_of_def go_div_def unix_sec_def specFor_def Let_def add64_def int64_def)

lemma overshot_reach:
  "reach ((=) (sample_trk, {#}))
     (lane_step (admit_packet empty_store) (inc_packet empty_store) (legal_packet (\<lambda>d. ''a'') 60) 2) (overshot_trk, {#})"
proof -
  let ?step = "lane_step (admit_packet empty_store) (inc_packet empty_store) (legal_packet (\<lambda>d. ''a'') 60) 2"
  let ?p = sample_packet
  have legal: "legal_packet (\<lambda>d. ''a'') 60 ?p" by (simp add: legal_packet_def sample_packet_def)
  have adm: "admit_packet empty_store 0 ?p sample_trk = (sample_trk, True)"
    by (simp add: admit_packet_def admit_def rolloverLocked_def sample_trk_eq sample_packet_def specFor_def
        day_of_def go_div_def unix_sec_def add64_def int64_def)
  have "reach ((=) (sample_trk, {#})) ?step (sample_trk, {#})" by (rule reach_init) simp
  then have "reach ((=) (sample_trk, {#})) ?step (sample_trk, {#?p#})"
    by (rule reach_step) (use adm legal in \<open>auto intro!: lane_admit\<close>)
  then have "reach ((=) (sample_trk, {#})) ?step (sample_trk, {#?p, ?p#})"
    by (rule reach_step) (use adm legal in \<open>auto intro!: lane_admit\<close>)
  then have "reach ((=) (sample_trk, {#})) ?step (inc_packet empty_store 0 ?p sample_trk, {#?p#})"
    by (rule reach_step) (use lane_count [of ?p "{#?p, ?p#}"] in simp)
  then show ?thesis
    by (rule reach_step) (use lane_count [of ?p "{#?p#}"] in \<open>simp add: overshot_trk_def\<close>)
qed

lemma quota_race_bound_witness:
  "count_of (qt_acctBy overshot_trk) ''a'' \<le> 100 + (int 2 - 1) * 60
    \<and> count_of (qt_egressBy overshot_trk) ''d'' \<le> 100 + (int 2 - 1) * 60
    \<and> count_of (qt_acctBy overshot_trk) ''a'' = 120"
  using quota_race_bound [OF _ _ _ _ _ _ _ _ overshot_reach, of "''a''" 100 "''d''" 100] overshot_counts
  by (simp add: acct_good_def egress_good_def sample_trk_eq specFor_def)

subsection \<open>The counters and the usage store\<close>

record relayed =
  fw_acct :: string
  fw_dev :: string
  fw_egr :: string
  fw_size :: int
  fw_at :: time

text \<open>What \<^verbatim>\<open>Relay\<close> does once a packet is written (the clock read once).\<close>

definition account_for :: "store \<Rightarrow> relayed \<Rightarrow> quota_trk \<times> usage_store \<Rightarrow> quota_trk \<times> usage_store" where
  "account_for acct e qu =
     (inc acct (fw_at e) (fw_acct e) (fw_dev e) (fw_egr e \<noteq> []) (fw_size e) (fst qu),
      Add (fw_acct e) (fw_dev e) (fw_egr e) 0 (fw_size e) (fw_at e) (snd qu))"

definition midnight :: "time \<Rightarrow> time" where
  "midnight t = truncate_time (24 * hour) t"

lemma midnight_le: "hour_of (midnight t) \<le> hour_of s \<longleftrightarrow> t div (24 * hour) \<le> s div (24 * hour)"
proof -
  have pos: "0 < hour" by (simp add: time_units)
  have "midnight t = hour * (24 * (t div (24 * hour)))"
    unfolding midnight_def truncate_day minus_mod_eq_mult_div by (simp add: algebra_simps)
  then have m: "midnight t div hour = 24 * (t div (24 * hour))" using pos by simp
  have "s div hour div 24 = s div (24 * hour)"
    using pos by (metis div_mult2_eq' mult.commute zdiv_zmult2_eq zero_le_numeral)
  then show ?thesis using m by (simp add: hour_of_le) linarith
qed

lemma day_of_div: "0 \<le> t \<Longrightarrow> day_of t = t div (24 * hour)"
proof -
  assume t: "0 \<le> t"
  have "0 \<le> t div second" using t by (simp add: second_def)
  then have "day_of t = t div second div 86400" by (simp add: day_of_def unix_sec_def go_div_nonneg)
  also have "\<dots> = t div (second * 86400)" by (simp add: zdiv_zmult2_eq)
  finally show ?thesis by (simp add: time_units)
qed

text \<open>The counters agree with the usage since midnight, and the usage holds no bucket of the future.\<close>

definition agrees :: "string \<Rightarrow> string \<Rightarrow> time \<Rightarrow> quota_trk \<times> usage_store \<Rightarrow> bool" where
  "agrees a d t qu \<longleftrightarrow>
     (let (q, u) = qu; s = Totals a (midnight t) u; e = EgressLaneTotals d (midnight t) u
      in qt_day q = day_of t \<and> usage_wf u \<and> (\<forall>(b, c) \<in> set (us_buckets u). bk_hour b \<le> hour_of t)
         \<and> count_of (qt_acctBy q) a = add64 (ct_rx s) (ct_tx s)
         \<and> count_of (qt_egressBy q) d = add64 (ct_rx e) (ct_tx e))"

lemma accumulate_none:
  assumes "\<forall>(b, c) \<in> set m. \<not> sel b"
  shows "accumulate sel m = zero_counters"
proof -
  have "foldl (\<lambda>out (b, c). if sel b then \<lparr>ct_rx = add64 (ct_rx out) (ct_rx c), ct_tx = add64 (ct_tx out) (ct_tx c)\<rparr> else out) z m = z" for z
    using assms by (induction m arbitrary: z) auto
  then show ?thesis by (simp add: accumulate_def)
qed

lemma agrees_advance:
  assumes "agrees a d t (q, u)" and "0 \<le> t" and "t \<le> t'"
  shows "agrees a d t' (rolloverLocked t' q, u)"
proof (cases "day_of t' = qt_day q")
  case True
  then have "t' div (24 * hour) = t div (24 * hour)"
    using assms by (simp add: agrees_def Let_def day_of_div)
  then have "midnight t' = midnight t"
    by (simp add: midnight_def truncate_day minus_mod_eq_mult_div)
  moreover have "hour_of t \<le> hour_of t'" using assms(3) by (simp add: hour_of_le zdiv_mono1 time_units)
  ultimately show ?thesis
    using True assms(1) by (fastforce simp: agrees_def Let_def rollover_same)
next
  case False
  then have "t div (24 * hour) \<noteq> t' div (24 * hour)"
    using assms by (simp add: agrees_def Let_def day_of_div)
  moreover have "t div (24 * hour) \<le> t' div (24 * hour)" using assms(3) by (simp add: zdiv_mono1 time_units)
  ultimately have "\<not> hour_of (midnight t') \<le> hour_of t" by (simp add: midnight_le)
  then have old: "\<forall>(b, c) \<in> set (us_buckets u). bk_hour b < hour_of (midnight t')"
    using assms(1) by (fastforce simp: agrees_def Let_def)
  then have "Totals a (midnight t') u = zero_counters" "EgressLaneTotals d (midnight t') u = zero_counters"
    unfolding Totals_def EgressLaneTotals_def by (intro accumulate_none; fastforce)+
  moreover have "hour_of t \<le> hour_of t'" using assms(3) by (simp add: hour_of_le zdiv_mono1 time_units)
  ultimately show ?thesis
    using False assms(1) by (fastforce simp: agrees_def Let_def rollover_counts zero_counters_def add64_def int64_def)
qed

lemma account_for_add:
  "snd (account_for acct e qu) = add_event \<lparr>ue_account = fw_acct e, ue_device = fw_dev e, ue_egress = fw_egr e,
     ue_rx = 0, ue_tx = fw_size e, ue_at = fw_at e\<rparr> (snd qu)"
  by (simp add: account_for_def add_event_def)

lemma wrap64_add64: "wrap64 (x + y) = add64 x y"
  by (simp add: add64_def)

lemma add_buckets_hour:
  "\<forall>(b, c) \<in> set (us_buckets u). bk_hour b \<le> h \<Longrightarrow> usage_wf u \<Longrightarrow> hour_of (ue_at e) \<le> h \<Longrightarrow>
     \<forall>(b, c) \<in> set (us_buckets (add_event e u)). bk_hour b \<le> h"
  by (auto simp: add_event_def Add_def Let_def set_put)

lemma agrees_step:
  assumes "agrees a d t (q, u)" and "0 \<le> t" and "t \<le> fw_at e"
    and "\<not> (qs_bytes (specFor acct (fw_acct e) q) \<le> 0 \<and> qs_egress (specFor acct (fw_acct e) q) \<le> 0)"
  shows "agrees a d (fw_at e) (account_for acct e (q, u))"
proof -
  let ?t = "fw_at e" and ?q = "rolloverLocked (fw_at e) q"
  let ?ev = "\<lparr>ue_account = fw_acct e, ue_device = fw_dev e, ue_egress = fw_egr e, ue_rx = 0, ue_tx = fw_size e, ue_at = fw_at e\<rparr>"
  have now: "agrees a d ?t (?q, u)" by (rule agrees_advance [OF assms(1-3)])
  then have wf: "usage_wf u" and old: "\<forall>(b, c) \<in> set (us_buckets u). bk_hour b \<le> hour_of ?t"
    and cnt: "count_of (qt_acctBy ?q) a = add64 (ct_rx (Totals a (midnight ?t) u)) (ct_tx (Totals a (midnight ?t) u))"
      "count_of (qt_egressBy ?q) d = add64 (ct_rx (EgressLaneTotals d (midnight ?t) u)) (ct_tx (EgressLaneTotals d (midnight ?t) u))"
    by (simp_all add: agrees_def Let_def)
  have late: "hour_of (midnight ?t) \<le> hour_of ?t" by (simp add: midnight_le)
  obtain q' where q': "account_for acct e (q, u) = (q', add_event ?ev u)" "q' = inc acct ?t (fw_acct e) (fw_dev e) (fw_egr e \<noteq> []) (fw_size e) q"
    by (simp add: account_for_def add_event_def)
  have tot: "ct_rx (Totals a (midnight ?t) (add_event ?ev u)) = ct_rx (Totals a (midnight ?t) u)"
    "ct_tx (Totals a (midnight ?t) (add_event ?ev u)) = add64 (ct_tx (Totals a (midnight ?t) u)) (if fw_acct e = a then fw_size e else 0)"
    unfolding Totals_def accumulate_add [OF wf] using late
    by (simp_all add: event_bucket_def accumulate_int64 add64_def)
  have eg: "ct_rx (EgressLaneTotals d (midnight ?t) (add_event ?ev u)) = ct_rx (EgressLaneTotals d (midnight ?t) u)"
    "ct_tx (EgressLaneTotals d (midnight ?t) (add_event ?ev u)) =
       add64 (ct_tx (EgressLaneTotals d (midnight ?t) u)) (if fw_dev e = d \<and> fw_egr e \<noteq> [] then fw_size e else 0)"
    unfolding EgressLaneTotals_def accumulate_add [OF wf] using late
    by (simp_all add: event_bucket_def accumulate_int64 add64_def)
  have zero: "add64 x (add64 y 0) = add64 x y" for x y by (simp add: add64_def)
  have "count_of (qt_acctBy q') a = add64 (ct_rx (Totals a (midnight ?t) (add_event ?ev u))) (ct_tx (Totals a (midnight ?t) (add_event ?ev u)))"
    unfolding tot q'(2) inc_acctBy using assms(4) cnt(1) by (auto simp add: zero add64_assoc simp del: used_rollover)
  moreover have "count_of (qt_egressBy q') d =
      add64 (ct_rx (EgressLaneTotals d (midnight ?t) (add_event ?ev u))) (ct_tx (EgressLaneTotals d (midnight ?t) (add_event ?ev u)))"
    unfolding eg q'(2) inc_egressBy using assms(4) cnt(2) by (auto simp add: zero add64_assoc simp del: used_rollover)
  moreover have "qt_day q' = day_of ?t" by (simp add: q'(2))
  moreover have "\<forall>(b, c) \<in> set (us_buckets (add_event ?ev u)). bk_hour b \<le> hour_of ?t"
    by (rule add_buckets_hour [OF old wf]) simp
  ultimately show ?thesis
    unfolding q'(1) agrees_def Let_def prod.case using usage_wf_add [OF wf] by blast
qed

definition last_time :: "time \<Rightarrow> relayed list \<Rightarrow> time" where
  "last_time now es = (if es = [] then now else fw_at (last es))"

lemma agrees_run:
  assumes "agrees a d now (q, u)" and "0 \<le> now" and "sorted (now # map fw_at es)"
    and "\<forall>e \<in> set es. \<not> (qs_bytes (specFor acct (fw_acct e) q) \<le> 0 \<and> qs_egress (specFor acct (fw_acct e) q) \<le> 0)"
  shows "agrees a d (last_time now es) (fold (account_for acct) es (q, u))"
  using assms
proof (induction es arbitrary: now q u)
  case Nil
  then show ?case by (simp add: last_time_def)
next
  case (Cons e es)
  obtain q1 u1 where qu: "account_for acct e (q, u) = (q1, u1)" by fastforce
  have spec: "specFor acct acc q1 = specFor acct acc q" for acc
    using qu by (auto simp: account_for_def)
  have "agrees a d (fw_at e) (q1, u1)"
    using agrees_step [OF Cons.prems(1,2), of e acct] Cons.prems(3,4) by (simp add: qu)
  then have "agrees a d (last_time (fw_at e) es) (fold (account_for acct) es (q1, u1))"
    by (rule Cons.IH) (use Cons.prems(2,3,4) in \<open>auto simp: spec\<close>)
  then show ?case by (simp add: qu last_time_def split: if_splits)
qed

lemma refill_counts:
  "count_of (qt_acctBy (foldl (refill u since) q ls)) a =
     (if map_of (qt_acctBy q) a = None \<and> a \<in> le_account ` set ls
      then add64 (ct_rx (Totals a since u)) (ct_tx (Totals a since u)) else count_of (qt_acctBy q) a)"
  "count_of (qt_egressBy (foldl (refill u since) q ls)) d =
     (if map_of (qt_egressBy q) d = None \<and> d \<in> le_device ` set ls
      then add64 (ct_rx (EgressLaneTotals d since u)) (ct_tx (EgressLaneTotals d since u)) else count_of (qt_egressBy q) d)"
  by (induction ls arbitrary: q) (auto simp: refill_def Let_def count_of_def)

lemma refill_frame [simp]:
  "qt_day (foldl (refill u since) q ls) = qt_day q" "qt_defaults (foldl (refill u since) q ls) = qt_defaults q"
  "qt_tiers (foldl (refill u since) q ls) = qt_tiers q" "qt_acct (foldl (refill u since) q ls) = qt_acct q"
  by (induction ls arbitrary: q) (simp_all add: refill_def Let_def)

lemma newQuotaTrk_agrees:
  assumes "usage_wf u" and "\<forall>(b, c) \<in> set (us_buckets u). bk_hour b \<le> hour_of now"
    and "a \<in> le_account ` set (Array ls)" and "d \<in> le_device ` set (Array ls)"
  shows "agrees a d now (enableTiers tiers has (newQuotaTrk now now spec (Some u) (Some ls)), u)"
  using assms by (simp add: agrees_def Let_def newQuotaTrk_def refill_counts enableTiers_def midnight_def)


definition sample_relayed :: "relayed list" where
  "sample_relayed =
     [\<lparr>fw_acct = ''a'', fw_dev = ''d'', fw_egr = [], fw_size = 40, fw_at = hour\<rparr>,
      \<lparr>fw_acct = ''a'', fw_dev = ''d'', fw_egr = ''x'', fw_size = 30, fw_at = 25 * hour\<rparr>]"

definition sample_leased :: lease_store where
  "sample_leased = \<lparr>ls_ipn = \<lparr>net_ip = [10, 0, 0, 0], net_mask = [255, 255, 255, 0]\<rparr>,
     ls_nets = [(''a'', \<lparr>ns_next = [10, 0, 0, 2], ns_leases = [(''10.0.0.1'',
       \<lparr>le_network = ''a'', le_account = ''a'', le_device = ''d'', le_ipv4 = ''10.0.0.1'', le_at = 0\<rparr>)]\<rparr>)], ls_file = Absent\<rparr>"

definition started_trk :: quota_trk where
  "started_trk = enableTiers None False
     (newQuotaTrk hour hour \<lparr>qs_bytes = 100, qs_egress = 50\<rparr> (Some empty_usage) (Some sample_leased))"


text \<open>
  While an account's tier has no limit at all its packets are billed but not counted; once it
  is moved to a tier with a limit, traffic of the same day beyond that limit is still admitted: the
  bytes carried before the change do not count until the server restarts.
\<close>

theorem unlimited_not_counted:
  assumes "day_of now = qt_day q" and "qs_bytes (specFor acct a q) = 0" and "qs_egress (specFor acct a q) = 0"
    and "count_of (qt_acctBy q) a = 0" and "qs_bytes (specFor acct' a q) = limit" and "limit \<le> n"
    and "0 < limit" and "int64 n"
  shows "inc acct now a d eg n q = q
    \<and> snd (admit acct' now a d False limit (inc acct now a d eg n q)) = None
    \<and> ct_tx (Totals a (midnight now) (Add a d [] 0 n now empty_usage)) = n"
proof -
  have same: "inc acct now a d eg n q = q"
    using assms(1-3) by (simp add: inc_def rollover_same)
  have "add64 0 limit = limit" using assms(6-8) by (intro trans [OF add64_id]) (auto simp: int64_def)
  then have "snd (admit acct' now a d False limit q) = None"
    using assms(1,4,5) by (simp add: admit_def Let_def used_today_def)
  moreover have "ct_tx (Totals a (midnight now) (Add a d [] 0 n now empty_usage)) = n"
    using assms(8) midnight_le [of now now]
    by (simp add: Totals_def Add_def empty_usage_def accumulate_def Let_def zero_counters_def add64_def)
  ultimately show ?thesis by (simp add: same)
qed

definition tiered_trk :: quota_trk where
  "tiered_trk = enableTiers (Some [(''free'', \<lparr>qs_bytes = 100, qs_egress = 0\<rparr>)]) True
     (newQuotaTrk 0 0 \<lparr>qs_bytes = 0, qs_egress = 0\<rparr> None None)"

definition tier_store :: "string \<Rightarrow> store" where
  "tier_store tier = \<lparr>sto_accounts = [(''a'', \<lparr>ac_id = ''a'', ac_name = ''n'', ac_tier = tier, ac_created = 0\<rparr>)],
     sto_devices = [], sto_file = Absent\<rparr>"

lemma unlimited_not_counted_witness:
  "inc (tier_store ''beta'') 0 ''a'' ''d'' False 5000 tiered_trk = tiered_trk
    \<and> snd (admit (tier_store ''free'') 0 ''a'' ''d'' False 100 (inc (tier_store ''beta'') 0 ''a'' ''d'' False 5000 tiered_trk)) = None
    \<and> ct_tx (Totals ''a'' (midnight 0) (Add ''a'' ''d'' [] 0 5000 0 empty_usage)) = 5000"
  by (rule unlimited_not_counted)
    (simp_all add: tiered_trk_def tier_store_def enableTiers_def newQuotaTrk_def specFor_def get_account_def int64_def)

end
