(* ===== verification/Hub.thy ===== *)
theory Hub
  imports Frame Control Go_Net Quota
begin

text \<open>
  The registry of online nodes and the relay: \<^verbatim>\<open>internal/server/hub.go\<close>. A \<^verbatim>\<open>*Node\<close> is a number, the
  nodes live in \<open>hb_heap\<close>, and pointer equality is equality of numbers. A connection is a number,
  too: \<open>hb_out\<close> is what has been written to it (a write may fail once its capacity is used up),
  \<open>hb_closed\<close> the connections that have been closed. The lease, usage and account stores the hub
  points to are part of its state, which is their only copy in the model. Each operation reads the
  clock once.
\<close>

subsection \<open>Data\<close>

definition ipProtoIPIP :: byte where "ipProtoIPIP = 4"

record node =
  nd_device :: string
  nd_account :: string
  nd_network :: string
  nd_ip :: ip
  nd_hostname :: string
  nd_os :: string
  nd_egress :: bool
  nd_acl :: "string list"
  nd_joined :: time
  nd_remote :: string
  nd_rw :: nat
  nd_conn :: "nat option"
  nd_rx :: int
  nd_tx :: int
  nd_notified :: bool

record client_info =
  ci_account :: string
  ci_device :: string
  ci_network :: string
  ci_ip :: string
  ci_hostname :: string
  ci_os :: string
  ci_egress :: bool
  ci_remote :: string
  ci_joined :: time
  ci_online :: int
  ci_rx :: int
  ci_tx :: int

record hub =
  hb_cidr :: string
  hb_default :: quota_spec
  hb_tiers :: "(string, quota_spec) gomap option"
  hb_acct :: bool
  hb_quota :: quota_trk
  hb_leases :: lease_store
  hb_usage :: usage_store
  hb_store :: store
  hb_heap :: "nat \<Rightarrow> node"
  hb_new :: nat
  hb_table :: "(string \<times> string, nat) gomap"
  hb_networks :: "(string, (string, nat) gomap) gomap"
  hb_out :: "nat \<Rightarrow> writer"
  hb_closed :: "nat list"

definition no_node :: node where
  "no_node = \<lparr>nd_device = [], nd_account = [], nd_network = [], nd_ip = [], nd_hostname = [], nd_os = [],
     nd_egress = False, nd_acl = [], nd_joined = 0, nd_remote = [], nd_rw = 0, nd_conn = None, nd_rx = 0,
     nd_tx = 0, nd_notified = False\<rparr>"

definition NewHub :: "time \<Rightarrow> string \<Rightarrow> quota_spec \<Rightarrow> lease_store \<Rightarrow> usage_store \<Rightarrow> store \<Rightarrow> hub" where
  "NewHub now cidr q leases usage st =
     \<lparr>hb_cidr = cidr, hb_default = q, hb_tiers = None, hb_acct = False,
      hb_quota = newQuotaTrk now now q (Some usage) (Some leases), hb_leases = leases, hb_usage = usage,
      hb_store = st, hb_heap = (\<lambda>_. no_node), hb_new = 0, hb_table = [], hb_networks = [],
      hb_out = (\<lambda>_. new_writer), hb_closed = []\<rparr>"

definition SetTierQuota :: "(string, quota_spec) gomap option \<Rightarrow> bool \<Rightarrow> hub \<Rightarrow> hub" where
  "SetTierQuota tiers acct h =
     h\<lparr>hb_tiers := tiers, hb_acct := acct, hb_quota := enableTiers tiers acct (hb_quota h)\<rparr>"

definition quotaSpecFor :: "string \<Rightarrow> hub \<Rightarrow> quota_spec" where
  "quotaSpecFor acc h =
     (case hb_tiers h of
        None \<Rightarrow> hb_default h
      | Some tiers \<Rightarrow>
          if \<not> hb_acct h then hb_default h
          else case get_account acc (hb_store h) of
              Inl _ \<Rightarrow> hb_default h
            | Inr a \<Rightarrow> (case map_of tiers (ac_tier a) of Some sp \<Rightarrow> sp | None \<Rightarrow> hb_default h))"

subsection \<open>Writing to connections\<close>

definition conn_write :: "nat \<Rightarrow> bytes \<Rightarrow> hub \<Rightarrow> hub \<times> bool" where
  "conn_write c bs h =
     (let (w, ok) = write_bytes bs (hb_out h c) in (h\<lparr>hb_out := (hb_out h)(c := w)\<rparr>, ok))"

definition conn_frame :: "nat \<Rightarrow> byte \<Rightarrow> bytes \<Rightarrow> hub \<Rightarrow> hub \<times> frame_error option" where
  "conn_frame c ty payload h =
     (let (w, err) = WriteFrame (hb_out h c) ty payload in (h\<lparr>hb_out := (hb_out h)(c := w)\<rparr>, err))"

text \<open>A closed connection accepts no more bytes.\<close>

definition conn_close :: "nat \<Rightarrow> hub \<Rightarrow> hub" where
  "conn_close c h = h\<lparr>hb_out := (hb_out h)(c := (hb_out h c)\<lparr>w_cap := Some 0\<rparr>), hb_closed := c # hb_closed h\<rparr>"

subsection \<open>Registering and removing\<close>

definition removeLocked :: "nat \<Rightarrow> hub \<Rightarrow> hub" where
  "removeLocked i h =
     (let nd = hb_heap h i; ip = ip_string (nd_ip nd); key = (nd_network nd, ip);
          h = (if map_of (hb_table h) key = Some i then h\<lparr>hb_table := del key (hb_table h)\<rparr> else h)
      in case map_of (hb_networks h) (nd_network nd) of
           None \<Rightarrow> h
         | Some ns \<Rightarrow>
             if map_of ns ip = Some i
             then h\<lparr>hb_networks := put (nd_network nd) (del ip ns) (hb_networks h)\<rparr> else h)"

definition composeQuota :: "time \<Rightarrow> string \<Rightarrow> string \<Rightarrow> hub \<Rightarrow> quota" where
  "composeQuota now acc dev h =
     (let since = truncate_time (24 * hour) now;
          t = Totals acc since (hb_usage h); e = EgressTotals dev since (hb_usage h);
          spec = quotaSpecFor acc h
      in \<lparr>qu_period = ''day'', qu_used = add64 (ct_rx t) (ct_tx t), qu_limit = qs_bytes spec,
          qu_egress_used = add64 (ct_rx e) (ct_tx e), qu_egress_limit = qs_egress spec\<rparr>)"

definition composeSession :: "time \<Rightarrow> account \<Rightarrow> device \<Rightarrow> hub \<Rightarrow> session" where
  "composeSession now acct dev h =
     \<lparr>se_account = ac_id acct, se_device = de_id dev, se_tier = ac_tier acct,
      se_quota = Some (composeQuota now (ac_id acct) (de_id dev) h)\<rparr>"

definition peer_of :: "node \<Rightarrow> peer_info" where
  "peer_of nd = \<lparr>pi_ip = ip_string (nd_ip nd), pi_hostname = nd_hostname nd, pi_os = nd_os nd, pi_egress = nd_egress nd\<rparr>"

definition new_node :: "time \<Rightarrow> string \<Rightarrow> device \<Rightarrow> account \<Rightarrow> hello \<Rightarrow> nat \<Rightarrow> string \<Rightarrow> ip \<Rightarrow> node" where
  "new_node now networkID dev acct hello rw remote ip =
     \<lparr>nd_device = de_id dev, nd_account = ac_id acct, nd_network = networkID, nd_ip = ip,
      nd_hostname = he_hostname hello, nd_os = he_os hello, nd_egress = (he_egress hello \<and> de_egress dev),
      nd_acl = de_acl dev, nd_joined = now, nd_remote = remote, nd_rw = rw, nd_conn = None, nd_rx = 0,
      nd_tx = 0, nd_notified = False\<rparr>"

text \<open>The table entries of a node: both maps are assigned under the lock.\<close>

definition insert_node :: "node \<Rightarrow> hub \<Rightarrow> hub" where
  "insert_node nd h =
     (let i = hb_new h; ip = ip_string (nd_ip nd);
          ns = (case map_of (hb_networks h) (nd_network nd) of Some ns \<Rightarrow> ns | None \<Rightarrow> [])
      in h\<lparr>hb_heap := (hb_heap h)(i := nd), hb_new := Suc i,
           hb_networks := put (nd_network nd) (put ip i ns) (hb_networks h),
           hb_table := put (nd_network nd, ip) i (hb_table h)\<rparr>)"

definition nodes_of :: "string \<Rightarrow> hub \<Rightarrow> (string, nat) gomap" where
  "nodes_of net h = (case map_of (hb_networks h) net of Some ns \<Rightarrow> ns | None \<Rightarrow> [])"

text \<open>A node of the same device at the address is replaced.\<close>

definition evict :: "string \<Rightarrow> string \<Rightarrow> string \<Rightarrow> hub \<Rightarrow> hub" where
  "evict net ip dev h =
     (case map_of (hb_table h) (net, ip) of
        Some old \<Rightarrow> if nd_device (hb_heap h old) = dev then removeLocked old h else h
      | None \<Rightarrow> h)"

definition Register :: "bool \<Rightarrow> time \<Rightarrow> string \<Rightarrow> device \<Rightarrow> account \<Rightarrow> hello \<Rightarrow> nat \<Rightarrow> string \<Rightarrow> hub
    \<Rightarrow> hub \<times> (lease_error + welcome_msg \<times> nat)" where
  "Register io now networkID dev acct hello rw remote h =
     (let (ls, r) = Allocate io now networkID (ac_id acct) (de_id dev) (hb_leases h);
          h = h\<lparr>hb_leases := ls\<rparr>
      in case r of
           Inl e \<Rightarrow> (h, Inl e)
         | Inr lease \<Rightarrow>
             let ip = parse_ip (le_ipv4 lease);
                 h = evict networkID (ip_string ip) (de_id dev) h;
                 i = hb_new h;
                 h = insert_node (new_node now networkID dev acct hello rw remote ip) h;
                 peers = map (\<lambda>e. peer_of (hb_heap h (snd e)))
                   (filter (\<lambda>e. \<not> ip_equal (nd_ip (hb_heap h (snd e))) ip) (nodes_of networkID h))
             in (h, Inr (\<lparr>we_ip = ip_string ip, we_cidr = hb_cidr h, we_network = networkID, we_mtu = 1280,
                          we_peers = peers, we_session = Some (composeSession now acct dev h)\<rparr>, i)))"

definition find_device :: "string \<Rightarrow> hub \<Rightarrow> nat option" where
  "find_device dev h = List.find (\<lambda>i. nd_device (hb_heap h i) = dev) (map snd (hb_table h))"

definition KickDevice :: "string \<Rightarrow> hub \<Rightarrow> hub \<times> bool" where
  "KickDevice dev h =
     (case Option.bind (find_device dev h) (\<lambda>i. nd_conn (hb_heap h i)) of
        None \<Rightarrow> (h, False)
      | Some c \<Rightarrow> (conn_close c h, True))"

definition set_node :: "nat \<Rightarrow> node \<Rightarrow> hub \<Rightarrow> hub" where
  "set_node i nd h = h\<lparr>hb_heap := (hb_heap h)(i := nd)\<rparr>"

definition UpdateEgress :: "string \<Rightarrow> bool \<Rightarrow> string list \<Rightarrow> hub \<Rightarrow> hub \<times> bool" where
  "UpdateEgress dev enabled acl h =
     (case find_device dev h of
        None \<Rightarrow> (h, False)
      | Some i \<Rightarrow> (set_node i ((hb_heap h i)\<lparr>nd_egress := enabled, nd_acl := acl\<rparr>) h, True))"

subsection \<open>Control frames\<close>

definition broadcastCtrl :: "string \<Rightarrow> ctrl_msg \<Rightarrow> ip option \<Rightarrow> hub \<Rightarrow> hub" where
  "broadcastCtrl networkID msg excludeIP h =
     (let payload = EncodeCtrl msg;
          targets = map (\<lambda>e. nd_rw (hb_heap h (snd e)))
            (filter (\<lambda>e. \<not> (case excludeIP of None \<Rightarrow> False | Some x \<Rightarrow> ip_equal (nd_ip (hb_heap h (snd e))) x))
              (nodes_of networkID h))
      in fold (\<lambda>c h. fst (conn_frame c FrameCtrl payload h)) targets h)"

definition NotifyPeerJoined :: "string \<Rightarrow> nat \<Rightarrow> hub \<Rightarrow> hub" where
  "NotifyPeerJoined networkID i h =
     broadcastCtrl networkID ((ctrl MsgPeerJoin)\<lparr>cm_peer_join := Some (peer_of (hb_heap h i))\<rparr>)
       (Some (nd_ip (hb_heap h i))) h"

definition Unregister :: "nat option \<Rightarrow> hub \<Rightarrow> hub" where
  "Unregister node h =
     (case node of
        None \<Rightarrow> h
      | Some i \<Rightarrow>
          broadcastCtrl (nd_network (hb_heap h i))
            ((ctrl MsgPeerLeave)\<lparr>cm_peer_leave := Some (ip_string (nd_ip (hb_heap h i)))\<rparr>)
            (Some (nd_ip (hb_heap h i))) (removeLocked i h))"

definition sendQuotaNotice :: "time \<Rightarrow> nat \<Rightarrow> hub \<Rightarrow> hub" where
  "sendQuotaNotice now i h =
     (let nd = hb_heap h i;
          msg = (ctrl MsgQuota)\<lparr>cm_quota := Some (composeQuota now (nd_account nd) (nd_device nd) h)\<rparr>
      in fst (conn_frame (nd_rw nd) FrameCtrl (EncodeCtrl msg) h))"

definition QuotaNotifyAccount :: "time \<Rightarrow> string \<Rightarrow> hub \<Rightarrow> hub" where
  "QuotaNotifyAccount now acc h =
     fold (sendQuotaNotice now) (filter (\<lambda>i. nd_account (hb_heap h i) = acc) (map snd (hb_table h))) h"

subsection \<open>The relay\<close>

datatype relay_error =
    ErrInvalidPacket
  | ErrNoRoute string string
  | ErrEgressDenied string string
  | ErrQuotaBlocked string
  | ErrRelayHeader
  | ErrRelayPayload

definition isQuotaBlocked :: "relay_error \<Rightarrow> bool" where
  "isQuotaBlocked e = (case e of ErrQuotaBlocked _ \<Rightarrow> True | _ \<Rightarrow> False)"

definition aclAllow :: "string list \<Rightarrow> string \<Rightarrow> bool" where
  "aclAllow acl acc = list_ex (\<lambda>i. i = acc) acl"

definition packet_dst :: "bytes \<Rightarrow> ip" where
  "packet_dst p = IPv4 (p ! 16) (p ! 17) (p ! 18) (p ! 19)"

definition proxied :: "bytes \<Rightarrow> bool" where
  "proxied p \<longleftrightarrow> length p \<ge> 20 + 20 \<and> p ! 9 = ipProtoIPIP"

text \<open>Who pays: account, device, exit device (empty: none), and whether the exit lane is used.\<close>

definition attribution :: "bytes \<Rightarrow> node \<Rightarrow> node \<Rightarrow> string \<times> string \<times> string \<times> bool" where
  "attribution p src dst =
     (if nd_egress dst then (nd_account src, nd_device src, if proxied p then nd_device dst else [], proxied p)
      else if nd_egress src \<and> proxied p then (nd_account dst, nd_device dst, nd_device src, True)
      else (nd_account src, nd_device src, [], False))"

definition count_relayed :: "time \<Rightarrow> bytes \<Rightarrow> string \<times> string \<times> string \<times> bool \<Rightarrow> nat \<Rightarrow> nat \<Rightarrow> hub \<Rightarrow> hub" where
  "count_relayed now p who src dst h =
     (let (accID, devID, egrDev, egrPath) = who; n = int (length p);
          h = set_node src ((hb_heap h src)\<lparr>nd_rx := add64 (nd_rx (hb_heap h src)) n\<rparr>) h;
          h = set_node dst ((hb_heap h dst)\<lparr>nd_tx := add64 (nd_tx (hb_heap h dst)) n\<rparr>) h
      in h\<lparr>hb_quota := inc (hb_store h) now accID devID egrPath n (hb_quota h),
           hb_usage := Add accID devID egrDev 0 n now (hb_usage h)\<rparr>)"

definition Relay :: "time \<Rightarrow> bytes \<Rightarrow> nat \<Rightarrow> hub \<Rightarrow> hub \<times> relay_error option" where
  "Relay now p src h =
     (if length p < 20 then (h, Some ErrInvalidPacket)
      else
        let sn = hb_heap h src; to = ip_string (packet_dst p)
        in case map_of (hb_table h) (nd_network sn, to) of
             None \<Rightarrow> (h, Some (ErrNoRoute to (nd_network sn)))
           | Some dst \<Rightarrow>
               let dn = hb_heap h dst
               in if nd_egress dn \<and> nd_account dn \<noteq> nd_account sn \<and> \<not> aclAllow (nd_acl dn) (nd_account sn)
                  then (h, Some (ErrEgressDenied (nd_account sn) (nd_device dn)))
                  else
                    let who = attribution p sn dn; (accID, devID, egrDev, egrPath) = who;
                        (q, blocked) = admit (hb_store h) now accID devID egrPath (int (length p)) (hb_quota h);
                        h = h\<lparr>hb_quota := q\<rparr>
                    in case blocked of
                         Some reason \<Rightarrow>
                           (if \<not> nd_notified sn
                            then sendQuotaNotice now src (set_node src (sn\<lparr>nd_notified := True\<rparr>) h)
                            else h, Some (ErrQuotaBlocked reason))
                       | None \<Rightarrow>
                           let (h, ok) = conn_write (nd_rw dn) (FrameData # put_u16 (of_nat (length p))) h
                           in if \<not> ok then (h, Some ErrRelayHeader)
                              else let (h, ok) = conn_write (nd_rw dn) p h
                                   in if \<not> ok then (h, Some ErrRelayPayload)
                                      else (count_relayed now p who src dst h, None))"

definition ListClients :: "time \<Rightarrow> hub \<Rightarrow> client_info list" where
  "ListClients now h = map (\<lambda>e. let nd = hb_heap h (snd e) in
     \<lparr>ci_account = nd_account nd, ci_device = nd_device nd, ci_network = nd_network nd,
      ci_ip = ip_string (nd_ip nd), ci_hostname = nd_hostname nd, ci_os = nd_os nd, ci_egress = nd_egress nd,
      ci_remote = nd_remote nd, ci_joined = nd_joined nd, ci_online = go_div (now - nd_joined nd) second,
      ci_rx = nd_rx nd, ci_tx = nd_tx nd\<rparr>) (hb_table h)"

subsection \<open>What the operations leave alone\<close>

text \<open>The part of the state the routing depends on, and the part the limits are resolved from.\<close>

definition nd_key :: "node \<Rightarrow> string \<times> string \<times> string \<times> ip" where
  "nd_key nd = (nd_device nd, nd_account nd, nd_network nd, nd_ip nd)"

definition hub_view :: "hub \<Rightarrow> _" where
  "hub_view h = (hb_table h, hb_networks h, hb_leases h, hb_new h, \<lambda>i. nd_key (hb_heap h i))"

definition spec_view :: "hub \<Rightarrow> _" where
  "spec_view h = (hb_tiers h, hb_acct h, hb_default h,
     qt_tiers (hb_quota h), qt_acct (hb_quota h), qt_defaults (hb_quota h))"

text \<open>Nodes that have had their notice.\<close>

definition notified :: "hub \<Rightarrow> nat set" where
  "notified h = {i. nd_notified (hb_heap h i)}"

lemma conn_view [simp]:
  "hub_view (fst (conn_write c bs h)) = hub_view h" "spec_view (fst (conn_write c bs h)) = spec_view h"
  "hub_view (fst (conn_frame c ty pl h)) = hub_view h" "spec_view (fst (conn_frame c ty pl h)) = spec_view h"
  "hub_view (conn_close c h) = hub_view h" "spec_view (conn_close c h) = spec_view h"
  by (simp_all add: conn_write_def conn_frame_def conn_close_def hub_view_def spec_view_def case_prod_unfold Let_def)

lemma conn_heap [simp]:
  "hb_heap (fst (conn_write c bs h)) = hb_heap h" "hb_heap (fst (conn_frame c ty pl h)) = hb_heap h"
  "hb_heap (conn_close c h) = hb_heap h"
  by (simp_all add: conn_write_def conn_frame_def conn_close_def case_prod_unfold Let_def)

lemma fold_frames [simp]:
  "hub_view (fold (\<lambda>c h. fst (conn_frame c ty pl h)) cs h) = hub_view h"
  "spec_view (fold (\<lambda>c h. fst (conn_frame c ty pl h)) cs h) = spec_view h"
  "hb_heap (fold (\<lambda>c h. fst (conn_frame c ty pl h)) cs h) = hb_heap h"
  by (induction cs arbitrary: h) simp_all

lemma broadcast_view [simp]:
  "hub_view (broadcastCtrl net m x h) = hub_view h" "spec_view (broadcastCtrl net m x h) = spec_view h"
  "hb_heap (broadcastCtrl net m x h) = hb_heap h"
  by (simp_all add: broadcastCtrl_def Let_def)

lemma notice_view [simp]:
  "hub_view (sendQuotaNotice now i h) = hub_view h" "spec_view (sendQuotaNotice now i h) = spec_view h"
  "hb_heap (sendQuotaNotice now i h) = hb_heap h"
  by (simp_all add: sendQuotaNotice_def Let_def)

lemma fold_notice [simp]:
  "hub_view (fold (sendQuotaNotice now) is h) = hub_view h" "spec_view (fold (sendQuotaNotice now) is h) = spec_view h"
  "hb_heap (fold (sendQuotaNotice now) is h) = hb_heap h"
  by (induction "is" arbitrary: h) simp_all

lemma set_node_view [simp]:
  "nd_key nd = nd_key (hb_heap h i) \<Longrightarrow> hub_view (set_node i nd h) = hub_view h"
  "spec_view (set_node i nd h) = spec_view h"
  "hb_heap (set_node i nd h) = (hb_heap h)(i := nd)"
  by (auto simp: set_node_def hub_view_def spec_view_def)

lemma nd_key_update [simp]:
  "nd_key (nd\<lparr>nd_egress := x1\<rparr>) = nd_key nd" "nd_key (nd\<lparr>nd_acl := x2\<rparr>) = nd_key nd"
  "nd_key (nd\<lparr>nd_conn := x3\<rparr>) = nd_key nd" "nd_key (nd\<lparr>nd_rx := x4\<rparr>) = nd_key nd"
  "nd_key (nd\<lparr>nd_tx := x5\<rparr>) = nd_key nd" "nd_key (nd\<lparr>nd_notified := x6\<rparr>) = nd_key nd"
  by (simp_all add: nd_key_def)

lemma view_update [simp]:
  "hub_view (h\<lparr>hb_quota := q\<rparr>) = hub_view h" "hub_view (h\<lparr>hb_usage := u\<rparr>) = hub_view h"
  "hub_view (h\<lparr>hb_store := st\<rparr>) = hub_view h" "spec_view (h\<lparr>hb_usage := u\<rparr>) = spec_view h"
  "spec_view (h\<lparr>hb_store := st\<rparr>) = spec_view h" "spec_view (h\<lparr>hb_leases := ls\<rparr>) = spec_view h"
  by (simp_all add: hub_view_def spec_view_def)

lemma count_relayed_view [simp]:
  "hub_view (count_relayed now p who src dst h) = hub_view h"
  "spec_view (count_relayed now p who src dst h) = spec_view h"
  "notified (count_relayed now p who src dst h) = notified h"
  "hb_out (count_relayed now p who src dst h) = hb_out h"
  by (simp_all add: count_relayed_def hub_view_def spec_view_def notified_def set_node_def Let_def case_prod_unfold fun_eq_iff set_eq_iff)

lemma UpdateEgress_view [simp]:
  "hub_view (fst (UpdateEgress dev en acl h)) = hub_view h" "spec_view (fst (UpdateEgress dev en acl h)) = spec_view h"
  "notified (fst (UpdateEgress dev en acl h)) = notified h"
  by (auto simp: UpdateEgress_def notified_def split: option.split)

lemma KickDevice_view [simp]:
  "hub_view (fst (KickDevice dev h)) = hub_view h" "spec_view (fst (KickDevice dev h)) = spec_view h"
  "hb_heap (fst (KickDevice dev h)) = hb_heap h"
  by (auto simp: KickDevice_def split: option.split)

lemma Notify_view [simp]:
  "hub_view (NotifyPeerJoined net i h) = hub_view h" "spec_view (NotifyPeerJoined net i h) = spec_view h"
  "hb_heap (NotifyPeerJoined net i h) = hb_heap h"
  "hub_view (QuotaNotifyAccount now acc h) = hub_view h" "spec_view (QuotaNotifyAccount now acc h) = spec_view h"
  "hb_heap (QuotaNotifyAccount now acc h) = hb_heap h"
  by (simp_all add: NotifyPeerJoined_def QuotaNotifyAccount_def)

text \<open>The branches of a relay, one by one.\<close>

lemma Relay_short: "length p < 20 \<Longrightarrow> Relay now p src h = (h, Some ErrInvalidPacket)"
  by (simp add: Relay_def)

lemma Relay_no_route:
  "20 \<le> length p \<Longrightarrow> map_of (hb_table h) (nd_network (hb_heap h src), ip_string (packet_dst p)) = None \<Longrightarrow>
     Relay now p src h = (h, Some (ErrNoRoute (ip_string (packet_dst p)) (nd_network (hb_heap h src))))"
  by (simp add: Relay_def)

definition denied :: "node \<Rightarrow> node \<Rightarrow> bool" where
  "denied sn dn \<longleftrightarrow> nd_egress dn \<and> nd_account dn \<noteq> nd_account sn \<and> \<not> aclAllow (nd_acl dn) (nd_account sn)"

lemma Relay_denied:
  "20 \<le> length p \<Longrightarrow> map_of (hb_table h) (nd_network (hb_heap h src), ip_string (packet_dst p)) = Some dst \<Longrightarrow>
     denied (hb_heap h src) (hb_heap h dst) \<Longrightarrow>
     Relay now p src h = (h, Some (ErrEgressDenied (nd_account (hb_heap h src)) (nd_device (hb_heap h dst))))"
  by (simp add: Relay_def denied_def)

lemma Relay_go:
  assumes "20 \<le> length p" and "map_of (hb_table h) (nd_network (hb_heap h src), ip_string (packet_dst p)) = Some dst"
    and "\<not> denied (hb_heap h src) (hb_heap h dst)"
    and "attribution p (hb_heap h src) (hb_heap h dst) = (acc, dev, egr, eg)"
  shows "Relay now p src h =
    (let hq = h\<lparr>hb_quota := rolloverLocked now (hb_quota h)\<rparr>
     in case snd (admit (hb_store h) now acc dev eg (int (length p)) (hb_quota h)) of
          Some reason \<Rightarrow>
            (if nd_notified (hb_heap h src) then hq
             else sendQuotaNotice now src (set_node src ((hb_heap h src)\<lparr>nd_notified := True\<rparr>) hq),
             Some (ErrQuotaBlocked reason))
        | None \<Rightarrow>
            let (h1, ok1) = conn_write (nd_rw (hb_heap h dst)) (FrameData # put_u16 (of_nat (length p))) hq
            in if \<not> ok1 then (h1, Some ErrRelayHeader)
               else let (h2, ok2) = conn_write (nd_rw (hb_heap h dst)) p h1
                    in if \<not> ok2 then (h2, Some ErrRelayPayload)
                       else (count_relayed now p (acc, dev, egr, eg) src dst h2, None))"
proof -
  obtain r where adm: "admit (hb_store h) now acc dev eg (int (length p)) (hb_quota h) = (rolloverLocked now (hb_quota h), r)"
    by (metis fst_admit prod.collapse)
  have nd: "\<not> (nd_egress (hb_heap h dst) \<and> nd_account (hb_heap h dst) \<noteq> nd_account (hb_heap h src)
      \<and> \<not> aclAllow (nd_acl (hb_heap h dst)) (nd_account (hb_heap h src)))"
    using assms(3) by (simp add: denied_def)
  show ?thesis
    unfolding Relay_def Let_def using assms(1)
    by (cases r) (simp_all only: assms(2,4) adm nd if_False not_less [symmetric] simp_thms prod.case option.case fst_conv snd_conv
        split: if_split, simp_all)
qed

lemma Relay_cases:
  assumes "Relay now p src h = (h', r)"
  obtains (invalid) "length p < 20" "h' = h" "r = Some ErrInvalidPacket"
  | (no_route) "20 \<le> length p" "map_of (hb_table h) (nd_network (hb_heap h src), ip_string (packet_dst p)) = None" "h' = h"
      "r = Some (ErrNoRoute (ip_string (packet_dst p)) (nd_network (hb_heap h src)))"
  | (denied) dst where "20 \<le> length p"
      "map_of (hb_table h) (nd_network (hb_heap h src), ip_string (packet_dst p)) = Some dst"
      "denied (hb_heap h src) (hb_heap h dst)" "h' = h"
      "r = Some (ErrEgressDenied (nd_account (hb_heap h src)) (nd_device (hb_heap h dst)))"
  | (blocked) dst acc dev egr eg reason where
      "map_of (hb_table h) (nd_network (hb_heap h src), ip_string (packet_dst p)) = Some dst"
      "attribution p (hb_heap h src) (hb_heap h dst) = (acc, dev, egr, eg)"
      "snd (admit (hb_store h) now acc dev eg (int (length p)) (hb_quota h)) = Some reason"
      "h' = (if nd_notified (hb_heap h src) then h\<lparr>hb_quota := rolloverLocked now (hb_quota h)\<rparr>
        else sendQuotaNotice now src (set_node src ((hb_heap h src)\<lparr>nd_notified := True\<rparr>)
          (h\<lparr>hb_quota := rolloverLocked now (hb_quota h)\<rparr>)))"
      "r = Some (ErrQuotaBlocked reason)"
  | (passed) dst acc dev egr eg h1 h2 ok1 ok2 where "20 \<le> length p"
      "map_of (hb_table h) (nd_network (hb_heap h src), ip_string (packet_dst p)) = Some dst"
      "\<not> denied (hb_heap h src) (hb_heap h dst)"
      "attribution p (hb_heap h src) (hb_heap h dst) = (acc, dev, egr, eg)"
      "snd (admit (hb_store h) now acc dev eg (int (length p)) (hb_quota h)) = None"
      "conn_write (nd_rw (hb_heap h dst)) (FrameData # put_u16 (of_nat (length p)))
         (h\<lparr>hb_quota := rolloverLocked now (hb_quota h)\<rparr>) = (h1, ok1)"
      "conn_write (nd_rw (hb_heap h dst)) p h1 = (h2, ok2)"
      "(h', r) = (if \<not> ok1 then (h1, Some ErrRelayHeader) else if \<not> ok2 then (h2, Some ErrRelayPayload)
        else (count_relayed now p (acc, dev, egr, eg) src dst h2, None))"
proof (cases "length p < 20")
  case True
  from invalid [OF True] show ?thesis using assms [unfolded Relay_short [OF True]] by blast
next
  case False
  then have len: "20 \<le> length p" by simp
  show ?thesis
  proof (cases "map_of (hb_table h) (nd_network (hb_heap h src), ip_string (packet_dst p))")
    case None
    from no_route [OF len None] show ?thesis using assms [unfolded Relay_no_route [OF len None]] by blast
  next
    case dst: (Some dst)
    obtain acc dev egr eg where who: "attribution p (hb_heap h src) (hb_heap h dst) = (acc, dev, egr, eg)"
      by (metis prod_cases4)
    let ?hq = "h\<lparr>hb_quota := rolloverLocked now (hb_quota h)\<rparr>"
    obtain h1 ok1 where w1: "conn_write (nd_rw (hb_heap h dst)) (FrameData # put_u16 (of_nat (length p))) ?hq = (h1, ok1)"
      by fastforce
    obtain h2 ok2 where w2: "conn_write (nd_rw (hb_heap h dst)) p h1 = (h2, ok2)" by fastforce
    show ?thesis
    proof (cases "Hub.denied (hb_heap h src) (hb_heap h dst)")
      case True
      from denied [OF len dst True] show ?thesis using assms [unfolded Relay_denied [OF len dst True]] by blast
    next
      case ok: False
      note go = assms [unfolded Relay_go [OF len dst ok who]]
      show ?thesis
      proof (cases "snd (admit (hb_store h) now acc dev eg (int (length p)) (hb_quota h))")
        case (Some reason)
        from blocked [OF dst who Some] show ?thesis using go by (simp add: Some Let_def)
      next
        case None
        from passed [OF len dst ok who None w1 w2] show ?thesis using go by (cases ok1) (simp_all add: None w1 w2 Let_def)
      qed
    qed
  qed
qed

lemma Relay_view [simp]:
  "hub_view (fst (Relay now p src h)) = hub_view h" "spec_view (fst (Relay now p src h)) = spec_view h"
proof -
  obtain h' r where go: "Relay now p src h = (h', r)" by fastforce
  have q: "spec_view (h\<lparr>hb_quota := rolloverLocked now (hb_quota h)\<rparr>) = spec_view h"
    by (simp add: spec_view_def)
  have w: "hub_view h1 = hub_view h0 \<and> spec_view h1 = spec_view h0" if "conn_write c bs h0 = (h1, ok)" for c bs h0 h1 ok
    using conn_view(1,2) [of c bs h0] that by simp
  from go have "hub_view h' = hub_view h \<and> spec_view h' = spec_view h"
  proof (cases rule: Relay_cases)
    case (passed dst acc dev egr eg h1 h2 ok1 ok2)
    then show ?thesis using w [OF passed(6)] w [OF passed(7)] q by (auto split: if_splits)
  qed (simp_all add: q)
  then show "hub_view (fst (Relay now p src h)) = hub_view h" "spec_view (fst (Relay now p src h)) = spec_view h"
    by (simp_all add: go)
qed

subsection \<open>The registry's invariant\<close>

definition node_ok :: "hub \<Rightarrow> string \<Rightarrow> string \<Rightarrow> nat \<Rightarrow> bool" where
  "node_ok h net ip i \<longleftrightarrow> i < hb_new h \<and> nd_network (hb_heap h i) = net \<and> nd_account (hb_heap h i) = net
     \<and> (\<exists>a b c d. nd_ip (hb_heap h i) = IPv4 a b c d \<and> ip = dotted a b c d)
     \<and> lease_addr (hb_leases h) net (nd_device (hb_heap h i)) = Some ip"

definition hub_ok :: "nat \<Rightarrow> hub \<Rightarrow> bool" where
  "hub_ok n h \<longleftrightarrow> ls_ok n (hb_leases h) \<and> wf_map (hb_table h) \<and> wf_map (hb_networks h)
     \<and> (\<forall>net. wf_map (nodes_of net h))
     \<and> (\<forall>net ip. map_of (hb_table h) (net, ip) = map_of (nodes_of net h) ip)
     \<and> (\<forall>net ip i. map_of (hb_table h) (net, ip) = Some i \<longrightarrow> node_ok h net ip i)
     \<and> (\<forall>i < hb_new h. nd_account (hb_heap h i) = nd_network (hb_heap h i))"

lemma hub_ok_cong: "hub_view h = hub_view h' \<Longrightarrow> hub_ok n h = hub_ok n h'"
proof -
  assume v: "hub_view h = hub_view h'"
  then have "nd_key (hb_heap h i) = nd_key (hb_heap h' i)" for i by (simp add: hub_view_def fun_eq_iff)
  then have "nd_device (hb_heap h i) = nd_device (hb_heap h' i)" "nd_account (hb_heap h i) = nd_account (hb_heap h' i)"
    "nd_network (hb_heap h i) = nd_network (hb_heap h' i)" "nd_ip (hb_heap h i) = nd_ip (hb_heap h' i)" for i
    by (simp_all add: nd_key_def)
  then show ?thesis using v by (simp add: hub_ok_def node_ok_def nodes_of_def hub_view_def)
qed

lemma hub_ok_node: "hub_ok n h \<Longrightarrow> map_of (hb_table h) (net, ip) = Some i \<Longrightarrow> node_ok h net ip i"
  by (simp add: hub_ok_def)

lemma removeLocked_frame [simp]:
  "hb_heap (removeLocked i h) = hb_heap h" "hb_new (removeLocked i h) = hb_new h"
  "hb_leases (removeLocked i h) = hb_leases h" "hb_out (removeLocked i h) = hb_out h"
  "spec_view (removeLocked i h) = spec_view h" "hb_cidr (removeLocked i h) = hb_cidr h"
  by (simp_all add: removeLocked_def Let_def spec_view_def split: option.split)

lemma removeLocked_table:
  "hb_table (removeLocked i h) =
     (let key = (nd_network (hb_heap h i), ip_string (nd_ip (hb_heap h i)))
      in if map_of (hb_table h) key = Some i then del key (hb_table h) else hb_table h)"
  by (simp add: removeLocked_def Let_def split: option.split)

lemma removeLocked_nodes:
  "nodes_of net (removeLocked i h) =
     (if net = nd_network (hb_heap h i) \<and> map_of (nodes_of net h) (ip_string (nd_ip (hb_heap h i))) = Some i
      then del (ip_string (nd_ip (hb_heap h i))) (nodes_of net h) else nodes_of net h)"
  by (auto simp: removeLocked_def nodes_of_def Let_def split: option.split)

lemma removeLocked_networks: "wf_map (hb_networks h) \<Longrightarrow> wf_map (hb_networks (removeLocked i h))"
  by (simp add: removeLocked_def Let_def split: option.split)

lemma removeLocked_lookup:
  "map_of (hb_table (removeLocked i h)) k =
     (if k = (nd_network (hb_heap h i), ip_string (nd_ip (hb_heap h i))) \<and> map_of (hb_table h) k = Some i
      then None else map_of (hb_table h) k)"
  by (auto simp: removeLocked_table Let_def)

lemma hub_ok_remove: "hub_ok n h \<Longrightarrow> hub_ok n (removeLocked i h)"
proof -
  assume ok: "hub_ok n h"
  have agree: "map_of (hb_table h) (net, ip) = map_of (nodes_of net h) ip" for net ip using ok by (simp add: hub_ok_def)
  have "map_of (hb_table (removeLocked i h)) (net, ip) = map_of (nodes_of net (removeLocked i h)) ip" for net ip
    using agree by (auto simp: removeLocked_lookup removeLocked_nodes)
  moreover have "node_ok (removeLocked i h) net ip j" if "map_of (hb_table (removeLocked i h)) (net, ip) = Some j" for net ip j
    using that ok by (auto simp: removeLocked_lookup hub_ok_def node_ok_def split: if_splits)
  moreover have "wf_map (nodes_of net (removeLocked i h))" "wf_map (hb_table (removeLocked i h))" for net
    using ok by (simp_all add: removeLocked_nodes removeLocked_table hub_ok_def Let_def)
  ultimately show ?thesis using ok removeLocked_networks [of h i] by (simp add: hub_ok_def)
qed

lemma insert_node_frame [simp]:
  "hb_leases (insert_node nd h) = hb_leases h" "hb_new (insert_node nd h) = Suc (hb_new h)"
  "hb_heap (insert_node nd h) = (hb_heap h)(hb_new h := nd)" "hb_out (insert_node nd h) = hb_out h"
  "hb_table (insert_node nd h) = put (nd_network nd, ip_string (nd_ip nd)) (hb_new h) (hb_table h)"
  "nodes_of net (insert_node nd h) =
     (if net = nd_network nd then put (ip_string (nd_ip nd)) (hb_new h) (nodes_of net h) else nodes_of net h)"
  "spec_view (insert_node nd h) = spec_view h" "hb_cidr (insert_node nd h) = hb_cidr h"
  by (simp_all add: insert_node_def Let_def nodes_of_def spec_view_def split: option.split)

lemma hub_ok_insert:
  assumes "hub_ok n h" and "nd_account nd = nd_network nd" and "nd_ip nd = IPv4 a b c d"
    and "lease_addr (hb_leases h) (nd_network nd) (nd_device nd) = Some (dotted a b c d)"
  shows "hub_ok n (insert_node nd h)"
proof -
  have "node_ok (insert_node nd h) net ip i" if "map_of (hb_table (insert_node nd h)) (net, ip) = Some i" for net ip i
  proof (cases "(net, ip) = (nd_network nd, ip_string (nd_ip nd))")
    case True
    then show ?thesis using that assms(2-4) by (simp add: node_ok_def)
  next
    case False
    then have "map_of (hb_table h) (net, ip) = Some i" using that by (simp split: if_splits)
    then have "node_ok h net ip i" using hub_ok_node [OF assms(1)] by blast
    then show ?thesis by (simp add: node_ok_def)
  qed
  moreover have "wf_map (hb_networks (insert_node nd h))"
    using assms(1) by (simp add: insert_node_def hub_ok_def Let_def)
  ultimately show ?thesis using assms(1,2) by (simp add: hub_ok_def less_Suc_eq)
qed

text \<open>Registering: what the lease store and the tables hold afterwards.\<close>

lemma lease_host:
  assumes "ls_ok n ls" and "lease_addr ls net dev = Some ip"
  obtains a b c d where "ip = dotted a b c d"
proof -
  obtain l where "map_of (leases_of ls net) ip = Some l" using assms by (auto simp: lease_addr_iff)
  then have "is_host (ls_ipn ls) ip"
    using leases_ok_of [OF assms(1), of net] map_of_Some_val
    by (fastforce simp: leases_ok_def dest: keyed_Some)
  then obtain x where "host_addr (ls_ipn ls) x" "ip = ip_string x" by (auto simp: is_host_def)
  then show ?thesis by (auto simp: host_addr_def intro: that elim!: length4E)
qed

lemma Allocate_request: "Allocate io now net acc dev ls = (t, r) \<Longrightarrow>
   lease_request ls net dev (case r of Inr l \<Rightarrow> Some (le_ipv4 l) | Inl _ \<Rightarrow> None) t"
  by (auto simp: lease_request_def)

lemma hub_ok_leases:
  assumes "hub_ok n h" and "lease_request (hb_leases h) net dev r t"
  shows "hub_ok n (h\<lparr>hb_leases := t\<rparr>)"
proof -
  have "ls_ok n (hb_leases h)" using assms(1) by (simp add: hub_ok_def)
  then have "ls_ok n t" and keep: "\<And>m e b. lease_addr (hb_leases h) m e = Some b \<Longrightarrow> lease_addr t m e = Some b"
    using lp.wf_alloc lp.keeps assms(2) by blast+
  moreover have "nodes_of m (h\<lparr>hb_leases := t\<rparr>) = nodes_of m h" for m by (simp add: nodes_of_def)
  ultimately show ?thesis using assms(1) by (auto simp: hub_ok_def node_ok_def)
qed

lemma evict_frame [simp]:
  "hb_heap (evict net ip dev h) = hb_heap h" "hb_new (evict net ip dev h) = hb_new h"
  "hb_leases (evict net ip dev h) = hb_leases h" "hb_out (evict net ip dev h) = hb_out h"
  "spec_view (evict net ip dev h) = spec_view h" "hb_cidr (evict net ip dev h) = hb_cidr h"
  by (simp_all add: evict_def split: option.split)

lemma hub_ok_evict: "hub_ok n h \<Longrightarrow> hub_ok n (evict net ip dev h)"
  by (simp add: evict_def hub_ok_remove split: option.split)

lemma node_ok_key: "node_ok h net ip i \<Longrightarrow> (nd_network (hb_heap h i), ip_string (nd_ip (hb_heap h i))) = (net, ip)"
  by (auto simp: node_ok_def)

lemma evict_other:
  assumes "k \<noteq> (net, ip)" and "hub_ok n h"
  shows "map_of (hb_table (evict net ip dev h)) k = map_of (hb_table h) k"
proof (cases "map_of (hb_table h) (net, ip)")
  case (Some old)
  with node_ok_key [OF hub_ok_node [OF assms(2) Some]] assms(1) show ?thesis
    by (simp add: evict_def removeLocked_lookup)
qed (simp add: evict_def)

lemma Register_fails:
  "Register io now net dev acct hello rw remote h = (h', Inl e) \<Longrightarrow>
     \<exists>t. Allocate io now net (ac_id acct) (de_id dev) (hb_leases h) = (t, Inl e) \<and> h' = h\<lparr>hb_leases := t\<rparr>"
  by (auto simp: Register_def Let_def split: prod.splits sum.splits)

lemma Register_succeeds:
  assumes "Register io now net dev acct hello rw remote h = (h', Inr (w, i))" and "hub_ok n h"
  obtains t l a b c d where "Allocate io now net (ac_id acct) (de_id dev) (hb_leases h) = (t, Inr l)"
    and "le_ipv4 l = dotted a b c d" and "i = hb_new h" and "we_ip w = dotted a b c d"
    and "h' = insert_node (new_node now net dev acct hello rw remote (IPv4 a b c d))
           (evict net (dotted a b c d) (de_id dev) (h\<lparr>hb_leases := t\<rparr>))"
    and "lease_addr t net (de_id dev) = Some (dotted a b c d)"
    and "we_peers w = map (\<lambda>e. peer_of (hb_heap h' (snd e)))
      (filter (\<lambda>e. \<not> ip_equal (nd_ip (hb_heap h' (snd e))) (IPv4 a b c d)) (nodes_of net h'))"
proof -
  obtain t r where al: "Allocate io now net (ac_id acct) (de_id dev) (hb_leases h) = (t, r)" by fastforce
  obtain l where r: "r = Inr l" using assms(1) al by (cases r) (simp_all add: Register_def Let_def)
  have ls: "ls_ok n (hb_leases h)" using assms(2) by (simp add: hub_ok_def)
  have req: "lease_request (hb_leases h) net (de_id dev) (Some (le_ipv4 l)) t"
    using Allocate_request [OF al] r by simp
  then have addr: "lease_addr t net (de_id dev) = Some (le_ipv4 l)" and t: "ls_ok n t"
    using lp.granted [OF ls] lp.wf_alloc [OF ls] by blast+
  obtain a b c d where l: "le_ipv4 l = dotted a b c d" using lease_host [OF t addr] by blast
  show ?thesis
    by (rule that [OF al [unfolded r] l])
      (use assms(1) al r l addr in \<open>auto simp: Register_def Let_def\<close>)
qed

lemma hub_ok_Register:
  assumes "Register io now (ac_id acct) dev acct hello rw remote h = (h', r)" and "hub_ok n h"
  shows "hub_ok n h'"
proof (cases r)
  case (Inl e)
  then obtain t where "Allocate io now (ac_id acct) (ac_id acct) (de_id dev) (hb_leases h) = (t, Inl e)" "h' = h\<lparr>hb_leases := t\<rparr>"
    using Register_fails assms(1) by blast
  then show ?thesis using hub_ok_leases [OF assms(2)] Allocate_request by blast
next
  case (Inr wi)
  obtain w i where r: "r = Inr (w, i)" using Inr by (cases wi) simp
  from assms(1) [unfolded r] assms(2) show ?thesis
  proof (cases rule: Register_succeeds)
    case (1 t l a b c d)
    have "hub_ok n (h\<lparr>hb_leases := t\<rparr>)"
      using hub_ok_leases [OF assms(2)] Allocate_request [OF 1(1)] by simp
    then have "hub_ok n (evict (ac_id acct) (dotted a b c d) (de_id dev) (h\<lparr>hb_leases := t\<rparr>))"
      by (rule hub_ok_evict)
    then show ?thesis unfolding 1(5)
      by (rule hub_ok_insert) (use 1(6) in \<open>simp_all add: new_node_def\<close>)
  qed
qed

subsection \<open>The hub as a transition system\<close>

text \<open>
  What the server and the management interface do with the hub, in any order; the server registers
  a device in the network named by its account (\<^verbatim>\<open>handleConn\<close>).
\<close>

inductive hub_step :: "hub \<Rightarrow> hub \<Rightarrow> bool" where
  hs_register: "Register io now (ac_id acct) dev acct hello rw remote h = (h', r) \<Longrightarrow> hub_step h h'"
| hs_attach: "hub_step h (set_node i ((hb_heap h i)\<lparr>nd_conn := c\<rparr>) h)"
| hs_joined: "hub_step h (NotifyPeerJoined net i h)"
| hs_unregister: "hub_step h (Unregister node h)"
| hs_relay: "src < hb_new h \<Longrightarrow> hub_step h (fst (Relay now p src h))"
| hs_kick: "hub_step h (fst (KickDevice dev h))"
| hs_egress: "hub_step h (fst (UpdateEgress dev enabled acl h))"
| hs_notify: "hub_step h (QuotaNotifyAccount now acc h)"
| hs_frame: "hub_step h (fst (conn_frame c ty payload h))"
| hs_close: "hub_step h (conn_close c h)"
| hs_store: "hub_step h (h\<lparr>hb_store := st\<rparr>)"
| hs_usage: "hub_step h (h\<lparr>hb_usage := u\<rparr>)"

text \<open>A new hub; any connection may break at any point.\<close>

definition hub_start :: "nat \<Rightarrow> hub \<Rightarrow> bool" where
  "hub_start n h \<longleftrightarrow> (\<exists>now cidr q leases usage st tiers acct out. ls_ok n leases
     \<and> h = (SetTierQuota tiers acct (NewHub now cidr q leases usage st))\<lparr>hb_out := out\<rparr>)"

lemma hub_startI: "ls_ok n leases \<Longrightarrow> hub_start n (SetTierQuota tiers acct (NewHub now cidr q leases usage st))"
  unfolding hub_start_def
  by (rule exI [of _ now], rule exI [of _ cidr], rule exI [of _ q], rule exI [of _ leases], rule exI [of _ usage], rule exI [of _ st],
      rule exI [of _ tiers], rule exI [of _ acct],
      rule exI [of _ "hb_out (SetTierQuota tiers acct (NewHub now cidr q leases usage st))"]) simp

lemma hub_ok_Unregister: "hub_ok n h \<Longrightarrow> hub_ok n (Unregister node h)"
proof (cases node)
  case (Some i)
  assume "hub_ok n h"
  then have "hub_ok n (removeLocked i h)" by (rule hub_ok_remove)
  then show ?thesis using hub_ok_cong [OF broadcast_view(1)] by (simp add: Unregister_def Some)
qed (simp add: Unregister_def)

interpretation hub_sys: transition_system "hub_start n" hub_step "hub_ok n" for n
proof unfold_locales
  fix h
  assume "hub_start n h"
  then show "hub_ok n h"
    by (auto simp: hub_start_def SetTierQuota_def NewHub_def hub_ok_def node_ok_def nodes_of_def)
next
  fix h h'
  assume "hub_step h h'" and ok: "hub_ok n h"
  then show "hub_ok n h'"
  proof (cases rule: hub_step.cases)
    case hs_register
    then show ?thesis using hub_ok_Register ok by blast
  next
    case hs_unregister
    then show ?thesis using hub_ok_Unregister ok by blast
  next
    case (hs_attach i c)
    have "hub_view h' = hub_view h" unfolding hs_attach by simp
    then show ?thesis using hub_ok_cong ok by blast
  next
    case (hs_close c)
    then show ?thesis using hub_ok_cong [OF conn_view(5)] ok by simp
  qed (use ok hub_ok_cong in \<open>metis Relay_view(1) Notify_view(1,4) KickDevice_view(1) UpdateEgress_view(1) conn_view(3) view_update(2,3)\<close>)+
qed

end
