(* ===== verification/Hub_Correct.thy ===== *)
theory Hub_Correct
  imports Hub
begin

text \<open>
  What the hub guarantees: the registry's tables, the isolation of networks, who is billed for a
  relayed packet, the limits, and what becomes of the notices and of stale connections.
\<close>

subsection \<open>A hub with two devices of one account\<close>

definition sample_account :: account where
  "sample_account = \<lparr>ac_id = ''n'', ac_name = ''name'', ac_tier = ''free'', ac_created = 0\<rparr>"

definition sample_device :: "string \<Rightarrow> bool \<Rightarrow> device" where
  "sample_device i eg = \<lparr>de_id = i, de_account = ''n'', de_name = i, de_token_hash = [], de_egress = eg, de_acl = [],
     de_created = 0, de_seen = 0\<rparr>"

definition hello_of :: "bool \<Rightarrow> hello" where
  "hello_of eg = zero_hello\<lparr>he_hostname := ''h'', he_egress := eg\<rparr>"

definition sample_hub0 :: hub where
  "sample_hub0 = SetTierQuota None False (NewHub 0 ''10.0.0.0/30'' \<lparr>qs_bytes = 100, qs_egress = 0\<rparr> sample_leases2 empty_usage empty_store)"

definition sample_hub1 :: hub where
  "sample_hub1 = fst (Register True 1 (ac_id sample_account) (sample_device ''d1'' False) sample_account (hello_of False) 0 ''r'' sample_hub0)"

definition sample_hub :: hub where
  "sample_hub = fst (Register True 1 (ac_id sample_account) (sample_device ''d2'' True) sample_account (hello_of True) 1 ''r'' sample_hub1)"

lemma sample_hub_reach:
  "reach (hub_start 30) hub_step sample_hub1" "reach (hub_start 30) hub_step sample_hub"
proof -
  have "ls_ok 30 sample_leases2"
    using lease_sys.reach_inv [OF sample_reach(2)] by (simp add: ls_inv_def)
  then have "hub_start 30 sample_hub0" unfolding sample_hub0_def by (rule hub_startI)
  then show one: "reach (hub_start 30) hub_step sample_hub1"
    unfolding sample_hub1_def
    by (rule reach_step [where step = hub_step, OF reach_init [where init = "hub_start 30"] hs_register [OF prod.collapse [symmetric]]])
  show "reach (hub_start 30) hub_step sample_hub"
    unfolding sample_hub_def
    by (rule reach_step [where step = hub_step, OF one hs_register [OF prod.collapse [symmetric]]])
qed

lemma Allocate_sample:
  "Allocate True 1 ''n'' ''n'' ''d1'' sample_leases2 = (sample_leases2, Inr (sample_lease ''d1'' 1 1))"
  "Allocate True 1 ''n'' ''n'' ''d2'' sample_leases2 = (sample_leases2, Inr (sample_lease ''d2'' 2 2))"
  by (simp_all add: sample_leases2_eq(2) alloc_simps sample_lease_def)

definition sample_node :: "nat \<Rightarrow> node" where
  "sample_node k = new_node 1 ''n'' (sample_device (if k = 0 then ''d1'' else ''d2'') (k \<noteq> 0)) sample_account
     (hello_of (k \<noteq> 0)) k ''r'' (IPv4 10 0 0 (if k = 0 then 1 else 2))"

lemma sample_hub1_eq:
  "sample_hub1 = sample_hub0\<lparr>hb_heap := (\<lambda>_. no_node)(0 := sample_node 0), hb_new := 1,
     hb_table := [((''n'', dotted 10 0 0 1), 0)], hb_networks := [(''n'', [(dotted 10 0 0 1, 0)])]\<rparr>"
proof -
  have "hb_leases sample_hub0 = sample_leases2" "hb_table sample_hub0 = []" "hb_networks sample_hub0 = []" "hb_new sample_hub0 = 0"
    "hb_heap sample_hub0 = (\<lambda>_. no_node)"
    by (simp_all add: sample_hub0_def SetTierQuota_def NewHub_def)
  then show ?thesis
    using Allocate_sample(1)
    by (simp add: sample_hub1_def Register_def sample_account_def sample_device_def sample_lease_def evict_def insert_node_def
      sample_node_def new_node_def Let_def)
qed

lemma sample_hub_eq:
  "sample_hub = sample_hub0\<lparr>hb_heap := (\<lambda>_. no_node)(0 := sample_node 0, 1 := sample_node 1), hb_new := 2,
     hb_table := [((''n'', dotted 10 0 0 1), 0), ((''n'', dotted 10 0 0 2), 1)],
     hb_networks := [(''n'', [(dotted 10 0 0 1, 0), (dotted 10 0 0 2, 1)])]\<rparr>"
proof -
  have "hb_leases sample_hub0 = sample_leases2"
    by (simp add: sample_hub0_def SetTierQuota_def NewHub_def)
  then show ?thesis
    using Allocate_sample(2)
    by (simp add: sample_hub_def sample_hub1_eq Register_def sample_account_def sample_device_def sample_lease_def evict_def insert_node_def
      sample_node_def new_node_def Let_def)
qed

lemma sample_hub0_simps [simp]:
  "hb_quota sample_hub0 = enableTiers None False (newQuotaTrk 0 0 \<lparr>qs_bytes = 100, qs_egress = 0\<rparr> (Some empty_usage) (Some sample_leases2))"
  "hb_usage sample_hub0 = empty_usage" "hb_store sample_hub0 = empty_store" "hb_out sample_hub0 = (\<lambda>_. new_writer)"
  "hb_leases sample_hub0 = sample_leases2"
  by (simp_all add: sample_hub0_def SetTierQuota_def NewHub_def)

lemma sample_node_simps [simp]:
  "nd_network (sample_node k) = ''n''" "nd_account (sample_node k) = ''n''" "nd_rw (sample_node k) = k"
  "nd_egress (sample_node k) = (k \<noteq> 0)" "nd_device (sample_node k) = (if k = 0 then ''d1'' else ''d2'')"
  "nd_ip (sample_node k) = IPv4 10 0 0 (if k = 0 then 1 else 2)" "nd_notified (sample_node k) = False"
  by (simp_all add: sample_node_def new_node_def sample_account_def sample_device_def hello_of_def)

lemma sample_trk_day [simp]:
  "qt_day (hb_quota sample_hub0) = 0" "specFor st acc (hb_quota sample_hub0) = \<lparr>qs_bytes = 100, qs_egress = 0\<rparr>"
  "count_of (qt_acctBy (hb_quota sample_hub0)) acc = 0"
  "count_of (qt_egressBy (hb_quota sample_hub0)) dev = 0"
proof -
  show "qt_day (hb_quota sample_hub0) = 0" "specFor st acc (hb_quota sample_hub0) = \<lparr>qs_bytes = 100, qs_egress = 0\<rparr>"
    by (simp_all add: enableTiers_def newQuotaTrk_def specFor_def day_of_def unix_sec_def go_div_def)
  have z: "Totals a t empty_usage = zero_counters" "EgressLaneTotals a t empty_usage = zero_counters" for a t
    by (simp_all add: Totals_def EgressLaneTotals_def accumulate_def empty_usage_def)
  show "count_of (qt_acctBy (hb_quota sample_hub0)) acc = 0" "count_of (qt_egressBy (hb_quota sample_hub0)) dev = 0"
    by (simp_all add: enableTiers_def newQuotaTrk_def refill_counts z zero_counters_def add64_def int64_def)
qed

declare sample_hub0_simps(1) [simp del]

text \<open>A packet from the first device to the second, with the given protocol number.\<close>

definition sample_bytes :: "byte \<Rightarrow> bytes" where
  "sample_bytes proto = replicate 9 0 @ [proto] @ replicate 6 0 @ [10, 0, 0, 2] @ replicate 20 0"

lemma sample_bytes_simps [simp]:
  "length (sample_bytes pr) = 40" "sample_bytes pr ! 9 = pr" "packet_dst (sample_bytes pr) = IPv4 10 0 0 2"
  by (simp_all add: sample_bytes_def packet_dst_def nth_append)

lemma sample_relay:
  "Relay 5 (sample_bytes pr) 0 sample_hub =
     (fst (Relay 5 (sample_bytes pr) 0 sample_hub), None)"
  "hb_usage (fst (Relay 5 (sample_bytes 4) 0 sample_hub)) = Add ''n'' ''d1'' ''d2'' 0 40 5 empty_usage"
proof -
  have day: "day_of 5 = 0" by (simp add: day_of_def unix_sec_def go_div_def second_def)
  have adm: "snd (admit st 5 acc dev eg 40 (hb_quota sample_hub0)) = None" for st acc dev eg
    by (simp add: admit_def Let_def used_today_def day add64_def int64_def)
  have w: "write_bytes bs new_writer = (new_writer\<lparr>w_out := bs\<rparr>, True)" "write_bytes cs (new_writer\<lparr>w_out := bs\<rparr>) = (new_writer\<lparr>w_out := bs @ cs\<rparr>, True)" for bs cs
    by (simp_all add: new_writer_def)
  have to: "map_of (hb_table sample_hub) (nd_network (hb_heap sample_hub 0), ip_string (packet_dst (sample_bytes pr))) = Some 1" for pr
    by (simp add: sample_hub_eq)
  have ok: "\<not> denied (hb_heap sample_hub 0) (hb_heap sample_hub 1)"
    by (simp add: denied_def sample_hub_eq)
  have who: "attribution (sample_bytes pr) (hb_heap sample_hub 0) (hb_heap sample_hub 1) =
      (''n'', ''d1'', if pr = 4 then ''d2'' else [], pr = 4)" for pr
    by (simp add: attribution_def proxied_def ipProtoIPIP_def sample_hub_eq)
  show "Relay 5 (sample_bytes pr) 0 sample_hub = (fst (Relay 5 (sample_bytes pr) 0 sample_hub), None)"
    by (subst (1 2) Relay_go [OF _ to ok who]) (simp_all add: sample_hub_eq adm conn_write_def w Let_def)
  show "hb_usage (fst (Relay 5 (sample_bytes 4) 0 sample_hub)) = Add ''n'' ''d1'' ''d2'' 0 40 5 empty_usage"
    by (subst Relay_go [OF _ to ok who])
      (simp_all add: sample_hub_eq adm conn_write_def w Let_def count_relayed_def set_node_def)
qed

subsection \<open>The registry\<close>

text \<open>
  C9. In every reachable state of the hub the two tables agree; the node found under a network and an
  address is in that network, has that address and belongs to the account the network is named
  after; and a device is online at one address of a network only, which is the one it leases.
\<close>

theorem hub_tables_ok:
  assumes "reach (hub_start n) hub_step h"
  shows "map_of (hb_table h) (net, ip) = map_of (nodes_of net h) ip
    \<and> (\<forall>i. map_of (hb_table h) (net, ip) = Some i \<longrightarrow>
         nd_network (hb_heap h i) = net \<and> ip_string (nd_ip (hb_heap h i)) = ip \<and> nd_account (hb_heap h i) = net
         \<and> lease_addr (hb_leases h) net (nd_device (hb_heap h i)) = Some ip
         \<and> (\<forall>ip' j. map_of (hb_table h) (net, ip') = Some j \<longrightarrow>
              (nd_device (hb_heap h j) = nd_device (hb_heap h i) \<longleftrightarrow> ip' = ip)))"
proof -
  have ok: "hub_ok n h" using hub_sys.reach_inv assms .
  have "nd_device (hb_heap h j) = nd_device (hb_heap h i) \<longleftrightarrow> ip' = ip"
    if i: "map_of (hb_table h) (net, ip) = Some i" and j: "map_of (hb_table h) (net, ip') = Some j" for i j ip'
  proof -
    have "lease_addr (hb_leases h) net (nd_device (hb_heap h i)) = Some ip"
      "lease_addr (hb_leases h) net (nd_device (hb_heap h j)) = Some ip'"
      using hub_ok_node [OF ok i] hub_ok_node [OF ok j] by (simp_all add: node_ok_def)
    then show ?thesis using i j by (metis option.inject)
  qed
  note same = this
  have "nd_network (hb_heap h i) = net \<and> ip_string (nd_ip (hb_heap h i)) = ip \<and> nd_account (hb_heap h i) = net
      \<and> lease_addr (hb_leases h) net (nd_device (hb_heap h i)) = Some ip" if "map_of (hb_table h) (net, ip) = Some i" for i
    using hub_ok_node [OF ok that] by (auto simp: node_ok_def)
  moreover have "map_of (hb_table h) (net, ip) = map_of (nodes_of net h) ip" using ok by (simp add: hub_ok_def)
  ultimately show ?thesis using same by blast
qed

lemma hub_tables_ok_witness:
  "map_of (hb_table sample_hub) (''n'', dotted 10 0 0 2) = map_of (nodes_of ''n'' sample_hub) (dotted 10 0 0 2)
    \<and> nd_network (hb_heap sample_hub 1) = ''n'' \<and> ip_string (nd_ip (hb_heap sample_hub 1)) = dotted 10 0 0 2
    \<and> lease_addr (hb_leases sample_hub) ''n'' (nd_device (hb_heap sample_hub 1)) = Some (dotted 10 0 0 2)"
proof -
  have "map_of (hb_table sample_hub) (''n'', dotted 10 0 0 2) = Some 1"
    by (simp add: sample_hub_eq)
  with hub_tables_ok [OF sample_hub_reach(2), of "''n''" "dotted 10 0 0 2"] show ?thesis
    by blast
qed

subsection \<open>What a relay writes\<close>

lemma conn_write_out:
  assumes "conn_write c bs h = (h', ok)"
  shows "hb_out h' = (hb_out h)(c := fst (write_bytes bs (hb_out h c)))"
    and "ok \<Longrightarrow> w_out (hb_out h' c) = w_out (hb_out h c) @ bs"
    and "hb_heap h' = hb_heap h" and "hb_usage h' = hb_usage h" and "hb_quota h' = hb_quota h" and "hb_store h' = hb_store h"
  using assms by (auto simp: conn_write_def Let_def write_bytes_def split: option.splits if_splits)

lemma notice_out:
  "hb_out (sendQuotaNotice now i h) = (hb_out h)(nd_rw (hb_heap h i) := hb_out (sendQuotaNotice now i h) (nd_rw (hb_heap h i)))"
  by (simp add: sendQuotaNotice_def conn_frame_def Let_def case_prod_unfold)

lemma set_node_out [simp]: "hb_out (set_node i nd h) = hb_out h"
  by (simp add: set_node_def)

lemma notice_other: "c \<noteq> nd_rw (hb_heap h i) \<Longrightarrow> hb_out (sendQuotaNotice now i h) c = hb_out h c"
  by (simp add: sendQuotaNotice_def conn_frame_def Let_def case_prod_unfold)

text \<open>
  C1. Isolation. In every reachable state a relayed packet reaches nobody but the device of the sender's own
  account that has the packet's destination address in the sender's network: no other connection
  is written to, except the sender's own for a quota notice. A relay without an error has put
  exactly one data frame with the packet on that device's connection.
\<close>

theorem relay_isolation:
  assumes "reach (hub_start n) hub_step h" and "src < hb_new h" and "Relay now p src h = (h', r)"
  shows "(\<forall>c. hb_out h' c \<noteq> hb_out h c \<longrightarrow>
      (c = nd_rw (hb_heap h src) \<and> (\<exists>reason. r = Some (ErrQuotaBlocked reason)))
      \<or> (\<exists>dst. map_of (hb_table h) (nd_network (hb_heap h src), ip_string (packet_dst p)) = Some dst
           \<and> c = nd_rw (hb_heap h dst) \<and> nd_account (hb_heap h dst) = nd_account (hb_heap h src)
           \<and> nd_ip (hb_heap h dst) = packet_dst p))
    \<and> (r = None \<longrightarrow> (\<exists>dst. map_of (hb_table h) (nd_network (hb_heap h src), ip_string (packet_dst p)) = Some dst
           \<and> w_out (hb_out h' (nd_rw (hb_heap h dst))) =
             w_out (hb_out h (nd_rw (hb_heap h dst))) @ frame_bytes (FrameData, p)))"
proof -
  have ok: "hub_ok n h" using hub_sys.reach_inv assms(1) .
  have own: "nd_account (hb_heap h dst) = nd_account (hb_heap h src) \<and> nd_ip (hb_heap h dst) = packet_dst p"
    if dst: "map_of (hb_table h) (nd_network (hb_heap h src), ip_string (packet_dst p)) = Some dst" for dst
    using hub_ok_node [OF ok dst] ok assms(2) by (auto simp: node_ok_def hub_ok_def packet_dst_def)
  from assms(3) show ?thesis
  proof (cases rule: Relay_cases)
    case (blocked dst acc dev egr eg reason)
    have "hb_out h' c = hb_out h c" if "c \<noteq> nd_rw (hb_heap h src)" for c
      using that by (simp add: blocked(4) notice_other)
    then show ?thesis using blocked(5) by auto
  next
    case (passed dst acc dev egr eg h1 h2 ok1 ok2)
    note w1 = conn_write_out [OF passed(6)] and w2 = conn_write_out [OF passed(7)]
    have out: "hb_out h' = (if ok1 then hb_out h2 else hb_out h1)" using passed(8) by (auto split: if_splits)
    have "hb_out h' c = hb_out h c" if "c \<noteq> nd_rw (hb_heap h dst)" for c
      using that by (simp add: out w1(1) w2(1))
    moreover have "w_out (hb_out h' (nd_rw (hb_heap h dst))) =
        w_out (hb_out h (nd_rw (hb_heap h dst))) @ frame_bytes (FrameData, p)" if "r = None"
    proof -
      have "ok1" "ok2" using passed(8) that by (auto split: if_splits)
      then show ?thesis using out w1(2) w2(2) by (simp add: frame_bytes_def frame_header_def)
    qed
    ultimately show ?thesis using passed(2) own [OF passed(2)] by blast
  qed simp_all
qed

lemma relay_isolation_witness:
  "\<exists>dst. map_of (hb_table sample_hub) (nd_network (hb_heap sample_hub 0), ip_string (packet_dst (sample_bytes 4))) = Some dst
     \<and> w_out (hb_out (fst (Relay 5 (sample_bytes 4) 0 sample_hub)) (nd_rw (hb_heap sample_hub dst))) =
         w_out (hb_out sample_hub (nd_rw (hb_heap sample_hub dst))) @ frame_bytes (FrameData, sample_bytes 4)"
  by (rule relay_isolation [OF sample_hub_reach(2) _ sample_relay(1), THEN conjunct2, THEN mp, OF _ refl])
    (simp add: sample_hub_eq)

subsection \<open>Who pays\<close>

text \<open>The consumer of a packet: its sender, unless an exit returns tunnelled traffic to a device that is none.\<close>

definition consumer :: "bytes \<Rightarrow> node \<Rightarrow> node \<Rightarrow> node" where
  "consumer p sn dn = (if proxied p \<and> nd_egress sn \<and> \<not> nd_egress dn then dn else sn)"

definition through_exit :: "bytes \<Rightarrow> node \<Rightarrow> node \<Rightarrow> bool" where
  "through_exit p sn dn \<longleftrightarrow> proxied p \<and> (nd_egress sn \<or> nd_egress dn)"

lemma attribution_consumer:
  "attribution p sn dn = (nd_account (consumer p sn dn), nd_device (consumer p sn dn),
     if through_exit p sn dn then (if nd_egress dn then nd_device dn else nd_device sn) else [], through_exit p sn dn)"
  by (auto simp: attribution_def consumer_def through_exit_def)

lemma count_relayed_usage:
  "hb_usage (count_relayed now p (acc, dev, egr, eg) src dst h) = Add acc dev egr 0 (int (length p)) now (hb_usage h)"
  "hb_quota (count_relayed now p (acc, dev, egr, eg) src dst h) = inc (hb_store h) now acc dev eg (int (length p)) (hb_quota h)"
  by (simp_all add: count_relayed_def set_node_def Let_def)

lemma Relay_ok:
  assumes "Relay now p src h = (h', None)"
  obtains dst where "map_of (hb_table h) (nd_network (hb_heap h src), ip_string (packet_dst p)) = Some dst"
    and "\<not> denied (hb_heap h src) (hb_heap h dst)"
    and "case attribution p (hb_heap h src) (hb_heap h dst) of (acc, dev, egr, eg) \<Rightarrow>
      snd (admit (hb_store h) now acc dev eg (int (length p)) (hb_quota h)) = None
      \<and> hb_usage h' = Add acc dev egr 0 (int (length p)) now (hb_usage h)
      \<and> hb_quota h' = inc (hb_store h) now acc dev eg (int (length p)) (rolloverLocked now (hb_quota h))"
  using assms
proof (cases rule: Relay_cases)
  case (passed dst acc dev egr eg h1 h2 ok1 ok2)
  note w1 = conn_write_out [OF passed(6)] and w2 = conn_write_out [OF passed(7)]
  have "h' = count_relayed now p (acc, dev, egr, eg) src dst h2" using passed(8) by (auto split: if_splits)
  then show ?thesis
    using passed(4,5) w1(4-6) w2(4-6) by (intro that [OF passed(2,3)]) (simp add: count_relayed_usage)
qed simp_all



text \<open>
  When both ends are exits, tunnelled traffic that one of them returns to the other is not
  attributed to the device that consumes it: it counts for the exit that sends it, in its account and in
  the exit lane of its device.
\<close>

theorem return_traffic_between_exits:
  assumes "nd_egress sn" and "nd_egress dn" and "proxied p"
  shows "attribution p sn dn = (nd_account sn, nd_device sn, nd_device dn, True)"
  using assms by (simp add: attribution_def)

lemma return_traffic_between_exits_witness:
  "attribution (sample_bytes 4) (sample_node 1) (sample_node 2) = (''n'', ''d2'', ''d2'', True)"
  using return_traffic_between_exits [of "sample_node 1" "sample_node 2" "sample_bytes 4"]
  by (simp add: proxied_def ipProtoIPIP_def)

subsection \<open>Stale connections\<close>

lemma frame_out:
  "hb_out (fst (conn_frame c ty pl h)) c' = (if c' = c then fst (WriteFrame (hb_out h c) ty pl) else hb_out h c')"
  by (simp add: conn_frame_def case_prod_unfold Let_def)

lemma frames_out_other: "c' \<notin> set cs \<Longrightarrow> hb_out (fold (\<lambda>c h. fst (conn_frame c ty pl h)) cs h) c' = hb_out h c'"
  by (induction cs arbitrary: h) (simp_all add: frame_out)

text \<open>A working connection among the targets, listed once, receives the frame.\<close>

lemma frames_out:
  assumes "c \<in> set cs" and "distinct cs" and "w_cap (hb_out h c) = None" and "length pl \<le> MaxPayload"
  shows "w_out (hb_out (fold (\<lambda>c h. fst (conn_frame c ty pl h)) cs h) c) = w_out (hb_out h c) @ frame_bytes (ty, pl)"
  using assms(1-3)
proof (induction cs arbitrary: h)
  case (Cons c' cs)
  show ?case
  proof (cases "c = c'")
    case True
    then have "w_out (hb_out (fold (\<lambda>c h. fst (conn_frame c ty pl h)) cs (fst (conn_frame c ty pl h))) c) =
        w_out (hb_out (fst (conn_frame c ty pl h)) c)"
      using Cons.prems(2) by (simp add: frames_out_other)
    then show ?thesis using True Cons.prems(3) assms(4) by (simp add: frame_out WriteFrame_ok frame_bytes_def)
  next
    case False
    then show ?thesis using Cons by (simp add: frame_out)
  qed
qed simp

definition peer_leave :: "ip \<Rightarrow> ctrl_msg" where
  "peer_leave ip = (ctrl MsgPeerLeave)\<lparr>cm_peer_leave := Some (ip_string ip)\<rparr>"

text \<open>
  C23. A device that connects again replaces its old node, and the end of the old connection does not
  remove the new one: whatever is registered afterwards for the address stays registered when the
  old node is unregistered.
\<close>

theorem stale_unregister_harmless:
  assumes "reach (hub_start n) hub_step h" and "map_of (hb_table h) (net, ip) = Some old"
    and "Register io now net dev acct hello rw remote h = (h1, Inr (w, new))"
    and "nd_device (hb_heap h old) = de_id dev"
    and "net = ac_id acct"
  shows "new \<noteq> old \<and> we_ip w = ip \<and> map_of (hb_table (Unregister (Some old) h1)) (net, ip) = Some new
    \<and> map_of (nodes_of net (Unregister (Some old) h1)) ip = Some new"
proof -
  have ok: "hub_ok n h" using hub_sys.reach_inv assms(1) .
  have old: "node_ok h net ip old" by (rule hub_ok_node [OF ok assms(2)])
  have ok1: "hub_ok n h1" using hub_ok_Register [OF assms(3) [unfolded assms(5)] ok] .
  from assms(3) ok show ?thesis
  proof (cases rule: Register_succeeds)
    case (1 t l a b c d)
    have "ls_ok n (hb_leases h)" using ok by (simp add: hub_ok_def)
    moreover have "lease_addr (hb_leases h) net (de_id dev) = Some ip"
      using old assms(4) by (simp add: node_ok_def)
    ultimately have "lease_addr t net (de_id dev) = Some ip"
      using lp.keeps Allocate_request [OF 1(1)] by blast
    then have ip: "ip = dotted a b c d" using 1(6) by simp
    have new: "new \<noteq> old" using old 1(3) by (simp add: node_ok_def)
    have at: "map_of (hb_table h1) (net, ip) = Some new" by (simp add: 1(3,5) ip new_node_def)
    then have "map_of (hb_table (removeLocked old h1)) (net, ip) = Some new"
      using new by (simp add: removeLocked_lookup)
    moreover have "hub_ok n (removeLocked old h1)" by (rule hub_ok_remove [OF ok1])
    ultimately have "map_of (nodes_of net (removeLocked old h1)) ip = Some new" by (simp add: hub_ok_def)
    moreover have "hb_table (broadcastCtrl m x y g) = hb_table g" "nodes_of m' (broadcastCtrl m x y g) = nodes_of m' g" for m m' x y g
      using broadcast_view(1) [of m x y g] by (simp_all add: hub_view_def nodes_of_def)
    ultimately show ?thesis
      using \<open>map_of (hb_table (removeLocked old h1)) (net, ip) = Some new\<close> new 1(4) ip by (simp add: Unregister_def)
  qed
qed

lemma sample_hub_fields:
  "hb_new sample_hub = 2" "hb_leases sample_hub = sample_leases2"
  "map_of (hb_table sample_hub) (''n'', dotted 10 0 0 1) = Some 0"
  "map_of (hb_table sample_hub) (''n'', dotted 10 0 0 2) = Some 1"
  "hb_heap sample_hub 0 = sample_node 0" "hb_heap sample_hub 1 = sample_node 1" "hb_heap sample_hub (Suc 0) = sample_node 1" "hb_out sample_hub = (\<lambda>_. new_writer)"
  by (simp_all add: sample_hub_eq)

lemma Register_again:
  assumes "Allocate True now net (ac_id acct) (de_id dev) (hb_leases h) = (t, Inr l)"
  shows "\<exists>h1 w. Register True now net dev acct hello rw remote h = (h1, Inr (w, hb_new h))"
  using assms by (simp add: Register_def Let_def)

lemma sample_hub_again:
  "\<exists>h1 w. Register True 6 ''n'' (sample_device ''d1'' False) sample_account (hello_of False) 2 ''r2'' sample_hub = (h1, Inr (w, 2))"
proof -
  have "Allocate True 6 ''n'' (ac_id sample_account) (de_id (sample_device ''d1'' False)) (hb_leases sample_hub) =
      (sample_leases2, Inr (sample_lease ''d1'' 1 1))"
    by (simp add: sample_hub_fields(2) sample_leases2_eq(2) alloc_simps sample_lease_def sample_account_def sample_device_def)
  from Register_again [OF this] show ?thesis unfolding sample_hub_fields(1) .
qed

lemma stale_unregister_harmless_witness:
  "\<exists>h1 w. Register True 6 ''n'' (sample_device ''d1'' False) sample_account (hello_of False) 2 ''r2'' sample_hub = (h1, Inr (w, 2))
    \<and> 2 \<noteq> (0 :: nat) \<and> we_ip w = dotted 10 0 0 1
    \<and> map_of (hb_table (Unregister (Some 0) h1)) (''n'', dotted 10 0 0 1) = Some 2
    \<and> map_of (nodes_of ''n'' (Unregister (Some 0) h1)) (dotted 10 0 0 1) = Some 2"
proof -
  obtain h1 w where r: "Register True 6 ''n'' (sample_device ''d1'' False) sample_account (hello_of False) 2 ''r2'' sample_hub = (h1, Inr (w, 2))"
    using sample_hub_again by blast
  have d: "nd_device (hb_heap sample_hub 0) = de_id (sample_device ''d1'' False)" "''n'' = ac_id sample_account"
    by (simp_all add: sample_hub_fields(5) sample_device_def sample_account_def)
  from stale_unregister_harmless [OF sample_hub_reach(2) sample_hub_fields(3) r d] r show ?thesis by blast
qed

subsection \<open>Quota notices\<close>

text \<open>A node that has had its notice keeps the mark.\<close>

lemma Relay_notified: "notified h \<subseteq> notified (fst (Relay now p src h))"
proof -
  obtain h' r where go: "Relay now p src h = (h', r)" by fastforce
  from go have "notified h \<subseteq> notified h'"
  proof (cases rule: Relay_cases)
    case (blocked dst acc dev egr eg reason)
    then show ?thesis by (auto simp: notified_def)
  next
    case (passed dst acc dev egr eg h1 h2 ok1 ok2)
    then have "notified h1 = notified h" "notified h2 = notified h"
      using conn_write_out(3) [OF passed(6)] conn_write_out(3) [OF passed(7)] by (simp_all add: notified_def)
    then show ?thesis using passed(8) by (auto split: if_splits)
  qed simp_all
  then show ?thesis by (simp add: go)
qed

lemma hub_step_notified: "hub_step h h' \<Longrightarrow> i \<in> notified h \<Longrightarrow> i < hb_new h \<Longrightarrow> i \<in> notified h' \<and> i < hb_new h'"
proof (induction rule: hub_step.induct)
  case (hs_register io now acct dev hello rw remote h h' r)
  then show ?case
  proof (cases r)
    case (Inl e)
    then show ?thesis using Register_fails [OF hs_register(1) [unfolded Inl]] hs_register(2,3) by (auto simp: notified_def)
  next
    case (Inr wi)
    obtain t l where "Allocate io now (ac_id acct) (ac_id acct) (de_id dev) (hb_leases h) = (t, Inr l)"
      using hs_register(1) Inr by (auto simp: Register_def Let_def split: prod.splits sum.splits)
    then have "hb_new h' = Suc (hb_new h) \<and> (\<exists>nd. hb_heap h' = (hb_heap h)(hb_new h := nd))"
      using hs_register(1) by (auto simp: Register_def Let_def)
    then show ?thesis using hs_register(2,3) by (auto simp: notified_def)
  qed
next
  case (hs_relay src h now p)
  then show ?case using Relay_notified [of h now p src] Relay_view(1) [of now p src h] by (auto simp: hub_view_def)
next
  case (hs_unregister h node)
  have "hb_heap (Unregister node h) = hb_heap h \<and> hb_new (Unregister node h) = hb_new h"
    using broadcast_view(1) by (auto simp: Unregister_def hub_view_def split: option.split)
  then show ?case using hs_unregister by (simp add: notified_def)
next
  case (hs_kick h dev)
  then show ?case using KickDevice_view(1) [of dev h] by (simp add: notified_def hub_view_def)
next
  case (hs_egress h dev enabled acl)
  then show ?case using UpdateEgress_view(1,3) [of dev enabled acl h] by (simp add: hub_view_def)
next
  case (hs_joined h net i)
  then show ?case using Notify_view(1) [of net i h] by (simp add: notified_def hub_view_def)
next
  case (hs_notify h now acc)
  then show ?case using Notify_view(4) [of now acc h] by (simp add: notified_def hub_view_def)
next
  case (hs_frame h c ty pl)
  then show ?case using conn_view(3) [of c ty pl h] by (simp add: notified_def hub_view_def)
qed (auto simp: notified_def set_node_def conn_close_def)

lemma reach_notified:
  "reach ((=) h) hub_step h' \<Longrightarrow> i \<in> notified h \<Longrightarrow> i < hb_new h \<Longrightarrow> i \<in> notified h' \<and> i < hb_new h'"
  by (induction rule: reach.induct) (use hub_step_notified in \<open>blast+\<close>)

text \<open>
  A connection gets at most one quota notice because of its own traffic: after a packet of a node
  was blocked, later blocked packets of the same node write nothing to any connection, whatever
  happened in between.
\<close>

theorem quota_notice_once:
  assumes "Relay now p src h = (h1, Some (ErrQuotaBlocked reason))" and "src < hb_new h"
    and "reach ((=) h1) hub_step h2" and "Relay now' p' src h2 = (h3, Some (ErrQuotaBlocked reason'))"
  shows "hb_out h3 = hb_out h2"
proof -
  from assms(1) have "src \<in> notified h1"
    by (cases rule: Relay_cases) (auto simp: notified_def split: if_splits)
  moreover have "src < hb_new h1" using assms(1,2) Relay_view(1) [of now p src h] by (simp add: hub_view_def)
  ultimately have "src \<in> notified h2" using reach_notified [OF assms(3)] by blast
  from assms(4) show ?thesis
    by (cases rule: Relay_cases) (use \<open>src \<in> notified h2\<close> in \<open>auto simp: notified_def split: if_splits\<close>)
qed

lemma notice_fields [simp]:
  "hb_table (sendQuotaNotice now i h) = hb_table h" "hb_quota (sendQuotaNotice now i h) = hb_quota h"
  "hb_store (sendQuotaNotice now i h) = hb_store h" "hb_table (set_node i nd h) = hb_table h"
  "hb_quota (set_node i nd h) = hb_quota h" "hb_store (set_node i nd h) = hb_store h"
  by (simp_all add: sendQuotaNotice_def conn_frame_def set_node_def Let_def case_prod_unfold)

definition big_bytes :: bytes where
  "big_bytes = sample_bytes 0 @ replicate 100 0"

text \<open>A packet of 140 bytes under a limit of 100, on any state of the sample hub in which nothing was counted.\<close>

lemma big_blocked:
  assumes "hb_table h = hb_table sample_hub" and "hb_store h = empty_store" and "hb_quota h = hb_quota sample_hub0"
    and "hb_heap h = (hb_heap sample_hub)(0 := (sample_node 0)\<lparr>nd_notified := b\<rparr>)"
  shows "\<exists>h' reason. Relay 5 big_bytes 0 h = (h', Some (ErrQuotaBlocked reason))
    \<and> hb_table h' = hb_table sample_hub \<and> hb_store h' = empty_store \<and> hb_quota h' = hb_quota sample_hub0
    \<and> hb_heap h' = (hb_heap sample_hub)(0 := (sample_node 0)\<lparr>nd_notified := True\<rparr>)"
proof -
  have big: "length big_bytes = 140" "packet_dst big_bytes = IPv4 10 0 0 2" "big_bytes ! 9 = 0"
    by (simp_all add: big_bytes_def sample_bytes_def packet_dst_def nth_append)
  have day: "day_of 5 = 0" by (simp add: day_of_def unix_sec_def go_div_def second_def)
  have roll: "rolloverLocked 5 (hb_quota sample_hub0) = hb_quota sample_hub0"
    by (rule rollover_same) (simp add: day)
  have to: "map_of (hb_table h) (nd_network (hb_heap h 0), ip_string (packet_dst big_bytes)) = Some 1"
    by (simp add: assms big sample_hub_fields)
  have ok: "\<not> denied (hb_heap h 0) (hb_heap h 1)"
    by (simp add: denied_def assms sample_hub_fields)
  have who: "attribution big_bytes (hb_heap h 0) (hb_heap h 1) = (''n'', ''d1'', [], False)"
    using sample_hub_fields(6) by (simp add: attribution_def proxied_def ipProtoIPIP_def assms big)
  obtain reason where adm: "snd (admit empty_store 5 ''n'' ''d1'' False 140 (hb_quota sample_hub0)) = Some reason"
    by (simp add: admit_def Let_def used_today_def day add64_def int64_def)
  show ?thesis
    using Relay_go [OF _ to ok who, of 5] big(1) adm assms by (cases b) (auto simp: roll Let_def)
qed

lemma quota_notice_once_witness:
  "\<exists>h1 h3 reason reason'. Relay 5 big_bytes 0 sample_hub = (h1, Some (ErrQuotaBlocked reason))
    \<and> Relay 5 big_bytes 0 h1 = (h3, Some (ErrQuotaBlocked reason')) \<and> hb_out h3 = hb_out h1"
proof -
  have "hb_heap sample_hub = (hb_heap sample_hub)(0 := (sample_node 0)\<lparr>nd_notified := False\<rparr>)"
    using sample_node_simps(7) [of 0] by (simp add: fun_upd_idem sample_hub_fields(5) del: sample_node_simps)
  then obtain h1 reason where one: "Relay 5 big_bytes 0 sample_hub = (h1, Some (ErrQuotaBlocked reason))"
    and h1: "hb_table h1 = hb_table sample_hub" "hb_store h1 = empty_store" "hb_quota h1 = hb_quota sample_hub0"
      "hb_heap h1 = (hb_heap sample_hub)(0 := (sample_node 0)\<lparr>nd_notified := True\<rparr>)"
    using big_blocked [of sample_hub False] by (auto simp: sample_hub_eq)
  obtain h3 reason' where two: "Relay 5 big_bytes 0 h1 = (h3, Some (ErrQuotaBlocked reason'))"
    using big_blocked [OF h1] by blast
  have "hb_out h3 = hb_out h1"
    by (rule quota_notice_once [OF one _ reach_init two]) (simp_all add: sample_hub_fields)
  with one two show ?thesis by blast
qed

subsection \<open>The limits' resolution\<close>

definition specs_agree :: "hub \<Rightarrow> bool" where
  "specs_agree h \<longleftrightarrow> hb_tiers h = qt_tiers (hb_quota h) \<and> hb_acct h = qt_acct (hb_quota h) \<and> hb_default h = qt_defaults (hb_quota h)"

lemma specs_agree_cong: "spec_view h = spec_view h' \<Longrightarrow> specs_agree h = specs_agree h'"
  by (simp add: specs_agree_def spec_view_def)

lemma Register_spec_view: "spec_view (fst (Register io now net dev acct hello rw remote h)) = spec_view h"
  by (simp add: Register_def Let_def case_prod_unfold split: sum.split)

lemma hub_step_spec:
  assumes "hub_step h h'"
  shows "spec_view h' = spec_view h"
  using assms
proof (cases rule: hub_step.cases)
  case (hs_register io now acct dev hello rw remote r)
  then show ?thesis using Register_spec_view by (metis fst_conv)
next
  case (hs_unregister node)
  then show ?thesis by (simp add: Unregister_def split: option.split)
qed simp_all

interpretation spec_sys: transition_system "\<lambda>h. hub_start n h" hub_step specs_agree for n
proof unfold_locales
  fix h
  assume "hub_start n h"
  then show "specs_agree h"
    by (auto simp: hub_start_def SetTierQuota_def NewHub_def enableTiers_def specs_agree_def newQuotaTrk_def)
next
  fix h h'
  assume "hub_step h h'" and ok: "specs_agree h"
  from hub_step_spec [OF this(1)] ok show "specs_agree h'" using specs_agree_cong by blast
qed

text \<open>
  The three places that resolve an account's limits agree: in every reachable state the hub (which
  announces them), the tracker (which enforces them) and, for a hub started from a configuration with its tiers
  enabled, \<^verbatim>\<open>QuotaFor\<close> of the account's tier give the same limits.
\<close>

theorem quota_resolvers_agree:
  assumes "reach (hub_start n) hub_step h"
  shows "quotaSpecFor a h = specFor (hb_store h) a (hb_quota h)
    \<and> (hb_acct h \<and> hb_tiers h = cf_tiers cfg \<and> hb_default h = cf_default_quota cfg \<and> get_account a (hb_store h) = Inr acct \<longrightarrow>
        quotaSpecFor a h = QuotaFor cfg (ac_tier acct))"
proof
  have "specs_agree h" using spec_sys.reach_inv assms .
  then have "hb_tiers h = qt_tiers (hb_quota h)" "hb_acct h = qt_acct (hb_quota h)" "hb_default h = qt_defaults (hb_quota h)"
    by (simp_all add: specs_agree_def)
  then show "quotaSpecFor a h = specFor (hb_store h) a (hb_quota h)"
    unfolding quotaSpecFor_def specFor_def by (simp only:)
  show "hb_acct h \<and> hb_tiers h = cf_tiers cfg \<and> hb_default h = cf_default_quota cfg \<and> get_account a (hb_store h) = Inr acct \<longrightarrow>
      quotaSpecFor a h = QuotaFor cfg (ac_tier acct)"
    by (auto simp: quotaSpecFor_def QuotaFor_def get_account_def split: option.splits)
qed

definition sample_cfg :: config where
  "sample_cfg = \<lparr>cf_listen = '':4430'', cf_cert = ''c'', cf_key = ''k'', cf_networks = [], cf_resolver = [], cf_admin_addr = [],
     cf_admin_token = [], cf_public_addr = [], cf_public_ca = [], cf_data_dir = ''d'', cf_log_file = [], cf_log_max = 0, cf_log_keep = 0,
     cf_default_quota = \<lparr>qs_bytes = 100, qs_egress = 0\<rparr>, cf_default_tier = [],
     cf_tiers = Some [(''free'', \<lparr>qs_bytes = 7, qs_egress = 5\<rparr>)]\<rparr>"

definition tiered_hub :: hub where
  "tiered_hub = SetTierQuota (cf_tiers sample_cfg) True
     (NewHub 0 ''10.0.0.0/30'' (cf_default_quota sample_cfg) sample_leases2 empty_usage (tier_store ''free''))"

lemma quota_resolvers_agree_witness:
  "quotaSpecFor ''a'' tiered_hub = specFor (hb_store tiered_hub) ''a'' (hb_quota tiered_hub)
    \<and> quotaSpecFor ''a'' tiered_hub = QuotaFor sample_cfg ''free''"
proof -
  have "ls_ok 30 sample_leases2"
    using lease_sys.reach_inv [OF sample_reach(2)] by (simp add: ls_inv_def)
  then have "hub_start 30 tiered_hub" unfolding tiered_hub_def by (rule hub_startI)
  note reach_init [where step = hub_step and init = "hub_start 30", OF this]
  note agree = quota_resolvers_agree [OF this, of "''a''" sample_cfg "\<lparr>ac_id = ''a'', ac_name = ''n'', ac_tier = ''free'', ac_created = 0\<rparr>"]
  have c: "hb_acct tiered_hub \<and> hb_tiers tiered_hub = cf_tiers sample_cfg \<and> hb_default tiered_hub = cf_default_quota sample_cfg
      \<and> get_account ''a'' (hb_store tiered_hub) = Inr \<lparr>ac_id = ''a'', ac_name = ''n'', ac_tier = ''free'', ac_created = 0\<rparr>"
    by (simp add: tiered_hub_def SetTierQuota_def NewHub_def tier_store_def)
  show ?thesis using agree [THEN conjunct1] agree [THEN conjunct2, THEN mp, OF c] by simp
qed

end
