(* ===== verification/Server.thy ===== *)
theory Server
  imports Hub_Correct Rate Invites
begin

text \<open>
  The server: \<^verbatim>\<open>New\<close> of \<^verbatim>\<open>internal/server/config.go\<close> and \<^verbatim>\<open>internal/server/server.go\<close>. A connection is a
  number; \<open>sv_ca\<close> is the process-wide cache of the CA file (\<^verbatim>\<open>public.go\<close>, \<open>None\<close> before the first read);
  \<open>handshake\<close> is \<^verbatim>\<open>handleConn\<close> up to the data loop, \<open>data_step\<close> one round of the loop on a frame that has been
  read, \<open>dataLoop\<close> the loop over the bytes the connection delivers until it ends, breaks off or times out. The server's
  account, lease and usage stores are the hub's. Not modelled: the TLS listener and the goroutines themselves; the
  interleaving of connections is a step relation in the theory System.
\<close>

record server =
  sv_cfg :: config
  sv_hub :: hub
  sv_invites :: invite_store
  sv_lim :: limiter
  sv_closed :: bool
  sv_ca :: "string option option"

text \<open>What \<^verbatim>\<open>New\<close> meets on the disk, and whether the listener opens.\<close>

record disk =
  dk_mkdir :: bool
  dk_accounts :: "store_file file_read"
  dk_leases :: "lease list file_read"
  dk_usage :: "(string, counters) gomap file_read"
  dk_invites :: "invite list file_read"
  dk_listen :: bool

datatype new_error =
    ErrNoListen
  | ErrNoDataDir
  | ErrNoTLS
  | ErrMkdir
  | ErrNewAccounts store_error
  | ErrNewLeases lease_error
  | ErrNewUsage usage_error
  | ErrNewInvites invite_error
  | ErrListen

definition NewServer :: "time \<Rightarrow> config \<Rightarrow> disk \<Rightarrow> new_error + server" where
  "NewServer now cfg dk =
     (if cf_listen cfg = [] then Inl ErrNoListen
      else if cf_data_dir cfg = [] then Inl ErrNoDataDir
      else if cf_cert cfg = [] \<or> cf_key cfg = [] then Inl ErrNoTLS
      else if \<not> dk_mkdir dk then Inl ErrMkdir
      else case OpenStore True (dk_accounts dk) of
          Inl e \<Rightarrow> Inl (ErrNewAccounts e)
        | Inr acct \<Rightarrow>
      (case OpenLeases True (dk_leases dk) (NetworkCIDR cfg) of
          Inl e \<Rightarrow> Inl (ErrNewLeases e)
        | Inr leases \<Rightarrow>
      (case OpenUsage True (dk_usage dk) of
          Inl e \<Rightarrow> Inl (ErrNewUsage e)
        | Inr usage \<Rightarrow>
      (case OpenInvites True (dk_invites dk) of
          Inl e \<Rightarrow> Inl (ErrNewInvites e)
        | Inr invites \<Rightarrow>
            let hub = NewHub now (NetworkCIDR cfg) (cf_default_quota cfg) leases usage acct;
                cfg = (if cf_default_tier cfg = [] then cfg\<lparr>cf_default_tier := ''free''\<rparr> else cfg);
                hub = SetTierQuota (cf_tiers cfg) True hub
            in if \<not> dk_listen dk then Inl ErrListen
               else Inr \<lparr>sv_cfg = cfg, sv_hub = hub, sv_invites = invites, sv_lim = newRateLimiter, sv_closed = False, sv_ca = None\<rparr>))))"

subsection \<open>Error texts\<close>

text \<open>The text of an error of the operating system, of the random source or of bcrypt is an argument.\<close>

definition store_error_text :: "string \<Rightarrow> store_error \<Rightarrow> string" where
  "store_error_text os e =
     (case e of
        ErrNotFound \<Rightarrow> ''not found''
      | ErrBadToken \<Rightarrow> ''bad device token''
      | ErrNameEmpty \<Rightarrow> ''invalid device name: empty''
      | ErrNameTooLong \<Rightarrow> ''invalid device name: too long''
      | ErrAccountNotFound \<Rightarrow> ''account: not found''
      | ErrDeviceLimit \<Rightarrow> ''device limit reached ('' @ show_nat MaxDevicesPerAccount @ '')''
      | ErrOrphanDevice \<Rightarrow> ''orphan device: not found''
      | ErrRand \<Rightarrow> os | ErrHash \<Rightarrow> os | ErrSave \<Rightarrow> os | ErrOpen \<Rightarrow> os)"

definition lease_error_text :: "string \<Rightarrow> string \<Rightarrow> lease_error \<Rightarrow> string" where
  "lease_error_text os net e =
     (case e of ErrExhausted \<Rightarrow> ''network '' @ net @ '' exhausted'' | ErrNoLease \<Rightarrow> ''no lease'' | _ \<Rightarrow> os)"

subsection \<open>One connection\<close>

definition sendReject :: "nat \<Rightarrow> string \<Rightarrow> hub \<Rightarrow> hub" where
  "sendReject c reason h =
     fst (conn_frame c FrameCtrl (EncodeCtrl ((ctrl MsgReject)\<lparr>cm_reject := Some reason\<rparr>)) h)"

definition authenticate :: "bcrypt_cmp \<Rightarrow> string \<Rightarrow> hello \<Rightarrow> store \<Rightarrow> string + device \<times> account" where
  "authenticate cmp os h st =
     (if au_mode (he_auth h) \<noteq> AuthDevice then Inl (''unsupported auth mode: '' @ au_mode (he_auth h))
      else if he_device h = [] \<or> au_token (he_auth h) = [] then Inl ''device auth requires device_id and token''
      else case VerifyDevice cmp (he_device h) (au_token (he_auth h)) st of
          Inl e \<Rightarrow> Inl (store_error_text os e)
        | Inr da \<Rightarrow> Inr da)"

text \<open>What the environment of a call supplies: the clock, bcrypt, and whether files can be written.\<close>

record env =
  ev_now :: time
  ev_cmp :: bcrypt_cmp
  ev_io :: bool
  ev_os :: string

definition handshake :: "env \<Rightarrow> nat \<Rightarrow> string \<Rightarrow> bytes \<Rightarrow> server \<Rightarrow> server \<times> (nat \<times> bytes) option" where
  "handshake ev c remote input s =
     (let now = ev_now ev;
          (lim, ok) = Allow now (''hello:'' @ remote) 10 minute (sv_lim s);
          s = s\<lparr>sv_lim := lim\<rparr>;
          reject = (\<lambda>reason h. (s\<lparr>sv_hub := sendReject c reason h\<rparr>, None))
      in if \<not> ok then reject ''too many connections, slow down'' (sv_hub s)
         else case ReadFrame input of
             Inl _ \<Rightarrow> (s, None)
           | Inr ((typ, payload), rest) \<Rightarrow>
               if typ \<noteq> FrameCtrl then (s, None)
               else case DecodeCtrl payload of
                   None \<Rightarrow> (s, None)
                 | Some msg \<Rightarrow>
                     (case (if cm_type msg \<noteq> MsgHello then None else cm_hello msg) of
                        None \<Rightarrow> reject ''expected hello'' (sv_hub s)
                      | Some hello \<Rightarrow>
                          (case authenticate (ev_cmp ev) (ev_os ev) hello (hb_store (sv_hub s)) of
                             Inl e \<Rightarrow> reject e (sv_hub s)
                           | Inr (dev, acct) \<Rightarrow>
                               let networkID = ac_id acct;
                                   (h, r) = Register (ev_io ev) now networkID dev acct hello c remote (sv_hub s)
                               in case r of
                                    Inl e \<Rightarrow> reject (lease_error_text (ev_os ev) networkID e) h
                                  | Inr (welcome, node) \<Rightarrow>
                                      let (h, err) = conn_frame c FrameCtrl
                                            (EncodeCtrl ((ctrl MsgWelcome)\<lparr>cm_welcome := Some welcome\<rparr>)) h
                                      in if err \<noteq> None then (s\<lparr>sv_hub := h\<rparr>, None)
                                         else
                                           let h = h\<lparr>hb_store := MarkSeen now (de_id dev) (hb_store h)\<rparr>;
                                               h = set_node node ((hb_heap h node)\<lparr>nd_conn := Some c\<rparr>) h;
                                               h = NotifyPeerJoined networkID node h
                                           in (s\<lparr>sv_hub := h\<rparr>, Some (node, rest)))))"

definition data_step :: "time \<Rightarrow> nat \<Rightarrow> nat \<Rightarrow> byte \<times> bytes \<Rightarrow> hub \<Rightarrow> hub" where
  "data_step now c node f h =
     (if fst f = FrameData then fst (Relay now (snd f) node h)
      else if fst f = FramePing then fst (conn_frame c FramePong [] h)
      else h)"

text \<open>The loop reads the clock anew for every frame: \<open>clk k\<close> is the time of round \<open>k\<close>.\<close>

function (sequential) dataLoop :: "(nat \<Rightarrow> time) \<Rightarrow> nat \<Rightarrow> nat \<Rightarrow> nat \<Rightarrow> bytes \<Rightarrow> hub \<Rightarrow> hub" where
  "dataLoop clk k c node input h =
     (case ReadFrame input of
        Inl _ \<Rightarrow> Unregister (Some node) h
      | Inr (f, rest) \<Rightarrow> dataLoop clk (Suc k) c node rest (data_step (clk k) c node f h))"
  by pat_completeness auto
termination
  by (relation "measure (\<lambda>(clk, k, c, node, input, h). length input)") (auto dest: ReadFrame_consumes)

declare dataLoop.simps [simp del]

text \<open>A whole connection that runs undisturbed; the deferred close comes last.\<close>

definition handleConn :: "env \<Rightarrow> (nat \<Rightarrow> time) \<Rightarrow> nat \<Rightarrow> string \<Rightarrow> bytes \<Rightarrow> server \<Rightarrow> server" where
  "handleConn ev clk c remote input s =
     (let (s, r) = handshake ev c remote input s;
          s = (case r of None \<Rightarrow> s | Some (node, rest) \<Rightarrow> s\<lparr>sv_hub := dataLoop clk 0 c node rest (sv_hub s)\<rparr>)
      in s\<lparr>sv_hub := conn_close c (sv_hub s)\<rparr>)"

subsection \<open>Saving and stopping\<close>

definition Save :: "bool \<Rightarrow> server \<Rightarrow> server \<times> usage_error option" where
  "Save io s =
     (let (u, err) = SaveUsage io (hb_usage (sv_hub s)) in (s\<lparr>sv_hub := (sv_hub s)\<lparr>hb_usage := u\<rparr>\<rparr>, err))"

definition Close :: "server \<Rightarrow> server" where
  "Close s = s\<lparr>sv_closed := True\<rparr>"

text \<open>
  The end of \<^verbatim>\<open>Serve\<close>, when \<^verbatim>\<open>Accept\<close> fails: usage is saved once more; the result is an error unless the server
  was closed.
\<close>

definition serve_exit :: "bool \<Rightarrow> server \<Rightarrow> server \<times> bool" where
  "serve_exit io s = (fst (Save io s), \<not> sv_closed s)"

text \<open>The ticker of \<^verbatim>\<open>saveLoop\<close>: one save per tick, errors are only logged.\<close>

fun saveLoop :: "bool list \<Rightarrow> server \<Rightarrow> server" where
  "saveLoop [] s = s"
| "saveLoop (io # ios) s = saveLoop ios (fst (Save io s))"

subsection \<open>What a connection does to the hub\<close>

text \<open>Every part of a connection's life is a sequence of steps of the hub.\<close>

abbreviation hub_steps :: "hub \<Rightarrow> hub \<Rightarrow> bool" where
  "hub_steps h \<equiv> reach ((=) h) hub_step"

lemma hub_steps_refl [simp, intro]: "hub_steps h h"
  by (rule reach_init) simp

lemma hub_steps_step: "hub_step h h' \<Longrightarrow> hub_steps h h'"
  by (rule reach_step [OF hub_steps_refl])

lemma reach_trans: "reach i step s \<Longrightarrow> reach ((=) s) step t \<Longrightarrow> reach i step t"
proof -
  assume "reach ((=) s) step t" and "reach i step s"
  then show ?thesis by (induction rule: reach.induct) (auto intro: reach_step)
qed

lemma hub_steps_trans [trans]: "hub_steps h h' \<Longrightarrow> hub_steps h' h'' \<Longrightarrow> hub_steps h h''"
  by (rule reach_trans)

lemma sendReject_steps: "hub_steps h (sendReject c reason h)"
  unfolding sendReject_def by (rule hub_steps_step, rule hs_frame)

lemma data_step_steps: "node < hb_new h \<Longrightarrow> hub_steps h (data_step now c node f h)"
  unfolding data_step_def by (auto intro: hub_steps_step hub_step.intros)

lemma data_step_new: "hb_new (data_step now c node f h) = hb_new h"
  using Relay_view(1) [of now "snd f" node h] conn_view(3) [of c FramePong "[]" h]
  by (auto simp: data_step_def hub_view_def)

lemma dataLoop_steps: "node < hb_new h \<Longrightarrow> hub_steps h (dataLoop clk k c node input h)"
proof (induction clk k c node input h rule: dataLoop.induct)
  case (1 clk k c node input h)
  show ?case
  proof (cases "ReadFrame input")
    case (Inl e)
    then show ?thesis by (simp add: dataLoop.simps hs_unregister hub_steps_step)
  next
    case (Inr fr)
    obtain f rest where fr: "fr = (f, rest)" by fastforce
    have "hub_steps (data_step (clk k) c node f h) (dataLoop clk (Suc k) c node rest (data_step (clk k) c node f h))"
      using 1(1) [OF Inr fr [symmetric]] 1(2) by (simp add: data_step_new)
    then have "hub_steps h (dataLoop clk (Suc k) c node rest (data_step (clk k) c node f h))"
      using data_step_steps [OF 1(2)] by (rule hub_steps_trans [rotated])
    then show ?thesis by (simp add: Inr fr dataLoop.simps [of clk k])
  qed
qed

text \<open>The outcomes of a handshake.\<close>

lemma handshake_cases:
  assumes "handshake ev c remote input s = (s', r)"
  obtains (stopped) reason where "r = None" "sv_hub s' = sv_hub s \<or> sv_hub s' = sendReject c reason (sv_hub s)"
  | (authenticated) payload rest msg hello dev acct where
      "ReadFrame input = Inr ((FrameCtrl, payload), rest)" "DecodeCtrl payload = Some msg"
      "cm_type msg = MsgHello" "cm_hello msg = Some hello"
      "authenticate (ev_cmp ev) (ev_os ev) hello (hb_store (sv_hub s)) = Inr (dev, acct)"
      "case Register (ev_io ev) (ev_now ev) (ac_id acct) dev acct hello c remote (sv_hub s) of
         (h, Inl e) \<Rightarrow> r = None \<and> sv_hub s' = sendReject c (lease_error_text (ev_os ev) (ac_id acct) e) h
       | (h, Inr (welcome, node)) \<Rightarrow>
           (case conn_frame c FrameCtrl (EncodeCtrl ((ctrl MsgWelcome)\<lparr>cm_welcome := Some welcome\<rparr>)) h of
              (h2, Some e) \<Rightarrow> r = None \<and> sv_hub s' = h2
            | (h2, None) \<Rightarrow> r = Some (node, rest) \<and>
                (let h3 = h2\<lparr>hb_store := MarkSeen (ev_now ev) (de_id dev) (hb_store h2)\<rparr>
                 in sv_hub s' = NotifyPeerJoined (ac_id acct) node
                      (set_node node ((hb_heap h3 node)\<lparr>nd_conn := Some c\<rparr>) h3)))"
proof -
  obtain lim ok where lim: "Allow (ev_now ev) (''hello:'' @ remote) 10 minute (sv_lim s) = (lim, ok)" by fastforce
  note go = assms [unfolded handshake_def Let_def lim prod.case]
  show ?thesis
  proof (cases ok)
    case False
    with go have "r = None" "sv_hub s' = sendReject c ''too many connections, slow down'' (sv_hub s)" by auto
    then show ?thesis using stopped by blast
  next
    case True
    show ?thesis
    proof (cases "ReadFrame input")
      case (Inl e)
      with go True have "r = None" "sv_hub s' = sv_hub s" by auto
      then show ?thesis using stopped by blast
    next
      case (Inr fr)
      obtain ty payload rest where fr: "fr = ((ty, payload), rest)" by (metis prod_cases3 prod.collapse)
      show ?thesis
      proof (cases "ty = FrameCtrl")
        case False
        with go True Inr fr have "r = None" "sv_hub s' = sv_hub s" by auto
        then show ?thesis using stopped by blast
      next
        case tyc: True
        show ?thesis
        proof (cases "DecodeCtrl payload")
          case None
          with go True Inr fr tyc have "r = None" "sv_hub s' = sv_hub s" by auto
          then show ?thesis using stopped by blast
        next
          case (Some msg)
          show ?thesis
          proof (cases "if cm_type msg \<noteq> MsgHello then None else cm_hello msg")
            case None
            with go True Inr fr tyc Some have "r = None" "sv_hub s' = sendReject c ''expected hello'' (sv_hub s)" by auto
            then show ?thesis using stopped by blast
          next
            case hello: (Some hello)
            then have h: "cm_type msg = MsgHello" "cm_hello msg = Some hello" by (auto split: if_splits)
            show ?thesis
            proof (cases "authenticate (ev_cmp ev) (ev_os ev) hello (hb_store (sv_hub s))")
              case (Inl e)
              with go True Inr fr tyc Some hello have "r = None" "sv_hub s' = sendReject c e (sv_hub s)" by auto
              then show ?thesis using stopped by blast
            next
              case auth: (Inr da)
              obtain dev acct where da: "da = (dev, acct)" by fastforce
              show ?thesis
                by (rule authenticated [OF _ Some h auth [unfolded da]])
                  (use go True Inr fr tyc Some hello auth da in \<open>auto simp: Let_def split: prod.splits sum.splits option.splits if_splits\<close>)
            qed
          qed
        qed
      qed
    qed
  qed
qed

lemma table_view: "hub_view h = hub_view h' \<Longrightarrow> hb_table h = hb_table h' \<and> hb_leases h = hb_leases h' \<and> hb_new h = hb_new h'"
  by (simp add: hub_view_def)

lemma conn_frame_fst: "conn_frame c ty pl h = (h', e) \<Longrightarrow> h' = fst (conn_frame c ty pl h)"
  by simp

lemma handshake_steps:
  assumes "handshake ev c remote input s = (s', r)"
  shows "hub_steps (sv_hub s) (sv_hub s')"
  using assms
proof (cases rule: handshake_cases)
  case (stopped reason)
  then show ?thesis using sendReject_steps by auto
next
  case (authenticated payload rest msg hello dev acct)
  obtain h x where reg: "Register (ev_io ev) (ev_now ev) (ac_id acct) dev acct hello c remote (sv_hub s) = (h, x)" by fastforce
  have h: "hub_steps (sv_hub s) h" using hub_steps_step [OF hs_register [OF reg]] .
  show ?thesis
  proof (cases x)
    case (Inl e)
    then have "sv_hub s' = sendReject c (lease_error_text (ev_os ev) (ac_id acct) e) h" using authenticated(6) reg by simp
    then show ?thesis using hub_steps_trans [OF h sendReject_steps] by simp
  next
    case (Inr wn)
    obtain w node where wn: "wn = (w, node)" by fastforce
    let ?pl = "EncodeCtrl ((ctrl MsgWelcome)\<lparr>cm_welcome := Some w\<rparr>)"
    obtain h2 e where fr: "conn_frame c FrameCtrl ?pl h = (h2, e)" by fastforce
    have h2: "hub_steps (sv_hub s) h2"
      unfolding conn_frame_fst [OF fr] by (rule hub_steps_trans [OF h hub_steps_step [OF hs_frame]])
    show ?thesis
    proof (cases e)
      case (Some err)
      then show ?thesis using authenticated(6) reg Inr wn fr h2 by simp
    next
      case None
      let ?h3 = "h2\<lparr>hb_store := MarkSeen (ev_now ev) (de_id dev) (hb_store h2)\<rparr>"
      have "sv_hub s' = NotifyPeerJoined (ac_id acct) node (set_node node ((hb_heap ?h3 node)\<lparr>nd_conn := Some c\<rparr>) ?h3)"
        using authenticated(6) reg Inr wn fr None by (simp add: Let_def)
      moreover have "hub_steps (sv_hub s) \<dots>"
        by (rule hub_steps_trans [OF h2], rule hub_steps_trans [OF hub_steps_step [OF hs_store]],
            rule hub_steps_trans [OF hub_steps_step [OF hs_attach] hub_steps_step [OF hs_joined]])
      ultimately show ?thesis by simp
    qed
  qed
qed

lemma handshake_success:
  assumes "handshake ev c remote input s = (s', Some (i, rest))"
  obtains payload msg hello dev acct h1 w where
    "ReadFrame input = Inr ((FrameCtrl, payload), rest)" "DecodeCtrl payload = Some msg"
    "cm_type msg = MsgHello" "cm_hello msg = Some hello"
    "authenticate (ev_cmp ev) (ev_os ev) hello (hb_store (sv_hub s)) = Inr (dev, acct)"
    "Register (ev_io ev) (ev_now ev) (ac_id acct) dev acct hello c remote (sv_hub s) = (h1, Inr (w, i))"
    "hub_view (sv_hub s') = hub_view h1"
    "hb_heap (sv_hub s') = (hb_heap h1)(i := (hb_heap h1 i)\<lparr>nd_conn := Some c\<rparr>)"
    "snd (conn_frame c FrameCtrl (EncodeCtrl ((ctrl MsgWelcome)\<lparr>cm_welcome := Some w\<rparr>)) h1) = None"
  using assms
proof (cases rule: handshake_cases)
  case (authenticated payload rest' msg hello dev acct)
  obtain h x where reg: "Register (ev_io ev) (ev_now ev) (ac_id acct) dev acct hello c remote (sv_hub s) = (h, x)" by fastforce
  obtain w node where x: "x = Inr (w, node)" using authenticated(6) reg by (cases x) auto
  let ?pl = "EncodeCtrl ((ctrl MsgWelcome)\<lparr>cm_welcome := Some w\<rparr>)"
  obtain h2 e where fr: "conn_frame c FrameCtrl ?pl h = (h2, e)" by fastforce
  have e: "e = None" using authenticated(6) reg x fr by (cases e) auto
  let ?h3 = "h2\<lparr>hb_store := MarkSeen (ev_now ev) (de_id dev) (hb_store h2)\<rparr>"
  have r: "i = node" "rest = rest'" and s': "sv_hub s' = NotifyPeerJoined (ac_id acct) node (set_node node ((hb_heap ?h3 node)\<lparr>nd_conn := Some c\<rparr>) ?h3)"
    using authenticated(6) reg x fr e by (auto simp: Let_def)
  have h2: "hub_view h2 = hub_view h" "hb_heap h2 = hb_heap h"
    unfolding conn_frame_fst [OF fr] by simp_all
  have "hub_view (sv_hub s') = hub_view h" by (simp add: s' h2)
  moreover have "hb_heap (sv_hub s') = (hb_heap h)(i := (hb_heap h i)\<lparr>nd_conn := Some c\<rparr>)" by (simp add: s' h2 r)
  ultimately show ?thesis
    using authenticated reg x fr e r by (intro that) auto
qed simp_all

lemma authenticate_ok:
  "authenticate cmp os hello st = Inr (d, a) \<Longrightarrow>
     au_mode (he_auth hello) = AuthDevice \<and> VerifyDevice cmp (he_device hello) (au_token (he_auth hello)) st = Inr (d, a)"
  by (auto simp: authenticate_def split: if_splits sum.splits)

text \<open>
  C5. Nobody joins without authenticating. A connection reaches the data loop only if its first frame is a
  hello whose token the account store accepts for the named device; it is then registered in the network
  of that device's account, under the account's and the device's name, at the address the device
  leases, and as an exit only if the device has been approved as one.
\<close>

theorem handshake_authenticates:
  assumes "reach (hub_start n) hub_step (sv_hub s)" and "handshake ev c remote input s = (s', Some (i, rest))"
  shows "\<exists>payload msg hello dev acct ip. ReadFrame input = Inr ((FrameCtrl, payload), rest)
    \<and> DecodeCtrl payload = Some msg \<and> cm_hello msg = Some hello
    \<and> VerifyDevice (ev_cmp ev) (he_device hello) (au_token (he_auth hello)) (hb_store (sv_hub s)) = Inr (dev, acct)
    \<and> nd_device (hb_heap (sv_hub s') i) = de_id dev \<and> nd_account (hb_heap (sv_hub s') i) = ac_id acct
    \<and> nd_rw (hb_heap (sv_hub s') i) = c \<and> (nd_egress (hb_heap (sv_hub s') i) \<longrightarrow> de_egress dev)
    \<and> map_of (hb_table (sv_hub s')) (ac_id acct, ip) = Some i
    \<and> lease_addr (hb_leases (sv_hub s')) (ac_id acct) (de_id dev) = Some ip"
proof -
  have ok: "hub_ok n (sv_hub s)" using hub_sys.reach_inv assms(1) .
  from assms(2) obtain payload msg hello dev acct h1 w where *:
    "ReadFrame input = Inr ((FrameCtrl, payload), rest)" "DecodeCtrl payload = Some msg" "cm_hello msg = Some hello"
    "authenticate (ev_cmp ev) (ev_os ev) hello (hb_store (sv_hub s)) = Inr (dev, acct)"
    and reg: "Register (ev_io ev) (ev_now ev) (ac_id acct) dev acct hello c remote (sv_hub s) = (h1, Inr (w, i))"
    and view: "hub_view (sv_hub s') = hub_view h1"
    and heap: "hb_heap (sv_hub s') = (hb_heap h1)(i := (hb_heap h1 i)\<lparr>nd_conn := Some c\<rparr>)"
    by (rule handshake_success)
  from reg ok obtain t a b d e where h1: "h1 = insert_node (new_node (ev_now ev) (ac_id acct) dev acct hello c remote (IPv4 a b d e))
           (evict (ac_id acct) (dotted a b d e) (de_id dev) ((sv_hub s)\<lparr>hb_leases := t\<rparr>))" and i: "i = hb_new (sv_hub s)"
    and addr: "lease_addr t (ac_id acct) (de_id dev) = Some (dotted a b d e)"
    by (rule Register_succeeds) blast
  have "map_of (hb_table h1) (ac_id acct, dotted a b d e) = Some i" "lease_addr (hb_leases h1) (ac_id acct) (de_id dev) = Some (dotted a b d e)"
    "nd_device (hb_heap h1 i) = de_id dev" "nd_account (hb_heap h1 i) = ac_id acct" "nd_rw (hb_heap h1 i) = c"
    "nd_egress (hb_heap h1 i) \<longrightarrow> de_egress dev"
    using addr by (simp_all add: h1 i new_node_def)
  then show ?thesis
    using * authenticate_ok [OF *(4)] table_view [OF view] heap by (intro exI [of _ payload] exI [of _ msg] exI [of _ hello] exI [of _ dev]
        exI [of _ acct] exI [of _ "dotted a b d e"]) simp
qed

text \<open>
  A connection that does not authenticate changes nothing but its own stream: whatever it sends,
  if its first frame is not a hello with a token the store accepts, the handshake ends without
  a node, the tables, leases, nodes and counters are as before, and only its own connection may
  have been written to.
\<close>

theorem handshake_refuses:
  assumes "handshake ev c remote input s = (s', r)"
    and "\<forall>payload rest msg hello. ReadFrame input = Inr ((FrameCtrl, payload), rest) \<and> DecodeCtrl payload = Some msg
      \<and> cm_hello msg = Some hello \<longrightarrow>
      (\<forall>da. VerifyDevice (ev_cmp ev) (he_device hello) (au_token (he_auth hello)) (hb_store (sv_hub s)) \<noteq> Inr da)"
  shows "r = None \<and> (\<exists>out. sv_hub s' = (sv_hub s)\<lparr>hb_out := (hb_out (sv_hub s))(c := out)\<rparr>)"
  using assms(1)
proof (cases rule: handshake_cases)
  case (stopped reason)
  have "\<exists>out. (sv_hub s) = (sv_hub s)\<lparr>hb_out := (hb_out (sv_hub s))(c := out)\<rparr>"
    by (rule exI [of _ "hb_out (sv_hub s) c"]) simp
  moreover have "\<exists>out. sendReject c reason (sv_hub s) = (sv_hub s)\<lparr>hb_out := (hb_out (sv_hub s))(c := out)\<rparr>"
    by (auto simp: sendReject_def conn_frame_def Let_def case_prod_unfold)
  ultimately show ?thesis using stopped by auto
next
  case (authenticated payload rest msg hello dev acct)
  then show ?thesis using assms(2) authenticate_ok by blast
qed


text \<open>A handshake that gets as far as the welcome.\<close>

lemma handshake_welcomes:
  assumes "Allow (ev_now ev) (''hello:'' @ remote) 10 minute (sv_lim s) = (lim, True)"
    and "ReadFrame input = Inr ((FrameCtrl, pl), rest)" and "DecodeCtrl pl = Some msg"
    and "cm_type msg = MsgHello" and "cm_hello msg = Some hello"
    and "authenticate (ev_cmp ev) (ev_os ev) hello (hb_store (sv_hub s)) = Inr (dev, acct)"
    and "Register (ev_io ev) (ev_now ev) (ac_id acct) dev acct hello c remote (sv_hub s) = (h1, Inr (w, i))"
    and "conn_frame c FrameCtrl (EncodeCtrl ((ctrl MsgWelcome)\<lparr>cm_welcome := Some w\<rparr>)) h1 = (h2, err)"
  shows "snd (handshake ev c remote input s) = (if err = None then Some (i, rest) else None)"
    and "err \<noteq> None \<Longrightarrow> sv_hub (fst (handshake ev c remote input s)) = h2"
  using assms by (simp_all add: handshake_def Let_def)

subsection \<open>A server with one registered device\<close>

definition server_store :: store where
  "server_store = \<lparr>sto_accounts = [(''n'', sample_account)],
     sto_devices = [(''d1'', (sample_device ''d1'' False)\<lparr>de_token_hash := ''$2a$04$secret''\<rparr>)], sto_file = Absent\<rparr>"

definition sample_server :: server where
  "sample_server = \<lparr>sv_cfg = sample_cfg,
     sv_hub = SetTierQuota None False (NewHub 0 ''10.0.0.0/30'' \<lparr>qs_bytes = 100, qs_egress = 0\<rparr> sample_leases2 empty_usage server_store),
     sv_invites = \<lparr>is_codes = [], is_file = Absent\<rparr>, sv_lim = newRateLimiter, sv_closed = False, sv_ca = None\<rparr>"

definition sample_env :: env where
  "sample_env = \<lparr>ev_now = 1, ev_cmp = toy_cmp, ev_io = True, ev_os = ''error''\<rparr>"

definition hello_msg :: "string \<Rightarrow> ctrl_msg" where
  "hello_msg token = (ctrl MsgHello)\<lparr>cm_hello := Some (zero_hello\<lparr>he_device := ''d1'',
     he_auth := \<lparr>au_mode = AuthDevice, au_password = [], au_token = token\<rparr>\<rparr>)\<rparr>"

definition hello_bytes :: "string \<Rightarrow> bytes" where
  "hello_bytes token = frame_bytes (FrameCtrl, EncodeCtrl (hello_msg token))"

lemma sample_server_start: "reach (hub_start 30) hub_step (sv_hub sample_server)"
proof (rule reach_init)
  have "ls_ok 30 sample_leases2"
    using lease_sys.reach_inv [OF sample_reach(2)] by (simp add: ls_inv_def)
  then show "hub_start 30 (sv_hub sample_server)"
    unfolding sample_server_def server.simps by (rule hub_startI)
qed

lemma hello_decodes:
  assumes "token \<in> {''secret'', ''guess''}"
  shows "ReadFrame (hello_bytes token @ rest) = Inr ((FrameCtrl, EncodeCtrl (hello_msg token)), rest)"
    and "DecodeCtrl (EncodeCtrl (hello_msg token)) = Some (hello_msg token)"
proof -
  have "length (EncodeCtrl (hello_msg ''secret'')) < 200" "length (EncodeCtrl (hello_msg ''guess'')) < 200"
    by code_simp+
  then have "length (EncodeCtrl (hello_msg token)) < 65536" using assms by auto
  then show "ReadFrame (hello_bytes token @ rest) = Inr ((FrameCtrl, EncodeCtrl (hello_msg token)), rest)"
    unfolding hello_bytes_def by (intro fc.dec_enc) simp
  show "DecodeCtrl (EncodeCtrl (hello_msg token)) = Some (hello_msg token)"
    by (rule decode_encode) (use assms in \<open>auto simp: ok_ctrl_def ok_hello_def hello_msg_def ctrl_def zero_defs text_ok_def MsgHello_def AuthDevice_def\<close>)
qed

definition sample_welcome :: welcome_msg where
  "sample_welcome = \<lparr>we_ip = dotted 10 0 0 1, we_cidr = ''10.0.0.0/30'', we_network = ''n'', we_mtu = 1280, we_peers = [],
     we_session = Some \<lparr>se_account = ''n'', se_device = ''d1'', se_tier = ''free'',
       se_quota = Some \<lparr>qu_period = ''day'', qu_used = 0, qu_limit = 100, qu_egress_used = 0, qu_egress_limit = 0\<rparr>\<rparr>\<rparr>"

lemma sample_server_fields [simp]:
  "hb_store (sv_hub sample_server) = server_store" "hb_leases (sv_hub sample_server) = sample_leases2"
  "hb_new (sv_hub sample_server) = 0" "hb_table (sv_hub sample_server) = []" "hb_networks (sv_hub sample_server) = []"
  "hb_usage (sv_hub sample_server) = empty_usage" "hb_cidr (sv_hub sample_server) = ''10.0.0.0/30''"
  "hb_out (sv_hub sample_server) = (\<lambda>_. new_writer)" "hb_tiers (sv_hub sample_server) = None"
  "hb_default (sv_hub sample_server) = \<lparr>qs_bytes = 100, qs_egress = 0\<rparr>" "sv_lim sample_server = []"
  by (simp_all add: sample_server_def SetTierQuota_def NewHub_def newRateLimiter_def)

lemma sample_out: "(sv_hub sample_server)\<lparr>hb_out := (\<lambda>_. new_writer)\<rparr> = sv_hub sample_server"
  by (simp add: sample_server_def SetTierQuota_def NewHub_def)

definition sample_dev1 :: device where
  "sample_dev1 = (sample_device ''d1'' False)\<lparr>de_token_hash := ''$2a$04$secret''\<rparr>"

lemma sample_authenticate:
  "authenticate toy_cmp os (the (cm_hello (hello_msg ''secret''))) server_store = Inr (sample_dev1, sample_account)"
  "VerifyDevice toy_cmp ''d1'' ''guess'' server_store = Inl ErrBadToken"
  by (simp_all add: authenticate_def hello_msg_def ctrl_def zero_hello_def VerifyDevice_def VerifyToken_def get_device_def get_account_def
      server_store_def sample_dev1_def sample_device_def sample_account_def toy_cmp_def)

lemma insert_node_more [simp]:
  "hb_usage (insert_node nd h) = hb_usage h" "hb_tiers (insert_node nd h) = hb_tiers h" "hb_default (insert_node nd h) = hb_default h"
  "hb_store (insert_node nd h) = hb_store h"
  by (simp_all add: insert_node_def Let_def)

lemma sample_register:
  "\<exists>h1. Register True 1 (ac_id sample_account) sample_dev1 sample_account hello c ''r''
      ((sv_hub sample_server)\<lparr>hb_out := out\<rparr>) = (h1, Inr (sample_welcome, 0))
    \<and> hb_out h1 = out \<and> hb_table h1 = [((''n'', dotted 10 0 0 1), 0)]"
proof -
  have al: "Allocate True 1 ''n'' ''n'' ''d1'' sample_leases2 = (sample_leases2, Inr (sample_lease ''d1'' 1 1))"
    by (rule Allocate_sample(1))
  have z: "Totals a t empty_usage = zero_counters" "EgressTotals a t empty_usage = zero_counters" for a t
    by (simp_all add: Totals_def EgressTotals_def accumulate_def empty_usage_def)
  have none: "nodes_of net ((sv_hub sample_server)\<lparr>hb_out := out, hb_leases := l\<rparr>) = []" for net l
    by (simp add: nodes_of_def)
  show ?thesis
    by (simp add: Register_def Let_def al sample_account_def sample_dev1_def sample_device_def sample_lease_def evict_def none
        new_node_def sample_welcome_def composeSession_def composeQuota_def z zero_counters_def quotaSpecFor_def ip_equal_def
        add64_def int64_def sample_hub_fields)
qed

lemma welcome_small: "length (EncodeCtrl ((ctrl MsgWelcome)\<lparr>cm_welcome := Some sample_welcome\<rparr>)) < 400"
proof -
  have ip: "dotted 10 0 0 1 = ''10.0.0.1''" by code_simp
  show ?thesis unfolding sample_welcome_def ip by code_simp
qed

lemma sample_allow: "\<exists>lim. Allow 1 (''hello:'' @ ''r'') 10 minute [] = (lim, True)"
proof -
  have "snd (Allow 1 (''hello:'' @ ''r'') 10 minute []) = True"
    by (simp add: Allow_def Let_def time_units prune_def)
  then show ?thesis by (metis prod.collapse)
qed

lemma hello_msg_simps:
  "cm_type (hello_msg token) = MsgHello" "cm_hello (hello_msg token) = Some (the (cm_hello (hello_msg token)))"
  by (simp_all add: hello_msg_def ctrl_def)

lemma sample_env_simps [simp]:
  "ev_now sample_env = 1" "ev_cmp sample_env = toy_cmp" "ev_io sample_env = True" "ev_os sample_env = ''error''"
  by (simp_all add: sample_env_def)

lemma sample_handshake:
  "handshake sample_env 0 ''r'' (hello_bytes ''secret'' @ rest) sample_server =
     (fst (handshake sample_env 0 ''r'' (hello_bytes ''secret'' @ rest) sample_server), Some (0, rest))"
proof -
  obtain h1 where reg: "Register True 1 (ac_id sample_account) sample_dev1 sample_account (the (cm_hello (hello_msg ''secret'')))
      0 ''r'' (sv_hub sample_server) = (h1, Inr (sample_welcome, 0))" and out: "hb_out h1 = (\<lambda>_. new_writer)"
    using sample_register [of _ 0 "\<lambda>_. new_writer"] unfolding sample_out by blast
  obtain lim where lim: "Allow 1 (''hello:'' @ ''r'') 10 minute [] = (lim, True)" using sample_allow by blast
  have "snd (conn_frame 0 FrameCtrl (EncodeCtrl ((ctrl MsgWelcome)\<lparr>cm_welcome := Some sample_welcome\<rparr>)) h1) = None"
    using welcome_small by (simp add: conn_frame_def case_prod_unfold Let_def out WriteFrame_ok new_writer_def MaxPayload_def)
  then obtain h2 where fr: "conn_frame 0 FrameCtrl (EncodeCtrl ((ctrl MsgWelcome)\<lparr>cm_welcome := Some sample_welcome\<rparr>)) h1 = (h2, None)"
    by (metis prod.collapse)
  have "snd (handshake sample_env 0 ''r'' (hello_bytes ''secret'' @ rest) sample_server) =
      (if (None :: frame_error option) = None then Some (0, rest) else None)"
    by (rule handshake_welcomes [OF _ hello_decodes [OF insertI1] hello_msg_simps _ _ fr, where lim = lim])
      (use lim sample_authenticate(1) reg in simp_all)
  then show ?thesis by (simp add: prod_eq_iff)
qed

lemma handshake_authenticates_witness:
  "\<exists>payload msg hello dev acct ip. ReadFrame (hello_bytes ''secret'' @ []) = Inr ((FrameCtrl, payload), [])
    \<and> DecodeCtrl payload = Some msg \<and> cm_hello msg = Some hello
    \<and> VerifyDevice (ev_cmp sample_env) (he_device hello) (au_token (he_auth hello)) (hb_store (sv_hub sample_server)) = Inr (dev, acct)
    \<and> nd_device (hb_heap (sv_hub (fst (handshake sample_env 0 ''r'' (hello_bytes ''secret'' @ []) sample_server))) 0) = de_id dev
    \<and> nd_account (hb_heap (sv_hub (fst (handshake sample_env 0 ''r'' (hello_bytes ''secret'' @ []) sample_server))) 0) = ac_id acct
    \<and> nd_rw (hb_heap (sv_hub (fst (handshake sample_env 0 ''r'' (hello_bytes ''secret'' @ []) sample_server))) 0) = 0
    \<and> (nd_egress (hb_heap (sv_hub (fst (handshake sample_env 0 ''r'' (hello_bytes ''secret'' @ []) sample_server))) 0) \<longrightarrow> de_egress dev)
    \<and> map_of (hb_table (sv_hub (fst (handshake sample_env 0 ''r'' (hello_bytes ''secret'' @ []) sample_server)))) (ac_id acct, ip) = Some 0
    \<and> lease_addr (hb_leases (sv_hub (fst (handshake sample_env 0 ''r'' (hello_bytes ''secret'' @ []) sample_server)))) (ac_id acct) (de_id dev) = Some ip"
  by (rule handshake_authenticates [OF sample_server_start sample_handshake])

lemma handshake_refuses_witness:
  "snd (handshake sample_env 0 ''r'' (hello_bytes ''guess'' @ []) sample_server) = None
    \<and> (\<exists>out. sv_hub (fst (handshake sample_env 0 ''r'' (hello_bytes ''guess'' @ []) sample_server)) =
          (sv_hub sample_server)\<lparr>hb_out := (hb_out (sv_hub sample_server))(0 := out)\<rparr>)"
proof (rule handshake_refuses [OF prod.collapse [symmetric]])
  have "he_device (the (cm_hello (hello_msg ''guess''))) = ''d1''" "au_token (he_auth (the (cm_hello (hello_msg ''guess'')))) = ''guess''"
    by (simp_all add: hello_msg_def)
  then show "\<forall>payload rest msg hello. ReadFrame (hello_bytes ''guess'' @ []) = Inr ((FrameCtrl, payload), rest) \<and> DecodeCtrl payload = Some msg
      \<and> cm_hello msg = Some hello \<longrightarrow>
      (\<forall>da. VerifyDevice (ev_cmp sample_env) (he_device hello) (au_token (he_auth hello)) (hb_store (sv_hub sample_server)) \<noteq> Inr da)"
    using hello_decodes(1) [of "''guess''" "[]"] hello_decodes(2) [of "''guess''"] hello_msg_simps(2) [of "''guess''"] sample_authenticate(2) by auto
qed

text \<open>
  A connection that breaks while the welcome is sent leaves its node behind: the device is
  registered before the frame is written, and when the write fails \<^verbatim>\<open>handleConn\<close> returns without
  unregistering, so the closed connection stays in the table, is announced to later peers and
  still receives relayed packets.
\<close>

theorem welcome_failure_leaves_node:
  assumes "reach (hub_start n) hub_step (sv_hub s)"
    and "snd (Allow (ev_now ev) (''hello:'' @ remote) 10 minute (sv_lim s))"
    and "ReadFrame input = Inr ((FrameCtrl, pl), rest)" and "DecodeCtrl pl = Some msg"
    and "cm_type msg = MsgHello" and "cm_hello msg = Some hello"
    and "authenticate (ev_cmp ev) (ev_os ev) hello (hb_store (sv_hub s)) = Inr (dev, acct)"
    and "Register (ev_io ev) (ev_now ev) (ac_id acct) dev acct hello c remote (sv_hub s) = (h1, Inr (w, i))"
    and "w_cap (hb_out h1 c) = Some 0"
  shows "map_of (hb_table (sv_hub (handleConn ev clk c remote input s))) (ac_id acct, we_ip w) = Some i
    \<and> c \<in> set (hb_closed (sv_hub (handleConn ev clk c remote input s)))"
proof -
  have ok: "hub_ok n (sv_hub s)" using hub_sys.reach_inv assms(1) .
  from assms(8) ok have at: "map_of (hb_table h1) (ac_id acct, we_ip w) = Some i"
    by (rule Register_succeeds) (simp add: new_node_def)
  obtain lim where lim: "Allow (ev_now ev) (''hello:'' @ remote) 10 minute (sv_lim s) = (lim, True)"
    using assms(2) by (metis prod.collapse)
  let ?pl = "EncodeCtrl ((ctrl MsgWelcome)\<lparr>cm_welcome := Some w\<rparr>)"
  obtain h2 err where fr: "conn_frame c FrameCtrl ?pl h1 = (h2, err)" by fastforce
  have err: "err \<noteq> None"
    using fr assms(9) by (auto simp: conn_frame_def WriteFrame_def write_bytes_def Let_def split: if_splits)
  note w = handshake_welcomes [OF lim assms(3-8) fr]
  have "hb_table h2 = hb_table h1" using conn_view(3) [of c FrameCtrl ?pl h1] fr by (simp add: hub_view_def)
  then have "map_of (hb_table (sv_hub (fst (handshake ev c remote input s)))) (ac_id acct, we_ip w) = Some i"
    using at w(2) [OF err] by simp
  moreover have "snd (handshake ev c remote input s) = None" using w(1) err by simp
  ultimately show ?thesis
    by (simp add: handleConn_def case_prod_unfold Let_def conn_close_def)
qed

definition broken_server :: server where
  "broken_server = sample_server\<lparr>sv_hub := (sv_hub sample_server)\<lparr>hb_out := (\<lambda>_. new_writer)(0 := new_writer\<lparr>w_cap := Some 0\<rparr>)\<rparr>\<rparr>"

lemma broken_start: "reach (hub_start 30) hub_step (sv_hub broken_server)"
proof (rule reach_init)
  have "ls_ok 30 sample_leases2"
    using lease_sys.reach_inv [OF sample_reach(2)] by (simp add: ls_inv_def)
  then show "hub_start 30 (sv_hub broken_server)"
    unfolding hub_start_def broken_server_def sample_server_def by (intro exI conjI, assumption) simp
qed

lemma welcome_failure_leaves_node_witness:
  "map_of (hb_table (sv_hub (handleConn sample_env (\<lambda>_. 1) 0 ''r'' (hello_bytes ''secret'' @ []) broken_server)))
      (ac_id sample_account, we_ip sample_welcome) = Some 0
    \<and> 0 \<in> set (hb_closed (sv_hub (handleConn sample_env (\<lambda>_. 1) 0 ''r'' (hello_bytes ''secret'' @ []) broken_server)))"
proof -
  let ?out = "(\<lambda>_. new_writer)(0 := new_writer\<lparr>w_cap := Some 0\<rparr>)"
  have hub: "sv_hub broken_server = (sv_hub sample_server)\<lparr>hb_out := ?out\<rparr>" by (simp add: broken_server_def)
  obtain h1 where reg: "Register True 1 (ac_id sample_account) sample_dev1 sample_account (the (cm_hello (hello_msg ''secret'')))
      0 ''r'' (sv_hub broken_server) = (h1, Inr (sample_welcome, 0))" and out: "hb_out h1 = ?out"
    using sample_register [of _ 0 ?out] unfolding hub by blast
  obtain lim where lim: "Allow 1 (''hello:'' @ ''r'') 10 minute [] = (lim, True)" using sample_allow by blast
  show ?thesis
    by (rule welcome_failure_leaves_node [OF broken_start _ hello_decodes [OF insertI1] hello_msg_simps, where dev = sample_dev1 and ?h1.0 = h1])
      (use lim sample_authenticate(1) reg out in \<open>simp_all add: broken_server_def\<close>)
qed

subsection \<open>Restarting\<close>

text \<open>The disk after every store has been saved.\<close>

definition saved_disk :: "server \<Rightarrow> disk" where
  "saved_disk s =
     (let h = sv_hub s
      in \<lparr>dk_mkdir = True, dk_accounts = Content (accountsSlice (hb_store h), devicesSlice (hb_store h)),
          dk_leases = Content (all_leases (hb_leases h)), dk_usage = Content (keyedBuckets (hb_usage h)),
          dk_invites = Content (map snd (is_codes (sv_invites s))), dk_listen = True\<rparr>)"

definition config_ok :: "config \<Rightarrow> bool" where
  "config_ok cfg \<longleftrightarrow> cf_listen cfg \<noteq> [] \<and> cf_data_dir cfg \<noteq> [] \<and> cf_cert cfg \<noteq> [] \<and> cf_key cfg \<noteq> []"


definition netted_cfg :: config where
  "netted_cfg = sample_cfg\<lparr>cf_networks := [(''default'', ''10.0.0.0/30'')]\<rparr>"


end
