(* ===== verification/Http.thy ===== *)
theory Http
  imports Server "HOL-Library.Char_ord" "HOL-Library.List_Lexorder" "HOL-Library.Product_Lexorder"
begin

text \<open>
  What the HTTP handlers of \<^verbatim>\<open>internal/server\<close> share: requests, responses, the multiplexer, JSON bodies and
  answers, the administrator's guard and the caller's address (the ends of \<^verbatim>\<open>api.go\<close>), and \<^verbatim>\<open>internal/version\<close>.
  A request is what \<^verbatim>\<open>net/http\<close> hands to a handler: headers under their canonical names and query values
  already decoded, the path in its canonical form (the multiplexer redirects any other), the body read to its end.
\<close>

record request =
  rq_method :: string
  rq_path :: string
  rq_query :: "(string, string) gomap"
  rq_headers :: "(string, string) gomap"
  rq_body :: string
  rq_remote :: string

record response =
  rs_status :: nat
  rs_type :: string
  rs_body :: string

text \<open>
  What a request meets besides the clock, bcrypt and the file system of \<open>env\<close>: the random bytes it would draw, whether
  the invite file and the repair after a failed registration can be written, the CA file, the pages that are
  compiled in, and the text of a time, which depends on the time zone of the machine.
\<close>

datatype time_layout = RFC3339 | RFC3339Nano | DateTime

record api_env = env +
  ae_gen :: bcrypt_gen
  ae_entropy :: entropy
  ae_codes :: "nat \<Rightarrow> bytes option"
  ae_io_invites :: bool
  ae_io_undo :: bool
  ae_time :: "time_layout \<Rightarrow> time \<Rightarrow> string"
  ae_version :: string
  ae_ca :: "string option"
  ae_landing :: string
  ae_web :: "string option"

type_synonym handler = "api_env \<Rightarrow> request \<Rightarrow> server \<Rightarrow> server \<times> response"

definition get_header :: "string \<Rightarrow> request \<Rightarrow> string" where
  "get_header k rq = (case map_of (rq_headers rq) k of None \<Rightarrow> [] | Some v \<Rightarrow> v)"

definition get_query :: "string \<Rightarrow> request \<Rightarrow> string" where
  "get_query k rq = (case map_of (rq_query rq) k of None \<Rightarrow> [] | Some v \<Rightarrow> v)"

definition nl :: string where "nl = [CHR 0x0A]"

definition http_error :: "string \<Rightarrow> nat \<Rightarrow> response" where
  "http_error msg code = \<lparr>rs_status = code, rs_type = ''text/plain; charset=utf-8'', rs_body = msg @ nl\<rparr>"

definition not_found :: response where
  "not_found = http_error ''404 page not found'' 404"

definition fail :: "nat \<Rightarrow> string \<Rightarrow> response" where
  "fail code msg = http_error msg code"

definition writeJSON :: "json \<Rightarrow> response" where
  "writeJSON j = \<lparr>rs_status = 200, rs_type = ''application/json'', rs_body = jprint j @ nl\<rparr>"

text \<open>A Go map is encoded with its keys in order; a nil slice is encoded as \<^verbatim>\<open>null\<close>.\<close>

definition json_map :: "(string \<times> json) list \<Rightarrow> json" where
  "json_map ms = JObj (sort_key fst ms)"

definition json_slice :: "('a \<Rightarrow> json) \<Rightarrow> 'a list \<Rightarrow> json" where
  "json_slice f xs = (if xs = [] then JNull else JArr (map f xs))"

text \<open>
  \<^verbatim>\<open>json.NewDecoder(r.Body).Decode\<close>: the first value of the body; what follows it is not looked at.
\<close>

definition decode_body :: "'a field list \<Rightarrow> 'a \<Rightarrow> request \<Rightarrow> 'a option" where
  "decode_body fs zero rq =
     (case parse_val (2 * length (rq_body rq) + 2) (rq_body rq) of
        None \<Rightarrow> None
      | Some (v, _) \<Rightarrow> dec_struct fs v zero)"

text \<open>\<^verbatim>\<open>strconv.Atoi\<close>; \<open>None\<close> for an error.\<close>

definition atoi :: "string \<Rightarrow> int option" where
  "atoi s =
     (let neg = (s \<noteq> [] \<and> hd s = CHR ''-'');
          body = (if s \<noteq> [] \<and> (hd s = CHR ''-'' \<or> hd s = CHR ''+'') then tl s else s)
      in if body = [] then None
         else case read_digits 0 body of
           None \<Rightarrow> None
         | Some n \<Rightarrow> (let v = (if neg then - int n else int n) in if int64 v then Some v else None))"

definition remoteIP :: "request \<Rightarrow> string" where
  "remoteIP rq =
     (let ip = get_header ''X-Forwarded-For'' rq
      in if ip \<noteq> [] then ip
         else case split_host_port (rq_remote rq) of None \<Rightarrow> rq_remote rq | Some (host, _) \<Rightarrow> host)"

definition adminGuard :: "handler \<Rightarrow> handler" where
  "adminGuard h ev rq s =
     (if cf_admin_token (sv_cfg s) = [] then (s, http_error ''admin disabled'' 403)
      else if get_header ''X-Admin-Token'' rq \<noteq> cf_admin_token (sv_cfg s) then (s, http_error ''forbidden'' 403)
      else h ev rq s)"

text \<open>
  \<^verbatim>\<open>http.ServeMux\<close> with exact patterns and one for the root, which takes every other path.
\<close>

definition serve_mux :: "(string \<times> handler) list \<Rightarrow> handler \<Rightarrow> handler" where
  "serve_mux routes root ev rq s =
     (case map_of routes (rq_path rq) of Some h \<Rightarrow> h ev rq s | None \<Rightarrow> root ev rq s)"

definition not_allowed :: response where
  "not_allowed = http_error ''method not allowed'' 405"

definition NeedsUpdate :: "string \<Rightarrow> string \<Rightarrow> bool" where
  "NeedsUpdate local remote =
     (let local = trim_space local; remote = trim_space remote
      in local \<noteq> [] \<and> local \<noteq> ''dev'' \<and> remote \<noteq> [] \<and> local \<noteq> remote)"

subsection \<open>The state the handlers reach\<close>

abbreviation store_of :: "server \<Rightarrow> store" where
  "store_of s \<equiv> hb_store (sv_hub s)"

definition on_hub :: "(hub \<Rightarrow> hub) \<Rightarrow> server \<Rightarrow> server" where
  "on_hub f s = s\<lparr>sv_hub := f (sv_hub s)\<rparr>"

definition set_store :: "store \<Rightarrow> server \<Rightarrow> server" where
  "set_store st = on_hub (\<lambda>h. h\<lparr>hb_store := st\<rparr>)"

lemma set_store_fields [simp]:
  "store_of (set_store st s) = st" "sv_cfg (set_store st s) = sv_cfg s" "sv_invites (set_store st s) = sv_invites s"
  "sv_lim (set_store st s) = sv_lim s" "sv_hub (set_store st s) = (sv_hub s)\<lparr>hb_store := st\<rparr>"
  by (simp_all add: set_store_def on_hub_def)

lemma on_hub_fields [simp]:
  "sv_hub (on_hub f s) = f (sv_hub s)" "sv_cfg (on_hub f s) = sv_cfg s" "sv_invites (on_hub f s) = sv_invites s"
  "sv_lim (on_hub f s) = sv_lim s"
  by (simp_all add: on_hub_def)

lemma admin_guard_cases:
  "adminGuard h ev rq s = h ev rq s \<or> (fst (adminGuard h ev rq s) = s \<and> rs_status (snd (adminGuard h ev rq s)) = 403)"
  by (simp add: adminGuard_def http_error_def)

end
