(* ===== verification/Api.thy ===== *)
theory Api
  imports Http
begin

text \<open>
  The HTTP handlers: \<^verbatim>\<open>internal/server/api.go\<close>, \<^verbatim>\<open>public.go\<close> and \<^verbatim>\<open>web.go\<close>. Every handler is a function from the
  request and the server to the server and the response; it runs undisturbed, with one reading of the clock. Log lines
  are left out. Where the source walks a Go map the order is that of the model's map.
\<close>

subsection \<open>Request bodies\<close>

record reg_req =
  rr_code :: string
  rr_account :: string
  rr_device :: string

definition reg_fields :: "reg_req field list" where
  "reg_fields = [(''invite_code'', fstr (\<lambda>v x. x\<lparr>rr_code := v\<rparr>)), (''account_name'', fstr (\<lambda>v x. x\<lparr>rr_account := v\<rparr>)),
     (''device_name'', fstr (\<lambda>v x. x\<lparr>rr_device := v\<rparr>))]"

definition enroll_fields :: "string field list" where
  "enroll_fields = [(''device_name'', fstr (\<lambda>v x. v))]"

definition rename_fields :: "(string \<times> string) field list" where
  "rename_fields = [(''device_id'', fstr (\<lambda>v x. (v, snd x))), (''name'', fstr (\<lambda>v x. (fst x, v)))]"

definition device_fields :: "string field list" where
  "device_fields = [(''device_id'', fstr (\<lambda>v x. v))]"

definition tier_fields :: "(string \<times> string) field list" where
  "tier_fields = [(''account_id'', fstr (\<lambda>v x. (v, snd x))), (''tier'', fstr (\<lambda>v x. (fst x, v)))]"

definition add_fields :: "(string \<times> string) field list" where
  "add_fields = [(''account_id'', fstr (\<lambda>v x. (v, snd x))), (''name'', fstr (\<lambda>v x. (fst x, v)))]"

definition code_fields :: "string field list" where
  "code_fields = [(''code'', fstr (\<lambda>v x. v))]"

record egress_req =
  er_device :: string
  er_enabled :: bool
  er_accounts :: "string list"

definition egress_fields :: "egress_req field list" where
  "egress_fields = [(''device_id'', fstr (\<lambda>v x. x\<lparr>er_device := v\<rparr>)), (''enabled'', fbool (\<lambda>v x. x\<lparr>er_enabled := v\<rparr>)),
     (''accounts'', fstrs (\<lambda>v x. x\<lparr>er_accounts := v\<rparr>))]"

subsection \<open>The public entry\<close>

definition invite_error_text :: "string \<Rightarrow> invite_error \<Rightarrow> string" where
  "invite_error_text os e =
     (case e of
        ErrInviteInvalid \<Rightarrow> ''invalid invite code''
      | ErrInviteUsed \<Rightarrow> ''invite code already used''
      | ErrInviteNotFound \<Rightarrow> ''invite code not found''
      | ErrInviteConsumed \<Rightarrow> ''invite code already consumed, cannot revoke''
      | ErrInviteSave \<Rightarrow> os | ErrInviteOpen \<Rightarrow> os)"

definition defaultTier :: "server \<Rightarrow> string" where
  "defaultTier s = (if cf_default_tier (sv_cfg s) = [] then ''free'' else cf_default_tier (sv_cfg s))"

definition handleRegister :: handler where
  "handleRegister ev rq s =
     (if rq_method rq \<noteq> ''POST'' then (s, not_allowed)
      else
        let (lim, ok) = Allow (ev_now ev) (''register:'' @ remoteIP rq) 5 minute (sv_lim s);
            s = s\<lparr>sv_lim := lim\<rparr>
        in if \<not> ok then (s, http_error ''too many attempts'' 429)
           else case decode_body reg_fields \<lparr>rr_code = [], rr_account = [], rr_device = []\<rparr> rq of
               None \<Rightarrow> (s, http_error ''bad json'' 400)
             | Some req \<Rightarrow>
                 if rr_code req = [] \<or> rr_account req = [] then (s, http_error ''invite_code and account_name required'' 400)
                 else if length (rr_account req) > 64 then (s, http_error ''account_name too long'' 400)
                 else
                   let (st, r) = CreateAccountWithTier (ae_gen ev) (ev_io ev) (ae_entropy ev) (ev_now ev)
                         (rr_account req) (defaultTier s) (store_of s);
                       s = set_store st s
                   in case r of
                        Inl e \<Rightarrow> (s, fail 500 (store_error_text (ev_os ev) e))
                      | Inr (acct, dev, token) \<Rightarrow>
                          let (iv, err) = Consume (ae_io_invites ev) (rr_code req) (ac_id acct) (sv_invites s);
                              s = s\<lparr>sv_invites := iv\<rparr>
                          in (case err of
                                Some e \<Rightarrow>
                                  (set_store (fst (RemoveAccount (ae_io_undo ev) (ac_id acct) (store_of s))) s,
                                   http_error (''invite: '' @ invite_error_text (ev_os ev) e) 403)
                              | None \<Rightarrow>
                                  (s, writeJSON (json_map
                                    [(''ok'', JBool True), (''account_id'', JStr (ac_id acct)),
                                     (''account_name'', JStr (ac_name acct)), (''tier'', JStr (ac_tier acct)),
                                     (''device_id'', JStr (de_id dev)), (''device_token'', JStr token)]))))"

definition deviceAuth :: "api_env \<Rightarrow> request \<Rightarrow> server \<Rightarrow> store_error + device \<times> account" where
  "deviceAuth ev rq s =
     VerifyDevice (ev_cmp ev) (get_header ''X-Orbit-Device'' rq) (get_header ''X-Orbit-Token'' rq) (store_of s)"

definition auth_failed :: response where
  "auth_failed = http_error ''device auth failed'' 401"

definition online :: "api_env \<Rightarrow> server \<Rightarrow> string \<Rightarrow> bool" where
  "online ev s dev = list_ex (\<lambda>c. ci_device c = dev) (ListClients (ev_now ev) (sv_hub s))"

definition device_item :: "api_env \<Rightarrow> server \<Rightarrow> device \<Rightarrow> (string \<times> json) list" where
  "device_item ev s d =
     [(''name'', JStr (de_name d)), (''egress_enabled'', JBool (de_egress d)), (''egress_acl'', json_slice JStr (de_acl d)),
      (''last_seen'', JStr (ae_time ev RFC3339 (de_seen d))), (''online'', JBool (online ev s (de_id d)))]"

definition deviceList :: handler where
  "deviceList ev rq s =
     (case deviceAuth ev rq s of
        Inl _ \<Rightarrow> (s, auth_failed)
      | Inr (_, acct) \<Rightarrow>
          (s, writeJSON (json_slice (\<lambda>d. JObj ((''device_id'', JStr (de_id d)) # device_item ev s d))
                (DevicesByAccount (ac_id acct) (store_of s)))))"

definition handleEnrollDevice :: handler where
  "handleEnrollDevice ev rq s =
     (let (lim, ok) = Allow (ev_now ev) (''enroll:'' @ remoteIP rq) 30 hour (sv_lim s);
          s = s\<lparr>sv_lim := lim\<rparr>
      in if \<not> ok then (s, http_error ''too many attempts'' 429)
         else case deviceAuth ev rq s of
             Inl _ \<Rightarrow> (s, auth_failed)
           | Inr (dev, acct) \<Rightarrow>
               (case decode_body enroll_fields [] rq of
                  None \<Rightarrow> (s, http_error ''bad json'' 400)
                | Some req \<Rightarrow>
                    let name = (if req = [] then de_name dev @ ''-new'' else req);
                        (st, r) = AddDeviceForAccount (ae_gen ev) (ev_io ev) (ae_entropy ev) (ev_now ev) (ac_id acct) name (store_of s);
                        s = set_store st s
                    in (case r of
                          Inl e \<Rightarrow> (s, fail 500 (store_error_text (ev_os ev) e))
                        | Inr (newDev, newToken) \<Rightarrow>
                            (s, writeJSON (json_map
                              [(''ok'', JBool True), (''account_id'', JStr (ac_id acct)),
                               (''device_id'', JStr (de_id newDev)), (''device_token'', JStr newToken)])))))"

definition handleDevices :: handler where
  "handleDevices ev rq s =
     (if rq_method rq = ''GET'' then deviceList ev rq s
      else if rq_method rq = ''POST'' then handleEnrollDevice ev rq s
      else (s, not_allowed))"

definition targetDevice :: "api_env \<Rightarrow> request \<Rightarrow> string option \<Rightarrow> server \<Rightarrow> store_error + device" where
  "targetDevice ev rq reqd s =
     (case deviceAuth ev rq s of
        Inl e \<Rightarrow> Inl e
      | Inr (dev, acct) \<Rightarrow>
          let i = (case reqd of None \<Rightarrow> [] | Some i \<Rightarrow> i)
          in if i = [] then Inr dev
             else case get_device i (store_of s) of
                 Inl e \<Rightarrow> Inl e
               | Inr d \<Rightarrow> if de_account d \<noteq> ac_id acct then Inl ErrBadToken else Inr d)"

definition handleDeviceRename :: handler where
  "handleDeviceRename ev rq s =
     (if rq_method rq \<noteq> ''POST'' then (s, not_allowed)
      else case decode_body rename_fields ([], []) rq of
          None \<Rightarrow> (s, http_error ''bad json'' 400)
        | Some (i, name) \<Rightarrow>
            (case targetDevice ev rq (Some i) s of
               Inl _ \<Rightarrow> (s, auth_failed)
             | Inr target \<Rightarrow>
                 let (st, r) = RenameDevice (ev_io ev) (de_id target) name (store_of s);
                     s = set_store st s
                 in (case r of
                       Inl e \<Rightarrow> (s, fail 400 (store_error_text (ev_os ev) e))
                     | Inr updated \<Rightarrow>
                         (s, writeJSON (json_map [(''ok'', JBool True), (''device_id'', JStr (de_id updated)),
                            (''name'', JStr (de_name updated))])))))"

definition handleDeviceRevoke :: handler where
  "handleDeviceRevoke ev rq s =
     (if rq_method rq \<noteq> ''POST'' then (s, not_allowed)
      else case decode_body device_fields [] rq of
          None \<Rightarrow> (s, http_error ''device_id required'' 400)
        | Some i \<Rightarrow>
            if i = [] then (s, http_error ''device_id required'' 400)
            else case targetDevice ev rq (Some i) s of
                Inl _ \<Rightarrow> (s, auth_failed)
              | Inr target \<Rightarrow>
                  let (st, err) = RemoveDevice (ev_io ev) (de_id target) (store_of s);
                      s = set_store st s
                  in (case err of
                        Some e \<Rightarrow> (s, fail 404 (store_error_text (ev_os ev) e))
                      | None \<Rightarrow>
                          let (h, kicked) = KickDevice (de_id target) (sv_hub s)
                          in (s\<lparr>sv_hub := h\<rparr>, writeJSON (json_map
                               [(''ok'', JBool True), (''revoked'', JStr (de_id target)), (''kicked'', JBool kicked)]))))"

definition handleDeviceRotateToken :: handler where
  "handleDeviceRotateToken ev rq s =
     (if rq_method rq \<noteq> ''POST'' then (s, not_allowed)
      else case decode_body device_fields [] rq of
          None \<Rightarrow> (s, http_error ''bad json'' 400)
        | Some i \<Rightarrow>
            (case targetDevice ev rq (Some i) s of
               Inl _ \<Rightarrow> (s, auth_failed)
             | Inr target \<Rightarrow>
                 let (st, r) = RotateToken (ae_gen ev) (ev_io ev) (en_token (ae_entropy ev)) (de_id target) (store_of s);
                     s = set_store st s
                 in (case r of
                       Inl e \<Rightarrow> (s, fail 500 (store_error_text (ev_os ev) e))
                     | Inr token \<Rightarrow>
                         (s, writeJSON (json_map [(''ok'', JBool True), (''device_id'', JStr (de_id target)),
                            (''device_token'', JStr token)])))))"

definition today :: "api_env \<Rightarrow> time" where
  "today ev = truncate_time (24 * hour) (ev_now ev)"

definition handleSelfUsage :: handler where
  "handleSelfUsage ev rq s =
     (if rq_method rq \<noteq> ''GET'' then (s, not_allowed)
      else case deviceAuth ev rq s of
          Inl _ \<Rightarrow> (s, auth_failed)
        | Inr (_, acct) \<Rightarrow>
            let t = Totals (ac_id acct) (today ev) (hb_usage (sv_hub s)); spec = QuotaFor (sv_cfg s) (ac_tier acct)
            in (s, writeJSON (json_map
                 [(''period'', JStr ''day''), (''since'', JStr (ae_time ev RFC3339 (today ev))),
                  (''account_id'', JStr (ac_id acct)), (''account_name'', JStr (ac_name acct)), (''tier'', JStr (ac_tier acct)),
                  (''rx_bytes'', JNum (ct_rx t)), (''tx_bytes'', JNum (ct_tx t)),
                  (''total_bytes'', JNum (add64 (ct_rx t) (ct_tx t))),
                  (''limit_bytes'', JNum (qs_bytes spec)), (''egress_limit_bytes'', JNum (qs_egress spec))])))"

subsection \<open>The administrator's entry\<close>

definition handleAdminAccounts :: handler where
  "handleAdminAccounts ev rq s =
     (s, writeJSON (json_slice (\<lambda>a. let spec = QuotaFor (sv_cfg s) (ac_tier a) in JObj
           [(''id'', JStr (ac_id a)), (''name'', JStr (ac_name a)), (''tier'', JStr (ac_tier a)),
            (''devices'', JNum (int (length (DevicesByAccount (ac_id a) (store_of s))))),
            (''limit_bytes'', JNum (qs_bytes spec)), (''egress_limit_bytes'', JNum (qs_egress spec))])
         (ListAccounts (store_of s))))"

definition handleAdminSetTier :: handler where
  "handleAdminSetTier ev rq s =
     (if rq_method rq \<noteq> ''POST'' then (s, not_allowed)
      else case decode_body tier_fields ([], []) rq of
          None \<Rightarrow> (s, http_error ''account_id and tier required'' 400)
        | Some (acc, tier) \<Rightarrow>
            if acc = [] \<or> tier = [] then (s, http_error ''account_id and tier required'' 400)
            else
              let (st, err) = SetAccountTier (ev_io ev) acc tier (store_of s);
                  s = set_store st s
              in (case err of
                    Some e \<Rightarrow> (s, fail 404 (store_error_text (ev_os ev) e))
                  | None \<Rightarrow>
                      (on_hub (QuotaNotifyAccount (ev_now ev) acc) s,
                       writeJSON (json_map [(''ok'', JBool True), (''account_id'', JStr acc), (''tier'', JStr tier)]))))"

definition enc_client :: "api_env \<Rightarrow> client_info \<Rightarrow> json" where
  "enc_client ev c = JObj ([(''account_id'', JStr (ci_account c)), (''device_id'', JStr (ci_device c)),
     (''network_id'', JStr (ci_network c)), (''virtual_ip'', JStr (ci_ip c)), (''hostname'', JStr (ci_hostname c)),
     (''os'', JStr (ci_os c))] @ om_bool ''egress'' (ci_egress c) @ [(''remote_addr'', JStr (ci_remote c)),
     (''joined_at'', JStr (ae_time ev DateTime (ci_joined c))), (''online_secs'', JNum (ci_online c)),
     (''rx_bytes'', JNum (ci_rx c)), (''tx_bytes'', JNum (ci_tx c))])"

definition handleAdminClients :: handler where
  "handleAdminClients ev rq s = (s, writeJSON (JArr (map (enc_client ev) (ListClients (ev_now ev) (sv_hub s)))))"

text \<open>The sum over all accounts: received and sent separately, at 64 bits.\<close>

definition sum_totals :: "time \<Rightarrow> usage_store \<Rightarrow> account list \<Rightarrow> int \<times> int" where
  "sum_totals since u as = foldl (\<lambda>(rx, tx) a. let t = Totals (ac_id a) since u in (add64 rx (ct_rx t), add64 tx (ct_tx t))) (0, 0) as"

definition handleAdminUsage :: handler where
  "handleAdminUsage ev rq s =
     (let accountID = get_query ''account'' rq;
          resp = [(''period'', JStr ''day''), (''since'', JStr (ae_time ev RFC3339 (today ev)))];
          more = (if accountID \<noteq> [] then
                    let t = Totals accountID (today ev) (hb_usage (sv_hub s))
                    in [(''account'', JStr accountID), (''rx_bytes'', JNum (ct_rx t)), (''tx_bytes'', JNum (ct_tx t)),
                        (''total_bytes'', JNum (add64 (ct_rx t) (ct_tx t)))]
                  else
                    let (totRx, totTx) = sum_totals (today ev) (hb_usage (sv_hub s)) (ListAccounts (store_of s))
                    in [(''rx_bytes'', JNum totRx), (''tx_bytes'', JNum totTx), (''total_bytes'', JNum (add64 totRx totTx))])
      in (s, writeJSON (json_map (resp @ more))))"

record dev_row =
  dr_device :: string
  dr_account :: string
  dr_name :: string
  dr_used :: int
  dr_egress :: int

definition enc_dev_row :: "dev_row \<Rightarrow> json" where
  "enc_dev_row r = JObj [(''device_id'', JStr (dr_device r)), (''account_id'', JStr (dr_account r)),
     (''name'', JStr (dr_name r)), (''used_bytes'', JNum (dr_used r)), (''egress_used_bytes'', JNum (dr_egress r))]"

definition name_of :: "store \<Rightarrow> string \<Rightarrow> string" where
  "name_of st dev =
     (case map_of (foldl (\<lambda>m d. put (de_id d) (de_name d) m) [] (ListDevicesAll st)) dev of None \<Rightarrow> [] | Some n \<Rightarrow> n)"

definition used_by :: "(string, int \<times> int) gomap \<Rightarrow> string \<Rightarrow> int \<times> int" where
  "used_by m acc = (case map_of m acc of None \<Rightarrow> (0, 0) | Some u \<Rightarrow> u)"

definition usage_row :: "store \<Rightarrow> (string, int \<times> int) gomap \<times> dev_row list \<Rightarrow> consumer_row
    \<Rightarrow> (string, int \<times> int) gomap \<times> dev_row list" where
  "usage_row st ud row =
     (let (acctUsed, devices) = ud; a = used_by acctUsed (cr_account row)
      in (put (cr_account row) (add64 (fst a) (cr_tx row), add64 (snd a) (cr_egress row)) acctUsed,
          devices @ [\<lparr>dr_device = cr_device row, dr_account = cr_account row, dr_name = name_of st (cr_device row),
            dr_used = cr_tx row, dr_egress = cr_egress row\<rparr>]))"

text \<open>The two tables of the answer; the devices sorted by account and device.\<close>

definition usage_tables :: "api_env \<Rightarrow> server \<Rightarrow> (string, int \<times> int) gomap \<times> dev_row list" where
  "usage_tables ev s =
     (let (acctUsed, devices) = foldl (usage_row (store_of s)) ([], []) (PerConsumer (today ev) (hb_usage (sv_hub s)))
      in (acctUsed, sort_key (\<lambda>r. (dr_account r, dr_device r)) devices))"

definition handleAdminUsages :: handler where
  "handleAdminUsages ev rq s =
     (let (acctUsed, devices) = usage_tables ev s;
          accounts = map (\<lambda>a. let spec = QuotaFor (sv_cfg s) (ac_tier a); u = used_by acctUsed (ac_id a) in JObj
            [(''account_id'', JStr (ac_id a)), (''name'', JStr (ac_name a)), (''tier'', JStr (ac_tier a)),
             (''used_bytes'', JNum (fst u)), (''limit_bytes'', JNum (qs_bytes spec)),
             (''egress_used_bytes'', JNum (snd u)), (''egress_limit_bytes'', JNum (qs_egress spec))]) (ListAccounts (store_of s))
      in (s, writeJSON (json_map [(''period'', JStr ''day''), (''since'', JStr (ae_time ev RFC3339 (today ev))),
           (''accounts'', JArr accounts), (''devices'', JArr (map enc_dev_row devices))])))"

definition enc_invite :: "api_env \<Rightarrow> invite \<Rightarrow> json" where
  "enc_invite ev c = JObj ([(''code'', JStr (iv_code c))] @ om_str ''account_id'' (iv_account c)
     @ [(''created_at'', JStr (ae_time ev RFC3339Nano (iv_created c)))])"

definition invite_count :: "string \<Rightarrow> int" where
  "invite_count v =
     (if v = [] then 10 else case atoi v of Some x \<Rightarrow> if 0 < x \<and> x \<le> 1000 then x else 10 | None \<Rightarrow> 10)"

definition handleAdminInvites :: handler where
  "handleAdminInvites ev rq s =
     (if rq_method rq = ''POST'' then
        let n = invite_count (get_query ''count'' rq);
            (iv, r) = Generate (ae_io_invites ev) n (ae_codes ev) (ev_now ev) (sv_invites s);
            s = s\<lparr>sv_invites := iv\<rparr>
        in case r of
             Inl e \<Rightarrow> (s, fail 500 (invite_error_text (ev_os ev) e))
           | Inr codes \<Rightarrow> (s, writeJSON (json_map [(''ok'', JBool True), (''invites'', JArr (map JStr codes)), (''count'', JNum n)]))
      else (s, writeJSON (JArr (map (enc_invite ev) (ListInvites (sv_invites s))))))"

definition handleAdminDevices :: handler where
  "handleAdminDevices ev rq s =
     (s, writeJSON (json_slice (\<lambda>d. JObj ((''device_id'', JStr (de_id d)) # (''account_id'', JStr (de_account d))
           # device_item ev s d)) (ListDevicesAll (store_of s))))"

definition handleAdminRevokeDevice :: handler where
  "handleAdminRevokeDevice ev rq s =
     (if rq_method rq \<noteq> ''POST'' then (s, not_allowed)
      else case decode_body device_fields [] rq of
          None \<Rightarrow> (s, http_error ''device_id required'' 400)
        | Some i \<Rightarrow>
            if i = [] then (s, http_error ''device_id required'' 400)
            else
              let (st, err) = RemoveDevice (ev_io ev) i (store_of s);
                  s = set_store st s
              in (case err of
                    Some e \<Rightarrow> (s, fail 404 (store_error_text (ev_os ev) e))
                  | None \<Rightarrow>
                      let (h, kicked) = KickDevice i (sv_hub s)
                      in (s\<lparr>sv_hub := h\<rparr>, writeJSON (json_map
                           [(''ok'', JBool True), (''revoked'', JStr i), (''kicked'', JBool kicked)]))))"

definition handleAdminAddDevice :: handler where
  "handleAdminAddDevice ev rq s =
     (if rq_method rq \<noteq> ''POST'' then (s, not_allowed)
      else case decode_body add_fields ([], []) rq of
          None \<Rightarrow> (s, http_error ''account_id required'' 400)
        | Some (acc, name) \<Rightarrow>
            if acc = [] then (s, http_error ''account_id required'' 400)
            else
              let (st, r) = AddDeviceForAccount (ae_gen ev) (ev_io ev) (ae_entropy ev) (ev_now ev) acc name (store_of s);
                  s = set_store st s
              in (case r of
                    Inl e \<Rightarrow> (s, fail 400 (store_error_text (ev_os ev) e))
                  | Inr (dev, token) \<Rightarrow>
                      (s, writeJSON (json_map [(''ok'', JBool True), (''account_id'', JStr acc),
                         (''device_id'', JStr (de_id dev)), (''device_token'', JStr token)]))))"

definition handleAdminRemoveInvite :: handler where
  "handleAdminRemoveInvite ev rq s =
     (case decode_body code_fields [] rq of
        None \<Rightarrow> (s, http_error ''code required'' 400)
      | Some code \<Rightarrow>
          if code = [] then (s, http_error ''code required'' 400)
          else
            let (iv, err) = RemoveInvite (ae_io_invites ev) code (sv_invites s);
                s = s\<lparr>sv_invites := iv\<rparr>
            in (case err of
                  Some e \<Rightarrow> (s, fail 400 (invite_error_text (ev_os ev) e))
                | None \<Rightarrow> (s, writeJSON (json_map [(''ok'', JBool True), (''revoked'', JStr code)]))))"

definition handleAdminEgress :: handler where
  "handleAdminEgress ev rq s =
     (case decode_body egress_fields \<lparr>er_device = [], er_enabled = False, er_accounts = []\<rparr> rq of
        None \<Rightarrow> (s, http_error ''device_id required'' 400)
      | Some req \<Rightarrow>
          if er_device req = [] then (s, http_error ''device_id required'' 400)
          else
            let (st, err) = SetDeviceEgress (ev_io ev) (er_device req) (er_enabled req) (er_accounts req) (store_of s);
                s = set_store st s
            in (case err of
                  Some e \<Rightarrow> (s, fail 404 (store_error_text (ev_os ev) e))
                | None \<Rightarrow>
                    (on_hub (\<lambda>h. fst (UpdateEgress (er_device req) (er_enabled req) (er_accounts req) h)) s,
                     writeJSON (json_map [(''ok'', JBool True), (''device_id'', JStr (er_device req)),
                       (''enabled'', JBool (er_enabled req)), (''accounts'', json_slice JStr (er_accounts req))]))))"

subsection \<open>Pages\<close>

definition handleHealth :: handler where
  "handleHealth ev rq s = (s, writeJSON (json_map [(''ok'', JBool True), (''version'', JStr (ae_version ev)),
     (''time'', JStr (ae_time ev RFC3339 (ev_now ev)))]))"

text \<open>The CA file is read once, at the first request; a failed read is remembered as well.\<close>

definition caCache :: "api_env \<Rightarrow> server \<Rightarrow> server \<times> string option" where
  "caCache ev s =
     (case sv_ca s of
        Some b \<Rightarrow> (s, b)
      | None \<Rightarrow> (s\<lparr>sv_ca := Some (ae_ca ev)\<rparr>, ae_ca ev))"

definition handleCAPEM :: handler where
  "handleCAPEM ev rq s =
     (if cf_public_ca (sv_cfg s) = [] then (s, not_found)
      else let (s, b) = caCache ev s in case b of
          None \<Rightarrow> (s, http_error ''ca file missing'' 404)
        | Some pem \<Rightarrow> (s, \<lparr>rs_status = 200, rs_type = ''application/x-pem-file'', rs_body = pem\<rparr>))"

definition html :: "string \<Rightarrow> response" where
  "html body = \<lparr>rs_status = 200, rs_type = ''text/html; charset=utf-8'', rs_body = body\<rparr>"

definition handleLanding :: handler where
  "handleLanding ev rq s = (s, if rq_path rq \<noteq> ''/'' then not_found else html (ae_landing ev))"

definition handleWebUI :: handler where
  "handleWebUI ev rq s =
     (s, if rq_method rq \<noteq> ''GET'' then not_allowed
         else if length (rq_path rq) > 1 \<and> rq_path rq \<noteq> ''/web/'' then not_found
         else case ae_web ev of None \<Rightarrow> http_error ''webui missing'' 500 | Some page \<Rightarrow> html page)"

subsection \<open>The two entries\<close>

definition public_routes :: "(string \<times> handler) list" where
  "public_routes =
     [(''/health'', handleHealth), (''/api/v1/register'', handleRegister), (''/api/v1/devices'', handleDevices),
      (''/api/v1/devices/rename'', handleDeviceRename), (''/api/v1/devices/revoke'', handleDeviceRevoke),
      (''/api/v1/devices/rotate-token'', handleDeviceRotateToken), (''/api/v1/usage'', handleSelfUsage)]"

definition admin_routes :: "(string \<times> handler) list" where
  "admin_routes =
     [(''/api/v1/admin/accounts'', adminGuard handleAdminAccounts), (''/api/v1/admin/accounts/tier'', adminGuard handleAdminSetTier),
      (''/api/v1/admin/clients'', adminGuard handleAdminClients), (''/api/v1/admin/usage'', adminGuard handleAdminUsage),
      (''/api/v1/admin/usages'', adminGuard handleAdminUsages), (''/api/v1/admin/invites'', adminGuard handleAdminInvites),
      (''/api/v1/admin/devices'', adminGuard handleAdminDevices), (''/api/v1/admin/devices/add'', adminGuard handleAdminAddDevice),
      (''/api/v1/admin/devices/revoke'', adminGuard handleAdminRevokeDevice),
      (''/api/v1/admin/invites/remove'', adminGuard handleAdminRemoveInvite), (''/api/v1/admin/egress'', adminGuard handleAdminEgress)]"

definition mux :: handler where
  "mux = serve_mux (public_routes @ admin_routes) handleWebUI"

definition publicMux :: handler where
  "publicMux = serve_mux (public_routes @ [(''/ca.pem'', handleCAPEM)]) handleLanding"

end
