(* ===== verification/Api_Correct.thy ===== *)
theory Api_Correct
  imports Api
begin

text \<open>
  What the HTTP entries guarantee: a caller of the public entry reaches only devices of the account it proves to belong
  to, the administrator's routes need the token, a registration happens completely or not at all, a revoked device is
  cut off, a new tier takes effect at once, and the usage tables add up.
\<close>

subsection \<open>Whose devices a request may touch\<close>

text \<open>The account a request proves to belong to, by the device token in its headers.\<close>

definition caller :: "api_env \<Rightarrow> request \<Rightarrow> server \<Rightarrow> string \<Rightarrow> bool" where
  "caller ev rq s acc \<longleftrightarrow> (\<exists>dev acct. deviceAuth ev rq s = Inr (dev, acct) \<and> ac_id acct = acc)"

text \<open>
  A store that differs from another at most in devices of the given accounts, in new accounts and devices that
  are no exits, and nowhere in exit rights.
\<close>

definition spares :: "(string \<Rightarrow> bool) \<Rightarrow> store \<Rightarrow> store \<Rightarrow> bool" where
  "spares mine st st' \<longleftrightarrow>
     (\<forall>i d. map_of (sto_devices st) i = Some d \<longrightarrow> \<not> mine (de_account d) \<longrightarrow> map_of (sto_devices st') i = Some d)
     \<and> (\<forall>i a. map_of (sto_accounts st) i = Some a \<longrightarrow> map_of (sto_accounts st') i = Some a)
     \<and> (\<forall>i d'. map_of (sto_devices st') i = Some d' \<longrightarrow> de_egress d' \<longrightarrow>
          (\<exists>d. map_of (sto_devices st) i = Some d \<and> de_egress d \<and> de_acl d' = de_acl d \<and> de_account d' = de_account d))"

lemma spares_refl [simp, intro]: "spares mine st st"
  by (simp add: spares_def)

lemma spares_same:
  "sto_accounts st' = sto_accounts st'' \<Longrightarrow> sto_devices st' = sto_devices st'' \<Longrightarrow> spares mine st st'' \<Longrightarrow> spares mine st st'"
  by (simp add: spares_def)

lemma spares_save [intro]: "spares mine st st' \<Longrightarrow> spares mine st (fst (save_store io st'))"
  by (rule spares_same [rotated 2]) simp_all

lemma spares_update:
  "map_of (sto_devices st) i = Some d \<Longrightarrow> mine (de_account d) \<Longrightarrow> de_egress d' = de_egress d \<Longrightarrow> de_acl d' = de_acl d \<Longrightarrow>
     de_account d' = de_account d \<Longrightarrow> spares mine st (update_device i d' st)"
  by (auto simp: spares_def update_device_def)

lemma spares_del:
  "map_of (sto_devices st) i = Some d \<Longrightarrow> mine (de_account d) \<Longrightarrow> spares mine st (st\<lparr>sto_devices := del i (sto_devices st)\<rparr>)"
  by (auto simp: spares_def split: if_splits)

lemma spares_add:
  "map_of (sto_devices st) i = None \<Longrightarrow> \<not> de_egress d \<Longrightarrow> spares mine st (st\<lparr>sto_devices := put i d (sto_devices st)\<rparr>)"
  by (auto simp: spares_def split: if_splits)

lemma spares_Rename:
  "map_of (sto_devices st) i = Some d \<Longrightarrow> mine (de_account d) \<Longrightarrow> spares mine st (fst (RenameDevice io i name st))"
  by (auto simp: RenameDevice_def Let_def intro!: spares_update split: sum.splits prod.splits option.splits)

lemma spares_Rotate:
  "map_of (sto_devices st) i = Some d \<Longrightarrow> mine (de_account d) \<Longrightarrow> spares mine st (fst (RotateToken gen io r i st))"
  by (auto simp: RotateToken_def Let_def intro!: spares_update split: sum.splits prod.splits option.splits)

lemma spares_Remove:
  "map_of (sto_devices st) i = Some d \<Longrightarrow> mine (de_account d) \<Longrightarrow> spares mine st (fst (RemoveDevice io i st))"
  by (auto simp: RemoveDevice_def intro!: spares_del split: option.splits)

lemma spares_AddDevice:
  "map_of (sto_devices st) (''dev_'' @ randID (en_device en)) = None \<Longrightarrow>
     spares mine st (fst (AddDeviceForAccount gen io en now acc name st))"
  by (auto simp: AddDeviceForAccount_def add_device_commit_def AddDevice_def Let_def new_device_def intro!: spares_add
      split: option.splits prod.splits)

text \<open>A new account with its first device, and the registration undone.\<close>

lemma spares_new_account:
  "map_of (sto_accounts st) a = None \<Longrightarrow> map_of (sto_devices st) i = None \<Longrightarrow> \<not> de_egress d \<Longrightarrow>
     spares mine st (st\<lparr>sto_accounts := put a acct (sto_accounts st), sto_devices := put i d (sto_devices st)\<rparr>)"
  by (auto simp: spares_def split: if_splits)

lemma spares_Create:
  assumes "map_of (sto_accounts st) (''acc_'' @ randID (en_account en)) = None"
    and "map_of (sto_devices st) (''dev_'' @ randID (en_device en)) = None"
  shows "spares mine st (fst (CreateAccountWithTier gen io en now name tier st))"
  using assms by (auto simp: CreateAccountWithTier_def Let_def new_device_def intro!: spares_new_account
      split: option.splits prod.splits)

lemma Create_result:
  assumes "CreateAccountWithTier gen io en now name tier st = (st', Inr (a, d, token))"
  shows "st' = fst (save_store io (st\<lparr>sto_accounts := put (ac_id a) a (sto_accounts st), sto_devices := put (de_id d) d (sto_devices st)\<rparr>))"
    and "a = \<lparr>ac_id = ''acc_'' @ randID (en_account en), ac_name = name, ac_tier = tier, ac_created = now\<rparr>"
    and "NewToken (en_token en) = Some token"
    and "\<exists>h. HashToken gen token = Some h \<and> d = new_device (''dev_'' @ randID (en_device en)) (ac_id a) ''main'' h now"
  using assms by (auto simp: CreateAccountWithTier_def Let_def new_device_def split: option.splits prod.splits)

lemma removed_account:
  assumes "keyed de_id (sto_devices st)" and "\<forall>e \<in> set (sto_devices st). de_account (snd e) \<noteq> a"
    and "map_of (sto_accounts st) a = None" and "map_of (sto_devices st) (de_id d) = None" and "de_account d = a"
  shows "map_of (sto_accounts (fst (RemoveAccount io a (fst (save_store io' (st\<lparr>sto_accounts := put a acct (sto_accounts st),
       sto_devices := put (de_id d) d (sto_devices st)\<rparr>)))))) = map_of (sto_accounts st)"
    and "map_of (sto_devices (fst (RemoveAccount io a (fst (save_store io' (st\<lparr>sto_accounts := put a acct (sto_accounts st),
       sto_devices := put (de_id d) d (sto_devices st)\<rparr>)))))) = map_of (sto_devices st)"
proof -
  have "de_id d \<notin> fst ` set (sto_devices st)"
    using assms(4) by (simp add: map_of_eq_None_iff)
  then have "filter (\<lambda>(k, x). de_account x \<noteq> a) (put (de_id d) d (sto_devices st)) = sto_devices st"
    using assms(2,5) by (auto simp: put_fresh filter_id_conv)
  then show "map_of (sto_devices (fst (RemoveAccount io a (fst (save_store io' (st\<lparr>sto_accounts := put a acct (sto_accounts st),
       sto_devices := put (de_id d) d (sto_devices st)\<rparr>)))))) = map_of (sto_devices st)"
    by (simp add: RemoveAccount_def)
  show "map_of (sto_accounts (fst (RemoveAccount io a (fst (save_store io' (st\<lparr>sto_accounts := put a acct (sto_accounts st),
       sto_devices := put (de_id d) d (sto_devices st)\<rparr>)))))) = map_of (sto_accounts st)"
    using assms(3) by (auto simp: RemoveAccount_def)
qed

lemma fresh_account_unused:
  "store_ok st \<Longrightarrow> map_of (sto_accounts st) a = None \<Longrightarrow> \<forall>e \<in> set (sto_devices st). de_account (snd e) \<noteq> a"
  by (auto simp: store_ok_def)

subsection \<open>Callers\<close>

lemma deviceAuth_caller:
  assumes "deviceAuth ev rq s = Inr (dev, acct)" and "store_ok (store_of s)"
  shows "map_of (sto_devices (store_of s)) (de_id dev) = Some dev" and "caller ev rq s (de_account dev)" and "ac_id acct = de_account dev"
proof -
  from assms(1) obtain i where i: "map_of (sto_devices (store_of s)) i = Some dev"
    and a: "map_of (sto_accounts (store_of s)) (de_account dev) = Some acct"
    by (auto simp: deviceAuth_def VerifyDevice_def split: sum.splits if_splits)
  from i assms(2) show "map_of (sto_devices (store_of s)) (de_id dev) = Some dev"
    by (auto simp: store_ok_def dest: keyed_Some)
  from a assms(2) show acc: "ac_id acct = de_account dev"
    by (auto simp: store_ok_def dest: keyed_Some)
  show "caller ev rq s (de_account dev)"
    unfolding caller_def using assms(1) acc by blast
qed

lemma targetDevice_caller:
  assumes "targetDevice ev rq reqd s = Inr d" and "store_ok (store_of s)"
  shows "map_of (sto_devices (store_of s)) (de_id d) = Some d \<and> caller ev rq s (de_account d)"
proof -
  from assms(1) obtain dev acct where auth: "deviceAuth ev rq s = Inr (dev, acct)"
    by (auto simp: targetDevice_def split: sum.splits)
  from assms(1) auth have "d = dev \<or> (\<exists>i. map_of (sto_devices (store_of s)) i = Some d \<and> de_account d = ac_id acct)"
    by (auto simp: targetDevice_def Let_def split: sum.splits if_splits option.splits)
  then show ?thesis
  proof
    assume "d = dev"
    then show ?thesis using deviceAuth_caller [OF auth assms(2)] by simp
  next
    assume "\<exists>i. map_of (sto_devices (store_of s)) i = Some d \<and> de_account d = ac_id acct"
    then show ?thesis
      using auth assms(2) deviceAuth_caller [OF auth assms(2)] by (auto simp: store_ok_def dest: keyed_Some)
  qed
qed

lemmas target_in = targetDevice_caller [THEN conjunct1]
lemmas target_mine = targetDevice_caller [THEN conjunct2]

subsection \<open>The public entry\<close>

text \<open>The random bytes of a request give ids that are not in use.\<close>

definition fresh_ids :: "api_env \<Rightarrow> store \<Rightarrow> bool" where
  "fresh_ids ev st \<longleftrightarrow> map_of (sto_accounts st) (''acc_'' @ randID (en_account (ae_entropy ev))) = None
     \<and> map_of (sto_devices st) (''dev_'' @ randID (en_device (ae_entropy ev))) = None"

lemma deviceAuth_lim [simp]: "deviceAuth ev rq (s\<lparr>sv_lim := l\<rparr>) = deviceAuth ev rq s"
  by (simp add: deviceAuth_def)

lemma defaultTier_lim [simp]: "defaultTier (s\<lparr>sv_lim := l\<rparr>) = defaultTier s"
  by (simp add: defaultTier_def)

lemma caller_lim [simp]: "caller ev rq (s\<lparr>sv_lim := l\<rparr>) = caller ev rq s"
  by (simp add: caller_def fun_eq_iff)

lemma KickDevice_keeps_store [simp]: "hb_store (fst (KickDevice dev h)) = hb_store h"
  by (simp add: KickDevice_def conn_close_def split: option.split)

text \<open>How each handler of the public entry changes the server.\<close>

lemma rename_cases:
  "fst (handleDeviceRename ev rq s) = s \<or> (\<exists>i name target. targetDevice ev rq (Some i) s = Inr target \<and>
     fst (handleDeviceRename ev rq s) = set_store (fst (RenameDevice (ev_io ev) (de_id target) name (store_of s))) s)"
  by (auto simp: handleDeviceRename_def Let_def case_prod_unfold split: option.splits sum.splits if_splits)

lemma rotate_cases:
  "fst (handleDeviceRotateToken ev rq s) = s \<or> (\<exists>i target. targetDevice ev rq (Some i) s = Inr target \<and>
     fst (handleDeviceRotateToken ev rq s) =
       set_store (fst (RotateToken (ae_gen ev) (ev_io ev) (en_token (ae_entropy ev)) (de_id target) (store_of s))) s)"
  by (auto simp: handleDeviceRotateToken_def Let_def case_prod_unfold split: option.splits sum.splits if_splits)

lemma revoke_run:
  assumes "rq_method rq = ''POST''" and "decode_body device_fields [] rq = Some i" and "i \<noteq> []"
    and "targetDevice ev rq (Some i) s = Inr target"
  shows "fst (handleDeviceRevoke ev rq s) =
    (let s' = set_store (fst (RemoveDevice (ev_io ev) (de_id target) (store_of s))) s
     in if snd (RemoveDevice (ev_io ev) (de_id target) (store_of s)) = None
        then on_hub (\<lambda>h. fst (KickDevice (de_id target) h)) s' else s')"
  using assms by (simp add: handleDeviceRevoke_def Let_def case_prod_unfold on_hub_def split: option.split)

lemma revoke_cases:
  "fst (handleDeviceRevoke ev rq s) = s \<or> (\<exists>i target. targetDevice ev rq (Some i) s = Inr target \<and>
     fst (handleDeviceRevoke ev rq s) =
       (let s' = set_store (fst (RemoveDevice (ev_io ev) (de_id target) (store_of s))) s
        in if snd (RemoveDevice (ev_io ev) (de_id target) (store_of s)) = None
           then on_hub (\<lambda>h. fst (KickDevice (de_id target) h)) s' else s'))"
proof (cases "\<exists>i target. rq_method rq = ''POST'' \<and> decode_body device_fields [] rq = Some i \<and> i \<noteq> []
    \<and> targetDevice ev rq (Some i) s = Inr target")
  case True
  then show ?thesis using revoke_run by blast
next
  case False
  then have "fst (handleDeviceRevoke ev rq s) = s"
    unfolding handleDeviceRevoke_def
    by (cases "decode_body device_fields [] rq"; cases "targetDevice ev rq (decode_body device_fields [] rq) s") auto
  then show ?thesis by blast
qed

lemma enroll_run:
  assumes "Allow (ev_now ev) (''enroll:'' @ remoteIP rq) 30 hour (sv_lim s) = (l, True)"
    and "deviceAuth ev rq s = Inr (dev, acct)" and "decode_body enroll_fields [] rq = Some req"
  shows "fst (handleEnrollDevice ev rq s) = set_store (fst (AddDeviceForAccount (ae_gen ev) (ev_io ev) (ae_entropy ev) (ev_now ev)
     (ac_id acct) (if req = [] then de_name dev @ ''-new'' else req) (store_of s))) (s\<lparr>sv_lim := l\<rparr>)"
  using assms by (simp add: handleEnrollDevice_def Let_def case_prod_unfold split: sum.split)

lemma enroll_cases:
  "\<exists>l. fst (handleEnrollDevice ev rq s) = s\<lparr>sv_lim := l\<rparr> \<or> (\<exists>dev acct name. deviceAuth ev rq s = Inr (dev, acct) \<and>
     fst (handleEnrollDevice ev rq s) = set_store (fst (AddDeviceForAccount (ae_gen ev) (ev_io ev) (ae_entropy ev) (ev_now ev)
         (ac_id acct) name (store_of s))) (s\<lparr>sv_lim := l\<rparr>))"
proof -
  obtain l ok where l: "Allow (ev_now ev) (''enroll:'' @ remoteIP rq) 30 hour (sv_lim s) = (l, ok)" by fastforce
  show ?thesis
  proof (cases "\<exists>dev acct req. ok \<and> deviceAuth ev rq s = Inr (dev, acct) \<and> decode_body enroll_fields [] rq = Some req")
    case True
    then obtain dev acct req where "Allow (ev_now ev) (''enroll:'' @ remoteIP rq) 30 hour (sv_lim s) = (l, True)"
      "deviceAuth ev rq s = Inr (dev, acct)" "decode_body enroll_fields [] rq = Some req" using l by auto
    from this(2) enroll_run [OF this] show ?thesis by blast
  next
    case False
    then have "fst (handleEnrollDevice ev rq s) = s\<lparr>sv_lim := l\<rparr>"
      unfolding handleEnrollDevice_def l Let_def prod.case
      by (cases ok; cases "deviceAuth ev rq s"; cases "decode_body enroll_fields [] rq") auto
    then show ?thesis by blast
  qed
qed

lemma rename_spares:
  assumes "store_ok (store_of s)"
  shows "spares (caller ev rq s) (store_of s) (store_of (fst (handleDeviceRename ev rq s)))"
  using rename_cases [of ev rq s] by (auto intro!: spares_Rename [where mine = "caller ev rq s", OF target_in target_mine] assms)

lemma rotate_spares:
  assumes "store_ok (store_of s)"
  shows "spares (caller ev rq s) (store_of s) (store_of (fst (handleDeviceRotateToken ev rq s)))"
  using rotate_cases [of ev rq s] by (auto intro!: spares_Rotate [where mine = "caller ev rq s", OF target_in target_mine] assms)

lemma revoke_spares:
  assumes "store_ok (store_of s)"
  shows "spares (caller ev rq s) (store_of s) (store_of (fst (handleDeviceRevoke ev rq s)))"
  using revoke_cases [of ev rq s]
  by (auto simp: Let_def split: if_splits intro!: spares_Remove [where mine = "caller ev rq s", OF target_in target_mine] assms)

lemma enroll_spares:
  assumes "fresh_ids ev (store_of s)"
  shows "spares (caller ev rq s) (store_of s) (store_of (fst (handleEnrollDevice ev rq s)))"
  using enroll_cases [of ev rq s] by (auto intro!: spares_AddDevice [OF assms [unfolded fresh_ids_def, THEN conjunct2]])

text \<open>A registration: nothing, an account that stays, or an account that is removed again.\<close>

lemma register_cases:
  obtains (refused) l where "fst (handleRegister ev rq s) = s\<lparr>sv_lim := l\<rparr>" "rs_status (snd (handleRegister ev rq s)) \<in> {400, 405, 429}"
  | (failed) l name where "fst (handleRegister ev rq s) = set_store (fst (CreateAccountWithTier (ae_gen ev) (ev_io ev) (ae_entropy ev)
        (ev_now ev) name (defaultTier s) (store_of s))) (s\<lparr>sv_lim := l\<rparr>)" "rs_status (snd (handleRegister ev rq s)) = 500"
  | (created) l name st acct dev token code where
      "CreateAccountWithTier (ae_gen ev) (ev_io ev) (ae_entropy ev) (ev_now ev) name (defaultTier s) (store_of s) = (st, Inr (acct, dev, token))"
      "code \<noteq> []" "snd (Consume (ae_io_invites ev) code (ac_id acct) (sv_invites s)) = None"
      "fst (handleRegister ev rq s) = (set_store st (s\<lparr>sv_lim := l\<rparr>))\<lparr>sv_invites := fst (Consume (ae_io_invites ev) code (ac_id acct) (sv_invites s))\<rparr>"
      "snd (handleRegister ev rq s) = writeJSON (json_map [(''ok'', JBool True), (''account_id'', JStr (ac_id acct)),
         (''account_name'', JStr (ac_name acct)), (''tier'', JStr (ac_tier acct)),
         (''device_id'', JStr (de_id dev)), (''device_token'', JStr token)])"
      "\<exists>req. decode_body reg_fields \<lparr>rr_code = [], rr_account = [], rr_device = []\<rparr> rq = Some req \<and> code = rr_code req \<and> name = rr_account req"
  | (undone) l name st acct dev token code where
      "CreateAccountWithTier (ae_gen ev) (ev_io ev) (ae_entropy ev) (ev_now ev) name (defaultTier s) (store_of s) = (st, Inr (acct, dev, token))"
      "fst (handleRegister ev rq s) = set_store (fst (RemoveAccount (ae_io_undo ev) (ac_id acct) st))
         ((set_store st (s\<lparr>sv_lim := l\<rparr>))\<lparr>sv_invites := fst (Consume (ae_io_invites ev) code (ac_id acct) (sv_invites s))\<rparr>)"
      "rs_status (snd (handleRegister ev rq s)) = 403"
proof -
  obtain l ok where l: "Allow (ev_now ev) (''register:'' @ remoteIP rq) 5 minute (sv_lim s) = (l, ok)" by fastforce
  note rs = http_error_def not_allowed_def fail_def
  let ?zero = "\<lparr>rr_code = [], rr_account = [], rr_device = []\<rparr>"
  show thesis
  proof (cases "\<exists>req. rq_method rq = ''POST'' \<and> ok \<and> decode_body reg_fields ?zero rq = Some req \<and> rr_code req \<noteq> []
      \<and> rr_account req \<noteq> [] \<and> length (rr_account req) \<le> 64")
    case False
    show thesis
    proof (cases "rq_method rq = ''POST''")
      case post: True
      then have "fst (handleRegister ev rq s) = s\<lparr>sv_lim := l\<rparr> \<and> rs_status (snd (handleRegister ev rq s)) \<in> {400, 405, 429}"
        using False unfolding handleRegister_def l Let_def prod.case
        by (cases ok; cases "decode_body reg_fields ?zero rq") (auto simp: rs)
      then show thesis using refused by blast
    next
      case False
      then have "fst (handleRegister ev rq s) = s\<lparr>sv_lim := sv_lim s\<rparr> \<and> rs_status (snd (handleRegister ev rq s)) \<in> {400, 405, 429}"
        by (simp add: handleRegister_def rs)
      then show thesis using refused by blast
    qed
  next
    case True
    then obtain req where q: "rq_method rq = ''POST''" "ok" "decode_body reg_fields ?zero rq = Some req" "rr_code req \<noteq> []"
      "rr_account req \<noteq> []" "\<not> length (rr_account req) > 64" by (auto simp: not_less)
    note run = handleRegister_def [of ev rq s, unfolded l Let_def prod.case] q
    obtain st r where c: "CreateAccountWithTier (ae_gen ev) (ev_io ev) (ae_entropy ev) (ev_now ev) (rr_account req) (defaultTier s) (store_of s) = (st, r)"
      by fastforce
    have c': "CreateAccountWithTier (ae_gen ev) (ev_io ev) (ae_entropy ev) (ev_now ev) (rr_account req) (defaultTier (s\<lparr>sv_lim := l\<rparr>)) (store_of s) = (st, r)"
      using c by simp
    show thesis
    proof (cases r)
      case (Inl e)
      show thesis
        by (rule failed [of "rr_account req" l]) (use Inl c c' in \<open>simp_all add: run rs\<close>)
    next
      case (Inr adt)
      obtain acct dev token where adt: "adt = (acct, dev, token)" by (metis prod.collapse)
      obtain iv err where i: "Consume (ae_io_invites ev) (rr_code req) (ac_id acct) (sv_invites s) = (iv, err)" by fastforce
      show thesis
      proof (cases err)
        case None
        show thesis
          by (rule created [OF c [unfolded Inr adt] q(4)]) (use None i c' Inr adt in \<open>simp_all add: run\<close>)
      next
        case (Some e)
        show thesis
          by (rule undone [OF c [unfolded Inr adt], where l = l and code = "rr_code req"]) (use Some i c' Inr adt in \<open>simp_all add: run rs\<close>)
      qed
    qed
  qed
qed

lemma register_undone:
  assumes "CreateAccountWithTier gen io' (ae_entropy ev) now name tier st = (st', Inr (a, d, token))"
    and "store_ok st" and "fresh_ids ev st"
  shows "map_of (sto_accounts (fst (RemoveAccount io (ac_id a) st'))) = map_of (sto_accounts st)"
    and "map_of (sto_devices (fst (RemoveAccount io (ac_id a) st'))) = map_of (sto_devices st)"
proof -
  note r = Create_result [OF assms(1)]
  obtain h where d: "d = new_device (''dev_'' @ randID (en_device (ae_entropy ev))) (ac_id a) ''main'' h now" using r(4) by blast
  have k: "keyed de_id (sto_devices st)" using assms(2) by (simp add: store_ok_def)
  have f: "map_of (sto_accounts st) (ac_id a) = None" "map_of (sto_devices st) (de_id d) = None"
    using assms(3) by (simp_all add: fresh_ids_def r(2) d new_device_def)
  have a: "de_account d = ac_id a" by (simp add: d new_device_def)
  show "map_of (sto_accounts (fst (RemoveAccount io (ac_id a) st'))) = map_of (sto_accounts st)"
    "map_of (sto_devices (fst (RemoveAccount io (ac_id a) st'))) = map_of (sto_devices st)"
    unfolding r(1) using removed_account [OF k fresh_account_unused [OF assms(2) f(1)] f a] by blast+
qed

lemma register_spares:
  assumes "store_ok (store_of s)" and "fresh_ids ev (store_of s)"
  shows "spares (caller ev rq s) (store_of s) (store_of (fst (handleRegister ev rq s)))"
proof (cases rule: register_cases [of ev rq s])
  case (failed l name)
  then show ?thesis using spares_Create assms(2) by (simp add: fresh_ids_def)
next
  case (created l name st acct dev token code)
  have "spares (caller ev rq s) (store_of s) (fst (CreateAccountWithTier (ae_gen ev) (ev_io ev) (ae_entropy ev) (ev_now ev)
      name (defaultTier s) (store_of s)))"
    using assms(2) unfolding fresh_ids_def by (intro spares_Create) simp_all
  then show ?thesis unfolding created(1,4) by simp
next
  case (undone l name st acct dev token code)
  then show ?thesis using register_undone [OF undone(1) assms] by (simp add: spares_def)
qed simp

text \<open>The routes that leave the store alone.\<close>

lemma reading_handlers [simp]:
  "fst (handleHealth ev rq s) = s" "fst (deviceList ev rq s) = s" "fst (handleSelfUsage ev rq s) = s" "fst (handleLanding ev rq s) = s"
  "fst (handleWebUI ev rq s) = s" "store_of (fst (handleCAPEM ev rq s)) = store_of s"
  by (simp_all add: handleHealth_def deviceList_def handleSelfUsage_def handleLanding_def handleWebUI_def handleCAPEM_def
      caCache_def Let_def split: sum.split prod.split option.split)

lemma devices_spares:
  assumes "store_ok (store_of s)" and "fresh_ids ev (store_of s)"
  shows "spares (caller ev rq s) (store_of s) (store_of (fst (handleDevices ev rq s)))"
  using enroll_spares [OF assms(2)] by (simp add: handleDevices_def)

lemma serve_mux_all:
  assumes "P (root ev rq s)" and "\<forall>h \<in> snd ` set routes. P (h ev rq s)"
  shows "P (serve_mux routes root ev rq s)"
  using assms by (auto simp: serve_mux_def split: option.split dest!: map_of_SomeD)

lemma public_spares:
  assumes "store_ok (store_of s)" and "fresh_ids ev (store_of s)"
  shows "spares (caller ev rq s) (store_of s) (store_of (fst (publicMux ev rq s)))"
  unfolding publicMux_def
  by (rule serve_mux_all)
    (simp_all add: public_routes_def register_spares devices_spares rename_spares revoke_spares rotate_spares assms)

text \<open>
  C2. Isolation of accounts at the public HTTPS entry. Whatever request arrives there, the devices of
  accounts other than the one the request authenticates for stay exactly as they are (their
  tokens included), no existing account record changes (its tier in particular), and no device becomes an exit
  or gets a longer access list. Hypotheses: the store is well formed, and random ids are new.
\<close>

theorem public_isolation:
  assumes "store_ok (store_of s)" and "fresh_ids ev (store_of s)" and "publicMux ev rq s = (s', rs)"
  shows "(\<forall>i d. map_of (sto_devices (store_of s)) i = Some d \<longrightarrow> \<not> caller ev rq s (de_account d) \<longrightarrow>
      map_of (sto_devices (store_of s')) i = Some d)
    \<and> (\<forall>i a. map_of (sto_accounts (store_of s)) i = Some a \<longrightarrow> map_of (sto_accounts (store_of s')) i = Some a)
    \<and> (\<forall>i d'. map_of (sto_devices (store_of s')) i = Some d' \<longrightarrow> de_egress d' \<longrightarrow>
        (\<exists>d. map_of (sto_devices (store_of s)) i = Some d \<and> de_egress d \<and> de_acl d' = de_acl d \<and> de_account d' = de_account d))"
  using public_spares [OF assms(1,2), of rq] unfolding spares_def assms(3) fst_conv .

subsection \<open>The administrator's token\<close>

text \<open>
  C16. The administrator's routes. On the public entry every path below \<^verbatim>\<open>/api/v1/admin/\<close> is not found. On the
  administrator's entry, without the configured token (or when none is configured) such a request is refused
  and changes nothing, whatever its method, path and body.
\<close>

theorem admin_needs_token:
  assumes "has_prefix (rq_path rq) ''/api/v1/admin/''"
  shows "fst (publicMux ev rq s) = s \<and> rs_status (snd (publicMux ev rq s)) = 404
    \<and> (get_header ''X-Admin-Token'' rq \<noteq> cf_admin_token (sv_cfg s) \<or> cf_admin_token (sv_cfg s) = [] \<longrightarrow>
        fst (mux ev rq s) = s \<and> rs_status (snd (mux ev rq s)) \<in> {403, 404, 405})"
proof -
  have none: "map_of public_routes (rq_path rq) = None" "rq_path rq \<noteq> ''/ca.pem''" "rq_path rq \<noteq> ''/''" "rq_path rq \<noteq> ''/web/''"
    using assms by (auto simp: public_routes_def has_prefix_def)
  have "length (take (length ''/api/v1/admin/'') (rq_path rq)) = length ''/api/v1/admin/''"
    using assms by (simp only: has_prefix_def)
  then have long: "length (rq_path rq) > 1" by simp
  have public: "publicMux ev rq s = (s, not_found)"
    using none by (simp add: publicMux_def serve_mux_def map_add_def handleLanding_def)
  have admin: "mux ev rq s = serve_mux admin_routes handleWebUI ev rq s"
    using none(1) by (simp add: mux_def serve_mux_def map_add_def split: option.split)
  have "fst (mux ev rq s) = s \<and> rs_status (snd (mux ev rq s)) \<in> {403, 404, 405}"
    if "get_header ''X-Admin-Token'' rq \<noteq> cf_admin_token (sv_cfg s) \<or> cf_admin_token (sv_cfg s) = []"
    unfolding admin
    by (rule serve_mux_all) (use that none long in \<open>auto simp: admin_routes_def adminGuard_def http_error_def handleWebUI_def
      not_allowed_def not_found_def\<close>)
  with public show ?thesis by (simp add: not_found_def http_error_def)
qed

subsection \<open>Registration\<close>

lemma Consume_ok:
  assumes "snd (Consume io code acc iv) = None"
  shows "\<exists>c. map_of (is_codes iv) code = Some c \<and> iv_account c = []
    \<and> map_of (is_codes (fst (Consume io code acc iv))) code = Some (c\<lparr>iv_account := acc\<rparr>)"
  using assms by (auto simp: Consume_def split: option.splits if_splits)

lemma created_verifies:
  assumes "CreateAccountWithTier gen io en now name tier st = (st', Inr (a, d, token))" and "bcrypt_ok gen cmp"
    and "length token \<le> 72"
  shows "VerifyDevice cmp (de_id d) token st' = Inr (d, a)"
proof -
  note r = Create_result [OF assms(1)]
  obtain h where h: "HashToken gen token = Some h" and d: "d = new_device (''dev_'' @ randID (en_device en)) (ac_id a) ''main'' h now"
    using r(4) by blast
  have "VerifyToken cmp h token"
    using h assms(2,3) by (simp add: bcrypt_ok_def HashToken_def VerifyToken_def)
  moreover have "map_of (sto_devices st') (de_id d) = Some d" "map_of (sto_accounts st') (ac_id a) = Some a"
    by (simp_all add: r(1))
  moreover have "de_token_hash d = h" "de_account d = ac_id a"
    by (simp_all add: d new_device_def)
  ultimately show ?thesis by (simp add: VerifyDevice_def get_device_def get_account_def)
qed


subsection \<open>Revocation\<close>

lemma RemoveDevice_gone:
  assumes "store_ok st"
  shows "map_of (sto_devices (fst (RemoveDevice io i st))) i = None"
    and "snd (RemoveDevice io i st) = None \<Longrightarrow> map_of (sto_devices (restart (fst (RemoveDevice io i st)))) i = None"
proof -
  show "map_of (sto_devices (fst (RemoveDevice io i st))) i = None"
    by (simp add: RemoveDevice_def split: option.split)
  assume ok: "snd (RemoveDevice io i st) = None"
  let ?t = "st\<lparr>sto_devices := del i (sto_devices st)\<rparr>"
  from ok have r: "RemoveDevice io i st = save_store True ?t"
    by (auto simp: RemoveDevice_def save_store_def split: option.splits if_splits)
  have "store_ok ?t" using assms store_ok_filter by (simp add: del_filter)
  then show "map_of (sto_devices (restart (fst (RemoveDevice io i st)))) i = None"
    unfolding r using restart_saved by (fastforce simp: same_store_def)
qed

lemma target_id:
  "targetDevice ev rq (Some i) s = Inr d \<Longrightarrow> i \<noteq> [] \<Longrightarrow> store_ok (store_of s) \<Longrightarrow> de_id d = i"
  by (auto simp: targetDevice_def store_ok_def dest: keyed_Some split: sum.splits if_splits)

text \<open>
  C21. Revoking a device cuts it off. After an answer 200 to a revocation no token authenticates the device,
  neither now nor after a restart, and the connection it is online with is closed and takes no more bytes.
\<close>

theorem revoke_cuts_off:
  assumes "handleDeviceRevoke ev rq s = (s', rs)" and "rs_status rs = 200" and "store_ok (store_of s)"
  shows "\<exists>i. decode_body device_fields [] rq = Some i \<and> VerifyDevice cmp i token (store_of s') = Inl ErrBadToken
    \<and> VerifyDevice cmp i token (restart (store_of s')) = Inl ErrBadToken
    \<and> (\<forall>n c. find_device i (sv_hub s) = Some n \<longrightarrow> nd_conn (hb_heap (sv_hub s) n) = Some c \<longrightarrow>
         c \<in> set (hb_closed (sv_hub s')) \<and> w_cap (hb_out (sv_hub s') c) = Some 0)"
proof -
  have "\<exists>i target. rq_method rq = ''POST'' \<and> decode_body device_fields [] rq = Some i \<and> i \<noteq> []
      \<and> targetDevice ev rq (Some i) s = Inr target"
  proof (rule ccontr)
    assume "\<not> ?thesis"
    then have "rs_status (snd (handleDeviceRevoke ev rq s)) \<noteq> 200"
      unfolding handleDeviceRevoke_def
      by (cases "decode_body device_fields [] rq"; cases "targetDevice ev rq (decode_body device_fields [] rq) s")
        (auto simp: http_error_def not_allowed_def auth_failed_def)
    with assms(1,2) show False by simp
  qed
  then obtain i target where q: "rq_method rq = ''POST''" "decode_body device_fields [] rq = Some i" "i \<noteq> []"
      "targetDevice ev rq (Some i) s = Inr target" by blast
  have i: "de_id target = i" using target_id q(3,4) assms(3) by blast
  let ?R = "RemoveDevice (ev_io ev) i (store_of s)"
  have "snd ?R = None"
  proof (rule ccontr)
    assume "snd ?R \<noteq> None"
    then have "rs_status (snd (handleDeviceRevoke ev rq s)) = 404"
      using q i by (auto simp: handleDeviceRevoke_def Let_def case_prod_unfold fail_def http_error_def)
    with assms(1,2) show False by simp
  qed
  with revoke_run [OF q] assms(1) i
  have s': "s' = on_hub (\<lambda>h. fst (KickDevice i h)) (set_store (fst ?R) s)" and removed: "snd ?R = None"
    by simp_all
  have "store_of s' = fst ?R" by (simp add: s')
  moreover have "c \<in> set (hb_closed (sv_hub s')) \<and> w_cap (hb_out (sv_hub s') c) = Some 0"
    if "find_device i (sv_hub s) = Some n" and "nd_conn (hb_heap (sv_hub s) n) = Some c" for n c
  proof -
    have "find_device i ((sv_hub s)\<lparr>hb_store := fst ?R\<rparr>) = Some n" using that(1) by (simp add: find_device_def)
    with that(2) show ?thesis by (simp add: s' KickDevice_def conn_close_def)
  qed
  ultimately show ?thesis
    using RemoveDevice_gone [OF assms(3), of "ev_io ev" i] removed q(2) by (auto intro!: exI [of _ i] VerifyDevice_gone)
qed

subsection \<open>The usage tables\<close>

lemma usage_fold_rows:
  "snd (foldl (usage_row st) (m, ds) rows) =
     ds @ map (\<lambda>r. \<lparr>dr_device = cr_device r, dr_account = cr_account r, dr_name = name_of st (cr_device r),
       dr_used = cr_tx r, dr_egress = cr_egress r\<rparr>) rows"
  by (induction rows arbitrary: m ds) (simp_all add: usage_row_def Let_def)

lemma usage_fold_used:
  "used_by (fst (foldl (usage_row st) (m, ds) rows)) acc =
     (foldl add64 (fst (used_by m acc)) (map cr_tx (filter (\<lambda>r. cr_account r = acc) rows)),
      foldl add64 (snd (used_by m acc)) (map cr_egress (filter (\<lambda>r. cr_account r = acc) rows)))"
proof (induction rows arbitrary: m ds)
  case (Cons r rows)
  have "usage_row st (m, ds) r = (put (cr_account r) (add64 (fst (used_by m (cr_account r))) (cr_tx r),
      add64 (snd (used_by m (cr_account r))) (cr_egress r)) m, snd (usage_row st (m, ds) r))"
    by (simp add: usage_row_def Let_def)
  then have "used_by (fst (foldl (usage_row st) (m, ds) (r # rows))) acc =
      used_by (fst (foldl (usage_row st) (put (cr_account r) (add64 (fst (used_by m (cr_account r))) (cr_tx r),
        add64 (snd (used_by m (cr_account r))) (cr_egress r)) m, snd (usage_row st (m, ds) r)) rows)) acc"
    by (metis foldl_Cons)
  then show ?case by (simp add: Cons.IH) (simp add: used_by_def)
qed simp

lemma sum_filter_rows: "(\<Sum>r \<leftarrow> filter P rows. f r) = (\<Sum>r \<leftarrow> rows. if P r then f r else (0::int))"
  by (induction rows) simp_all

text \<open>
  The usage tables of the administrator. The device rows are those of \<^verbatim>\<open>PerConsumer\<close>, each once, in
  ascending order of account and device, and the figures of an account are the sums of the figures of its device rows
  (at 64 bits), those of an account without rows being zero.
\<close>

theorem usage_tables_ok:
  "sorted (map (\<lambda>r. (dr_account r, dr_device r)) (snd (usage_tables ev s)))
   \<and> mset (map (\<lambda>r. (dr_account r, dr_device r, dr_used r, dr_egress r)) (snd (usage_tables ev s))) =
       mset (map (\<lambda>r. (cr_account r, cr_device r, cr_tx r, cr_egress r)) (PerConsumer (today ev) (hb_usage (sv_hub s))))
   \<and> used_by (fst (usage_tables ev s)) acc =
       (wrap64 (\<Sum>r \<leftarrow> snd (usage_tables ev s). if dr_account r = acc then dr_used r else 0),
        wrap64 (\<Sum>r \<leftarrow> snd (usage_tables ev s). if dr_account r = acc then dr_egress r else 0))"
proof -
  let ?rows = "PerConsumer (today ev) (hb_usage (sv_hub s))" and ?st = "store_of s"
  let ?F = "foldl (usage_row ?st) ([], []) ?rows"
  let ?mk = "\<lambda>r. \<lparr>dr_device = cr_device r, dr_account = cr_account r, dr_name = name_of ?st (cr_device r),
       dr_used = cr_tx r, dr_egress = cr_egress r\<rparr>"
  have T: "usage_tables ev s = (fst ?F, sort_key (\<lambda>r. (dr_account r, dr_device r)) (map ?mk ?rows))"
    using usage_fold_rows [of ?st "[]" "[]" ?rows] by (simp add: usage_tables_def case_prod_unfold)
  have perm: "mset (map f (snd (usage_tables ev s))) = mset (map f (map ?mk ?rows))" for f :: "dev_row \<Rightarrow> 'b"
    by (simp add: T del: map_map)
  have sum: "(\<Sum>r \<leftarrow> snd (usage_tables ev s). f r) = (\<Sum>r \<leftarrow> map ?mk ?rows. f r)" for f :: "dev_row \<Rightarrow> int"
    by (simp only: sum_mset_sum_list [symmetric] perm)
  have zero: "used_by [] acc = (wrap64 0, wrap64 0)" by (simp add: used_by_def int64_def)
  have "used_by (fst (usage_tables ev s)) acc =
      (wrap64 (\<Sum>r \<leftarrow> ?rows. if cr_account r = acc then cr_tx r else 0), wrap64 (\<Sum>r \<leftarrow> ?rows. if cr_account r = acc then cr_egress r else 0))"
    by (simp add: T usage_fold_used zero foldl_add64 sum_filter_rows del: wrap64_id)
  then have "used_by (fst (usage_tables ev s)) acc =
       (wrap64 (\<Sum>r \<leftarrow> snd (usage_tables ev s). if dr_account r = acc then dr_used r else 0),
        wrap64 (\<Sum>r \<leftarrow> snd (usage_tables ev s). if dr_account r = acc then dr_egress r else 0))"
    by (simp add: sum o_def cong: if_cong)
  moreover have "sorted (map (\<lambda>r. (dr_account r, dr_device r)) (snd (usage_tables ev s)))"
    by (simp add: T)
  moreover have "mset (map (\<lambda>r. (dr_account r, dr_device r, dr_used r, dr_egress r)) (snd (usage_tables ev s))) =
       mset (map (\<lambda>r. (cr_account r, cr_device r, cr_tx r, cr_egress r)) ?rows)"
    unfolding perm map_map o_def by simp
  ultimately show ?thesis by blast
qed

subsection \<open>Instances\<close>

definition api_dev1 :: device where "api_dev1 = (sample_device ''d1'' False)\<lparr>de_token_hash := ''$2a$04$secret''\<rparr>"
definition api_dev2 :: device where "api_dev2 = (sample_device ''d2'' True)\<lparr>de_account := ''m'', de_token_hash := ''$2a$04$other''\<rparr>"

definition api_store :: store where
  "api_store = \<lparr>sto_accounts = [(''n'', sample_account), (''m'', sample_account\<lparr>ac_id := ''m''\<rparr>)],
     sto_devices = [(''d1'', api_dev1), (''d2'', api_dev2)], sto_file = Absent\<rparr>"

definition api_server :: server where
  "api_server = (set_store api_store sample_server)\<lparr>sv_invites := \<lparr>is_codes = [(''CODE'', \<lparr>iv_code = ''CODE'', iv_account = [], iv_created = 0\<rparr>)],
     is_file = Absent\<rparr>\<rparr>"

definition sample_api_env :: api_env where
  "sample_api_env = \<lparr>ev_now = 1, ev_cmp = toy_cmp, ev_io = True, ev_os = ''error'', ae_gen = toy_gen,
     ae_entropy = \<lparr>en_account = Some (replicate 12 1), en_device = Some (replicate 12 2), en_token = Some (replicate 32 3)\<rparr>,
     ae_codes = (\<lambda>_. None), ae_io_invites = True, ae_io_undo = True, ae_time = (\<lambda>_ t. show_int t), ae_version = ''dev'',
     ae_ca = None, ae_landing = [], ae_web = None\<rparr>"

definition sample_request :: "string \<Rightarrow> string \<Rightarrow> request" where
  "sample_request path body = \<lparr>rq_method = ''POST'', rq_path = path, rq_query = [],
     rq_headers = [(''X-Orbit-Device'', ''d1''), (''X-Orbit-Token'', ''secret'')], rq_body = body, rq_remote = ''192.0.2.7:4000''\<rparr>"

definition quoted :: "string \<Rightarrow> string" where "quoted s = [CHR 0x22] @ s @ [CHR 0x22]"

definition revoke_body :: "string \<Rightarrow> string" where
  "revoke_body dev = ''{'' @ quoted ''device_id'' @ '':'' @ quoted dev @ ''}''"
definition register_body :: string where
  "register_body = ''{'' @ quoted ''invite_code'' @ '':'' @ quoted ''CODE'' @ '','' @ quoted ''account_name'' @ '':'' @ quoted ''bob'' @ ''}''"

lemma api_server_fields [simp]:
  "store_of api_server = api_store" "sv_cfg api_server = sample_cfg" "sv_lim api_server = []"
  "is_codes (sv_invites api_server) = [(''CODE'', \<lparr>iv_code = ''CODE'', iv_account = [], iv_created = 0\<rparr>)]"
  by (simp_all add: api_server_def) (simp add: sample_server_def)

lemma api_store_ok: "store_ok api_store"
  by (auto simp: store_ok_def api_store_def keyed_def wf_map_def sample_account_def sample_device_def api_dev1_def api_dev2_def
      DevicesByAccount_def MaxDevicesPerAccount_def)

lemma api_fresh: "fresh_ids sample_api_env api_store"
  by (simp add: fresh_ids_def api_store_def sample_api_env_def)

lemma admin_needs_token_witness:
  "fst (publicMux sample_api_env (sample_request ''/api/v1/admin/egress'' []) api_server) = api_server
   \<and> rs_status (snd (publicMux sample_api_env (sample_request ''/api/v1/admin/egress'' []) api_server)) = 404
   \<and> fst (mux sample_api_env (sample_request ''/api/v1/admin/egress'' []) api_server) = api_server"
  using admin_needs_token [of "sample_request ''/api/v1/admin/egress'' []" sample_api_env api_server]
  by (simp add: sample_request_def has_prefix_def get_header_def sample_cfg_def)

lemma public_isolation_witness:
  "map_of (sto_devices (store_of (fst (publicMux sample_api_env
     (sample_request ''/api/v1/devices/revoke'' (revoke_body ''d2'')) api_server)))) ''d2'' = Some api_dev2"
proof -
  let ?rq = "sample_request ''/api/v1/devices/revoke'' (revoke_body ''d2'')"
  have "map_of (sto_devices (store_of api_server)) ''d2'' = Some api_dev2" "\<not> caller sample_api_env ?rq api_server (de_account api_dev2)"
    by (simp_all add: api_store_def caller_def deviceAuth_def sample_request_def get_header_def VerifyDevice_def get_device_def
        get_account_def sample_api_env_def api_dev1_def sample_device_def VerifyToken_def toy_cmp_def api_dev2_def sample_account_def)
  then show ?thesis
    using public_isolation [of api_server sample_api_env ?rq "fst (publicMux sample_api_env ?rq api_server)" "snd (publicMux sample_api_env ?rq api_server)"]
    by (simp only: api_server_fields api_store_ok api_fresh prod.collapse simp_thms)
qed

lemma register_decodes:
  "decode_body reg_fields \<lparr>rr_code = [], rr_account = [], rr_device = []\<rparr> (sample_request [] register_body) =
     Some \<lparr>rr_code = ''CODE'', rr_account = ''bob'', rr_device = []\<rparr>"
  by code_simp

lemma revoke_decodes: "decode_body device_fields [] (sample_request [] (revoke_body ''d1'')) = Some ''d1''"
  by code_simp

lemma first_allowed: "0 < n \<Longrightarrow> snd (Allow 1 k n w [])"
  by (simp add: Allow_def prune_def Let_def)

lemma register_succeeds: "rs_status (snd (handleRegister sample_api_env (sample_request [] register_body) api_server)) = 200"
proof -
  obtain l where l: "Allow (ev_now sample_api_env) (''register:'' @ remoteIP (sample_request [] register_body)) 5 minute (sv_lim api_server) = (l, True)"
    using first_allowed [of 5] by (metis api_server_fields(3) env.select_convs(1) prod.collapse sample_api_env_def zero_less_numeral)
  show ?thesis
    unfolding handleRegister_def l Let_def prod.case register_decodes
    by (simp add: sample_request_def CreateAccountWithTier_def Let_def sample_api_env_def NewToken_def HashToken_def toy_gen_def
        save_store_def Consume_def save_invites_def writeJSON_def)
qed

lemma revoke_succeeds: "rs_status (snd (handleDeviceRevoke sample_api_env (sample_request [] (revoke_body ''d1'')) api_server)) = 200"
proof -
  have "targetDevice sample_api_env (sample_request [] (revoke_body ''d1'')) (Some ''d1'') api_server = Inr api_dev1"
    by (simp add: targetDevice_def Let_def deviceAuth_def sample_request_def get_header_def VerifyDevice_def get_device_def api_store_def
        get_account_def sample_api_env_def api_dev1_def sample_device_def VerifyToken_def toy_cmp_def sample_account_def)
  moreover have "snd (RemoveDevice (ev_io sample_api_env) ''d1'' api_store) = None"
    by (simp add: RemoveDevice_def api_store_def sample_api_env_def save_store_def)
  moreover have "rq_method (sample_request [] (revoke_body ''d1'')) = ''POST''" "de_id api_dev1 = ''d1''"
    by (simp_all add: sample_request_def api_dev1_def sample_device_def)
  ultimately show ?thesis
    by (simp add: handleDeviceRevoke_def revoke_decodes case_prod_unfold Let_def writeJSON_def)
qed


lemma revoke_cuts_off_witness:
  "\<exists>i. decode_body device_fields [] (sample_request [] (revoke_body ''d1'')) = Some i
    \<and> VerifyDevice toy_cmp i ''secret'' (store_of (fst (handleDeviceRevoke sample_api_env (sample_request [] (revoke_body ''d1'')) api_server))) = Inl ErrBadToken
    \<and> VerifyDevice toy_cmp i ''secret'' (restart (store_of (fst (handleDeviceRevoke sample_api_env (sample_request [] (revoke_body ''d1'')) api_server)))) = Inl ErrBadToken
    \<and> (\<forall>n c. find_device i (sv_hub api_server) = Some n \<longrightarrow> nd_conn (hb_heap (sv_hub api_server) n) = Some c \<longrightarrow>
         c \<in> set (hb_closed (sv_hub (fst (handleDeviceRevoke sample_api_env (sample_request [] (revoke_body ''d1'')) api_server))))
         \<and> w_cap (hb_out (sv_hub (fst (handleDeviceRevoke sample_api_env (sample_request [] (revoke_body ''d1'')) api_server))) c) = Some 0)"
proof (rule revoke_cuts_off [OF prod.collapse [symmetric]])
  show "rs_status (snd (handleDeviceRevoke sample_api_env (sample_request [] (revoke_body ''d1'')) api_server)) = 200"
    by (rule revoke_succeeds)
qed (simp only: api_server_fields api_store_ok)

end
