(* ===== verification/Orbit_System.thy ===== *)
theory Orbit_System
  imports Api_Correct
begin

text \<open>
  The running server as a whole: connections, their frames, the two HTTP entries, the saving of usage and the stop,
  interleaved in any order. One step is one undisturbed call: a handshake, a round of a data loop, the end of a loop, the
  close of a connection, a request. Every run of the system is a run of the hub, of the account store and of the invite
  store, so what is proved of the components holds of the server.
\<close>

subsection \<open>What leaves the account store alone\<close>

lemma conn_store [simp]:
  "hb_store (fst (conn_write c bs h)) = hb_store h" "hb_store (fst (conn_frame c ty pl h)) = hb_store h"
  "hb_store (conn_close c h) = hb_store h" "hb_store (set_node i nd h) = hb_store h"
  by (simp_all add: conn_write_def conn_frame_def conn_close_def set_node_def Let_def case_prod_unfold)

lemma fold_frames_store [simp]: "hb_store (fold (\<lambda>c h. fst (conn_frame c ty pl h)) cs h) = hb_store h"
  by (induction cs arbitrary: h) simp_all

lemma notice_store [simp]:
  "hb_store (sendQuotaNotice now i h) = hb_store h" "hb_store (fold (sendQuotaNotice now) is h) = hb_store h"
proof -
  show "hb_store (sendQuotaNotice now i h) = hb_store h" for i h by (simp add: sendQuotaNotice_def Let_def)
  then show "hb_store (fold (sendQuotaNotice now) is h) = hb_store h" by (induction "is" arbitrary: h) simp_all
qed

lemma hub_store [simp]:
  "hb_store (broadcastCtrl net m x h) = hb_store h" "hb_store (NotifyPeerJoined net i h) = hb_store h"
  "hb_store (QuotaNotifyAccount now acc h) = hb_store h" "hb_store (removeLocked i h) = hb_store h"
  "hb_store (Unregister node h) = hb_store h" "hb_store (fst (UpdateEgress dev en acl h)) = hb_store h"
  "hb_store (fst (KickDevice dev h)) = hb_store h" "hb_store (evict net ip dev h) = hb_store h"
  "hb_store (insert_node nd h) = hb_store h"
  by (simp_all add: broadcastCtrl_def NotifyPeerJoined_def QuotaNotifyAccount_def removeLocked_def Unregister_def UpdateEgress_def
      KickDevice_def evict_def insert_node_def Let_def split: option.split)

lemma Register_store: "Register io now net dev acct hello rw remote h = (h', r) \<Longrightarrow> hb_store h' = hb_store h"
  by (auto simp: Register_def Let_def split: prod.splits sum.splits)

lemma Relay_store [simp]: "hb_store (fst (Relay now p src h)) = hb_store h"
proof -
  obtain h' r where R: "Relay now p src h = (h', r)" by fastforce
  then have "hb_store h' = hb_store h"
  proof (cases rule: Relay_cases)
    case (passed dst acc dev egr eg h1 h2 ok1 ok2)
    then show ?thesis
      by (auto simp: conn_write_def count_relayed_def set_node_def Let_def split: prod.splits if_splits)
  qed (simp_all split: if_splits)
  then show ?thesis by (simp add: R)
qed

lemma sendReject_store [simp]: "hb_store (sendReject c reason h) = hb_store h"
  by (simp add: sendReject_def)

lemma handshake_store:
  assumes "handshake ev c remote input s = (s', r)"
  shows "store_of s' = store_of s \<or> (\<exists>i. store_of s' = MarkSeen (ev_now ev) i (store_of s))"
  using assms
proof (cases rule: handshake_cases)
  case (stopped reason)
  then show ?thesis by auto
next
  case (authenticated payload rest msg hello dev acct)
  obtain h x where reg: "Register (ev_io ev) (ev_now ev) (ac_id acct) dev acct hello c remote (sv_hub s) = (h, x)" by fastforce
  have h: "hb_store h = store_of s" using Register_store [OF reg] .
  show ?thesis
  proof (cases x)
    case (Inl e)
    then show ?thesis using authenticated(6) reg h by simp
  next
    case (Inr wn)
    obtain w node where wn: "wn = (w, node)" by fastforce
    obtain h2 e where fr: "conn_frame c FrameCtrl (EncodeCtrl ((ctrl MsgWelcome)\<lparr>cm_welcome := Some w\<rparr>)) h = (h2, e)" by fastforce
    have "hb_store h2 = store_of s" unfolding conn_frame_fst [OF fr] by (simp add: h)
    then show ?thesis
      using authenticated(6) reg Inr wn fr by (cases e) (auto simp: Let_def)
  qed
qed

lemma handshake_rest:
  "handshake ev c remote input s = (s', r) \<Longrightarrow> sv_cfg s' = sv_cfg s \<and> sv_invites s' = sv_invites s"
  by (auto simp: handshake_def Let_def split: prod.splits if_splits sum.splits option.splits)

subsection \<open>Moves of the components\<close>

text \<open>
  A state of the server that another can come to by steps of its hub, its account store and its invite store, under the
  same configuration.
\<close>

definition evolves :: "bcrypt_gen \<Rightarrow> server \<Rightarrow> server \<Rightarrow> bool" where
  "evolves gen s s' \<longleftrightarrow> hub_steps (sv_hub s) (sv_hub s') \<and> reach ((=) (store_of s)) (store_step gen) (store_of s')
     \<and> reach ((=) (sv_invites s)) invite_step (sv_invites s') \<and> sv_cfg s' = sv_cfg s"

lemma reach_refl [simp, intro]: "reach ((=) s) step s"
  by (rule reach_init) simp

lemma evolves_refl [simp, intro]: "evolves gen s s"
  by (simp add: evolves_def)

lemma evolves_trans [trans]: "evolves gen s s' \<Longrightarrow> evolves gen s' s'' \<Longrightarrow> evolves gen s s''"
  by (auto simp: evolves_def intro: reach_trans)

lemma evolves_rest [simp]:
  "evolves gen s (s'\<lparr>sv_lim := l\<rparr>) = evolves gen s s'" "evolves gen s (s'\<lparr>sv_ca := ca\<rparr>) = evolves gen s s'"
  "evolves gen s (s'\<lparr>sv_closed := b\<rparr>) = evolves gen s s'"
  by (simp_all add: evolves_def)

lemma evolves_store:
  "evolves gen s s' \<Longrightarrow> store_step gen (store_of s') st \<Longrightarrow> evolves gen s (set_store st s')"
  by (auto simp: evolves_def intro: reach_step hub_steps_trans [OF _ hub_steps_step [OF hs_store]])

lemma evolves_hub:
  "evolves gen s s' \<Longrightarrow> hub_step (sv_hub s') h \<Longrightarrow> hb_store h = store_of s' \<Longrightarrow> evolves gen s (s'\<lparr>sv_hub := h\<rparr>)"
  by (auto simp: evolves_def intro: reach_step)

lemma evolves_on_hub:
  "evolves gen s s' \<Longrightarrow> hub_step (sv_hub s') (f (sv_hub s')) \<Longrightarrow> hb_store (f (sv_hub s')) = store_of s' \<Longrightarrow> evolves gen s (on_hub f s')"
  unfolding on_hub_def by (rule evolves_hub)

lemma evolves_invites:
  "evolves gen s s' \<Longrightarrow> invite_step (sv_invites s') iv \<Longrightarrow> evolves gen s (s'\<lparr>sv_invites := iv\<rparr>)"
  by (auto simp: evolves_def intro: reach_step)

text \<open>The shape of most handlers that write: a change of the store, and when that succeeds a change of the hub.\<close>

definition commit_then :: "store \<times> store_error option \<Rightarrow> (hub \<Rightarrow> hub) \<Rightarrow> server \<Rightarrow> server" where
  "commit_then r f s = (if snd r = None then on_hub f (set_store (fst r) s) else set_store (fst r) s)"

lemma commit_evolves:
  assumes "store_step gen (store_of s) (fst r)" and "\<And>h. hub_step h (f h)" and "\<And>h. hb_store (f h) = hb_store h"
  shows "evolves gen s (commit_then r f s)"
  unfolding commit_then_def using assms by (auto intro!: evolves_store evolves_on_hub)

subsection \<open>What each handler does\<close>

text \<open>Random ids and codes are new: what \<^verbatim>\<open>crypto/rand\<close> is relied on for.\<close>

definition fresh :: "api_env \<Rightarrow> server \<Rightarrow> bool" where
  "fresh ev s \<longleftrightarrow> fresh_ids ev (store_of s) \<and> (\<forall>i < 1000. randInviteCode (ae_codes ev i) \<notin> fst ` set (is_codes (sv_invites s)))"

lemma register_evolves:
  assumes "fresh ev s"
  shows "evolves (ae_gen ev) s (fst (handleRegister ev rq s))"
proof -
  have new: "map_of (sto_accounts (store_of s)) (''acc_'' @ randID (en_account (ae_entropy ev))) = None"
    using assms by (simp add: fresh_def fresh_ids_def)
  note create = step_create [OF new, of "ae_gen ev" "ev_io ev" "ev_now ev"]
  show ?thesis
  proof (cases rule: register_cases [of ev rq s])
    case (refused l)
    then show ?thesis by simp
  next
    case (failed l name)
    then show ?thesis by (simp add: evolves_store create)
  next
    case (created l name st acct dev token code)
    have "evolves (ae_gen ev) s (set_store st (s\<lparr>sv_lim := l\<rparr>))"
      using create [of name "defaultTier s"] unfolding created(1) by (intro evolves_store) simp_all
    then show ?thesis unfolding created(4) by (intro evolves_invites) (simp_all add: iv_consume)
  next
    case (undone l name st acct dev token code)
    have "evolves (ae_gen ev) s (set_store st (s\<lparr>sv_lim := l\<rparr>))"
      using create [of name "defaultTier s"] unfolding undone(1) by (intro evolves_store) simp_all
    then show ?thesis unfolding undone(2)
      by (rule evolves_store [OF evolves_invites]) (simp_all add: iv_consume step_remove_account)
  qed
qed

lemma enroll_evolves: "evolves (ae_gen ev) s (fst (handleEnrollDevice ev rq s))"
  using enroll_cases [of ev rq s] by (auto intro!: evolves_store step_add_device)

lemma rename_evolves: "evolves gen s (fst (handleDeviceRename ev rq s))"
  using rename_cases [of ev rq s] by (auto intro!: evolves_store step_rename)

lemma rotate_evolves: "evolves (ae_gen ev) s (fst (handleDeviceRotateToken ev rq s))"
  using rotate_cases [of ev rq s] by (auto intro!: evolves_store step_rotate)

lemma revoke_evolves: "evolves gen s (fst (handleDeviceRevoke ev rq s))"
  using revoke_cases [of ev rq s] commit_evolves [OF step_remove_device hs_kick hub_store(7)]
  by (auto simp: Let_def commit_then_def)

lemma devices_evolves: "evolves (ae_gen ev) s (fst (handleDevices ev rq s))"
  by (simp add: handleDevices_def enroll_evolves)

lemma CAPEM_evolves: "evolves gen s (fst (handleCAPEM ev rq s))"
  by (simp add: handleCAPEM_def caCache_def split: option.split)

text \<open>A handler behind the guard does nothing or what it does without it.\<close>

lemma guard_evolves: "evolves gen s (fst (h ev rq s)) \<Longrightarrow> evolves gen s (fst (adminGuard h ev rq s))"
  using admin_guard_cases [of h ev rq s] by auto

lemma admin_reading [simp]:
  "fst (handleAdminAccounts ev rq s) = s" "fst (handleAdminClients ev rq s) = s" "fst (handleAdminUsage ev rq s) = s"
  "fst (handleAdminUsages ev rq s) = s" "fst (handleAdminDevices ev rq s) = s"
  by (simp_all add: handleAdminAccounts_def handleAdminClients_def handleAdminUsage_def handleAdminUsages_def handleAdminDevices_def
      Let_def case_prod_unfold)

lemma tier_evolves: "evolves gen s (fst (handleAdminSetTier ev rq s))"
proof (cases "decode_body tier_fields ([], []) rq")
  case (Some at)
  obtain acc tier where at: "at = (acc, tier)" by fastforce
  have "fst (handleAdminSetTier ev rq s) = s \<or> fst (handleAdminSetTier ev rq s) =
      commit_then (SetAccountTier (ev_io ev) acc tier (store_of s)) (QuotaNotifyAccount (ev_now ev) acc) s"
    by (auto simp: handleAdminSetTier_def Some at Let_def case_prod_unfold commit_then_def split: option.split)
  then show ?thesis using commit_evolves [OF step_tier hs_notify hub_store(3)] by auto
qed (simp add: handleAdminSetTier_def)

lemma admin_revoke_evolves: "evolves gen s (fst (handleAdminRevokeDevice ev rq s))"
proof (cases "decode_body device_fields [] rq")
  case (Some i)
  have "fst (handleAdminRevokeDevice ev rq s) = s \<or> fst (handleAdminRevokeDevice ev rq s) =
      commit_then (RemoveDevice (ev_io ev) i (store_of s)) (\<lambda>h. fst (KickDevice i h)) s"
    by (auto simp: handleAdminRevokeDevice_def Some Let_def case_prod_unfold commit_then_def on_hub_def split: option.split)
  then show ?thesis using commit_evolves [OF step_remove_device hs_kick hub_store(7)] by auto
qed (simp add: handleAdminRevokeDevice_def)

lemma admin_add_evolves: "evolves (ae_gen ev) s (fst (handleAdminAddDevice ev rq s))"
proof -
  have "fst (handleAdminAddDevice ev rq s) = s \<or> (\<exists>acc name. fst (handleAdminAddDevice ev rq s) =
      set_store (fst (AddDeviceForAccount (ae_gen ev) (ev_io ev) (ae_entropy ev) (ev_now ev) acc name (store_of s))) s)"
    by (auto simp: handleAdminAddDevice_def Let_def case_prod_unfold split: option.splits sum.splits)
  then show ?thesis by (auto intro!: evolves_store step_add_device)
qed

lemma remove_invite_evolves: "evolves gen s (fst (handleAdminRemoveInvite ev rq s))"
proof -
  have "fst (handleAdminRemoveInvite ev rq s) = s \<or> (\<exists>code. fst (handleAdminRemoveInvite ev rq s) =
      s\<lparr>sv_invites := fst (RemoveInvite (ae_io_invites ev) code (sv_invites s))\<rparr>)"
    by (auto simp: handleAdminRemoveInvite_def Let_def case_prod_unfold split: option.splits)
  then show ?thesis by (auto intro!: evolves_invites iv_remove)
qed

lemma invite_count_le: "invite_count v \<le> 1000"
  by (auto simp: invite_count_def split: option.split)

lemma invites_evolves:
  assumes "fresh ev s"
  shows "evolves gen s (fst (handleAdminInvites ev rq s))"
proof -
  have "invite_step (sv_invites s) (fst (Generate (ae_io_invites ev) (invite_count v) (ae_codes ev) (ev_now ev) (sv_invites s)))" for v
    using assms invite_count_le [of v] by (intro iv_generate) (auto simp: fresh_def)
  then show ?thesis
    by (auto simp: handleAdminInvites_def Let_def case_prod_unfold intro!: evolves_invites split: sum.split)
qed

lemma egress_evolves: "evolves gen s (fst (handleAdminEgress ev rq s))"
proof (cases "decode_body egress_fields \<lparr>er_device = [], er_enabled = False, er_accounts = []\<rparr> rq")
  case (Some req)
  have "fst (handleAdminEgress ev rq s) = s \<or> fst (handleAdminEgress ev rq s) =
      commit_then (SetDeviceEgress (ev_io ev) (er_device req) (er_enabled req) (er_accounts req) (store_of s))
        (\<lambda>h. fst (UpdateEgress (er_device req) (er_enabled req) (er_accounts req) h)) s"
    by (auto simp: handleAdminEgress_def Some Let_def case_prod_unfold commit_then_def split: option.split)
  then show ?thesis using commit_evolves [OF step_egress hs_egress hub_store(6)] by auto
qed (simp add: handleAdminEgress_def)

lemmas handler_evolves = register_evolves devices_evolves rename_evolves revoke_evolves rotate_evolves CAPEM_evolves guard_evolves
  tier_evolves admin_revoke_evolves admin_add_evolves remove_invite_evolves invites_evolves egress_evolves

lemma request_evolves:
  assumes "fresh ev s"
  shows "evolves (ae_gen ev) s (fst (publicMux ev rq s))" and "evolves (ae_gen ev) s (fst (mux ev rq s))"
  unfolding publicMux_def mux_def
  by (rule serve_mux_all; simp add: public_routes_def admin_routes_def handler_evolves assms)+

subsection \<open>Runs of the system\<close>

inductive sys_step :: "bcrypt_gen \<Rightarrow> server \<Rightarrow> server \<Rightarrow> bool" for gen where
  sy_handshake: "handshake ev c remote input s = (s', r) \<Longrightarrow> sys_step gen s s'"
| sy_frame: "node < hb_new (sv_hub s) \<Longrightarrow> sys_step gen s (on_hub (data_step now c node f) s)"
| sy_end: "sys_step gen s (on_hub (Unregister (Some node)) s)"
| sy_closed: "sys_step gen s (on_hub (conn_close c) s)"
| sy_public: "fresh ev s \<Longrightarrow> ae_gen ev = gen \<Longrightarrow> sys_step gen s (fst (publicMux ev rq s))"
| sy_admin: "fresh ev s \<Longrightarrow> ae_gen ev = gen \<Longrightarrow> sys_step gen s (fst (mux ev rq s))"
| sy_save: "sys_step gen s (fst (Save io s))"
| sy_stop: "sys_step gen s (Close s)"

text \<open>A server that has started: on whatever the files held, as long as they hold what a server writes.\<close>

definition sys_start :: "nat \<Rightarrow> server \<Rightarrow> bool" where
  "sys_start n s \<longleftrightarrow> (\<exists>now cfg dk. NewServer now cfg dk = Inr s) \<and> store_inv (store_of s) \<and> ls_ok n (hb_leases (sv_hub s))
     \<and> invites_ok (sv_invites s)"

lemma data_step_one: "node < hb_new h \<Longrightarrow> data_step now c node f h = h \<or> hub_step h (data_step now c node f h)"
  by (auto simp: data_step_def intro: hub_step.intros)

lemma data_step_store [simp]: "hb_store (data_step now c node f h) = hb_store h"
  by (simp add: data_step_def)

lemma evolves_frame: "node < hb_new (sv_hub s) \<Longrightarrow> evolves gen s (on_hub (data_step now c node f) s)"
  using data_step_one [of node "sv_hub s" now c f]
  by (auto simp: evolves_on_hub) (simp add: on_hub_def)

lemma evolves_handshake:
  assumes "handshake ev c remote input s = (s', r)"
  shows "evolves gen s s'"
proof -
  have "reach ((=) (store_of s)) (store_step gen) (MarkSeen now i (store_of s))" for now i
    by (rule reach_step [OF reach_refl], rule step_seen)
  then show ?thesis
    unfolding evolves_def using handshake_steps [OF assms] handshake_rest [OF assms] handshake_store [OF assms] by auto
qed

lemma evolves_save: "evolves gen s (fst (Save io s))"
  by (auto simp: Save_def case_prod_unfold Let_def intro!: evolves_hub hs_usage)

lemma sys_step_evolves: "sys_step gen s s' \<Longrightarrow> evolves gen s s'"
  by (induction rule: sys_step.induct)
    (auto simp: Close_def evolves_save intro: evolves_handshake evolves_frame request_evolves evolves_on_hub hs_unregister hs_close)

lemma reach_evolves:
  assumes "reach (sys_start n) (sys_step gen) s"
  shows "\<exists>s0. sys_start n s0 \<and> evolves gen s0 s"
  using assms
proof (induction rule: reach.induct)
  case (reach_step s t)
  then show ?case using evolves_trans sys_step_evolves by blast
qed auto

lemma start_hub:
  assumes "sys_start n s"
  shows "hub_start n (sv_hub s)" and "hb_tiers (sv_hub s) = cf_tiers (sv_cfg s)" and "hb_acct (sv_hub s)"
    and "hb_default (sv_hub s) = cf_default_quota (sv_cfg s)"
proof -
  obtain now cfg dk where new: "NewServer now cfg dk = Inr s" and ls: "ls_ok n (hb_leases (sv_hub s))"
    using assms by (auto simp: sys_start_def)
  then obtain ls u st where hub: "sv_hub s = SetTierQuota (cf_tiers cfg) True (NewHub now (NetworkCIDR cfg) (cf_default_quota cfg) ls u st)"
      and cfg: "cf_tiers (sv_cfg s) = cf_tiers cfg" "cf_default_quota (sv_cfg s) = cf_default_quota cfg"
    by (auto simp: NewServer_def Let_def split: if_splits sum.splits)
  have "ls_ok n ls" using ls by (simp add: hub SetTierQuota_def NewHub_def)
  then show "hub_start n (sv_hub s)" unfolding hub by (rule hub_startI)
  show "hb_tiers (sv_hub s) = cf_tiers (sv_cfg s)" "hb_acct (sv_hub s)" "hb_default (sv_hub s) = cf_default_quota (sv_cfg s)"
    by (simp_all add: hub cfg SetTierQuota_def NewHub_def)
qed

lemma steps_spec: "hub_steps h h' \<Longrightarrow> spec_view h' = spec_view h"
  by (induction rule: reach.induct) (auto dest: hub_step_spec)

lemma steps_store_inv: "reach ((=) st) (store_step gen) st' \<Longrightarrow> store_inv st \<Longrightarrow> store_inv st'"
  by (induction rule: reach.induct) (auto intro: store_inv_step)

lemma invite_step_ok: "invite_step s t \<Longrightarrow> invites_ok s \<Longrightarrow> invites_ok t"
proof (induction rule: invite_step.induct)
  case (iv_generate n rnd s io now)
  then show ?case by (simp add: fst_Generate generate_loop_keyed)
next
  case (iv_consume s io code acc)
  then show ?case by (auto simp: Consume_def intro!: keyed_put split: option.split) (metis keyed_Some)
next
  case (iv_remove s io code)
  then show ?case by (auto simp: RemoveInvite_def split: option.split)
next
  case (iv_restart ok s t)
  then show ?case by (auto simp: OpenInvites_def load_invites_def keyed_index_by split: if_splits file_read.splits)
qed

lemma steps_invites_ok: "reach ((=) s) invite_step t \<Longrightarrow> invites_ok s \<Longrightarrow> invites_ok t"
  by (induction rule: reach.induct) (auto intro: invite_step_ok)


lemma reach_limits:
  assumes "reach (sys_start n) (sys_step gen) s"
  shows "specs_agree (sv_hub s)" and "hb_tiers (sv_hub s) = cf_tiers (sv_cfg s)" and "hb_acct (sv_hub s)"
    and "hb_default (sv_hub s) = cf_default_quota (sv_cfg s)"
proof -
  obtain s0 where s0: "sys_start n s0" "evolves gen s0 s" using reach_evolves [OF assms] by blast
  have "reach (hub_start n) hub_step (sv_hub s0)" by (rule reach_init) (rule start_hub(1) [OF s0(1)])
  then have "specs_agree (sv_hub s0)" by (rule spec_sys.reach_inv)
  moreover have sv: "spec_view (sv_hub s) = spec_view (sv_hub s0)" using s0(2) steps_spec by (simp add: evolves_def)
  ultimately show "specs_agree (sv_hub s)" using specs_agree_cong by blast
  show "hb_tiers (sv_hub s) = cf_tiers (sv_cfg s)" "hb_acct (sv_hub s)" "hb_default (sv_hub s) = cf_default_quota (sv_cfg s)"
    using sv start_hub(2-4) [OF s0(1)] s0(2) by (simp_all add: spec_view_def evolves_def)
qed

text \<open>The limits of an account, wherever they are asked for.\<close>

lemma limits_of:
  assumes "specs_agree h" and "hb_tiers h = cf_tiers cfg" and "hb_acct h" and "hb_default h = cf_default_quota cfg"
  shows "quotaSpecFor a h = specFor (hb_store h) a (hb_quota h)"
    and "get_account a (hb_store h) = Inr acct \<Longrightarrow> quotaSpecFor a h = QuotaFor cfg (ac_tier acct)"
proof -
  have "hb_tiers h = qt_tiers (hb_quota h)" "hb_acct h = qt_acct (hb_quota h)" "hb_default h = qt_defaults (hb_quota h)"
    using assms(1) by (simp_all add: specs_agree_def)
  then show "quotaSpecFor a h = specFor (hb_store h) a (hb_quota h)"
    unfolding quotaSpecFor_def specFor_def by (simp only:)
  show "get_account a (hb_store h) = Inr acct \<Longrightarrow> quotaSpecFor a h = QuotaFor cfg (ac_tier acct)"
    using assms(2-4) by (auto simp: quotaSpecFor_def QuotaFor_def get_account_def split: option.splits)
qed


lemma SetAccountTier_ok:
  "snd (SetAccountTier io acc tier st) = None \<Longrightarrow>
     \<exists>a. get_account acc (fst (SetAccountTier io acc tier st)) = Inr a \<and> ac_tier a = tier"
  by (auto simp: SetAccountTier_def get_account_def split: option.splits)

text \<open>
  A change of tier takes effect at once. After an answer 200 to a change of tier, in whatever state the
  server is, the account has the new tier, and both the limits the hub announces and the limits the tracker
  enforces are those of the configuration for that tier.
\<close>

theorem tier_change_takes_effect:
  assumes "reach (sys_start n) (sys_step gen) s" and "handleAdminSetTier ev rq s = (s', rs)" and "rs_status rs = 200"
  shows "\<exists>acc tier a. decode_body tier_fields ([], []) rq = Some (acc, tier)
    \<and> get_account acc (store_of s') = Inr a \<and> ac_tier a = tier
    \<and> quotaSpecFor acc (sv_hub s') = QuotaFor (sv_cfg s') tier
    \<and> specFor (store_of s') acc (hb_quota (sv_hub s')) = QuotaFor (sv_cfg s') tier"
proof (cases "decode_body tier_fields ([], []) rq")
  case None
  then have "rs_status (snd (handleAdminSetTier ev rq s)) \<noteq> 200"
    by (simp add: handleAdminSetTier_def not_allowed_def http_error_def)
  with assms(2,3) show ?thesis by simp
next
  case (Some at)
  obtain acc tier where at: "at = (acc, tier)" by fastforce
  let ?S = "SetAccountTier (ev_io ev) acc tier (store_of s)"
  have "rs_status (snd (handleAdminSetTier ev rq s)) = 200 \<Longrightarrow> snd ?S = None
      \<and> fst (handleAdminSetTier ev rq s) = on_hub (QuotaNotifyAccount (ev_now ev) acc) (set_store (fst ?S) s)"
    by (auto simp: handleAdminSetTier_def Some at Let_def case_prod_unfold not_allowed_def http_error_def fail_def
        split: if_splits option.splits)
  with assms(2,3) have ok: "snd ?S = None" and s': "s' = on_hub (QuotaNotifyAccount (ev_now ev) acc) (set_store (fst ?S) s)"
    by simp_all
  obtain a where a: "get_account acc (fst ?S) = Inr a" "ac_tier a = tier" using SetAccountTier_ok [OF ok] by blast
  have sv: "spec_view (sv_hub s') = spec_view (sv_hub s)" by (simp add: s')
  have "specs_agree (sv_hub s')" "hb_tiers (sv_hub s') = cf_tiers (sv_cfg s')" "hb_acct (sv_hub s')"
      "hb_default (sv_hub s') = cf_default_quota (sv_cfg s')"
    using sv reach_limits [OF assms(1)] specs_agree_cong [OF sv] by (simp_all add: spec_view_def s')
  note lim = limits_of [OF this]
  have "get_account acc (store_of s') = Inr a" using a(1) by (simp add: s')
  with lim a(2) Some at show ?thesis by metis
qed

subsection \<open>Instances\<close>

definition start_disk :: disk where
  "start_disk = \<lparr>dk_mkdir = True, dk_accounts = Content ([sample_account], []), dk_leases = Absent, dk_usage = Absent,
     dk_invites = Absent, dk_listen = True\<rparr>"

definition started_server :: server where
  "started_server = \<lparr>sv_cfg = netted_cfg\<lparr>cf_default_tier := ''free''\<rparr>,
     sv_hub = SetTierQuota (cf_tiers sample_cfg) True (NewHub 0 ''10.0.0.0/30'' (cf_default_quota sample_cfg) sample_leases empty_usage
       (load_store ([sample_account], []))),
     sv_invites = \<lparr>is_codes = [], is_file = Absent\<rparr>, sv_lim = newRateLimiter, sv_closed = False, sv_ca = None\<rparr>"

lemma started_fields [simp]:
  "store_of started_server = load_store ([sample_account], [])" "hb_leases (sv_hub started_server) = sample_leases"
  "sv_cfg started_server = netted_cfg\<lparr>cf_default_tier := ''free''\<rparr>" "is_codes (sv_invites started_server) = []"
  by (simp_all add: started_server_def SetTierQuota_def NewHub_def)

lemma started: "sys_start 30 started_server"
  unfolding sys_start_def
proof (intro conjI)
  have "OpenLeases True Absent ''10.0.0.0/30'' = Inr sample_leases" by code_simp
  then have "NewServer 0 netted_cfg start_disk = Inr started_server"
    by (simp add: NewServer_def start_disk_def netted_cfg_def sample_cfg_def NetworkCIDR_def OpenStore_def OpenUsage_def OpenInvites_def
        started_server_def Let_def)
  then show "\<exists>now cfg dk. NewServer now cfg dk = Inr started_server" by blast
  show "ls_ok 30 (hb_leases (sv_hub started_server))"
    using lease_sys.reach_inv [OF reach_init [where init = "lease_init 30", OF sample_leases_init]] by (simp add: ls_inv_def)
  have "store_ok (load_store ([sample_account], []))"
    by (simp add: store_ok_def load_store_def keyed_def index_by_def DevicesByAccount_def wf_map_def)
  then show "store_inv (store_of started_server)"
    by (simp add: store_inv_def file_ok_def) (simp add: load_store_def file_ok_def)
qed simp

lemma started_reach: "reach (sys_start 30) (sys_step toy_gen) started_server"
  by (rule reach_init, rule started)

lemma saved_reach: "reach (sys_start 30) (sys_step toy_gen) (fst (Save True started_server))"
  by (rule reach_step [OF started_reach sy_save])

lemma registered_reach:
  "reach (sys_start 30) (sys_step toy_gen) (fst (publicMux sample_api_env (sample_request ''/api/v1/register'' register_body) started_server))"
proof (rule reach_step [OF started_reach sy_public])
  show "fresh sample_api_env started_server"
    by (simp add: fresh_def fresh_ids_def load_store_def index_by_def sample_account_def)
qed (simp add: sample_api_env_def)



definition tier_body :: string where
  "tier_body = ''{'' @ quoted ''account_id'' @ '':'' @ quoted ''n'' @ '','' @ quoted ''tier'' @ '':'' @ quoted ''pro'' @ ''}''"

lemma tier_decodes: "decode_body tier_fields ([], []) (sample_request [] tier_body) = Some (''n'', ''pro'')"
  by code_simp

lemma tier_change_takes_effect_witness:
  "\<exists>acc tier a. decode_body tier_fields ([], []) (sample_request [] tier_body) = Some (acc, tier)
    \<and> get_account acc (store_of (fst (handleAdminSetTier sample_api_env (sample_request [] tier_body) started_server))) = Inr a \<and> ac_tier a = tier
    \<and> quotaSpecFor acc (sv_hub (fst (handleAdminSetTier sample_api_env (sample_request [] tier_body) started_server))) =
        QuotaFor (sv_cfg (fst (handleAdminSetTier sample_api_env (sample_request [] tier_body) started_server))) tier
    \<and> specFor (store_of (fst (handleAdminSetTier sample_api_env (sample_request [] tier_body) started_server))) acc
          (hb_quota (sv_hub (fst (handleAdminSetTier sample_api_env (sample_request [] tier_body) started_server)))) =
        QuotaFor (sv_cfg (fst (handleAdminSetTier sample_api_env (sample_request [] tier_body) started_server))) tier"
proof (rule tier_change_takes_effect [OF started_reach prod.collapse [symmetric]])
  have "rq_method (sample_request [] tier_body) = ''POST''" by (simp add: sample_request_def)
  moreover have "snd (SetAccountTier True ''n'' ''pro'' (load_store ([sample_account], []))) = None"
    by (simp add: SetAccountTier_def load_store_def index_by_def sample_account_def save_store_def)
  moreover have "ev_io sample_api_env" by (simp add: sample_api_env_def)
  ultimately show "rs_status (snd (handleAdminSetTier sample_api_env (sample_request [] tier_body) started_server)) = 200"
    by (simp add: handleAdminSetTier_def tier_decodes Let_def case_prod_unfold writeJSON_def)
qed

end
