(* ===== verification/Peers.thy ===== *)
theory Peers
  imports Control Go_Net
begin

text \<open>
  The client's table of online nodes: \<^verbatim>\<open>internal/client/peers.go\<close>. The table is a Go map from addresses to
  nodes. The interface \<open>exit_directory\<close> states what routing through exits relies on: an address that is returned for a
  name is the address of an entry that is authorised as an exit.
\<close>

record peer_registry =
  pr_byIP :: "(string, peer_info) gomap"

definition NewPeerRegistry :: peer_registry where
  "NewPeerRegistry = \<lparr>pr_byIP = []\<rparr>"

definition Upsert :: "peer_info \<Rightarrow> peer_registry \<Rightarrow> peer_registry" where
  "Upsert peer p = (if pi_ip peer = [] then p else p\<lparr>pr_byIP := put (pi_ip peer) peer (pr_byIP p)\<rparr>)"

fun UpsertMany :: "peer_info list \<Rightarrow> peer_registry \<Rightarrow> peer_registry" where
  "UpsertMany [] p = p"
| "UpsertMany (peer # peers) p =
     UpsertMany peers (if pi_ip peer \<noteq> [] then p\<lparr>pr_byIP := put (pi_ip peer) peer (pr_byIP p)\<rparr> else p)"

definition Remove :: "string \<Rightarrow> peer_registry \<Rightarrow> peer_registry" where
  "Remove ip p = p\<lparr>pr_byIP := del ip (pr_byIP p)\<rparr>"

text \<open>The first entry of the visit whose address parses; the empty address stands for \<^verbatim>\<open>nil, false\<close>.\<close>

fun first_ip :: "(peer_info \<Rightarrow> bool) \<Rightarrow> (string \<times> peer_info) list \<Rightarrow> ip" where
  "first_ip P [] = []"
| "first_ip P ((k, peer) # m) =
     (if P peer then (let ip = parse_ip (pi_ip peer) in if ip \<noteq> [] then ip else first_ip P m)
      else first_ip P m)"

definition Resolve :: "string \<Rightarrow> peer_registry \<Rightarrow> ip" where
  "Resolve hostname p = first_ip (\<lambda>peer. pi_hostname peer = hostname) (pr_byIP p)"

definition ResolveEgress :: "string \<Rightarrow> peer_registry \<Rightarrow> ip" where
  "ResolveEgress hostname p = first_ip (\<lambda>peer. pi_hostname peer = hostname \<and> pi_egress peer) (pr_byIP p)"

definition ByIPEgress :: "ip \<Rightarrow> peer_registry \<Rightarrow> bool" where
  "ByIPEgress ip p =
     (if ip = [] \<or> to4 ip = [] then False
      else case map_of (pr_byIP p) (ip_string (to4 ip)) of None \<Rightarrow> False | Some peer \<Rightarrow> pi_egress peer)"

definition Count :: "peer_registry \<Rightarrow> nat" where
  "Count p = length (pr_byIP p)"

definition Snapshot :: "peer_registry \<Rightarrow> peer_info list" where
  "Snapshot p = map snd (pr_byIP p)"

subsection \<open>The table\<close>

definition peers_ok :: "peer_registry \<Rightarrow> bool" where
  "peers_ok p \<longleftrightarrow> keyed pi_ip (pr_byIP p) \<and> map_of (pr_byIP p) [] = None"

lemma peers_ok_New [simp, intro]: "peers_ok NewPeerRegistry"
  by (simp add: peers_ok_def NewPeerRegistry_def)

lemma UpsertMany_fold: "UpsertMany peers p = fold Upsert peers p"
  by (induction peers arbitrary: p) (simp_all add: Upsert_def)

lemma peers_ok_Upsert [simp, intro]: "peers_ok p \<Longrightarrow> peers_ok (Upsert peer p)"
  by (auto simp: peers_ok_def Upsert_def)

lemma peers_ok_UpsertMany [simp, intro]: "peers_ok p \<Longrightarrow> peers_ok (UpsertMany peers p)"
  unfolding UpsertMany_fold by (induction peers arbitrary: p) auto

lemma peers_ok_Remove [simp, intro]: "peers_ok p \<Longrightarrow> peers_ok (Remove ip p)"
  by (auto simp: peers_ok_def Remove_def)

abbreviation online :: "peer_registry \<Rightarrow> string \<Rightarrow> peer_info option" where
  "online p \<equiv> map_of (pr_byIP p)"

lemma online_Upsert: "pi_ip peer \<noteq> [] \<Longrightarrow> online (Upsert peer p) = (online p)(pi_ip peer \<mapsto> peer)"
  by (simp add: Upsert_def)

lemma online_Remove [simp]: "online (Remove ip p) = (online p)(ip := None)"
  by (simp add: Remove_def)

lemma online_UpsertMany:
  "online (UpsertMany peers p) k =
     (case find (\<lambda>peer. pi_ip peer = k \<and> k \<noteq> []) (rev peers) of Some peer \<Rightarrow> Some peer | None \<Rightarrow> online p k)"
proof (induction peers rule: rev_induct)
  case (snoc peer peers)
  then show ?case by (auto simp: UpsertMany_fold Upsert_def)
qed simp

lemma Snapshot_iff: "peers_ok p \<Longrightarrow> peer \<in> set (Snapshot p) \<longleftrightarrow> online p (pi_ip peer) = Some peer"
  by (force simp: Snapshot_def peers_ok_def keyed_def wf_map_Some_iff)

lemma Count_Snapshot: "Count p = length (Snapshot p)"
  by (simp add: Count_def Snapshot_def)

subsection \<open>Resolving a name\<close>

text \<open>An online node at an address, authorised as an exit.\<close>

definition exit_at :: "peer_registry \<Rightarrow> ip \<Rightarrow> bool" where
  "exit_at p ip \<longleftrightarrow> (\<exists>peer \<in> set (Snapshot p). pi_egress peer \<and> to4 (parse_ip (pi_ip peer)) = to4 ip)"

locale exit_directory =
  fixes by_name :: "string \<Rightarrow> 'r \<Rightarrow> ip"
    and by_ip :: "ip \<Rightarrow> 'r \<Rightarrow> bool"
    and exits :: "'r \<Rightarrow> ip \<Rightarrow> bool"
    and wf :: "'r \<Rightarrow> bool"
  assumes by_name_exit: "wf r \<Longrightarrow> by_name h r = ip \<Longrightarrow> ip \<noteq> [] \<Longrightarrow> exits r ip"
    and by_ip_exit: "wf r \<Longrightarrow> by_ip ip r \<Longrightarrow> exits r ip"
begin

text \<open>How a rule's exit is looked up: an IPv4 address by itself, anything else as a name.\<close>

definition via_ip :: "string \<Rightarrow> 'r \<Rightarrow> ip" where
  "via_ip via r =
     (let ip = parse_ip via in if ip \<noteq> [] \<and> to4 ip \<noteq> [] then (if by_ip ip r then ip else []) else by_name via r)"

lemma via_exit: "wf r \<Longrightarrow> via_ip via r = ip \<Longrightarrow> ip \<noteq> [] \<Longrightarrow> exits r ip"
  using by_name_exit by_ip_exit by (auto simp: via_ip_def Let_def split: if_splits)

lemma via_revoked: "wf r \<Longrightarrow> (\<And>ip. \<not> exits r ip) \<Longrightarrow> via_ip via r = []"
  using via_exit by blast

end

lemma first_ip_Some:
  "first_ip P m \<noteq> [] \<Longrightarrow> \<exists>peer \<in> snd ` set m. P peer \<and> parse_ip (pi_ip peer) = first_ip P m"
  by (induction P m rule: first_ip.induct) (auto simp: Let_def split: if_splits)

lemma first_ip_None: "first_ip P m = [] \<longleftrightarrow> (\<forall>(k, peer) \<in> set m. P peer \<longrightarrow> parse_ip (pi_ip peer) = [])"
  by (induction P m rule: first_ip.induct) (auto simp: Let_def)

lemma ip_string_to4: "to4 ip \<noteq> [] \<Longrightarrow> to4 (parse_ip (ip_string (to4 ip))) = to4 ip"
  by (drule length_to4) (auto elim!: length4E)

interpretation ed: exit_directory ResolveEgress ByIPEgress exit_at peers_ok
proof
  fix r h ip
  assume "peers_ok r" "ResolveEgress h r = ip" "ip \<noteq> []"
  then show "exit_at r ip"
    using first_ip_Some [of "\<lambda>peer. pi_hostname peer = h \<and> pi_egress peer" "pr_byIP r"]
    by (auto simp: ResolveEgress_def exit_at_def Snapshot_def)
next
  fix r ip
  assume ok: "peers_ok r" and "ByIPEgress ip r"
  then obtain peer where at: "online r (ip_string (to4 ip)) = Some peer" and eg: "pi_egress peer" and ip: "to4 ip \<noteq> []"
    by (auto simp: ByIPEgress_def split: if_splits option.splits)
  then have "pi_ip peer = ip_string (to4 ip)" using ok keyed_Some by (fastforce simp: peers_ok_def)
  moreover have "peer \<in> set (Snapshot r)" using map_of_SomeD [OF at] by (force simp: Snapshot_def)
  ultimately show "exit_at r ip" using eg ip by (auto simp: exit_at_def ip_string_to4)
qed

text \<open>
  Names resolve to online exits only. An address that the table gives for an exit's name is the address of an
  entry with that name that is authorised as an exit, an address passes as an exit exactly when the entry at its
  printed form is authorised, and when no entry with the name is an authorised exit with an address that parses, the
  name does not resolve.
\<close>

theorem resolve_exits:
  assumes "peers_ok p"
  shows "(ResolveEgress h p \<noteq> [] \<longrightarrow> (\<exists>peer \<in> set (Snapshot p). pi_hostname peer = h \<and> pi_egress peer \<and> parse_ip (pi_ip peer) = ResolveEgress h p
        \<and> online p (pi_ip peer) = Some peer))
    \<and> (ResolveEgress h p = [] \<longleftrightarrow> (\<forall>peer \<in> set (Snapshot p). pi_hostname peer = h \<and> pi_egress peer \<longrightarrow> parse_ip (pi_ip peer) = []))
    \<and> (ByIPEgress (IPv4 a b c d) p \<longleftrightarrow> (\<exists>peer. online p (dotted a b c d) = Some peer \<and> pi_egress peer \<and> pi_ip peer = dotted a b c d))"
proof (intro conjI)
  show "ResolveEgress h p \<noteq> [] \<longrightarrow> (\<exists>peer \<in> set (Snapshot p). pi_hostname peer = h \<and> pi_egress peer \<and> parse_ip (pi_ip peer) = ResolveEgress h p
      \<and> online p (pi_ip peer) = Some peer)"
  proof
    assume ne: "ResolveEgress h p \<noteq> []"
    obtain peer where "peer \<in> set (Snapshot p)" "pi_hostname peer = h" "pi_egress peer" "parse_ip (pi_ip peer) = ResolveEgress h p"
      using first_ip_Some [OF ne [unfolded ResolveEgress_def]] by (auto simp: ResolveEgress_def Snapshot_def)
    moreover from this have "online p (pi_ip peer) = Some peer" using Snapshot_iff [OF assms] by blast
    ultimately show "\<exists>peer \<in> set (Snapshot p). pi_hostname peer = h \<and> pi_egress peer \<and> parse_ip (pi_ip peer) = ResolveEgress h p
      \<and> online p (pi_ip peer) = Some peer" by blast
  qed
  show "ResolveEgress h p = [] \<longleftrightarrow> (\<forall>peer \<in> set (Snapshot p). pi_hostname peer = h \<and> pi_egress peer \<longrightarrow> parse_ip (pi_ip peer) = [])"
    by (simp add: ResolveEgress_def first_ip_None Snapshot_def split_def)
  have "IPv4 a b c d \<noteq> []" by (simp add: IPv4_def)
  then show "ByIPEgress (IPv4 a b c d) p \<longleftrightarrow> (\<exists>peer. online p (dotted a b c d) = Some peer \<and> pi_egress peer \<and> pi_ip peer = dotted a b c d)"
    using assms keyed_Some by (fastforce simp: ByIPEgress_def peers_ok_def split: option.splits)
qed

definition sample_peers :: peer_registry where
  "sample_peers = UpsertMany [\<lparr>pi_ip = dotted 10 0 0 1, pi_hostname = ''laptop'', pi_os = ''linux'', pi_egress = False\<rparr>,
     \<lparr>pi_ip = dotted 10 0 0 2, pi_hostname = ''exit'', pi_os = ''linux'', pi_egress = True\<rparr>] NewPeerRegistry"

lemma sample_peers_byIP:
  "pr_byIP sample_peers = [(dotted 10 0 0 1, \<lparr>pi_ip = dotted 10 0 0 1, pi_hostname = ''laptop'', pi_os = ''linux'', pi_egress = False\<rparr>),
     (dotted 10 0 0 2, \<lparr>pi_ip = dotted 10 0 0 2, pi_hostname = ''exit'', pi_os = ''linux'', pi_egress = True\<rparr>)]"
  by (simp add: sample_peers_def NewPeerRegistry_def)

lemma sample_peers_ok: "peers_ok sample_peers"
  by (simp add: sample_peers_def peers_ok_UpsertMany del: UpsertMany.simps)

lemma resolve_exits_witness:
  "ResolveEgress ''laptop'' sample_peers = [] \<and> ByIPEgress (IPv4 10 0 0 2) sample_peers \<and> \<not> ByIPEgress (IPv4 10 0 0 3) sample_peers
   \<and> ResolveEgress ''exit'' sample_peers \<noteq> []"
proof -
  have "IPv4 10 0 0 2 \<noteq> []" by (simp add: IPv4_def)
  then show ?thesis
    using resolve_exits [OF sample_peers_ok, of "''laptop''" 10 0 0 2] resolve_exits [OF sample_peers_ok, of "''exit''" 10 0 0 3]
    by (simp add: Snapshot_def sample_peers_byIP)
qed

end
