(* ===== verification/Client_Config.thy ===== *)
theory Client_Config
  imports Control
begin

text \<open>
  The client's configuration: \<^verbatim>\<open>internal/client/config.go\<close>. Reading and printing YAML is a library's
  (\<^verbatim>\<open>gopkg.in/yaml.v3\<close>), so the two functions are arguments. Files are a function from paths to contents; a write that
  fails has written a prefix.
\<close>

record rule_spec =
  rs_target :: string
  rs_exit :: string

record cli_config =
  cc_server :: string
  cc_ca :: string
  cc_account :: string
  cc_device :: string
  cc_token :: string
  cc_hostname :: string
  cc_tun :: string
  cc_log_file :: string
  cc_log_max :: int
  cc_log_keep :: int
  cc_mode :: string
  cc_egress :: bool
  cc_exit :: string
  cc_api :: string
  cc_rules :: "rule_spec list"
  cc_keep_local :: "string list"

datatype config_error = ErrNoServer | ErrGlobalEgress | ErrReadConfig | ErrYaml | ErrMarshal | ErrWriteTmp | ErrRename

text \<open>\<^verbatim>\<open>Validate\<close> may change the mode of the configuration it is called on.\<close>

definition Validate :: "cli_config \<Rightarrow> cli_config \<times> config_error option" where
  "Validate c =
     (if cc_server c = [] then (c, Some ErrNoServer)
      else let c = (if cc_mode c = ModeSimple \<or> cc_mode c = ModeSmart \<or> cc_mode c = ModeGlobal then c
                    else c\<lparr>cc_mode := ModeSimple\<rparr>)
           in if cc_mode c = ModeGlobal \<and> cc_egress c then (c, Some ErrGlobalEgress) else (c, None))"

type_synonym files = "string \<Rightarrow> string option"

definition LoadConfig :: "(string \<Rightarrow> cli_config option) \<Rightarrow> string \<Rightarrow> files \<Rightarrow> config_error + cli_config" where
  "LoadConfig unmarshal path fs =
     (case fs path of
        None \<Rightarrow> Inl ErrReadConfig
      | Some raw \<Rightarrow>
          (case unmarshal raw of
             None \<Rightarrow> Inl ErrYaml
           | Some c \<Rightarrow> (case Validate c of (c, Some e) \<Rightarrow> Inl e | (c, None) \<Rightarrow> Inr c)))"

text \<open>What the operating system does to a save: how much of the write succeeds (\<open>None\<close>: all), and whether the rename does.\<close>

record save_io =
  si_write :: "nat option"
  si_rename :: bool

definition SaveConfig ::
  "(cli_config \<Rightarrow> string option) \<Rightarrow> save_io \<Rightarrow> string \<Rightarrow> cli_config \<Rightarrow> files \<Rightarrow> files \<times> config_error option" where
  "SaveConfig marshal io path c fs =
     (case marshal c of
        None \<Rightarrow> (fs, Some ErrMarshal)
      | Some b \<Rightarrow>
          let tmp = path @ ''.tmp''
          in case si_write io of
               Some k \<Rightarrow> (fs(tmp \<mapsto> take k b), Some ErrWriteTmp)
             | None \<Rightarrow>
                 let fs = fs(tmp \<mapsto> b)
                 in if si_rename io then (fs(path \<mapsto> b, tmp := None), None) else (fs, Some ErrRename))"

subsection \<open>What a valid configuration is\<close>

definition valid_config :: "cli_config \<Rightarrow> bool" where
  "valid_config c \<longleftrightarrow> cc_server c \<noteq> [] \<and> cc_mode c \<in> {ModeSimple, ModeSmart, ModeGlobal} \<and> \<not> (cc_mode c = ModeGlobal \<and> cc_egress c)"

lemma modes_differ [simp]:
  "ModeSimple \<noteq> ModeGlobal" "ModeSimple \<noteq> ModeSmart" "ModeSmart \<noteq> ModeGlobal"
  "ModeGlobal \<noteq> ModeSimple" "ModeSmart \<noteq> ModeSimple" "ModeGlobal \<noteq> ModeSmart"
  by (simp_all add: ModeSimple_def ModeSmart_def ModeGlobal_def)

lemma Validate_valid: "valid_config c \<Longrightarrow> Validate c = (c, None)"
  by (auto simp: valid_config_def Validate_def Let_def)

lemma Validate_sound: "Validate c = (c', None) \<Longrightarrow> valid_config c' \<and> c' = c\<lparr>cc_mode := cc_mode c'\<rparr>"
  by (auto simp: valid_config_def Validate_def Let_def split: if_splits)

lemma Validate_error:
  "snd (Validate c) = Some ErrNoServer \<longleftrightarrow> cc_server c = []"
  "snd (Validate c) = Some ErrGlobalEgress \<longleftrightarrow> cc_server c \<noteq> [] \<and> cc_mode c = ModeGlobal \<and> cc_egress c"
  by (auto simp: Validate_def Let_def)

text \<open>
  Saving a configuration is atomic and loses nothing. A save that succeeds is read back as the same
  configuration; whatever goes wrong while saving, the file that was there is still there, unchanged; and what \<^verbatim>\<open>Load\<close>
  returns is always valid (a server address, a known mode, never global mode on an exit).
\<close>

theorem config_save_load:
  assumes "\<And>c b. marshal c = Some b \<Longrightarrow> unmarshal b = Some c" and "valid_config c"
    and "SaveConfig marshal io path c fs = (fs', r)"
  shows "(r = None \<longrightarrow> LoadConfig unmarshal path fs' = Inr c) \<and> (r \<noteq> None \<longrightarrow> fs' path = fs path)
    \<and> (\<forall>p fs c. LoadConfig unmarshal p fs = Inr c \<longrightarrow> valid_config c)"
proof (intro conjI allI impI)
  show "LoadConfig unmarshal path fs' = Inr c" if "r = None"
    using assms that by (auto simp: SaveConfig_def LoadConfig_def Let_def Validate_valid split: option.splits if_splits)
  show "fs' path = fs path" if "r \<noteq> None"
    using assms(3) that by (auto simp: SaveConfig_def Let_def split: option.splits if_splits)
  fix p fs c
  assume "LoadConfig unmarshal p fs = Inr c"
  then show "valid_config c"
    by (auto simp: LoadConfig_def dest: Validate_sound split: option.splits prod.splits)
qed

text \<open>A configuration, and a stand-in for YAML that can print and read it only.\<close>

definition sample_config :: cli_config where
  "sample_config = \<lparr>cc_server = ''host:4430'', cc_ca = [], cc_account = ''n'', cc_device = ''d1'', cc_token = ''secret'',
     cc_hostname = ''laptop'', cc_tun = [], cc_log_file = [], cc_log_max = 0, cc_log_keep = 0, cc_mode = ModeGlobal,
     cc_egress = False, cc_exit = ''exit'', cc_api = [], cc_rules = [\<lparr>rs_target = ''192.0.2.0/24'', rs_exit = ''exit''\<rparr>],
     cc_keep_local = []\<rparr>"

definition toy_marshal :: "cli_config \<Rightarrow> string option" where
  "toy_marshal c = (if c = sample_config then Some ''mode: global'' else None)"

definition toy_unmarshal :: "string \<Rightarrow> cli_config option" where
  "toy_unmarshal s = (if s = ''mode: global'' then Some sample_config else None)"

lemma config_save_load_witness:
  "LoadConfig toy_unmarshal ''c'' (fst (SaveConfig toy_marshal \<lparr>si_write = None, si_rename = True\<rparr> ''c'' sample_config (\<lambda>_. None))) = Inr sample_config
   \<and> fst (SaveConfig toy_marshal \<lparr>si_write = Some 3, si_rename = True\<rparr> ''c'' sample_config (\<lambda>_. Some ''old'')) ''c'' = Some ''old''"
proof -
  have yaml: "toy_marshal c = Some b \<Longrightarrow> toy_unmarshal b = Some c" for c b
    by (auto simp: toy_marshal_def toy_unmarshal_def split: if_splits)
  have valid: "valid_config sample_config" by (simp add: valid_config_def sample_config_def)
  have "snd (SaveConfig toy_marshal \<lparr>si_write = None, si_rename = True\<rparr> ''c'' sample_config (\<lambda>_. None)) = None"
    "snd (SaveConfig toy_marshal \<lparr>si_write = Some 3, si_rename = True\<rparr> ''c'' sample_config (\<lambda>_. Some ''old'')) \<noteq> None"
    by (simp_all add: SaveConfig_def toy_marshal_def Let_def)
  then show ?thesis
    using config_save_load [OF yaml valid prod.collapse [symmetric], where marshal = toy_marshal and io = "\<lparr>si_write = None, si_rename = True\<rparr>" and path = "''c''" and fs = "\<lambda>_. None"]
      config_save_load [OF yaml valid prod.collapse [symmetric], where marshal = toy_marshal and io = "\<lparr>si_write = Some 3, si_rename = True\<rparr>" and path = "''c''" and fs = "\<lambda>_. Some ''old''"]
    by simp
qed

end
