(* ===== verification/Exit_Rules.thy ===== *)
theory Exit_Rules
  imports Lease Peers Client_Config
begin

text \<open>
  Which exit a packet takes: the routing part of \<^verbatim>\<open>internal/client/ipip.go\<close>. The rules of the configuration are compiled
  into a table of networks, the first network that contains the destination decides, and the exit is looked up among the
  online nodes at the time the packet is sent. The first part relates a network's mask to its length as a number.
\<close>

subsection \<open>Masks and prefixes\<close>

lemma mask_byte_small:
  assumes "n < 8"
  shows "mask_byte n \<noteq> 255" and "leading_ones (mask_byte n) = n"
proof -
  have all: "list_all (\<lambda>n. mask_byte n \<noteq> 255 \<and> leading_ones (mask_byte n) = n) [0..<8]" by code_simp
  then show "mask_byte n \<noteq> 255" and "leading_ones (mask_byte n) = n"
    using assms by (simp_all add: list_all_iff)
qed

lemma prefix_mask_0: "prefix_mask 0 l = replicate l 0"
  by (induction l) simp_all

lemma prefix_mask_parts:
  "n < 8 * l \<Longrightarrow> prefix_mask n l = replicate (n div 8) 255 @ mask_byte (n mod 8) # replicate (l - n div 8 - 1) 0"
proof (induction l arbitrary: n)
  case (Suc l)
  show ?case
  proof (cases "8 \<le> n")
    case True
    then obtain m where n: "n = m + 8" using le_iff_add [of 8 n] by (auto simp: add.commute)
    then have "n div 8 = Suc (m div 8)" "n mod 8 = m mod 8" "mask_byte n = 255" by (simp_all add: mask_byte_def)
    then show ?thesis using Suc n by simp
  next
    case False
    then show ?thesis by (simp add: prefix_mask_0)
  qed
qed simp

lemma prefix_mask_full: "prefix_mask (8 * l) l = replicate l 255"
  by (induction l) (simp_all add: mask_byte_def)

lemma mask_ones_prefix: "n \<le> 8 * l \<Longrightarrow> mask_ones (prefix_mask n l) = n"
proof (cases "n = 8 * l")
  case True
  then show ?thesis by (simp add: prefix_mask_full mask_ones_def takeWhile_replicate)
next
  case False
  assume "n \<le> 8 * l"
  with False have n: "n < 8 * l" by simp
  have r: "mask_byte (n mod 8) \<noteq> 255" "leading_ones (mask_byte (n mod 8)) = n mod 8"
    by (rule mask_byte_small; simp)+
  then have "takeWhile (\<lambda>b. b = 255) (prefix_mask n l) = replicate (n div 8) 255"
    by (simp add: prefix_mask_parts [OF n] takeWhile_append takeWhile_replicate)
  then show ?thesis
    using r div_mult_mod_eq [of n 8] by (simp add: mask_ones_def prefix_mask_parts [OF n])
qed

subsection \<open>Compiling and matching the rules\<close>

record route_entry =
  re_cidr :: ipnet
  re_via :: string

datatype rule_error = ErrExitRequired string | ErrBadTarget string

fun buildRoutes :: "rule_spec list \<Rightarrow> rule_error + route_entry list" where
  "buildRoutes [] = Inr []"
| "buildRoutes (s # specs) =
     (if rs_exit s = [] then Inl (ErrExitRequired (rs_target s))
      else
        let ip = parse_ip (rs_target s);
            cidr = (if ip \<noteq> []
              then Some \<lparr>net_ip = ip, net_mask = cidr_mask (if to4 ip = [] then 128 else 32) 32\<rparr>
              else map_option snd (parse_cidr (rs_target s)))
        in case cidr of
             None \<Rightarrow> Inl (ErrBadTarget (rs_target s))
           | Some n \<Rightarrow>
               (case buildRoutes specs of
                  Inl e \<Rightarrow> Inl e
                | Inr routes \<Rightarrow> Inr (\<lparr>re_cidr = n, re_via = rs_exit s\<rparr> # routes)))"

definition matchRoute :: "ip \<Rightarrow> route_entry list \<Rightarrow> string option" where
  "matchRoute dst routes =
     (let dst4 = to4 dst
      in if dst4 = [] then None
         else map_option re_via (find (\<lambda>r. net_contains (re_cidr r) dst4) routes))"

definition resolveVia :: "string \<Rightarrow> peer_registry \<Rightarrow> ip" where
  "resolveVia via peers =
     (let ip = parse_ip via
      in if ip \<noteq> [] \<and> to4 ip \<noteq> [] then (if ByIPEgress ip peers then ip else [])
         else ResolveEgress via peers)"

definition globalExit :: "cli_config \<Rightarrow> peer_registry \<Rightarrow> string" where
  "globalExit cfg peers =
     (if cc_exit cfg \<noteq> [] then cc_exit cfg
      else case find pi_egress (Snapshot peers) of Some p \<Rightarrow> pi_hostname p | None \<Rightarrow> [])"

text \<open>The loops over four bytes; the mask has four bytes or more.\<close>

definition mask4 :: "ip \<Rightarrow> ipmask \<Rightarrow> ip" where
  "mask4 ip m = map (\<lambda>i. ip ! i AND m ! i) [0..<4]"

definition isLocalVirtual :: "ip \<Rightarrow> ipmask \<Rightarrow> ip \<Rightarrow> bool" where
  "isLocalVirtual localIP m dst =
     (if to4 dst = [] \<or> to4 localIP = [] \<or> m = [] then False
      else ip_equal (mask4 (to4 localIP) m) (mask4 (to4 dst) m))"

lemma resolveVia_ed: "resolveVia = ed.via_ip"
  by (rule ext)+ (simp add: resolveVia_def ed.via_ip_def)

subsection \<open>What a rule covers\<close>

text \<open>
  A target stands for the addresses that agree with it in its leading bits: all of them for an address, the prefix length
  for a network (counted from the end, so that an IPv4 network may be written in either form).
\<close>

definition covers :: "string \<Rightarrow> bytes \<Rightarrow> bool" where
  "covers target d =
     (let ip = parse_ip target
      in if ip \<noteq> [] then to4 ip = d
         else case parse_cidr target of
             None \<Rightarrow> False
           | Some (p, n) \<Rightarrow>
               let host = 8 * length (net_mask n) - mask_ones (net_mask n)
               in to4 p \<noteq> [] \<and> net_mask n \<noteq> [] \<and> host \<le> 32 \<and> be_num (to4 p) div 2 ^ host = be_num d div 2 ^ host)"

lemma cidr_mask_full: "cidr_mask 32 32 = replicate 4 255"
  by (simp add: cidr_mask_prefix prefix_mask_full [of 4, simplified])

lemma and_255 [simp]: "(b :: byte) AND 255 = b"
proof -
  have m: "(255 :: byte) = - 1" by simp
  show ?thesis unfolding m by simp
qed

lemma map2_and_full: "length p = l \<Longrightarrow> map2 (AND) p (replicate l 255) = (p :: bytes)"
  by (rule nth_equalityI) auto

lemma map2_and_replicate: "map2 (AND) p (replicate (length p) 255) = (p :: bytes)"
  by (rule map2_and_full) simp

text \<open>A network that was masked by its own mask contains the addresses with its leading bits.\<close>

lemma masked_eq:
  assumes "length p = 4" and "length d = 4" and "k \<le> 32"
  shows "map2 (AND) p (prefix_mask k 4) = map2 (AND) d (prefix_mask k 4) \<longleftrightarrow>
    be_num p div 2 ^ (32 - k) = be_num d div 2 ^ (32 - k)"
proof -
  have num: "be_num (map2 (AND) q (prefix_mask k 4)) = be_num q div 2 ^ (32 - k) * 2 ^ (32 - k)" if "length q = 4" for q
    using be_num_masked [of k q] assms(3) that by simp
  have "map2 (AND) p (prefix_mask k 4) = map2 (AND) d (prefix_mask k 4) \<longleftrightarrow>
      be_num (map2 (AND) p (prefix_mask k 4)) = be_num (map2 (AND) d (prefix_mask k 4))"
    using be_num_inj [of "map2 (AND) p (prefix_mask k 4)" "map2 (AND) d (prefix_mask k 4)"] assms by auto
  then show ?thesis by (simp add: num assms)
qed

lemma contains_v4:
  assumes "length p = 4" and "length d = 4" and "k \<le> 32"
  shows "net_contains \<lparr>net_ip = map2 (AND) p (prefix_mask k 4), net_mask = prefix_mask k 4\<rparr> d \<longleftrightarrow>
    be_num p div 2 ^ (32 - k) = be_num d div 2 ^ (32 - k)"
proof -
  have ne: "map2 (AND) p (prefix_mask k 4) \<noteq> []" "d \<noteq> []" using assms by (auto dest: arg_cong [where f = length])
  have l: "length (map2 (AND) p (prefix_mask k 4)) = 4" using assms by simp
  have "net_contains \<lparr>net_ip = map2 (AND) p (prefix_mask k 4), net_mask = prefix_mask k 4\<rparr> d \<longleftrightarrow>
      map2 (AND) p (prefix_mask k 4) = map2 (AND) d (prefix_mask k 4)"
    using ne assms by (simp add: net_contains_def network_number_def Let_def to4_len4 [OF l] to4_len4 [OF assms(2)] map2_and_idem)
  then show ?thesis by (simp add: masked_eq assms)
qed

text \<open>The shape of what \<^verbatim>\<open>ParseCIDR\<close> returns.\<close>

lemma parse_cidr_shape:
  assumes "parse_cidr s = Some (p, ipn)"
  obtains q n where "n \<le> 8 * length q" "p = (if length q = 4 then v4_prefix @ q else q)"
    "net_ip ipn = ip_mask p (cidr_mask n (8 * length q))" "net_mask ipn = cidr_mask n (8 * length q)"
proof -
  have "\<exists>q n. n \<le> 8 * length q \<and> p = (if length q = 4 then v4_prefix @ q else q)
      \<and> ipn = \<lparr>net_ip = ip_mask p (cidr_mask n (8 * length q)), net_mask = cidr_mask n (8 * length q)\<rparr>"
    using assms unfolding parse_cidr_def Let_def
    by (auto split: if_splits option.splits simp del: not_less simp: not_less [symmetric])
  then show ?thesis using that by auto
qed

lemma prefix_mask_add: "prefix_mask (8 * k + m) (k + l) = replicate k 255 @ prefix_mask m l"
  by (induction k) (simp_all add: mask_byte_def)

lemma prefix_mask_high: "96 \<le> n \<Longrightarrow> prefix_mask n 16 = replicate 12 255 @ prefix_mask (n - 96) 4"
  using prefix_mask_add [of 12 "n - 96" 4] by simp

lemma prefix_mask_nth: "i < l \<Longrightarrow> prefix_mask n l ! i = mask_byte (n - 8 * i)"
  by (simp add: prefix_mask_map)

lemma cidr_mask_128: "n \<le> 128 \<Longrightarrow> cidr_mask n 128 = prefix_mask n 16"
  by (simp add: cidr_mask_def prefix_mask_map)

text \<open>An IPv6 network holds IPv4 addresses only when it is an IPv4 network in the mapped form.\<close>

lemma contains_v6:
  assumes q: "length q = 16" and n: "n \<le> 128" and d: "length d = 4"
  shows "net_contains \<lparr>net_ip = map2 (AND) q (prefix_mask n 16), net_mask = prefix_mask n 16\<rparr> d \<longleftrightarrow>
    take 12 q = v4_prefix \<and> 96 \<le> n \<and> be_num (drop 12 q) div 2 ^ (128 - n) = be_num d div 2 ^ (128 - n)"
proof -
  let ?m = "map2 (AND) q (prefix_mask n 16)"
  have len: "length ?m = 16" using q by simp
  show ?thesis
  proof (cases "take 12 ?m = v4_prefix")
    case False
    then have "to4 ?m = []" using len by (simp add: to4_def)
    then have no: "\<not> net_contains \<lparr>net_ip = ?m, net_mask = prefix_mask n 16\<rparr> d"
      using len d by (auto simp: net_contains_def network_number_def Let_def to4_def)
    have "\<not> (take 12 q = v4_prefix \<and> 96 \<le> n)"
    proof
      assume "take 12 q = v4_prefix \<and> 96 \<le> n"
      then have "take 12 ?m = map2 (AND) v4_prefix (replicate 12 255)"
        by (simp add: prefix_mask_high take_map take_zip)
      then show False using False by (simp add: map2_and_full)
    qed
    with no show ?thesis by blast
  next
    case True
    have "96 \<le> n"
    proof (rule ccontr)
      assume "\<not> 96 \<le> n"
      then have "mask_byte (n - 88) \<noteq> 255" by (intro mask_byte_small) simp
      moreover have "?m ! 11 = 255"
        using True len nth_take [of 11 12 ?m] by (simp add: v4_prefix_def)
      then have "q ! 11 AND mask_byte (n - 88) = 255" using q by (simp add: prefix_mask_nth)
      then have "mask_byte (n - 88) = 255"
        by (metis and_255 and.assoc and.commute and.left_idem)
      ultimately show False by blast
    qed
    note m = prefix_mask_high [OF this]
    have tq: "take 12 q = v4_prefix"
    proof -
      have "take 12 ?m = map2 (AND) (take 12 q) (replicate 12 255)"
        unfolding m using q by (simp add: take_map take_zip)
      then show ?thesis using True q by (simp add: map2_and_full)
    qed
    let ?p = "map2 (AND) (drop 12 q) (prefix_mask (n - 96) 4)"
    have dm: "drop 12 ?m = ?p" unfolding m by (simp add: drop_map drop_zip)
    have "to4 ?m = ?p" using len True by (simp add: to4_def dm)
    moreover have l: "length ?p = 4" using q by simp
    moreover have "drop 12 (prefix_mask n 16) = prefix_mask (n - 96) 4" by (simp add: m)
    moreover from l have "?p \<noteq> []" by (metis list.size(3) zero_neq_numeral)
    ultimately have "network_number \<lparr>net_ip = ?m, net_mask = prefix_mask n 16\<rparr> = network_number \<lparr>net_ip = ?p, net_mask = prefix_mask (n - 96) 4\<rparr>"
      by (simp only: network_number_def Let_def ipnet.select_convs to4_len4 [OF l] length_prefix_mask if_True if_False
          numeral_eq_iff num.distinct simp_thms semiring_norm)
    then have "net_contains \<lparr>net_ip = ?m, net_mask = prefix_mask n 16\<rparr> d
        \<longleftrightarrow> net_contains \<lparr>net_ip = ?p, net_mask = prefix_mask (n - 96) 4\<rparr> d"
      by (simp only: net_contains_def)
    also have "\<dots> \<longleftrightarrow> be_num (drop 12 q) div 2 ^ (32 - (n - 96)) = be_num d div 2 ^ (32 - (n - 96))"
      by (rule contains_v4) (use q d n in simp_all)
    finally show ?thesis using tq \<open>96 \<le> n\<close> by (simp add: diff_diff_right)
  qed
qed

lemma no_mask: "net_mask n = [] \<Longrightarrow> length d = 4 \<Longrightarrow> \<not> net_contains n d"
  by (auto simp: net_contains_def network_number_def Let_def to4_len4)

lemma contains_single:
  assumes "length d = 4"
  shows "net_contains \<lparr>net_ip = ip, net_mask = cidr_mask (if to4 ip = [] then 128 else 32) 32\<rparr> d \<longleftrightarrow> to4 ip = d"
proof (cases "to4 ip = []")
  case True
  then have "net_mask \<lparr>net_ip = ip, net_mask = cidr_mask (if to4 ip = [] then 128 else 32) 32\<rparr> = []"
    by (simp add: cidr_mask_def)
  with no_mask [OF this assms] True assms show ?thesis by auto
next
  case False
  then have l: "length (to4 ip) = 4" by (rule length_to4)
  have "net_contains \<lparr>net_ip = ip, net_mask = replicate 4 255\<rparr> d \<longleftrightarrow>
      map2 (AND) (to4 ip) (replicate 4 255) = map2 (AND) d (replicate 4 255)"
    using False l assms by (auto simp: net_contains_def network_number_def Let_def to4_len4)
  then show ?thesis
    unfolding map2_and_full [OF l] map2_and_full [OF assms] using False by (simp only: cidr_mask_full if_False)
qed

lemma contains_cidr:
  assumes "parse_cidr s = Some (p, n)" and d: "length d = 4"
  shows "net_contains n d \<longleftrightarrow>
    (let host = 8 * length (net_mask n) - mask_ones (net_mask n)
     in to4 p \<noteq> [] \<and> net_mask n \<noteq> [] \<and> host \<le> 32 \<and> be_num (to4 p) div 2 ^ host = be_num d div 2 ^ host)"
proof -
  from parse_cidr_shape [OF assms(1)] obtain q k where k: "k \<le> 8 * length q"
    and p: "p = (if length q = 4 then v4_prefix @ q else q)"
    and ip: "net_ip n = ip_mask p (cidr_mask k (8 * length q))" and m: "net_mask n = cidr_mask k (8 * length q)" .
  consider "length q = 4" | "length q = 16" | "cidr_mask k (8 * length q) = []"
    by (cases "length q = 4 \<or> length q = 16") (auto simp: cidr_mask_def)
  then show ?thesis
  proof cases
    case 1
    then have mk: "cidr_mask k (8 * length q) = prefix_mask k 4" and k32: "k \<le> 32" using k by (simp_all add: cidr_mask_prefix)
    have "net_ip n = map2 (AND) q (prefix_mask k 4)" unfolding ip mk p using 1 by (simp add: ip_mask_def)
    then have "n = \<lparr>net_ip = map2 (AND) q (prefix_mask k 4), net_mask = prefix_mask k 4\<rparr>" using m mk by simp
    moreover have "to4 p = q" "q \<noteq> []" "prefix_mask k 4 \<noteq> []"
      using 1 by (auto simp: p to4_def dest: arg_cong [where f = length])
    moreover have "mask_ones (prefix_mask k 4) = k" using k32 by (simp add: mask_ones_prefix)
    ultimately show ?thesis using contains_v4 [OF 1 d k32] by (simp add: Let_def)
  next
    case 2
    then have mk: "cidr_mask k (8 * length q) = prefix_mask k 16" and k128: "k \<le> 128" using k by (simp_all add: cidr_mask_128)
    have "net_ip n = map2 (AND) q (prefix_mask k 16)" unfolding ip mk p using 2 by (simp add: ip_mask_def)
    then have n: "n = \<lparr>net_ip = map2 (AND) q (prefix_mask k 16), net_mask = prefix_mask k 16\<rparr>" using m mk by simp
    have "prefix_mask k 16 \<noteq> []" by (metis length_prefix_mask list.size(3) zero_neq_numeral)
    moreover have "mask_ones (prefix_mask k 16) = k" using k128 by (simp add: mask_ones_prefix)
    moreover have "to4 p = (if take 12 q = v4_prefix then drop 12 q else [])" using 2 by (simp add: p to4_def)
    moreover have "drop 12 q \<noteq> []" using 2 by simp
    moreover have "128 - k \<le> 32 \<longleftrightarrow> 96 \<le> k" using k128 by linarith
    ultimately show ?thesis using contains_v6 [OF 2 k128 d] by (simp add: n Let_def)
  next
    case 3
    then show ?thesis using no_mask [OF _ d] m by simp
  qed
qed

lemma buildRoutes_find:
  assumes "buildRoutes specs = Inr rs" and d: "length d = 4"
  shows "map_option re_via (find (\<lambda>r. net_contains (re_cidr r) d) rs) = map_option rs_exit (find (\<lambda>s. covers (rs_target s) d) specs)"
  using assms(1)
proof (induction specs arbitrary: rs)
  case (Cons s specs)
  let ?ip = "parse_ip (rs_target s)"
  define cidr where "cidr = (if ?ip \<noteq> [] then Some \<lparr>net_ip = ?ip, net_mask = cidr_mask (if to4 ?ip = [] then 128 else 32) 32\<rparr>
      else map_option snd (parse_cidr (rs_target s)))"
  from Cons.prems obtain n rs' where n: "cidr = Some n" and rs': "buildRoutes specs = Inr rs'"
    and rs: "rs = \<lparr>re_cidr = n, re_via = rs_exit s\<rparr> # rs'"
    unfolding buildRoutes.simps Let_def cidr_def [symmetric] by (auto split: if_splits option.splits sum.splits)
  have "net_contains n d \<longleftrightarrow> covers (rs_target s) d"
  proof (cases "?ip = []")
    case True
    then obtain p where p: "parse_cidr (rs_target s) = Some (p, n)" using n by (auto simp: cidr_def)
    show ?thesis unfolding contains_cidr [OF p d] by (simp add: covers_def True p Let_def)
  next
    case False
    then show ?thesis using n contains_single [OF d, of ?ip] by (simp add: cidr_def covers_def Let_def)
  qed
  with Cons.IH [OF rs'] show ?case by (simp add: rs)
qed simp

text \<open>
  C29. The rules do what the configuration says. When the rules compile, the exit a destination is given is that of the
  first rule of the configuration whose target covers the destination (the address itself, or the addresses
  with the network's leading bits), and none when no rule does; a rule for an IPv6 target never applies to an
  IPv4 destination, and a destination that is not IPv4 matches no rule.
\<close>

theorem rules_first_match:
  assumes "buildRoutes specs = Inr routes"
  shows "matchRoute dst routes =
      (if to4 dst = [] then None else map_option rs_exit (find (\<lambda>s. covers (rs_target s) (to4 dst)) specs))
    \<and> list_all (\<lambda>s. rs_exit s \<noteq> [] \<and> (parse_ip (rs_target s) \<noteq> [] \<or> parse_cidr (rs_target s) \<noteq> None)) specs"
proof
  show "matchRoute dst routes =
      (if to4 dst = [] then None else map_option rs_exit (find (\<lambda>s. covers (rs_target s) (to4 dst)) specs))"
    using buildRoutes_find [OF assms length_to4] by (simp add: matchRoute_def Let_def)
  show "list_all (\<lambda>s. rs_exit s \<noteq> [] \<and> (parse_ip (rs_target s) \<noteq> [] \<or> parse_cidr (rs_target s) \<noteq> None)) specs"
    using assms by (induction specs arbitrary: routes) (auto simp: Let_def split: if_splits option.splits sum.splits)
qed

definition sample_rules :: "rule_spec list" where
  "sample_rules = [\<lparr>rs_target = ''192.0.2.7'', rs_exit = ''one''\<rparr>, \<lparr>rs_target = ''192.0.2.0/24'', rs_exit = ''two''\<rparr>]"

lemma sample_targets:
  "parse_ip ''192.0.2.7'' = IPv4 192 0 2 7" "IPv4 192 0 2 7 \<noteq> []" "parse_ip ''192.0.2.0/24'' = []"
  "parse_cidr ''192.0.2.0/24'' = Some (IPv4 192 0 2 0, \<lparr>net_ip = [192, 0, 2, 0], net_mask = [255, 255, 255, 0]\<rparr>)"
  "mask_ones [255, 255, 255, 0] = 24"
  by code_simp+

lemma rules_first_match_witness:
  "\<exists>routes. buildRoutes sample_rules = Inr routes \<and> matchRoute (IPv4 192 0 2 7) routes = Some ''one''
    \<and> matchRoute (IPv4 192 0 2 9) routes = Some ''two'' \<and> matchRoute (IPv4 192 0 3 9) routes = None"
proof -
  have covers: "covers ''192.0.2.7'' [192, 0, 2, 7]" "\<not> covers ''192.0.2.7'' [192, 0, 2, 9]" "\<not> covers ''192.0.2.7'' [192, 0, 3, 9]"
    "covers ''192.0.2.0/24'' [192, 0, 2, 9]" "\<not> covers ''192.0.2.0/24'' [192, 0, 3, 9]"
    by (simp_all add: covers_def Let_def sample_targets)
  have "\<exists>routes. buildRoutes sample_rules = Inr routes" by (simp add: sample_rules_def sample_targets Let_def)
  then obtain routes where routes: "buildRoutes sample_rules = Inr routes" by blast
  show ?thesis
    using routes rules_first_match [OF routes, of "IPv4 192 0 2 7"] rules_first_match [OF routes, of "IPv4 192 0 2 9"]
      rules_first_match [OF routes, of "IPv4 192 0 3 9"]
    by (simp add: sample_rules_def covers)
qed

text \<open>A destination is in the client's own network when it has the leading bits of its address.\<close>

lemma mask4_map2: "length p = 4 \<Longrightarrow> 4 \<le> length m \<Longrightarrow> mask4 p m = map2 (AND) p (take 4 m)"
  by (rule nth_equalityI) (simp_all add: mask4_def)

lemma isLocalVirtual_iff:
  assumes "to4 localIP \<noteq> []" and "to4 dst \<noteq> []" and "k \<le> 32"
  shows "isLocalVirtual localIP (cidr_mask k 32) dst \<longleftrightarrow>
    be_num (to4 localIP) div 2 ^ (32 - k) = be_num (to4 dst) div 2 ^ (32 - k)"
proof -
  have l: "length (to4 localIP) = 4" "length (to4 dst) = 4" using assms by (simp_all add: length_to4)
  have "prefix_mask k 4 \<noteq> []" by (metis length_prefix_mask list.size(3) zero_neq_numeral)
  then show ?thesis
    using assms l masked_eq [OF l assms(3)] by (simp add: isLocalVirtual_def cidr_mask_prefix mask4_map2 ip_equal_def)
qed

end
