(* ===== verification/Routes.thy ===== *)
theory Routes
  imports Exit_Rules "HOL-Library.Sublist"
begin

text \<open>
  Taking over the system's routes: \<^verbatim>\<open>internal/client/globalroute_common.go\<close> and \<^verbatim>\<open>globalroute_linux.go\<close>. The program
  \<^verbatim>\<open>ip\<close> is an argument (what it is given, and what it does to the system's state, its output and whether it
  succeeded), and so is the name resolver; the two calls of the resolver are separate arguments, as they may answer differently.
\<close>

subsection \<open>globalroute_common.go\<close>

definition smartPrefixes :: "route_entry list \<Rightarrow> ipnet list" where
  "smartPrefixes routes = map re_cidr (filter (\<lambda>r. to4 (net_ip (re_cidr r)) \<noteq> []) routes)"

definition coversDefault :: "ipnet \<Rightarrow> bool" where
  "coversDefault p \<longleftrightarrow> to4 (net_ip p) \<noteq> [] \<and> mask_ones (net_mask p) = 0"

type_synonym resolver = "string \<Rightarrow> ip list option"

definition serverHostIPs :: "resolver \<Rightarrow> string \<Rightarrow> ip list" where
  "serverHostIPs lookup serverAddr =
     (let host = (case split_host_port serverAddr of Some (h, _) \<Rightarrow> h | None \<Rightarrow> serverAddr);
          ip = parse_ip host
      in if ip \<noteq> [] then [ip] else (case lookup host of None \<Rightarrow> [] | Some ips \<Rightarrow> ips))"

subsection \<open>The default route\<close>

type_synonym 'os ip_tool = "string list \<Rightarrow> 'os \<Rightarrow> 'os \<times> string \<times> bool"

record def_route =
  dr_gateway :: string
  dr_dev :: string

text \<open>\<^verbatim>\<open>strings.Fields\<close>, on ASCII white space.\<close>

fun fields_from :: "string \<Rightarrow> string \<Rightarrow> string list" where
  "fields_from w [] = (if w = [] then [] else [rev w])"
| "fields_from w (c # cs) =
     (if is_space c then (if w = [] then fields_from [] cs else rev w # fields_from [] cs)
      else fields_from (c # w) cs)"

abbreviation fields_of :: "string \<Rightarrow> string list" where
  "fields_of \<equiv> fields_from []"

text \<open>The token after the last \<open>w\<close> that is followed by one.\<close>

fun last_after :: "string \<Rightarrow> string list \<Rightarrow> string \<Rightarrow> string" where
  "last_after w (t # u # r) acc = last_after w (u # r) (if t = w then u else acc)"
| "last_after w _ acc = acc"

fun default_of_lines :: "string list \<Rightarrow> def_route option" where
  "default_of_lines [] = None"
| "default_of_lines (line # lines) =
     (let line = trim_space line
      in if \<not> has_prefix line ''default'' then default_of_lines lines
         else
           let f = fields_of line;
               r = \<lparr>dr_gateway = last_after ''via'' f [], dr_dev = last_after ''dev'' f []\<rparr>
           in if dr_gateway r \<noteq> [] \<and> dr_dev r \<noteq> [] then Some r else default_of_lines lines)"

text \<open>\<^verbatim>\<open>None\<close> is the error of the command, \<^verbatim>\<open>Some None\<close> a machine without a default route.\<close>

definition defaultRoute :: "'os ip_tool \<Rightarrow> 'os \<Rightarrow> 'os \<times> def_route option option" where
  "defaultRoute tool os =
     (let (os, out, ok) = tool [''route'', ''show'', ''default''] os
      in (os, if ok then Some (default_of_lines (split_all (char_of (10 :: nat)) out)) else None))"

subsection \<open>Route commands\<close>

record route_op =
  ro_add :: "string list"
  ro_del :: "string list"

datatype route_error = ErrReadDefault | ErrIp "string list" string

definition op_add :: "'os ip_tool \<Rightarrow> route_op \<Rightarrow> 'os \<Rightarrow> 'os \<times> route_error option" where
  "op_add tool o1 os =
     (let (os, out, ok) = tool (ro_add o1) os
      in (os, if ok \<or> sublist ''File exists'' out then None else Some (ErrIp (ro_add o1) (trim_space out))))"

definition op_del :: "'os ip_tool \<Rightarrow> route_op \<Rightarrow> 'os \<Rightarrow> 'os" where
  "op_del tool o1 os = fst (tool (ro_del o1) os)"

text \<open>The loop from the last operation to the first: the rollback, and the function that restores the routes.\<close>

definition del_all :: "'os ip_tool \<Rightarrow> route_op list \<Rightarrow> 'os \<Rightarrow> 'os" where
  "del_all tool ops os = fold (op_del tool) (rev ops) os"

lemma del_all_Nil [simp]: "del_all tool [] os = os"
  by (simp add: del_all_def)

fun add_loop :: "'os ip_tool \<Rightarrow> route_op list \<Rightarrow> route_op list \<Rightarrow> 'os \<Rightarrow> 'os \<times> (route_error + route_op list)" where
  "add_loop tool ops [] os = (os, Inr ops)"
| "add_loop tool ops (o1 # os1) os =
     (case op_add tool o1 os of
        (os, None) \<Rightarrow> add_loop tool ops os1 os
      | (os, Some e) \<Rightarrow> (del_all tool ops os, Inl e))"

definition keep_cidr :: "string \<Rightarrow> string option" where
  "keep_cidr spec =
     (if parse_cidr spec \<noteq> None then Some spec
      else let ip = parse_ip (trim_space spec) in if ip \<noteq> [] then Some (ip_string ip @ ''/32'') else None)"

definition keep_op :: "def_route \<Rightarrow> string \<Rightarrow> route_op" where
  "keep_op dr cidr =
     \<lparr>ro_add = [''route'', ''add'', cidr, ''via'', dr_gateway dr, ''dev'', dr_dev dr, ''metric'', ''1''],
      ro_del = [''route'', ''del'', cidr, ''via'', dr_gateway dr, ''dev'', dr_dev dr]\<rparr>"

definition tun_op :: "string \<Rightarrow> string \<Rightarrow> route_op" where
  "tun_op cidr tunName =
     \<lparr>ro_add = [''route'', ''add'', cidr, ''dev'', tunName, ''metric'', ''10''],
      ro_del = [''route'', ''del'', cidr, ''dev'', tunName, ''metric'', ''10'']\<rparr>"

text \<open>The commands of global mode: the resolver is asked once for the condition and once for the list.\<close>

definition global_ops :: "resolver \<Rightarrow> resolver \<Rightarrow> cli_config \<Rightarrow> string \<Rightarrow> def_route option \<Rightarrow> route_op list" where
  "global_ops lookup1 lookup2 cfg tunName dr =
     (case dr of
        None \<Rightarrow> []
      | Some r \<Rightarrow>
          if cc_keep_local cfg \<noteq> [] \<or> serverHostIPs lookup1 (cc_server cfg) \<noteq> []
          then map (keep_op r) (List.map_filter keep_cidr
                 (cc_keep_local cfg @ map ip_string (serverHostIPs lookup2 (cc_server cfg))))
          else [])
     @ [tun_op ''default'' tunName]"

definition applyGlobalRoutes ::
  "'os ip_tool \<Rightarrow> resolver \<Rightarrow> resolver \<Rightarrow> cli_config \<Rightarrow> string \<Rightarrow> 'os \<Rightarrow> 'os \<times> (route_error + route_op list)" where
  "applyGlobalRoutes tool lookup1 lookup2 cfg tunName os =
     (case defaultRoute tool os of
        (os, None) \<Rightarrow> (os, Inl ErrReadDefault)
      | (os, Some dr) \<Rightarrow>
          let ops = global_ops lookup1 lookup2 cfg tunName dr in add_loop tool ops ops os)"

text \<open>The function that restores nothing is the empty list of commands.\<close>

definition applySmartRoutes ::
  "'os ip_tool \<Rightarrow> resolver \<Rightarrow> resolver \<Rightarrow> cli_config \<Rightarrow> route_entry list \<Rightarrow> string \<Rightarrow> 'os \<Rightarrow> 'os \<times> (route_error + route_op list)" where
  "applySmartRoutes tool lookup1 lookup2 cfg routes tunName os =
     (let prefixes = smartPrefixes routes
      in if prefixes = [] then (os, Inr [])
         else if list_ex coversDefault prefixes then applyGlobalRoutes tool lookup1 lookup2 cfg tunName os
         else let ops = map (\<lambda>p. tun_op (ipnet_string p) tunName) prefixes in add_loop tool ops ops os)"

subsection \<open>Restoring the routes\<close>

text \<open>
  What \<^verbatim>\<open>ip-route(8)\<close> documents, over a view \<open>tab\<close> of the system's state, the set of its routes as the words that add
  them: adding a route that is there fails with the message that it exists, an addition that succeeds adds the
  route and one that fails changes nothing; a deletion removes one route that starts with the words given, if there is
  one; showing the default route changes nothing.
\<close>

definition ip_tool_ok :: "'os ip_tool \<Rightarrow> ('os \<Rightarrow> string list set) \<Rightarrow> bool" where
  "ip_tool_ok tool tab \<longleftrightarrow>
     (\<forall>r os. case tool (''route'' # ''add'' # r) os of (os', out, ok) \<Rightarrow>
        tab os' = (if ok then insert r (tab os) else tab os) \<and> (r \<in> tab os \<longrightarrow> \<not> ok \<and> sublist ''File exists'' out)) \<and>
     (\<forall>p os. let t = tab (fst (tool (''route'' # ''del'' # p) os)) in
        if \<exists>r \<in> tab os. prefix p r then \<exists>r \<in> tab os. prefix p r \<and> t = tab os - {r} else t = tab os) \<and>
     (\<forall>os. tab (fst (tool [''route'', ''show'', ''default''] os)) = tab os)"

abbreviation rt :: "route_op \<Rightarrow> string list" where
  "rt o1 \<equiv> drop 2 (ro_add o1)"
abbreviation pat :: "route_op \<Rightarrow> string list" where
  "pat o1 \<equiv> drop 2 (ro_del o1)"

text \<open>Commands whose deletions pick the route that was added, and no other of theirs.\<close>

definition separated :: "route_op list \<Rightarrow> bool" where
  "separated ops \<longleftrightarrow>
     (\<forall>o1 \<in> set ops. take 2 (ro_add o1) = [''route'', ''add''] \<and> take 2 (ro_del o1) = [''route'', ''del''] \<and>
        (\<forall>o2 \<in> set ops. prefix (pat o1) (rt o2) \<longleftrightarrow> rt o2 = rt o1))"

definition none_match :: "string list set \<Rightarrow> route_op list \<Rightarrow> bool" where
  "none_match T ops \<longleftrightarrow> (\<forall>o1 \<in> set ops. \<forall>r \<in> T. \<not> prefix (pat o1) r)"

lemma take2_eq: "take 2 xs = [a, b] \<Longrightarrow> xs = a # b # drop 2 xs"
  by (metis append_Cons append_Nil append_take_drop_id)

lemma ip_add:
  assumes "ip_tool_ok tool tab" and "tool (''route'' # ''add'' # r) os = (os', out, ok)"
  shows "tab os' = (if ok then insert r (tab os) else tab os)" and "r \<in> tab os \<Longrightarrow> \<not> ok \<and> sublist ''File exists'' out"
proof -
  have "case tool (''route'' # ''add'' # r) os of (os', out, ok) \<Rightarrow>
      tab os' = (if ok then insert r (tab os) else tab os) \<and> (r \<in> tab os \<longrightarrow> \<not> ok \<and> sublist ''File exists'' out)"
    by (rule assms(1) [unfolded ip_tool_ok_def, THEN conjunct1, THEN spec, THEN spec])
  then show "tab os' = (if ok then insert r (tab os) else tab os)" and "r \<in> tab os \<Longrightarrow> \<not> ok \<and> sublist ''File exists'' out"
    unfolding assms(2) prod.case by blast+
qed

lemma ip_del:
  assumes "ip_tool_ok tool tab"
  shows "\<exists>r \<in> tab os. prefix p r \<Longrightarrow>
      \<exists>r \<in> tab os. prefix p r \<and> tab (fst (tool (''route'' # ''del'' # p) os)) = tab os - {r}"
    and "\<not> (\<exists>r \<in> tab os. prefix p r) \<Longrightarrow> tab (fst (tool (''route'' # ''del'' # p) os)) = tab os"
  using assms unfolding ip_tool_ok_def Let_def by presburger+

lemma tool_add:
  assumes "ip_tool_ok tool tab" and "take 2 (ro_add o1) = [''route'', ''add'']"
  shows "tab (fst (op_add tool o1 os)) \<subseteq> insert (rt o1) (tab os)" and "tab os \<subseteq> tab (fst (op_add tool o1 os))"
    and "rt o1 \<in> tab os \<Longrightarrow> snd (op_add tool o1 os) = None"
proof -
  obtain r where r: "ro_add o1 = ''route'' # ''add'' # r" using take2_eq [OF assms(2)] by blast
  obtain os' out ok where t: "tool (''route'' # ''add'' # r) os = (os', out, ok)" by (metis prod_cases3)
  note ip = ip_add [OF assms(1) t]
  show "tab (fst (op_add tool o1 os)) \<subseteq> insert (rt o1) (tab os)" and "tab os \<subseteq> tab (fst (op_add tool o1 os))"
    and "rt o1 \<in> tab os \<Longrightarrow> snd (op_add tool o1 os) = None"
    using ip by (auto simp: op_add_def r t)
qed

lemma tool_del:
  assumes "ip_tool_ok tool tab" and "separated ops" and "o1 \<in> set ops" and "none_match T ops" and "A \<subseteq> rt ` set ops"
    and "tab os = T \<union> A"
  shows "tab (op_del tool o1 os) = T \<union> (A - {rt o1})"
proof -
  have "take 2 (ro_del o1) = [''route'', ''del'']" using assms(2,3) by (simp add: separated_def)
  then have d: "op_del tool o1 os = fst (tool (''route'' # ''del'' # pat o1) os)"
    unfolding op_del_def using take2_eq by metis
  have m: "prefix (pat o1) r \<longleftrightarrow> r = rt o1 \<and> r \<in> A" if "r \<in> tab os" for r
    using assms(2-5) that unfolding assms(6) separated_def none_match_def by blast
  have T: "rt o1 \<notin> T" using assms(2,3,4) by (auto simp: separated_def none_match_def)
  note del = ip_del [OF assms(1), of os "pat o1", folded d]
  show ?thesis
  proof (cases "rt o1 \<in> A")
    case True
    then have "\<exists>r \<in> tab os. prefix (pat o1) r" using m assms(6) by blast
    then obtain r where "r \<in> tab os" "prefix (pat o1) r" "tab (op_del tool o1 os) = tab os - {r}"
      using del(1) by blast
    with m T assms(6) show ?thesis by auto
  next
    case False
    then have "\<not> (\<exists>r \<in> tab os. prefix (pat o1) r)" using m by blast
    then have "tab (op_del tool o1 os) = tab os" using del(2) by blast
    then show ?thesis using False assms(6) by auto
  qed
qed

lemma dels:
  assumes "ip_tool_ok tool tab" and "separated ops" and "none_match T ops" and "set os1 \<subseteq> set ops"
  shows "A \<subseteq> rt ` set ops \<Longrightarrow> tab os = T \<union> A \<Longrightarrow> tab (fold (op_del tool) os1 os) = T \<union> (A - rt ` set os1)"
  using assms(4)
proof (induction os1 arbitrary: os A)
  case (Cons o1 os1)
  have "tab (op_del tool o1 os) = T \<union> (A - {rt o1})"
    by (rule tool_del [OF assms(1,2) _ assms(3) Cons.prems(1,2)]) (use Cons.prems(3) in simp)
  from Cons.IH [OF _ this] Cons.prems show ?case by (simp add: Diff_insert2 [symmetric] subset_insertI2 Diff_subset [THEN order_trans])
qed simp

lemma del_all_restores:
  assumes "ip_tool_ok tool tab" and "separated ops" and "none_match T ops" and "A \<subseteq> rt ` set ops" and "tab os = T \<union> A"
  shows "tab (del_all tool ops os) = T"
  using dels [OF assms(1-3) _ assms(4,5), of "rev ops"] assms(4) by (auto simp: del_all_def)

lemma add_loop_restores:
  assumes "ip_tool_ok tool tab" and "separated ops" and "none_match T ops"
  shows "set os1 \<subseteq> set ops \<Longrightarrow> A \<subseteq> rt ` set ops \<Longrightarrow> tab os = T \<union> A \<Longrightarrow> add_loop tool ops os1 os = (os', r) \<Longrightarrow>
    (case r of Inl e \<Rightarrow> tab os' = T | Inr ops' \<Rightarrow> ops' = ops \<and> tab (del_all tool ops os') = T \<and> T \<subseteq> tab os')"
proof (induction os1 arbitrary: os A)
  case Nil
  then show ?case using del_all_restores [OF assms Nil.prems(2,3)] by auto
next
  case (Cons o1 os1)
  have a: "take 2 (ro_add o1) = [''route'', ''add'']" using assms(2) Cons.prems(1) by (simp add: separated_def)
  obtain os2 e where o2: "op_add tool o1 os = (os2, e)" by fastforce
  have "T \<union> A \<subseteq> tab os2" "tab os2 \<subseteq> insert (rt o1) (T \<union> A)"
    using tool_add [OF assms(1) a, of os] Cons.prems(3) by (simp_all add: o2)
  then have "tab os2 = T \<union> (A \<union> (tab os2 \<inter> {rt o1}))" by blast
  moreover have "A \<union> (tab os2 \<inter> {rt o1}) \<subseteq> rt ` set ops" using Cons.prems(1,2) by auto
  ultimately show ?case
    using Cons.IH [of "A \<union> (tab os2 \<inter> {rt o1})" os2] del_all_restores [OF assms, of "A \<union> (tab os2 \<inter> {rt o1})" os2] Cons.prems(1,4)
    by (cases e) (auto simp: o2)
qed

lemma separated_global: "separated (global_ops lookup1 lookup2 cfg tunName dr)"
  by (auto simp: separated_def global_ops_def keep_op_def tun_op_def split: option.splits if_splits)

lemma separated_smart: "separated (map (\<lambda>p. tun_op (f p) tunName) ps)"
  by (auto simp: separated_def tun_op_def)

text \<open>
  C32. Routes are given back. Whether taking over the routes succeeds or fails, in global or in smart mode: when no route
  of the system matched the commands beforehand, the table is the old one after a failure (the rollback), and
  after a success it contains the old one and is the old one again once the restoring function has run, even if some
  of the routes were listed twice.
\<close>

theorem routes_restored:
  assumes "ip_tool_ok tool tab"
    and "\<forall>dr. none_match (tab os) (global_ops lookup1 lookup2 cfg tunName dr)"
    and "none_match (tab os) (map (\<lambda>p. tun_op (ipnet_string p) tunName) (smartPrefixes routes))"
    and "r = applyGlobalRoutes tool lookup1 lookup2 cfg tunName os \<or> r = applySmartRoutes tool lookup1 lookup2 cfg routes tunName os"
  shows "case r of (os', Inl e) \<Rightarrow> tab os' = tab os
    | (os', Inr ops) \<Rightarrow> tab (del_all tool ops os') = tab os \<and> tab os \<subseteq> tab os'"
proof -
  let ?ok = "\<lambda>r. case r of (os', Inl e) \<Rightarrow> tab os' = tab os
    | (os', Inr ops) \<Rightarrow> tab (del_all tool ops os') = tab os \<and> tab os \<subseteq> tab os'"
  have loop: "?ok (add_loop tool ops ops os2)" if "separated ops" "none_match (tab os) ops" "tab os2 = tab os" for ops os2
    using add_loop_restores [OF assms(1) that(1,2), of ops "{}" os2] that(3)
    by (cases "add_loop tool ops ops os2") (auto split: sum.splits)
  have global: "?ok (applyGlobalRoutes tool lookup1 lookup2 cfg tunName os)"
  proof -
    obtain os2 d where d: "defaultRoute tool os = (os2, d)" by fastforce
    have "tab (fst (tool [''route'', ''show'', ''default''] os)) = tab os"
      using assms(1) by (simp add: ip_tool_ok_def)
    then have "tab os2 = tab os" using d by (simp add: defaultRoute_def case_prod_unfold Let_def)
    then show ?thesis
      using loop [OF separated_global] assms(2) by (cases d) (simp_all add: applyGlobalRoutes_def d Let_def)
  qed
  have "?ok (applySmartRoutes tool lookup1 lookup2 cfg routes tunName os)"
    using global loop [OF separated_smart assms(3) refl] by (simp add: applySmartRoutes_def Let_def)
  with global assms(4) show ?thesis by (elim disjE) simp_all
qed

text \<open>A small \<^verbatim>\<open>ip\<close>: the state is the list of routes.\<close>

fun toy_ip :: "string list list ip_tool" where
  "toy_ip (w1 # w2 # r) os =
     (if w2 = ''add'' then
        (if r \<in> set os then (os, ''RTNETLINK answers: File exists'', False) else (r # os, [], True))
      else if w2 = ''del'' then
        (case find (prefix r) os of Some x \<Rightarrow> (removeAll x os, [], True) | None \<Rightarrow> (os, ''No such process'', False))
      else (os, ''default via 10.1.1.1 dev eth0'', True))"
| "toy_ip _ os = (os, [], False)"

lemma toy_ip_ok: "ip_tool_ok toy_ip set"
proof -
  have "find P xs = Some x \<Longrightarrow> x \<in> set xs \<and> P x" for P and xs :: "string list list" and x
    by (auto simp: find_Some_iff)
  moreover have "sublist ''File exists'' ''RTNETLINK answers: File exists''" by (simp add: sublist_code)
  ultimately show ?thesis
    unfolding ip_tool_ok_def Let_def by (auto simp: find_None_iff split: option.splits)
qed

definition toy_lookup :: resolver where
  "toy_lookup host = (if host = ''host'' then Some [IPv4 203 0 113 5] else None)"

lemma sample_keep:
  "List.map_filter keep_cidr (cc_keep_local sample_config @ map ip_string (serverHostIPs toy_lookup (cc_server sample_config))) = [''203.0.113.5/32'']"
  "serverHostIPs toy_lookup (cc_server sample_config) \<noteq> []"
proof -
  have ips: "serverHostIPs toy_lookup (cc_server sample_config) = [IPv4 203 0 113 5]" by code_simp
  have shown: "ip_string (IPv4 203 0 113 5) = ''203.0.113.5''"
    by (simp add: dotted_def show_nat.simps) code_simp
  have parse: "parse_cidr ''203.0.113.5'' = None" "parse_ip (trim_space ''203.0.113.5'') = IPv4 203 0 113 5" by code_simp+
  have "keep_cidr ''203.0.113.5'' = Some ''203.0.113.5/32''"
    using shown by (simp add: keep_cidr_def parse Let_def) (simp add: IPv4_def)
  then show "List.map_filter keep_cidr (cc_keep_local sample_config @ map ip_string (serverHostIPs toy_lookup (cc_server sample_config))) = [''203.0.113.5/32'']"
    unfolding ips by (simp add: shown [simplified] sample_config_def List.map_filter_def)
  show "serverHostIPs toy_lookup (cc_server sample_config) \<noteq> []" by (simp add: ips)
qed

abbreviation eth0 :: def_route where
  "eth0 \<equiv> \<lparr>dr_gateway = ''10.1.1.1'', dr_dev = ''eth0''\<rparr>"

lemma toy_default: "defaultRoute toy_ip os = (os, Some (Some eth0))"
proof -
  have "default_of_lines (split_all (char_of (10 :: nat)) ''default via 10.1.1.1 dev eth0'') = Some eth0" by code_simp
  then show ?thesis by (simp add: defaultRoute_def)
qed

lemma sample_routes:
  "applyGlobalRoutes toy_ip toy_lookup toy_lookup sample_config ''tun0'' os =
     add_loop toy_ip [keep_op eth0 ''203.0.113.5/32'', tun_op ''default'' ''tun0''] [keep_op eth0 ''203.0.113.5/32'', tun_op ''default'' ''tun0''] os"
  "global_ops toy_lookup toy_lookup sample_config ''tun0'' (Some r) = [keep_op r ''203.0.113.5/32'', tun_op ''default'' ''tun0'']"
proof -
  show "global_ops toy_lookup toy_lookup sample_config ''tun0'' (Some r) = [keep_op r ''203.0.113.5/32'', tun_op ''default'' ''tun0'']" for r
    unfolding global_ops_def option.case sample_keep(1) using sample_keep(2) by simp
  then show "applyGlobalRoutes toy_ip toy_lookup toy_lookup sample_config ''tun0'' os =
     add_loop toy_ip [keep_op eth0 ''203.0.113.5/32'', tun_op ''default'' ''tun0''] [keep_op eth0 ''203.0.113.5/32'', tun_op ''default'' ''tun0''] os"
    by (simp only: applyGlobalRoutes_def toy_default prod.case option.case Let_def)
qed

lemma routes_restored_witness:
  "case applyGlobalRoutes toy_ip toy_lookup toy_lookup sample_config ''tun0'' [[''10.0.0.0/8'', ''dev'', ''eth0'']] of
     (os', Inl e) \<Rightarrow> False
   | (os', Inr ops) \<Rightarrow> set (del_all toy_ip ops os') = {[''10.0.0.0/8'', ''dev'', ''eth0'']} \<and> length os' = 3"
proof -
  let ?start = "[[''10.0.0.0/8'', ''dev'', ''eth0'']]"
  have "none_match (set ?start) (global_ops toy_lookup toy_lookup sample_config ''tun0'' dr)" for dr
    by (cases dr) (simp_all add: none_match_def sample_routes(2) global_ops_def [of _ _ _ _ None] keep_op_def tun_op_def)
  moreover have "none_match (set ?start) (map (\<lambda>p. tun_op (ipnet_string p) ''tun0'') (smartPrefixes []))"
    by (simp add: none_match_def smartPrefixes_def)
  moreover have "applyGlobalRoutes toy_ip toy_lookup toy_lookup sample_config ''tun0'' ?start =
      ([rt (tun_op ''default'' ''tun0''), rt (keep_op eth0 ''203.0.113.5/32''), [''10.0.0.0/8'', ''dev'', ''eth0'']],
       Inr [keep_op eth0 ''203.0.113.5/32'', tun_op ''default'' ''tun0''])"
    by (simp add: sample_routes(1) op_add_def keep_op_def tun_op_def)
  ultimately show ?thesis
    using routes_restored [OF toy_ip_ok _ _ disjI1 [OF refl], of "?start" toy_lookup toy_lookup sample_config "''tun0''" "[]"]
    by simp
qed

text \<open>
  A route that was there before counts as added, because the message says that it exists, and the restoring function deletes it.
\<close>

lemma existing_route_deleted:
  "case applyGlobalRoutes toy_ip toy_lookup toy_lookup sample_config ''tun0'' [rt (tun_op ''default'' ''tun0'')] of
     (os', Inl e) \<Rightarrow> False
   | (os', Inr ops) \<Rightarrow> rt (tun_op ''default'' ''tun0'') \<notin> set (del_all toy_ip ops os')"
  by (simp add: sample_routes(1) op_add_def op_del_def del_all_def keep_op_def tun_op_def sublist_code)

end
