(* ===== verification/Client.thy ===== *)
theory Client
  imports Ipip Routes
begin

text \<open>
  The client at run time: \<^verbatim>\<open>internal/client/client.go\<close> and \<^verbatim>\<open>auth.go\<close>. The connection to the server is the writer
  of the theory Frame; the tunnel device and the exit's network stack (gVisor) are what has been written to them and
  whether writes succeed. The goroutines are the steps of \<open>cl_step\<close>, one frame or packet at a time, in any
  order; a lock is held for less than a step. A channel that is closed is counted: closing it twice would panic.
\<close>

subsection \<open>State\<close>

record tun_dev =
  td_name :: string
  td_out :: "bytes list"
  td_ok :: bool
  td_closed :: bool

record net_stack =
  ns_in :: "bytes list"
  ns_closed :: bool

record client =
  cl_cfg :: cli_config
  cl_conn :: "writer option"
  cl_ip :: ip
  cl_mask :: ipmask
  cl_mtu :: int
  cl_peers :: peer_registry
  cl_routes :: "route_entry list"
  cl_tun :: "tun_dev option"
  cl_ns :: "net_stack option"
  cl_restore :: "route_op list option"
  cl_closed :: bool
  cl_closes :: nat
  cl_ready :: bool
  cl_recv_on :: bool
  cl_tun_on :: bool
  cl_encBuf :: bytes

definition NewClient :: "cli_config \<Rightarrow> rule_error + client" where
  "NewClient cfg =
     (case buildRoutes (cc_rules cfg) of
        Inl e \<Rightarrow> Inl e
      | Inr routes \<Rightarrow> Inr \<lparr>cl_cfg = cfg, cl_conn = None, cl_ip = [], cl_mask = [], cl_mtu = 0, cl_peers = NewPeerRegistry,
          cl_routes = routes, cl_tun = None, cl_ns = None, cl_restore = None, cl_closed = False, cl_closes = 0, cl_ready = False,
          cl_recv_on = False, cl_tun_on = False, cl_encBuf = []\<rparr>)"

definition VirtualIP :: "client \<Rightarrow> ip" where
  "VirtualIP c = cl_ip c"

definition ClientPeers :: "client \<Rightarrow> peer_info list" where
  "ClientPeers c = Snapshot (cl_peers c)"

subsection \<open>auth.go\<close>

record tls_config =
  tls_insecure :: bool
  tls_roots :: "string option"

datatype dial_error =
    ErrReadCA
  | ErrNoCerts
  | ErrDial
  | ErrSendHello frame_error
  | ErrReadWelcome frame_error
  | ErrNotCtrl byte
  | ErrDecodeWelcome
  | ErrNoWelcome
  | ErrRejected string
  | ErrUnexpected string

text \<open>
  What dialling meets: the files, whether a PEM text holds certificates, whether the TLS handshake with a configuration
  and an address succeeds, the connection as a writer and the bytes it delivers, and the name of the operating system.
\<close>

record dial_env =
  dl_files :: files
  dl_pem :: "string \<Rightarrow> bool"
  dl_dial :: "tls_config \<Rightarrow> string \<Rightarrow> bool"
  dl_writer :: writer
  dl_input :: bytes
  dl_os :: string

definition buildClientTLSConfig :: "dial_env \<Rightarrow> string \<Rightarrow> dial_error + tls_config" where
  "buildClientTLSConfig ev caPath =
     (if caPath = [] then Inr \<lparr>tls_insecure = True, tls_roots = None\<rparr>
      else case dl_files ev caPath of
          None \<Rightarrow> Inl ErrReadCA
        | Some caPEM \<Rightarrow>
            if \<not> dl_pem ev caPEM then Inl ErrNoCerts else Inr \<lparr>tls_insecure = False, tls_roots = Some caPEM\<rparr>)"

definition client_hello :: "string \<Rightarrow> cli_config \<Rightarrow> ctrl_msg" where
  "client_hello os cfg =
     (ctrl MsgHello)\<lparr>cm_hello := Some \<lparr>he_user = cc_account cfg, he_device = cc_device cfg,
        he_auth = \<lparr>au_mode = AuthDevice, au_password = [], au_token = cc_token cfg\<rparr>, he_hostname = cc_hostname cfg,
        he_os = os, he_egress = cc_egress cfg, he_mode = cc_mode cfg\<rparr>\<rparr>"

definition dialAndAuth :: "dial_env \<Rightarrow> cli_config \<Rightarrow> dial_error + writer \<times> welcome_msg \<times> bytes" where
  "dialAndAuth ev cfg =
     (case buildClientTLSConfig ev (cc_ca cfg) of
        Inl e \<Rightarrow> Inl e
      | Inr tls \<Rightarrow>
          if \<not> dl_dial ev tls (cc_server cfg) then Inl ErrDial
          else case WriteFrame (dl_writer ev) FrameCtrl (EncodeCtrl (client_hello (dl_os ev) cfg)) of
              (w, Some e) \<Rightarrow> Inl (ErrSendHello e)
            | (w, None) \<Rightarrow>
                (case ReadFrame (dl_input ev) of
                   Inl e \<Rightarrow> Inl (ErrReadWelcome e)
                 | Inr ((typ, resp), rest) \<Rightarrow>
                     if typ \<noteq> FrameCtrl then Inl (ErrNotCtrl typ)
                     else case DecodeCtrl resp of
                         None \<Rightarrow> Inl ErrDecodeWelcome
                       | Some m \<Rightarrow>
                           if cm_type m = MsgWelcome then
                             (case cm_welcome m of None \<Rightarrow> Inl ErrNoWelcome | Some wl \<Rightarrow> Inr (w, wl, rest))
                           else if cm_type m = MsgReject then
                             Inl (ErrRejected (case cm_reject m of None \<Rightarrow> ''rejected'' | Some reason \<Rightarrow> reason))
                           else Inl (ErrUnexpected (cm_type m))))"

subsection \<open>Sending and closing\<close>

definition markClosed :: "client \<Rightarrow> client" where
  "markClosed c = (if cl_closed c then c else c\<lparr>cl_closed := True, cl_closes := Suc (cl_closes c)\<rparr>)"

datatype send_error = ErrClientClosed | ErrSend frame_error

definition write_conn :: "byte \<Rightarrow> bytes \<Rightarrow> client \<Rightarrow> client \<times> frame_error option" where
  "write_conn ty payload c =
     (case cl_conn c of
        None \<Rightarrow> (c, Some ErrWrite)
      | Some w \<Rightarrow> let (w, err) = WriteFrame w ty payload in (c\<lparr>cl_conn := Some w\<rparr>, err))"

definition sendData :: "bytes \<Rightarrow> client \<Rightarrow> client \<times> send_error option" where
  "sendData payload c =
     (if cl_closed c then (c, Some ErrClientClosed)
      else let (c, err) = write_conn FrameData payload c in (c, map_option ErrSend err))"

text \<open>A write to the tunnel device; \<open>False\<close> is an error.\<close>

definition tun_write :: "bytes \<Rightarrow> client \<Rightarrow> client \<times> bool" where
  "tun_write packet c =
     (case cl_tun c of
        None \<Rightarrow> (c, False)
      | Some t \<Rightarrow>
          if td_ok t \<and> \<not> td_closed t then (c\<lparr>cl_tun := Some (t\<lparr>td_out := td_out t @ [packet]\<rparr>)\<rparr>, True) else (c, False))"

text \<open>The packet an exit's network stack wants to send goes back through the tunnel; errors are only logged.\<close>

definition onNetStackOutput :: "bytes \<Rightarrow> client \<Rightarrow> client" where
  "onNetStackOutput ipPacket c =
     (case parseDst ipPacket of
        None \<Rightarrow> c
      | Some dst \<Rightarrow>
          let (out, n) = encapsulate ipPacket (cl_ip c) dst (replicate (length ipPacket + ipv4HdrLen) 0)
          in fst (sendData (take n out) c))"

subsection \<open>Frames from the server\<close>

definition tun_write_or_close :: "bytes \<Rightarrow> client \<Rightarrow> client" where
  "tun_write_or_close packet c = (let (c, ok) = tun_write packet c in if ok then c else markClosed c)"

definition InjectInbound :: "bytes \<Rightarrow> net_stack \<Rightarrow> net_stack" where
  "InjectInbound packet ns = ns\<lparr>ns_in := ns_in ns @ [packet]\<rparr>"

definition handleInbound :: "bytes \<Rightarrow> client \<Rightarrow> client" where
  "handleInbound packet c =
     (case decapsulate packet (cl_ip c) of
        Some inner \<Rightarrow>
          (case cl_ns c of
             Some ns \<Rightarrow>
               (case icmpEchoReply inner of
                  Some r \<Rightarrow> onNetStackOutput r c
                | None \<Rightarrow> c\<lparr>cl_ns := Some (InjectInbound inner ns)\<rparr>)
           | None \<Rightarrow> tun_write_or_close inner c)
      | None \<Rightarrow> tun_write_or_close packet c)"

definition handleCtrl :: "bytes \<Rightarrow> client \<Rightarrow> client" where
  "handleCtrl payload c =
     (case DecodeCtrl payload of
        None \<Rightarrow> c
      | Some m \<Rightarrow>
          if cm_type m = MsgPeerJoin then
            (case cm_peer_join m of None \<Rightarrow> c | Some p \<Rightarrow> c\<lparr>cl_peers := Upsert p (cl_peers c)\<rparr>)
          else if cm_type m = MsgPeerLeave then
            (case cm_peer_leave m of None \<Rightarrow> c | Some ip \<Rightarrow> c\<lparr>cl_peers := Remove ip (cl_peers c)\<rparr>)
          else c)"

definition recv_frame :: "byte \<times> bytes \<Rightarrow> client \<Rightarrow> client" where
  "recv_frame f c =
     (if fst f = FrameData then handleInbound (snd f) c
      else if fst f = FrameCtrl then handleCtrl (snd f) c
      else if fst f = FramePing then fst (write_conn FramePong [] c)
      else c)"

subsection \<open>Packets from the tunnel device\<close>

definition send_or_close :: "bytes \<Rightarrow> client \<Rightarrow> client" where
  "send_or_close payload c =
     (let (c, err) = sendData payload c in if err = None then c else (markClosed c)\<lparr>cl_tun_on := False\<rparr>)"

text \<open>The exit a destination outside the own network is given, if any.\<close>

definition choose_via :: "ip \<Rightarrow> client \<Rightarrow> string option" where
  "choose_via dst c =
     (case matchRoute dst (cl_routes c) of
        Some via \<Rightarrow> Some via
      | None \<Rightarrow> if cc_mode (cl_cfg c) = ModeGlobal then Some (globalExit (cl_cfg c) (cl_peers c)) else None)"

text \<open>One round of the loop; the buffer the device reads into holds four bytes more than the MTU.\<close>

definition tun_packet :: "bytes \<Rightarrow> client \<Rightarrow> client" where
  "tun_packet data c =
     (let pkt = take (nat (cl_mtu c + 4)) data
      in if length pkt < 20 \<or> drop_bit 4 (pkt ! 0) \<noteq> 4 then c
         else case (case parseDst pkt of
                      None \<Rightarrow> None
                    | Some dst \<Rightarrow> if isLocalVirtual (cl_ip c) (cl_mask c) dst then None else choose_via dst c) of
             None \<Rightarrow> send_or_close pkt c
           | Some via \<Rightarrow>
               let vip = resolveVia via (cl_peers c)
               in if vip = [] then c
                  else let (out, n) = encapsulate pkt (cl_ip c) vip (cl_encBuf c)
                       in send_or_close (take n out) (c\<lparr>cl_encBuf := out\<rparr>))"

subsection \<open>Run\<close>

datatype run_error =
    ErrDialAuth dial_error
  | ErrVirtualIP string
  | ErrCIDR string
  | ErrCreateTun
  | ErrConfigureTun
  | ErrGlobalRoutes route_error
  | ErrSmartRoutes route_error
  | ErrNetStack

record run_env =
  ru_dial :: dial_env
  ru_create :: "string \<Rightarrow> string option"
  ru_configure :: bool
  ru_netstack :: bool
  ru_lookup1 :: resolver
  ru_lookup2 :: resolver

definition close_conn :: "client \<Rightarrow> client" where
  "close_conn c = c\<lparr>cl_conn := map_option (\<lambda>w. w\<lparr>w_cap := Some 0\<rparr>) (cl_conn c)\<rparr>"

definition close_tun :: "client \<Rightarrow> client" where
  "close_tun c = c\<lparr>cl_tun := map_option (\<lambda>t. t\<lparr>td_closed := True\<rparr>) (cl_tun c)\<rparr>"

text \<open>Taking over the routes, as the mode asks for.\<close>

definition take_routes :: "run_env \<Rightarrow> 'os ip_tool \<Rightarrow> string \<Rightarrow> client \<Rightarrow> 'os \<Rightarrow> client \<times> 'os \<times> run_error option" where
  "take_routes ev tool tunName c os =
     (if cc_mode (cl_cfg c) = ModeGlobal then
        (case applyGlobalRoutes tool (ru_lookup1 ev) (ru_lookup2 ev) (cl_cfg c) tunName os of
           (os, Inl e) \<Rightarrow> (close_conn (close_tun c), os, Some (ErrGlobalRoutes e))
         | (os, Inr ops) \<Rightarrow> (c\<lparr>cl_restore := Some ops\<rparr>, os, None))
      else if cc_mode (cl_cfg c) = ModeSmart then
        (case applySmartRoutes tool (ru_lookup1 ev) (ru_lookup2 ev) (cl_cfg c) (cl_routes c) tunName os of
           (os, Inl e) \<Rightarrow> (close_conn (close_tun c), os, Some (ErrSmartRoutes e))
         | (os, Inr ops) \<Rightarrow> (c\<lparr>cl_restore := Some ops\<rparr>, os, None))
      else (c, os, None))"

text \<open>The end of the start: the table of peers, the exit's network stack, the goroutines.\<close>

definition go_online :: "run_env \<Rightarrow> welcome_msg \<Rightarrow> client \<Rightarrow> client \<times> run_error option" where
  "go_online ev wl c =
     (let c = c\<lparr>cl_peers := UpsertMany (we_peers wl) (cl_peers c)\<rparr>
      in if cc_egress (cl_cfg c) \<and> \<not> ru_netstack ev then (close_conn (close_tun c), Some ErrNetStack)
         else
           let c = (if cc_egress (cl_cfg c) then c\<lparr>cl_ns := Some \<lparr>ns_in = [], ns_closed = False\<rparr>\<rparr> else c)
           in (c\<lparr>cl_recv_on := True, cl_tun_on := True, cl_encBuf := replicate (nat (cl_mtu c + 4) + ipv4HdrLen) 0,
                 cl_ready := True\<rparr>, None))"

definition RunStart :: "run_env \<Rightarrow> 'os ip_tool \<Rightarrow> client \<Rightarrow> 'os \<Rightarrow> client \<times> 'os \<times> run_error option" where
  "RunStart ev tool c os =
     (let c = c\<lparr>cl_closed := False, cl_closes := 0, cl_ready := False, cl_conn := None\<rparr>
      in case dialAndAuth (ru_dial ev) (cl_cfg c) of
           Inl e \<Rightarrow> (c, os, Some (ErrDialAuth e))
         | Inr (w, wl, rest) \<Rightarrow>
             let c = c\<lparr>cl_conn := Some w, cl_ip := parse_ip (we_ip wl)\<rparr>
             in if cl_ip c = [] then (close_conn c, os, Some (ErrVirtualIP (we_ip wl)))
                else
                  let c = c\<lparr>cl_mtu := (if we_mtu wl = 0 then 1280 else we_mtu wl)\<rparr>
                  in case parse_cidr (we_cidr wl) of
                       None \<Rightarrow> (close_conn c, os, Some (ErrCIDR (we_cidr wl)))
                     | Some (_, ipNet) \<Rightarrow>
                         let c = c\<lparr>cl_mask := net_mask ipNet\<rparr>
                         in case ru_create ev (cc_tun (cl_cfg c)) of
                              None \<Rightarrow> (close_conn c, os, Some ErrCreateTun)
                            | Some name \<Rightarrow>
                                let c = c\<lparr>cl_tun := Some \<lparr>td_name = name, td_out = [], td_ok = True, td_closed = False\<rparr>\<rparr>
                                in if \<not> ru_configure ev then (close_conn (close_tun c), os, Some ErrConfigureTun)
                                   else case take_routes ev tool name c os of
                                       (c, os, Some e) \<Rightarrow> (c, os, Some e)
                                     | (c, os, None) \<Rightarrow> (let (c, e) = go_online ev wl c in (c, os, e)))"

definition cleanup :: "'os ip_tool \<Rightarrow> client \<Rightarrow> 'os \<Rightarrow> client \<times> 'os" where
  "cleanup tool c os =
     (let (c, os) = (case cl_restore c of None \<Rightarrow> (c, os) | Some ops \<Rightarrow> (c\<lparr>cl_restore := None\<rparr>, del_all tool ops os));
          c = close_tun c;
          c = c\<lparr>cl_ns := map_option (\<lambda>ns. ns\<lparr>ns_closed := True\<rparr>) (cl_ns c)\<rparr>;
          c = close_conn c
      in (c\<lparr>cl_recv_on := False, cl_tun_on := False\<rparr>, os))"

text \<open>
  The client as a transition system: \<^verbatim>\<open>Run\<close> starts it, the goroutines take their steps in any order, and
  \<^verbatim>\<open>Run\<close> cleans up when the channel is closed. A goroutine whose loop has returned takes no more steps.
\<close>

inductive cl_work :: "client \<Rightarrow> client \<Rightarrow> bool" where
  frame: "cl_recv_on c \<Longrightarrow> cl_work c (recv_frame f c)"
| recv_error: "cl_recv_on c \<Longrightarrow> cl_work c ((markClosed c)\<lparr>cl_recv_on := False\<rparr>)"
| packet: "cl_tun_on c \<Longrightarrow> cl_work c (tun_packet data c)"
| read_error: "cl_tun_on c \<Longrightarrow> cl_work c ((markClosed c)\<lparr>cl_tun_on := False\<rparr>)"
| stack_output: "cl_ns c \<noteq> None \<Longrightarrow> cl_work c (onNetStackOutput data c)"
| tick: "cl_work c (fst (write_conn FramePing [] c))"
| closed: "cl_work c (markClosed c)"

inductive cl_step :: "'os ip_tool \<Rightarrow> client \<times> 'os \<Rightarrow> client \<times> 'os \<Rightarrow> bool" for tool where
  run: "\<not> cl_recv_on c \<Longrightarrow> \<not> cl_tun_on c \<Longrightarrow> RunStart ev tool c os = (c', os', r) \<Longrightarrow> cl_step tool (c, os) (c', os')"
| work: "cl_work c c' \<Longrightarrow> cl_step tool (c, os) (c', os)"
| finish: "cl_closed c \<Longrightarrow> cl_step tool (c, os) (cleanup tool c os)"

end
