(* ===== verification/Client_Inv.thy ===== *)
theory Client_Inv
  imports Client
begin

text \<open>
  What the client keeps: what each of its operations changes, and an invariant of its state that holds in every run,
  in whatever order the goroutines take their steps. \<open>client_sys\<close> is the client as an instance of the interface of
  transition systems.
\<close>

subsection \<open>What each operation changes\<close>

lemma client_same [simp]: "c\<lparr>cl_conn := cl_conn c\<rparr> = c" "c\<lparr>cl_tun := cl_tun c\<rparr> = c"
  by (cases c; simp)+

lemma same_conn: "\<exists>w. c = c\<lparr>cl_conn := w\<rparr> \<and> (w = None \<longleftrightarrow> cl_conn c = None)"
  by (rule exI [of _ "cl_conn c"]) simp

lemma same_tun: "\<exists>t. c = c\<lparr>cl_tun := t\<rparr> \<and> (t = None \<longleftrightarrow> cl_tun c = None)"
  by (rule exI [of _ "cl_tun c"]) simp

lemma write_conn_eq:
  "write_conn ty p c = (case cl_conn c of None \<Rightarrow> (c, Some ErrWrite)
     | Some w \<Rightarrow> (c\<lparr>cl_conn := Some (fst (WriteFrame w ty p))\<rparr>, snd (WriteFrame w ty p)))"
  by (cases "cl_conn c") (simp_all add: write_conn_def case_prod_unfold Let_def)

lemma write_conn_changes: "\<exists>w. fst (write_conn ty p c) = c\<lparr>cl_conn := w\<rparr> \<and> (w = None \<longleftrightarrow> cl_conn c = None)"
proof (cases "cl_conn c")
  case None
  then show ?thesis using same_conn [of c] by (simp add: write_conn_eq)
next
  case (Some w)
  then show ?thesis
    by (intro exI [of _ "Some (fst (WriteFrame w ty p))"]) (simp add: write_conn_eq)
qed

lemma sendData_eq:
  "sendData p c = (if cl_closed c then (c, Some ErrClientClosed)
     else (fst (write_conn FrameData p c), map_option ErrSend (snd (write_conn FrameData p c))))"
  by (simp add: sendData_def case_prod_unfold Let_def)

lemma sendData_changes: "\<exists>w. fst (sendData p c) = c\<lparr>cl_conn := w\<rparr> \<and> (w = None \<longleftrightarrow> cl_conn c = None)"
proof (cases "cl_closed c")
  case True
  then show ?thesis using same_conn [of c] by (simp add: sendData_eq)
next
  case False
  then show ?thesis using write_conn_changes [of FrameData p c] by (simp add: sendData_eq)
qed

lemma onNetStackOutput_eq:
  "onNetStackOutput p c = (case parseDst p of None \<Rightarrow> c
     | Some dst \<Rightarrow> fst (sendData (take (length p + 20) (fst (encapsulate p (cl_ip c) dst (replicate (length p + 20) 0)))) c))"
  by (simp add: onNetStackOutput_def case_prod_unfold Let_def encapsulate_def ipv4HdrLen_def add.commute split: option.split)

lemma onNetStackOutput_changes: "\<exists>w. onNetStackOutput p c = c\<lparr>cl_conn := w\<rparr> \<and> (w = None \<longleftrightarrow> cl_conn c = None)"
proof (cases "parseDst p")
  case None
  then show ?thesis using same_conn [of c] by (simp add: onNetStackOutput_eq)
next
  case (Some dst)
  then show ?thesis using sendData_changes by (simp add: onNetStackOutput_eq)
qed

lemma tun_write_changes: "\<exists>t. fst (tun_write p c) = c\<lparr>cl_tun := t\<rparr> \<and> (t = None \<longleftrightarrow> cl_tun c = None)"
proof (cases "cl_tun c")
  case None
  then show ?thesis using same_tun [of c] by (simp add: tun_write_def)
next
  case (Some t)
  show ?thesis
  proof (cases "td_ok t \<and> \<not> td_closed t")
    case True
    then show ?thesis by (intro exI [of _ "Some (t\<lparr>td_out := td_out t @ [p]\<rparr>)"]) (simp add: tun_write_def Some)
  next
    case False
    then have "fst (tun_write p c) = c" unfolding tun_write_def Some by (simp only: option.case if_False fst_conv)
    then show ?thesis using same_tun [of c] by simp
  qed
qed

lemma length_put_at: "k \<le> length out \<Longrightarrow> length (put_at k src out) = length out"
  by (simp add: put_at_def)

lemma length_encapsulate: "20 \<le> length out \<Longrightarrow> length (fst (encapsulate inner l v out)) = length out"
  by (simp add: encapsulate_def Let_def length_put_at ipv4HdrLen_def)

subsection \<open>The invariant\<close>

definition client_ok :: "client \<Rightarrow> bool" where
  "client_ok c \<longleftrightarrow>
     peers_ok (cl_peers c) \<and> buildRoutes (cc_rules (cl_cfg c)) = Inr (cl_routes c)
     \<and> cl_closes c = of_bool (cl_closed c)
     \<and> (cl_recv_on c \<or> cl_tun_on c \<longrightarrow> cl_ip c \<noteq> [] \<and> cl_conn c \<noteq> None \<and> cl_tun c \<noteq> None
          \<and> length (cl_encBuf c) = nat (cl_mtu c + 4) + 20)
     \<and> (cl_ns c \<noteq> None \<longrightarrow> cc_egress (cl_cfg c))
     \<and> (cl_restore c \<noteq> None \<longrightarrow> cc_mode (cl_cfg c) \<in> {ModeGlobal, ModeSmart})"

lemma client_ok_conn: "client_ok c \<Longrightarrow> (w = None \<longleftrightarrow> cl_conn c = None) \<Longrightarrow> client_ok (c\<lparr>cl_conn := w\<rparr>)"
  by (simp add: client_ok_def)

lemma client_ok_tun: "client_ok c \<Longrightarrow> (t = None \<longleftrightarrow> cl_tun c = None) \<Longrightarrow> client_ok (c\<lparr>cl_tun := t\<rparr>)"
  by (simp add: client_ok_def)

lemma client_ok_write [simp, intro]: "client_ok c \<Longrightarrow> client_ok (fst (write_conn ty p c))"
  using write_conn_changes [of ty p c] client_ok_conn [of c] by auto

lemma client_ok_send [simp, intro]: "client_ok c \<Longrightarrow> client_ok (fst (sendData p c))"
  using sendData_changes [of p c] client_ok_conn [of c] by auto

lemma client_ok_output [simp, intro]: "client_ok c \<Longrightarrow> client_ok (onNetStackOutput p c)"
  using onNetStackOutput_changes [of p c] client_ok_conn [of c] by auto

lemma client_ok_markClosed [simp, intro]: "client_ok c \<Longrightarrow> client_ok (markClosed c)"
  by (auto simp: client_ok_def markClosed_def)

lemma client_ok_off [simp, intro]: "client_ok c \<Longrightarrow> client_ok (c\<lparr>cl_recv_on := False\<rparr>)" "client_ok c \<Longrightarrow> client_ok (c\<lparr>cl_tun_on := False\<rparr>)"
  by (auto simp: client_ok_def)

lemma client_ok_peers [simp, intro]: "client_ok c \<Longrightarrow> peers_ok p \<Longrightarrow> client_ok (c\<lparr>cl_peers := p\<rparr>)"
  by (simp add: client_ok_def)

lemma client_ok_tun_write [simp, intro]: "client_ok c \<Longrightarrow> client_ok (tun_write_or_close p c)"
proof -
  assume ok: "client_ok c"
  then have "client_ok (fst (tun_write p c))" using tun_write_changes [of p c] client_ok_tun [of c] by auto
  then show ?thesis by (simp add: tun_write_or_close_def case_prod_unfold Let_def)
qed

lemma client_ok_inbound [simp, intro]: "client_ok c \<Longrightarrow> client_ok (handleInbound p c)"
proof -
  assume ok: "client_ok c"
  have "client_ok (c\<lparr>cl_ns := Some ns\<rparr>)" if "cl_ns c \<noteq> None" for ns using ok that by (simp add: client_ok_def)
  then show ?thesis using ok by (simp add: handleInbound_def split: option.split)
qed

lemma client_ok_ctrl [simp, intro]: "client_ok c \<Longrightarrow> client_ok (handleCtrl p c)"
proof -
  assume ok: "client_ok c"
  then have "peers_ok (cl_peers c)" by (simp add: client_ok_def)
  then show ?thesis using ok by (simp add: handleCtrl_def split: option.split)
qed

lemma client_ok_frame [simp, intro]: "client_ok c \<Longrightarrow> client_ok (recv_frame f c)"
  by (auto simp: recv_frame_def)

lemma client_ok_send_or_close [simp, intro]: "client_ok c \<Longrightarrow> client_ok (send_or_close p c)"
  by (auto simp: send_or_close_def case_prod_unfold Let_def)

lemma client_ok_encBuf: "client_ok c \<Longrightarrow> length b = length (cl_encBuf c) \<Longrightarrow> client_ok (c\<lparr>cl_encBuf := b\<rparr>)"
  by (simp add: client_ok_def)

definition packet_target :: "bytes \<Rightarrow> ip" where
  "packet_target p = IPv4 (p ! 16) (p ! 17) (p ! 18) (p ! 19)"

text \<open>One round of the loop, with the destination read off.\<close>

lemma tun_packet_eq:
  assumes "pkt = take (nat (cl_mtu c + 4)) data"
  shows "tun_packet data c =
      (if length pkt < 20 \<or> drop_bit 4 (pkt ! 0) \<noteq> 4 then c
       else case (if isLocalVirtual (cl_ip c) (cl_mask c) (packet_target pkt) then None else choose_via (packet_target pkt) c) of
           None \<Rightarrow> send_or_close pkt c
         | Some via \<Rightarrow>
             let vip = resolveVia via (cl_peers c)
             in if vip = [] then c
                else let (out, n) = encapsulate pkt (cl_ip c) vip (cl_encBuf c)
                     in send_or_close (take n out) (c\<lparr>cl_encBuf := out\<rparr>))"
  unfolding tun_packet_def Let_def assms [symmetric] by (simp add: parseDst_def packet_target_def)

text \<open>The three ways of a packet from the tunnel device.\<close>

lemma tun_packet_cases:
  assumes "pkt = take (nat (cl_mtu c + 4)) data"
  obtains (dropped) "tun_packet data c = c"
  | (direct) "tun_packet data c = send_or_close pkt c" "20 \<le> length pkt" "drop_bit 4 (pkt ! 0) = 4"
      "isLocalVirtual (cl_ip c) (cl_mask c) (packet_target pkt) \<or> choose_via (packet_target pkt) c = None"
  | (tunnelled) via vip out n where "choose_via (packet_target pkt) c = Some via" "resolveVia via (cl_peers c) = vip" "vip \<noteq> []"
      "\<not> isLocalVirtual (cl_ip c) (cl_mask c) (packet_target pkt)" "20 \<le> length pkt" "drop_bit 4 (pkt ! 0) = 4"
      "encapsulate pkt (cl_ip c) vip (cl_encBuf c) = (out, n)"
      "tun_packet data c = send_or_close (take n out) (c\<lparr>cl_encBuf := out\<rparr>)"
proof -
  note T = tun_packet_eq [OF assms]
  show ?thesis
  proof (cases "length pkt < 20 \<or> drop_bit 4 (pkt ! 0) \<noteq> 4")
    case True
    then show ?thesis using dropped T by simp
  next
    case ok: False
    then have len: "20 \<le> length pkt" "drop_bit 4 (pkt ! 0) = 4" by simp_all
    show ?thesis
    proof (cases "if isLocalVirtual (cl_ip c) (cl_mask c) (packet_target pkt) then None else choose_via (packet_target pkt) c")
      case None
      have "tun_packet data c = send_or_close pkt c" unfolding T None using ok by simp
      then show ?thesis using direct len None by (auto split: if_splits)
    next
      case (Some via)
      obtain out n where e: "encapsulate pkt (cl_ip c) (resolveVia via (cl_peers c)) (cl_encBuf c) = (out, n)" by fastforce
      have "tun_packet data c = (if resolveVia via (cl_peers c) = [] then c else send_or_close (take n out) (c\<lparr>cl_encBuf := out\<rparr>))"
        unfolding T Some using ok by (simp add: Let_def e)
      then show ?thesis using dropped tunnelled [OF _ refl _ _ len e] Some by (auto split: if_splits)
    qed
  qed
qed

lemma client_ok_tun_packet [simp, intro]:
  assumes "client_ok c" and "cl_tun_on c"
  shows "client_ok (tun_packet data c)"
  using refl [of "take (nat (cl_mtu c + 4)) data"]
proof (cases rule: tun_packet_cases)
  case (tunnelled via vip out n)
  have "20 \<le> length (cl_encBuf c)" using assms by (simp add: client_ok_def)
  then have "length out = length (cl_encBuf c)" using length_encapsulate tunnelled(7) by (metis fst_conv)
  then have "client_ok (c\<lparr>cl_encBuf := out\<rparr>)" by (rule client_ok_encBuf [OF assms(1)])
  then show ?thesis by (simp add: tunnelled(8))
qed (use assms in simp_all)

lemma close_ok:
  "client_ok c \<Longrightarrow> client_ok (close_conn c)" "client_ok c \<Longrightarrow> client_ok (close_tun c)"
  by (simp_all add: close_conn_def close_tun_def client_ok_def)

text \<open>The start: the guards are off until the goroutines run.\<close>

lemma close_both_ok [simp, intro]: "client_ok c \<Longrightarrow> client_ok (close_conn (close_tun c))"
  by (intro close_ok)

lemma close_fields [simp]:
  "cl_ip (close_conn c) = cl_ip c" "cl_mtu (close_conn c) = cl_mtu c" "cl_ip (close_tun c) = cl_ip c" "cl_mtu (close_tun c) = cl_mtu c"
  by (simp_all add: close_conn_def close_tun_def)

lemma take_routes_ok:
  assumes "take_routes ev tool name c os = (c', os', r)" and "client_ok c"
  shows "client_ok c' \<and> cl_ip c' = cl_ip c \<and> (r = None \<longrightarrow> cl_conn c' = cl_conn c \<and> cl_tun c' = cl_tun c)"
proof -
  have "client_ok (c\<lparr>cl_restore := Some ops\<rparr>)" if "cc_mode (cl_cfg c) = ModeGlobal \<or> cc_mode (cl_cfg c) = ModeSmart" for ops
    using assms(2) that by (auto simp: client_ok_def)
  then show ?thesis
    using assms(1) assms(2) close_both_ok [of c] unfolding take_routes_def
    by (auto split: if_splits prod.splits sum.splits)
qed

lemma go_online_ok:
  assumes "go_online ev wl c = (c', r)" and "client_ok c" and "cl_ip c \<noteq> []" and "cl_conn c \<noteq> None" and "cl_tun c \<noteq> None"
  shows "client_ok c'"
proof -
  let ?c = "c\<lparr>cl_peers := UpsertMany (we_peers wl) (cl_peers c)\<rparr>"
  have ok: "client_ok ?c" using assms(2) by (simp add: client_ok_def)
  show ?thesis
  proof (cases "cc_egress (cl_cfg c) \<and> \<not> ru_netstack ev")
    case True
    then have "c' = close_conn (close_tun ?c)" using assms(1) by (simp add: go_online_def Let_def)
    then show ?thesis using ok by simp
  next
    case False
    define ns where "ns = (if cc_egress (cl_cfg c) then Some \<lparr>ns_in = [], ns_closed = False\<rparr> else cl_ns c)"
    have "c' = ?c\<lparr>cl_ns := ns, cl_recv_on := True, cl_tun_on := True, cl_encBuf := replicate (nat (cl_mtu c + 4) + 20) 0, cl_ready := True\<rparr>"
      using assms(1) False by (cases "cc_egress (cl_cfg c)"; cases c) (simp_all add: go_online_def Let_def ns_def ipv4HdrLen_def)
    then show ?thesis using assms(3-5) ok by (cases "cl_ns c") (simp_all add: client_ok_def ns_def)
  qed
qed

lemma RunStart_ok:
  assumes "RunStart ev tool c os = (c', os', r)" and "client_ok c" and off: "\<not> cl_recv_on c" "\<not> cl_tun_on c"
  shows "client_ok c'"
proof (cases "dialAndAuth (ru_dial ev) (cl_cfg c)")
  case (Inl e)
  then have "c' = c\<lparr>cl_closed := False, cl_closes := 0, cl_ready := False, cl_conn := None\<rparr>"
    using assms(1) by (simp add: RunStart_def Let_def)
  then show ?thesis using assms(2) off by (simp add: client_ok_def)
next
  case (Inr x)
  obtain w wl rest where x: "x = (w, wl, rest)" by (cases x)
  define c1 where "c1 = c\<lparr>cl_closed := False, cl_closes := 0, cl_ready := False, cl_conn := Some w, cl_ip := parse_ip (we_ip wl)\<rparr>"
  define c2 where "c2 = c1\<lparr>cl_mtu := (if we_mtu wl = 0 then 1280 else we_mtu wl)\<rparr>"
  have ok: "client_ok c1" "client_ok c2" using assms(2) off by (simp_all add: c1_def c2_def client_ok_def)
  note start = RunStart_def Let_def Inr x c1_def c2_def
  consider "parse_ip (we_ip wl) = []" | "parse_ip (we_ip wl) \<noteq> []" "parse_cidr (we_cidr wl) = None"
    | p n where "parse_ip (we_ip wl) \<noteq> []" "parse_cidr (we_cidr wl) = Some (p, n)" by fastforce
  then show ?thesis
  proof cases
    case 1
    then have "c' = close_conn c1" using assms(1) by (simp add: start)
    then show ?thesis using close_ok(1) [OF ok(1)] by simp
  next
    case 2
    then have "c' = close_conn c2" using assms(1) by (simp add: start split del: if_split)
    then show ?thesis using close_ok(1) [OF ok(2)] by simp
  next
    case (3 p n)
    show ?thesis
    proof (cases "ru_create ev (cc_tun (cl_cfg c))")
      case None
      have "client_ok (c2\<lparr>cl_mask := net_mask n\<rparr>)" using ok by (simp add: client_ok_def)
      moreover have "c' = close_conn (c2\<lparr>cl_mask := net_mask n\<rparr>)" using assms(1) 3 None by (simp add: start split del: if_split)
      ultimately show ?thesis using close_ok(1) by simp
    next
      case (Some name)
      define c3 where "c3 = c2\<lparr>cl_mask := net_mask n, cl_tun := Some \<lparr>td_name = name, td_out = [], td_ok = True, td_closed = False\<rparr>\<rparr>"
      have ok3: "client_ok c3" using ok off by (simp add: client_ok_def c3_def c2_def c1_def)
      have on3: "cl_ip c3 \<noteq> []" "cl_conn c3 \<noteq> None" "cl_tun c3 \<noteq> None" using 3 by (simp_all add: c3_def c2_def c1_def)
      have run: "RunStart ev tool c os = (if \<not> ru_configure ev then (close_conn (close_tun c3), os, Some ErrConfigureTun)
          else case take_routes ev tool name c3 os of
              (c, os, Some e) \<Rightarrow> (c, os, Some e)
            | (c, os, None) \<Rightarrow> (let (c, e) = go_online ev wl c in (c, os, e)))"
        unfolding c3_def c2_def c1_def using 3 Some by (simp add: start split del: if_split)
      show ?thesis
      proof (cases "ru_configure ev")
        case False
        then show ?thesis using assms(1) ok3 unfolding run by auto
      next
        case True
        obtain c4 os4 r4 where t: "take_routes ev tool name c3 os = (c4, os4, r4)" by (metis prod_cases3)
        note t4 = take_routes_ok [OF t ok3]
        show ?thesis
        proof (cases r4)
          case None
          obtain c5 r5 where g: "go_online ev wl c4 = (c5, r5)" by fastforce
          have "client_ok c5" using go_online_ok [OF g] t4 on3 None by simp
          then show ?thesis using assms(1) True None unfolding run t by (simp add: g)
        next
          case Some
          then show ?thesis using assms(1) True t4 unfolding run t by simp
        qed
      qed
    qed
  qed
qed

lemma cleanup_ok: "client_ok c \<Longrightarrow> client_ok (fst (cleanup tool c os))"
  by (cases "cl_restore c") (simp_all add: cleanup_def close_conn_def close_tun_def client_ok_def Let_def)

definition client_start :: "cli_config \<Rightarrow> client \<times> 'os \<Rightarrow> bool" where
  "client_start cfg s \<longleftrightarrow> NewClient cfg = Inr (fst s)"

lemma NewClient_ok: "NewClient cfg = Inr c \<Longrightarrow> client_ok c"
  by (auto simp: NewClient_def client_ok_def split: sum.splits)

lemma client_start_ok: "client_start cfg s \<Longrightarrow> client_ok (fst s)"
  by (simp add: client_start_def NewClient_ok)

lemma cl_work_ok: "cl_work c c' \<Longrightarrow> client_ok c \<Longrightarrow> client_ok c'"
  by (induction rule: cl_work.induct) simp_all

lemma cl_step_ok: "cl_step tool s t \<Longrightarrow> client_ok (fst s) \<Longrightarrow> client_ok (fst t)"
proof (induction rule: cl_step.induct)
  case (run c ev os c' os' r)
  then show ?case using RunStart_ok [OF run(3)] by simp
next
  case (work c c' os)
  then show ?case by (simp add: cl_work_ok)
next
  case (finish c os)
  then show ?case by (simp add: cleanup_ok)
qed

interpretation client_sys: transition_system "client_start cfg" "cl_step tool" "\<lambda>s. client_ok (fst s)" for cfg tool
  by unfold_locales (auto intro: client_start_ok cl_step_ok)

end
