(* ===== verification/Client_Correct.thy ===== *)
theory Client_Correct
  imports Client_Inv
begin

text \<open>
  What the client guarantees: the states it can be in, and that traffic meant for an exit never leaves the machine
  unencapsulated. The first part puts a sample client online, by a handshake with an encoded welcome.
\<close>

subsection \<open>A client that is online\<close>

definition sample_wl :: welcome_msg where
  "sample_wl = \<lparr>we_ip = dotted 10 0 0 1, we_cidr = ''10.0.0.0/30'', we_network = ''n'', we_mtu = 0,
     we_peers = [\<lparr>pi_ip = dotted 10 0 0 2, pi_hostname = ''exit'', pi_os = ''linux'', pi_egress = True\<rparr>], we_session = None\<rparr>"

definition sample_dial :: dial_env where
  "sample_dial = \<lparr>dl_files = (\<lambda>_. None), dl_pem = (\<lambda>_. False), dl_dial = (\<lambda>_ _. True), dl_writer = new_writer,
     dl_input = frame_bytes (FrameCtrl, EncodeCtrl ((ctrl MsgWelcome)\<lparr>cm_welcome := Some sample_wl\<rparr>)), dl_os = ''linux''\<rparr>"

definition sample_run_env :: run_env where
  "sample_run_env = \<lparr>ru_dial = sample_dial, ru_create = (\<lambda>_. Some ''tun0''), ru_configure = True, ru_netstack = True,
     ru_lookup1 = toy_lookup, ru_lookup2 = toy_lookup\<rparr>"

definition sample_new :: client where
  "sample_new = \<lparr>cl_cfg = sample_config, cl_conn = None, cl_ip = [], cl_mask = [], cl_mtu = 0, cl_peers = NewPeerRegistry,
     cl_routes = [\<lparr>re_cidr = \<lparr>net_ip = [192, 0, 2, 0], net_mask = [255, 255, 255, 0]\<rparr>, re_via = ''exit''\<rparr>], cl_tun = None,
     cl_ns = None, cl_restore = None, cl_closed = False, cl_closes = 0, cl_ready = False, cl_recv_on = False, cl_tun_on = False,
     cl_encBuf = []\<rparr>"

definition sample_buf :: bytes where
  "sample_buf = replicate 1304 0"

text \<open>The client after the device has been configured, after the routes have been taken over, and online.\<close>

definition sample_c3 :: client where
  "sample_c3 = sample_new\<lparr>cl_closed := False, cl_closes := 0, cl_ready := False,
    cl_conn := Some \<lparr>w_out = frame_bytes (FrameCtrl, EncodeCtrl (client_hello ''linux'' sample_config)), w_cap = None\<rparr>,
    cl_ip := IPv4 10 0 0 1, cl_mtu := 1280, cl_mask := [255, 255, 255, 252],
    cl_tun := Some \<lparr>td_name = ''tun0'', td_out = [], td_ok = True, td_closed = False\<rparr>\<rparr>"

definition sample_c4 :: client where
  "sample_c4 = sample_c3\<lparr>cl_restore := Some [keep_op eth0 ''203.0.113.5/32'', tun_op ''default'' ''tun0'']\<rparr>"

definition sample_client :: client where
  "sample_client = sample_c4\<lparr>cl_peers := UpsertMany (we_peers sample_wl) (cl_peers sample_c4), cl_recv_on := True, cl_tun_on := True,
    cl_encBuf := sample_buf, cl_ready := True\<rparr>"

lemma sample_new: "NewClient sample_config = Inr sample_new"
  by (simp add: NewClient_def sample_new_def sample_config_def sample_targets Let_def)

text \<open>A handshake that the server answers with a welcome.\<close>

lemma dialAndAuth_welcome:
  assumes "buildClientTLSConfig ev (cc_ca cfg) = Inr tls" and "dl_dial ev tls (cc_server cfg)" and "w_cap (dl_writer ev) = None"
    and "length (EncodeCtrl (client_hello (dl_os ev) cfg)) \<le> MaxPayload"
    and "ReadFrame (dl_input ev) = Inr ((FrameCtrl, resp), rest)" and "DecodeCtrl resp = Some m"
    and "cm_type m = MsgWelcome" and "cm_welcome m = Some wl"
  shows "dialAndAuth ev cfg = Inr ((dl_writer ev)\<lparr>w_out := w_out (dl_writer ev)
      @ frame_bytes (FrameCtrl, EncodeCtrl (client_hello (dl_os ev) cfg))\<rparr>, wl, rest)"
  using WriteFrame_ok [OF assms(3,4), of FrameCtrl] assms by (simp add: dialAndAuth_def frame_bytes_def)

lemma sample_wl_ok: "ok_ctrl ((ctrl MsgWelcome)\<lparr>cm_welcome := Some sample_wl\<rparr>)"
proof -
  have ip: "dotted 10 0 0 1 = ''10.0.0.1''" "dotted 10 0 0 2 = ''10.0.0.2''" by code_simp+
  show ?thesis
    by (simp add: ok_ctrl_def ok_welcome_def ok_peer_def sample_wl_def ctrl_def text_ok_def MsgWelcome_def ip int64_def)
qed

lemma sample_wl_small: "length (EncodeCtrl ((ctrl MsgWelcome)\<lparr>cm_welcome := Some sample_wl\<rparr>)) < 400"
proof -
  have ip: "dotted 10 0 0 1 = ''10.0.0.1''" "dotted 10 0 0 2 = ''10.0.0.2''" by code_simp+
  show ?thesis unfolding sample_wl_def ip by code_simp
qed

lemma sample_dials:
  "dialAndAuth sample_dial sample_config = Inr (\<lparr>w_out = frame_bytes (FrameCtrl, EncodeCtrl (client_hello ''linux'' sample_config)), w_cap = None\<rparr>, sample_wl, [])"
proof -
  let ?m = "(ctrl MsgWelcome)\<lparr>cm_welcome := Some sample_wl\<rparr>"
  have "ReadFrame (frame_bytes (FrameCtrl, EncodeCtrl ?m) @ []) = Inr ((FrameCtrl, EncodeCtrl ?m), [])"
    using sample_wl_small by (intro fc.dec_enc) simp
  then have read: "ReadFrame (dl_input sample_dial) = Inr ((FrameCtrl, EncodeCtrl ?m), [])" by (simp add: sample_dial_def)
  have "length (EncodeCtrl (client_hello ''linux'' sample_config)) < 400" by code_simp
  then have "length (EncodeCtrl (client_hello (dl_os sample_dial) sample_config)) \<le> MaxPayload"
    by (simp add: sample_dial_def MaxPayload_def)
  moreover have "buildClientTLSConfig sample_dial (cc_ca sample_config) = Inr \<lparr>tls_insecure = True, tls_roots = None\<rparr>"
    by (simp add: buildClientTLSConfig_def sample_config_def)
  moreover have "cm_type ?m = MsgWelcome" "cm_welcome ?m = Some sample_wl" by (simp_all add: ctrl_def)
  ultimately have "dialAndAuth sample_dial sample_config = Inr ((dl_writer sample_dial)\<lparr>w_out := w_out (dl_writer sample_dial)
      @ frame_bytes (FrameCtrl, EncodeCtrl (client_hello (dl_os sample_dial) sample_config))\<rparr>, sample_wl, [])"
    using dialAndAuth_welcome [OF _ _ _ _ read decode_encode [OF sample_wl_ok]] by (simp add: sample_dial_def new_writer_def)
  then show ?thesis by (simp add: sample_dial_def new_writer_def)
qed

lemma sample_cidr: "parse_cidr ''10.0.0.0/30'' = Some (IPv4 10 0 0 0, \<lparr>net_ip = [10, 0, 0, 0], net_mask = [255, 255, 255, 252]\<rparr>)"
  by code_simp

text \<open>A start that goes all the way.\<close>

lemma RunStart_online:
  assumes "dialAndAuth (ru_dial ev) (cl_cfg c) = Inr (w, wl, rest)" and "parse_ip (we_ip wl) \<noteq> []"
    and "parse_cidr (we_cidr wl) = Some (p, n)" and "ru_create ev (cc_tun (cl_cfg c)) = Some name" and "ru_configure ev"
    and "take_routes ev tool name (c\<lparr>cl_closed := False, cl_closes := 0, cl_ready := False, cl_conn := Some w, cl_ip := parse_ip (we_ip wl),
        cl_mtu := (if we_mtu wl = 0 then 1280 else we_mtu wl), cl_mask := net_mask n,
        cl_tun := Some \<lparr>td_name = name, td_out = [], td_ok = True, td_closed = False\<rparr>\<rparr>) os = (c4, os4, None)"
    and "go_online ev wl c4 = (c5, None)"
  shows "RunStart ev tool c os = (c5, os4, None)"
  using assms by (simp add: RunStart_def Let_def split del: if_split)

lemma sample_take_routes:
  assumes "cl_cfg c = sample_config"
  shows "take_routes sample_run_env toy_ip ''tun0'' c [] = (c\<lparr>cl_restore := Some [keep_op eth0 ''203.0.113.5/32'', tun_op ''default'' ''tun0'']\<rparr>,
    [rt (tun_op ''default'' ''tun0''), rt (keep_op eth0 ''203.0.113.5/32'')], None)"
proof -
  have "applyGlobalRoutes toy_ip toy_lookup toy_lookup sample_config ''tun0'' [] =
      ([rt (tun_op ''default'' ''tun0''), rt (keep_op eth0 ''203.0.113.5/32'')],
       Inr [keep_op eth0 ''203.0.113.5/32'', tun_op ''default'' ''tun0''])"
    by (simp add: sample_routes(1) op_add_def keep_op_def tun_op_def)
  moreover have "cc_mode sample_config = ModeGlobal" by (simp add: sample_config_def)
  ultimately show ?thesis by (simp add: take_routes_def assms sample_run_env_def)
qed

lemma sample_go_online:
  assumes "cl_cfg c = sample_config" and "cl_mtu c = 1280"
  shows "go_online sample_run_env sample_wl c = (c\<lparr>cl_peers := UpsertMany (we_peers sample_wl) (cl_peers c), cl_recv_on := True, cl_tun_on := True,
    cl_encBuf := sample_buf, cl_ready := True\<rparr>, None)"
proof -
  have "\<not> cc_egress sample_config" by (simp add: sample_config_def)
  then show ?thesis by (simp add: go_online_def Let_def assms ipv4HdrLen_def sample_buf_def)
qed

lemma sample_run:
  "\<exists>os. RunStart sample_run_env toy_ip sample_new [] = (sample_client, os, None)"
proof -
  have cfg: "cl_cfg sample_new = sample_config" by (simp add: sample_new_def)
  have ip: "parse_ip (we_ip sample_wl) = IPv4 10 0 0 1" "IPv4 10 0 0 1 \<noteq> []" "we_mtu sample_wl = 0"
    by (simp_all add: sample_wl_def IPv4_def)
  have dial: "dialAndAuth (ru_dial sample_run_env) (cl_cfg sample_new) =
      Inr (\<lparr>w_out = frame_bytes (FrameCtrl, EncodeCtrl (client_hello ''linux'' sample_config)), w_cap = None\<rparr>, sample_wl, [])"
    by (simp add: cfg sample_dials sample_run_env_def)
  have cidr: "parse_cidr (we_cidr sample_wl) = Some (IPv4 10 0 0 0, \<lparr>net_ip = [10, 0, 0, 0], net_mask = [255, 255, 255, 252]\<rparr>)"
    by (simp add: sample_wl_def sample_cidr)
  have tun: "ru_create sample_run_env (cc_tun (cl_cfg sample_new)) = Some ''tun0''" "ru_configure sample_run_env"
    by (simp_all add: sample_run_env_def)
  have c4: "cl_cfg sample_c3 = sample_config" "cl_cfg sample_c4 = sample_config" "cl_mtu sample_c4 = 1280"
    by (simp_all add: sample_c4_def sample_c3_def cfg)
  have "RunStart sample_run_env toy_ip sample_new [] =
      (sample_client, [rt (tun_op ''default'' ''tun0''), rt (keep_op eth0 ''203.0.113.5/32'')], None)"
  proof (rule RunStart_online [OF dial _ cidr tun])
    show "parse_ip (we_ip sample_wl) \<noteq> []" using ip by simp
    show "go_online sample_run_env sample_wl sample_c4 = (sample_client, None)"
      unfolding sample_go_online [OF c4(2,3)] sample_client_def ..
    show "take_routes sample_run_env toy_ip ''tun0'' (sample_new\<lparr>cl_closed := False, cl_closes := 0, cl_ready := False,
        cl_conn := Some \<lparr>w_out = frame_bytes (FrameCtrl, EncodeCtrl (client_hello ''linux'' sample_config)), w_cap = None\<rparr>,
        cl_ip := parse_ip (we_ip sample_wl), cl_mtu := (if we_mtu sample_wl = 0 then 1280 else we_mtu sample_wl),
        cl_mask := net_mask \<lparr>net_ip = [10, 0, 0, 0], net_mask = [255, 255, 255, 252]\<rparr>,
        cl_tun := Some \<lparr>td_name = ''tun0'', td_out = [], td_ok = True, td_closed = False\<rparr>\<rparr>) [] =
      (sample_c4, [rt (tun_op ''default'' ''tun0''), rt (keep_op eth0 ''203.0.113.5/32'')], None)"
      unfolding ip(1,3) ipnet.select_convs simp_thms if_True sample_c3_def [symmetric] sample_take_routes [OF c4(1)] sample_c4_def ..
  qed
  then show ?thesis by blast
qed

lemma online_reach: "\<exists>os. reach (client_start sample_config) (cl_step toy_ip) (sample_client, os)"
proof -
  obtain os where run: "RunStart sample_run_env toy_ip sample_new [] = (sample_client, os, None)" using sample_run by blast
  have step: "cl_step toy_ip (sample_new, []) (sample_client, os)"
    by (rule cl_step.run [OF _ _ run]) (simp_all add: sample_new_def)
  have "reach (client_start sample_config) (cl_step toy_ip) (sample_new, [])"
    by (rule reach_init) (simp add: client_start_def sample_new)
  from reach_step [OF this step] show ?thesis by (rule exI)
qed



subsection \<open>Nothing leaks\<close>

text \<open>A write to a connection appends a prefix of what was to be written.\<close>

lemma write_bytes_prefix: "\<exists>k. w_out (fst (write_bytes bs w)) = w_out w @ take k bs"
  by (cases "w_cap w") (auto simp: write_bytes_def intro: exI [of _ "length bs"])

lemma WriteFrame_prefix: "\<exists>k. w_out (fst (WriteFrame w ty p)) = w_out w @ take k (frame_bytes (ty, p))"
proof (cases "length p > MaxPayload")
  case True
  then show ?thesis by (intro exI [of _ 0]) (simp add: WriteFrame_def)
next
  case False
  obtain w1 ok1 where w1: "write_bytes (frame_header ty p) w = (w1, ok1)" by fastforce
  obtain k1 where k1: "w_out w1 = w_out w @ take k1 (frame_header ty p)"
    using write_bytes_prefix [of "frame_header ty p" w] w1 by auto
  obtain k2 where k2: "w_out (fst (write_bytes p w1)) = w_out w1 @ take k2 p" using write_bytes_prefix by blast
  show ?thesis
  proof (cases ok1)
    case True
    then have "w_out w1 = w_out w @ frame_header ty p"
      using w1 by (auto simp: write_bytes_def split: option.splits if_splits)
    then show ?thesis using False True k2
      by (intro exI [of _ "length (frame_header ty p) + k2"]) (simp add: WriteFrame_def w1 case_prod_unfold Let_def frame_bytes_def)
  next
    case nok: False
    have "w_out (fst (WriteFrame w ty p)) = w_out w @ take (min k1 (length (frame_header ty p))) (frame_bytes (ty, p))"
      using False nok k1 by (simp add: WriteFrame_def w1 frame_bytes_def min_def)
    then show ?thesis by blast
  qed
qed

lemma send_or_close_conn:
  assumes "cl_conn c = Some w"
  shows "\<exists>w' k. cl_conn (send_or_close p c) = Some w' \<and> w_out w' = w_out w @ take k (frame_bytes (FrameData, p))
    \<and> cl_tun (send_or_close p c) = cl_tun c \<and> cl_ns (send_or_close p c) = cl_ns c \<and> cl_peers (send_or_close p c) = cl_peers c"
proof -
  obtain k where k: "w_out (fst (WriteFrame w FrameData p)) = w_out w @ take k (frame_bytes (FrameData, p))"
    using WriteFrame_prefix by blast
  show ?thesis
  proof (cases "cl_closed c")
    case True
    then show ?thesis using assms
      by (intro exI [of _ w] exI [of _ 0]) (simp add: send_or_close_def sendData_eq markClosed_def)
  next
    case False
    then show ?thesis using assms k
      by (intro exI [of _ "fst (WriteFrame w FrameData p)"] exI [of _ k])
        (simp add: send_or_close_def sendData_eq write_conn_eq markClosed_def)
  qed
qed

lemma via_to4:
  assumes "resolveVia via p = vip" and "vip \<noteq> []" and "\<forall>peer \<in> set (Snapshot p). to4 (parse_ip (pi_ip peer)) \<noteq> []"
  shows "to4 vip \<noteq> []"
proof (cases "parse_ip via \<noteq> [] \<and> to4 (parse_ip via) \<noteq> []")
  case True
  then show ?thesis using assms(1,2) by (auto simp: resolveVia_def Let_def split: if_splits)
next
  case False
  then have "ResolveEgress via p = vip" using assms(1) by (auto simp: resolveVia_def Let_def)
  then show ?thesis
    using first_ip_Some [of "\<lambda>peer. pi_hostname peer = via \<and> pi_egress peer" "pr_byIP p"] assms(2,3)
    by (auto simp: ResolveEgress_def Snapshot_def)
qed

text \<open>
  C3. Traffic that is meant for an exit never leaves in the clear. A packet from the tunnel device for an address outside
  the client's network that matches a rule, or any such packet in global mode, is either dropped, or all that is
  written to the server is (the beginning of) one data frame with the packet encapsulated for the address of a
  peer that is online and authorised as an exit at that moment, with the client's address as the source; only that exit
  can take it out, and it gets exactly the packet.
\<close>

theorem no_leak:
  assumes "reach (client_start cfg) (cl_step tool) (c, os)" and "cl_tun_on c" and "cl_conn c = Some w"
    and "pkt = take (nat (cl_mtu c + 4)) data" and "20 \<le> length pkt" and "drop_bit 4 (pkt ! 0) = 4" and "cl_mtu c \<le> 65511"
    and "\<not> isLocalVirtual (cl_ip c) (cl_mask c) (packet_target pkt)"
    and "matchRoute (packet_target pkt) (cl_routes c) \<noteq> None \<or> cc_mode (cl_cfg c) = ModeGlobal"
    and "to4 (cl_ip c) \<noteq> []" and "\<forall>peer \<in> set (Snapshot (cl_peers c)). to4 (parse_ip (pi_ip peer)) \<noteq> []"
  shows "\<exists>w'. cl_conn (tun_packet data c) = Some w' \<and> cl_tun (tun_packet data c) = cl_tun c \<and>
    (w_out w' = w_out w \<or>
     (\<exists>vip sent k. exit_at (cl_peers c) vip \<and> w_out w' = w_out w @ take k (frame_bytes (FrameData, sent))
        \<and> decapsulate sent vip = Some pkt \<and> (\<forall>other. \<not> ip_equal vip other \<longrightarrow> decapsulate sent other = None)
        \<and> take 4 (drop 12 sent) = to4 (cl_ip c) \<and> parseDst sent = Some (v4_prefix @ to4 vip)))"
proof -
  have ok: "client_ok c" using client_sys.reach_inv [OF assms(1)] by simp
  have via: "choose_via (packet_target pkt) c \<noteq> None" using assms(9) by (auto simp: choose_via_def split: option.splits)
  from assms(4) show ?thesis
  proof (cases rule: tun_packet_cases)
    case dropped
    then show ?thesis using assms(3) by auto
  next
    case direct
    then show ?thesis using assms(8) via by simp
  next
    case (tunnelled via vip out n)
    let ?c = "c\<lparr>cl_encBuf := out\<rparr>"
    have vip4: "to4 vip \<noteq> []" by (rule via_to4 [OF tunnelled(2,3) assms(11)])
    have room: "20 + length pkt \<le> length (cl_encBuf c)" using ok assms(2,4) by (simp add: client_ok_def)
    have short: "length pkt \<le> 65515" using assms(4,7) by simp
    have sent: "take n out = take (snd (encapsulate pkt (cl_ip c) vip (cl_encBuf c))) (fst (encapsulate pkt (cl_ip c) vip (cl_encBuf c)))"
      by (simp add: tunnelled(7))
    note enc = encapsulate_facts [OF assms(10) vip4 room short sent]
    have exit: "exit_at (cl_peers c) vip"
      using ok ed.via_exit tunnelled(2,3) unfolding resolveVia_ed client_ok_def by blast
    obtain w' k where w': "cl_conn (send_or_close (take n out) ?c) = Some w'"
      "w_out w' = w_out w @ take k (frame_bytes (FrameData, take n out))" "cl_tun (send_or_close (take n out) ?c) = cl_tun c"
      using send_or_close_conn [of ?c w "take n out"] assms(3) by auto
    then show ?thesis unfolding tunnelled(8) using enc exit by blast
  qed
qed

text \<open>A packet to an outside address, from the sample client.\<close>

definition sample_pkt :: bytes where
  "sample_pkt = [0x45, 0, 0, 20, 0, 0, 0, 0, 64, 17, 0, 0, 10, 0, 0, 1, 8, 8, 8, 8]"

lemma sample_outside:
  shows "\<not> isLocalVirtual (cl_ip sample_client) (cl_mask sample_client) (packet_target sample_pkt)" and "to4 (cl_ip sample_client) \<noteq> []"
proof -
  have "cl_ip sample_client = IPv4 10 0 0 1" "cl_mask sample_client = [255, 255, 255, 252]"
    by (simp_all add: sample_client_def sample_c4_def sample_c3_def)
  moreover have "\<not> isLocalVirtual (IPv4 10 0 0 1) [255, 255, 255, 252] (packet_target sample_pkt)" "to4 (IPv4 10 0 0 1) \<noteq> []"
    by code_simp+
  ultimately show "\<not> isLocalVirtual (cl_ip sample_client) (cl_mask sample_client) (packet_target sample_pkt)" and "to4 (cl_ip sample_client) \<noteq> []"
    by simp_all
qed

lemma sample_peers: "Snapshot (cl_peers sample_client) = we_peers sample_wl"
  by (simp add: sample_client_def sample_c4_def sample_c3_def sample_new_def sample_wl_def Snapshot_def NewPeerRegistry_def)

lemma no_leak_witness:
  "\<exists>w'. cl_conn (tun_packet sample_pkt sample_client) = Some w' \<and>
    (w_out w' = frame_bytes (FrameCtrl, EncodeCtrl (client_hello ''linux'' sample_config)) \<or>
     (\<exists>vip sent k. exit_at (cl_peers sample_client) vip
        \<and> w_out w' = frame_bytes (FrameCtrl, EncodeCtrl (client_hello ''linux'' sample_config)) @ take k (frame_bytes (FrameData, sent))
        \<and> decapsulate sent vip = Some sample_pkt))"
proof -
  obtain os where reach: "reach (client_start sample_config) (cl_step toy_ip) (sample_client, os)" using online_reach by blast
  have on: "cl_tun_on sample_client" "cl_mtu sample_client = 1280" "cc_mode (cl_cfg sample_client) = ModeGlobal"
    "cl_conn sample_client = Some \<lparr>w_out = frame_bytes (FrameCtrl, EncodeCtrl (client_hello ''linux'' sample_config)), w_cap = None\<rparr>"
    by (simp_all add: sample_client_def sample_c4_def sample_c3_def sample_new_def sample_config_def)
  have pkt: "sample_pkt = take (nat (cl_mtu sample_client + 4)) sample_pkt" "20 \<le> length sample_pkt" "drop_bit 4 (sample_pkt ! 0) = 4"
    by (simp_all add: on sample_pkt_def)
  have peers: "\<forall>peer \<in> set (Snapshot (cl_peers sample_client)). to4 (parse_ip (pi_ip peer)) \<noteq> []"
    by (simp add: sample_peers sample_wl_def to4_def IPv4_def v4_prefix_def)
  have "cl_mtu sample_client \<le> 65511" by (simp add: on)
  from no_leak [OF reach on(1,4) pkt this sample_outside(1) disjI2 [OF on(3)] sample_outside(2) peers]
  show ?thesis by auto
qed

end
