(* ===== verification/Tunnel.thy ===== *)
theory Tunnel
  imports Client_Correct Server
begin

text \<open>
  Clients and server together: a packet's way from one client's tunnel device through the hub to an exit, and the
  answer's way back. Each party is the model of its own theory; what one writes is what the other reads.
\<close>

subsection \<open>What each party does with a packet\<close>

lemma ip_string_v4: "to4 p = [a, b, c, d] \<Longrightarrow> ip_string p = dotted a b c d"
  by (auto simp: ip_string_def to4_def split: if_splits)

lemma ip_string_to4_eq:
  assumes "to4 p = to4 q" and "to4 q \<noteq> []"
  shows "ip_string p = ip_string q"
  using length_to4 [OF assms(2)] assms(1) by (auto elim!: length4E simp: ip_string_v4)

lemma packet_dst_parse: "parseDst p = Some d \<Longrightarrow> packet_dst p = d \<and> 20 \<le> length p"
  by (auto simp: parseDst_def packet_dst_def split: if_splits)

lemma to4_prefix: "length x = 4 \<Longrightarrow> to4 (v4_prefix @ x) = x"
  by (simp add: to4_def)

lemma decapsulate_same: "to4 p \<noteq> [] \<Longrightarrow> to4 q = to4 p \<Longrightarrow> decapsulate x p = decapsulate x q"
  by (simp add: decapsulate_def Let_def ip_equal_to4)

text \<open>An encapsulated packet, as a term of its own.\<close>

definition tunnel :: "ip \<Rightarrow> ip \<Rightarrow> bytes \<Rightarrow> bytes \<Rightarrow> bytes" where
  "tunnel src dst inner out = take (snd (encapsulate inner src dst out)) (fst (encapsulate inner src dst out))"

lemma tunnel_facts:
  assumes "to4 src \<noteq> []" and "to4 dst \<noteq> []" and "20 + length inner \<le> length out" and "length inner \<le> 65515"
  shows "decapsulate (tunnel src dst inner out) dst = Some inner" and "packet_dst (tunnel src dst inner out) = v4_prefix @ to4 dst"
    and "length (tunnel src dst inner out) = 20 + length inner"
proof -
  note enc = encapsulate_facts [OF assms refl, folded tunnel_def]
  show "decapsulate (tunnel src dst inner out) dst = Some inner" using enc by blast
  show "packet_dst (tunnel src dst inner out) = v4_prefix @ to4 dst" using packet_dst_parse enc by blast
  have "snd (encapsulate inner src dst out) = 20 + length inner" by (simp add: encapsulate_def Let_def ipv4HdrLen_def)
  then show "length (tunnel src dst inner out) = 20 + length inner"
    using assms(3) by (simp add: tunnel_def length_encapsulate)
qed

lemma sends:
  assumes "\<not> cl_closed c" and "cl_conn c = Some w" and "w_cap w = None" and "length p \<le> MaxPayload"
  shows "sendData p c = (c\<lparr>cl_conn := Some (w\<lparr>w_out := w_out w @ frame_bytes (FrameData, p)\<rparr>)\<rparr>, None)"
  using assms by (simp add: sendData_eq write_conn_eq WriteFrame_ok frame_bytes_def)

lemma consumer_sends:
  assumes "pkt = take (nat (cl_mtu a + 4)) data" and "20 \<le> length pkt" and "drop_bit 4 (pkt ! 0) = 4"
    and "\<not> isLocalVirtual (cl_ip a) (cl_mask a) (packet_target pkt)" and "choose_via (packet_target pkt) a = Some via"
    and "resolveVia via (cl_peers a) = vip" and "vip \<noteq> []"
    and "\<not> cl_closed a" and "cl_conn a = Some w" and "w_cap w = None" and "length (tunnel (cl_ip a) vip pkt (cl_encBuf a)) \<le> MaxPayload"
  shows "tun_packet data a = a\<lparr>cl_encBuf := fst (encapsulate pkt (cl_ip a) vip (cl_encBuf a)),
    cl_conn := Some (w\<lparr>w_out := w_out w @ frame_bytes (FrameData, tunnel (cl_ip a) vip pkt (cl_encBuf a))\<rparr>)\<rparr>"
proof -
  have T: "tun_packet data a = send_or_close (tunnel (cl_ip a) vip pkt (cl_encBuf a)) (a\<lparr>cl_encBuf := fst (encapsulate pkt (cl_ip a) vip (cl_encBuf a))\<rparr>)"
    unfolding tun_packet_eq [OF assms(1)] using assms(2-7) by (simp add: tunnel_def case_prod_unfold Let_def)
  show ?thesis unfolding T using assms(8-11) by (simp add: send_or_close_def sends)
qed

lemma nth_put_at:
  assumes "k + length src \<le> length out" and "i < length out"
  shows "put_at k src out ! i = (if k \<le> i \<and> i < k + length src then src ! (i - k) else out ! i)"
  using assms by (auto simp: put_at_def nth_append min_def)

lemma echo_reply_to:
  assumes "icmpEchoReply pkt = Some r"
  shows "length r = length pkt" and "20 \<le> length pkt" and "parseDst r = Some (IPv4 (pkt ! 12) (pkt ! 13) (pkt ! 14) (pkt ! 15))"
    and "drop_bit 4 (pkt ! 0) = 4"
proof -
  have ok: "28 \<le> length pkt" "drop_bit 4 (pkt ! 0) = 4" and r: "\<exists>x y. r = (put_at 12 (take 4 (drop 16 pkt)) (put_at 16 (take 4 (drop 12 pkt)) pkt))
      [20 := 0, 21 := 0, 22 := 0, 23 := 0, 22 := x, 23 := y]"
    using assms by (auto simp: icmpEchoReply_def Let_def split: if_splits)
  then obtain x y where r: "r = (put_at 12 (take 4 (drop 16 pkt)) (put_at 16 (take 4 (drop 12 pkt)) pkt))
      [20 := 0, 21 := 0, 22 := 0, 23 := 0, 22 := x, 23 := y]" by blast
  show "length r = length pkt" "20 \<le> length pkt" "drop_bit 4 (pkt ! 0) = 4" using ok by (simp_all add: r length_put_at)
  show "parseDst r = Some (IPv4 (pkt ! 12) (pkt ! 13) (pkt ! 14) (pkt ! 15))"
    using ok by (simp add: r parseDst_def length_put_at nth_put_at)
qed

lemma take_drop_nth4: "20 \<le> length p \<Longrightarrow> take 4 (drop 12 p) = [p ! 12, p ! 13, p ! 14, p ! 15]"
  by (intro nth_equalityI) (auto simp: less_Suc_eq numeral_eq_Suc)

text \<open>What the relay delivers, and to whom.\<close>

lemma Relay_delivers:
  assumes "Relay now p src h = (h', None)"
    and "map_of (hb_table h) (nd_network (hb_heap h src), ip_string (packet_dst p)) = Some dst"
  shows "w_out (hb_out h' (nd_rw (hb_heap h dst))) = w_out (hb_out h (nd_rw (hb_heap h dst))) @ frame_bytes (FrameData, p)"
  using assms(1)
proof (cases rule: Relay_cases)
  case (passed dst' acc dev egr eg h1 h2 ok1 ok2)
  have d: "dst' = dst" using passed(2) assms(2) by simp
  have ok: "ok1" "ok2" "h' = count_relayed now p (acc, dev, egr, eg) src dst' h2" using passed(8) by (auto split: if_splits)
  note w1 = conn_write_out [OF passed(6)] and w2 = conn_write_out [OF passed(7)]
  have "hb_out h' = hb_out h2" by (simp add: ok(3) count_relayed_def Let_def)
  then show ?thesis using w1(2) [OF ok(1)] w2(2) [OF ok(2)] by (simp add: d frame_bytes_def frame_header_def)
qed simp_all

lemma Relay_keeps:
  assumes "Relay now p src h = (h', r)"
  shows "hb_table h' = hb_table h" and "nd_network (hb_heap h' i) = nd_network (hb_heap h i)"
proof -
  have view: "hub_view h' = hub_view h" using Relay_view(1) [of now p src h] assms by simp
  then show "hb_table h' = hb_table h" by (simp add: hub_view_def)
  have "nd_key (hb_heap h' i) = nd_key (hb_heap h i)" using view by (simp add: hub_view_def fun_eq_iff)
  then show "nd_network (hb_heap h' i) = nd_network (hb_heap h i)" by (simp add: nd_key_def)
qed

text \<open>What an exit does with an encapsulated packet: it answers an echo request, and hands everything else to its network stack.\<close>

lemma exit_answers:
  assumes "decapsulate p (cl_ip b) = Some pkt" and "cl_ns b = Some ns" and "icmpEchoReply pkt = Some r" and "parseDst r = Some dst"
    and "\<not> cl_closed b" and "cl_conn b = Some w" and "w_cap w = None"
    and "length (tunnel (cl_ip b) dst r (replicate (length r + 20) 0)) \<le> MaxPayload"
  shows "recv_frame (FrameData, p) b = b\<lparr>cl_conn := Some (w\<lparr>w_out := w_out w
    @ frame_bytes (FrameData, tunnel (cl_ip b) dst r (replicate (length r + 20) 0))\<rparr>)\<rparr>"
proof -
  have "snd (encapsulate r (cl_ip b) dst (replicate (length r + 20) 0)) = length r + 20"
    by (simp add: encapsulate_def Let_def ipv4HdrLen_def)
  then show ?thesis
    using assms(1-4) sends [OF assms(5-8)] by (simp add: recv_frame_def handleInbound_def onNetStackOutput_eq tunnel_def)
qed

lemma exit_injects:
  assumes "decapsulate p (cl_ip b) = Some pkt" and "cl_ns b = Some ns" and "icmpEchoReply pkt = None"
  shows "recv_frame (FrameData, p) b = b\<lparr>cl_ns := Some (ns\<lparr>ns_in := ns_in ns @ [pkt]\<rparr>)\<rparr>"
  using assms by (simp add: recv_frame_def handleInbound_def InjectInbound_def)

lemma consumer_receives:
  assumes "decapsulate p (cl_ip a) = Some pkt" and "cl_ns a = None" and "cl_tun a = Some t" and "td_ok t" and "\<not> td_closed t"
  shows "recv_frame (FrameData, p) a = a\<lparr>cl_tun := Some (t\<lparr>td_out := td_out t @ [pkt]\<rparr>)\<rparr>"
  using assms by (simp add: recv_frame_def handleInbound_def tun_write_or_close_def tun_write_def)

text \<open>
  C14. An echo request through an exit comes back. The consumer \<open>a\<close> reads an ICMP echo request for an outside address from its
  tunnel device and has the exit \<open>b\<close> chosen for it; both are online in one network. Then \<open>a\<close> sends the server one data
  frame with the request encapsulated for \<open>b\<close>; when the hub relays it, exactly that frame is written to \<open>b\<close>'s connection;
  \<open>b\<close> takes the request out and sends the server one frame with the echo reply encapsulated for \<open>a\<close>; when the hub
  relays it, exactly that frame is written to \<open>a\<close>'s connection; and \<open>a\<close> writes the echo reply, and nothing else, to its
  tunnel device.
\<close>

theorem ping_through_exit:
  assumes "cl_conn a = Some wa" and "w_cap wa = None" and "\<not> cl_closed a" and "cl_ns a = None"
    and "cl_tun a = Some t" and "td_ok t" and "\<not> td_closed t"
    and "cl_conn b = Some wb" and "w_cap wb = None" and "\<not> cl_closed b" and "cl_ns b = Some ns"
    and "to4 (cl_ip a) \<noteq> []" and "to4 (cl_ip b) \<noteq> []"
    and "length pkt \<le> nat (cl_mtu a + 4)" and "length pkt + 20 \<le> length (cl_encBuf a)" and "length pkt \<le> 65515"
    and "icmpEchoReply pkt = Some reply" and "take 4 (drop 12 pkt) = to4 (cl_ip a)"
    and "\<not> isLocalVirtual (cl_ip a) (cl_mask a) (packet_target pkt)"
    and "choose_via (packet_target pkt) a = Some via" and "resolveVia via (cl_peers a) = vip" and "to4 vip = to4 (cl_ip b)"
    and "map_of (hb_table h) (net, ip_string (cl_ip a)) = Some i" and "nd_network (hb_heap h i) = net"
    and "map_of (hb_table h) (net, ip_string (cl_ip b)) = Some j" and "nd_network (hb_heap h j) = net"
    and "request = tunnel (cl_ip a) vip pkt (cl_encBuf a)"
    and "response = tunnel (cl_ip b) (v4_prefix @ to4 (cl_ip a)) reply (replicate (length reply + 20) 0)"
    and "Relay now request i h = (h1, None)" and "Relay now' response j h1 = (h2, None)"
  shows "cl_conn (tun_packet pkt a) = Some (wa\<lparr>w_out := w_out wa @ frame_bytes (FrameData, request)\<rparr>)
    \<and> w_out (hb_out h1 (nd_rw (hb_heap h j))) = w_out (hb_out h (nd_rw (hb_heap h j))) @ frame_bytes (FrameData, request)
    \<and> recv_frame (FrameData, request) b = b\<lparr>cl_conn := Some (wb\<lparr>w_out := w_out wb @ frame_bytes (FrameData, response)\<rparr>)\<rparr>
    \<and> w_out (hb_out h2 (nd_rw (hb_heap h1 i))) = w_out (hb_out h1 (nd_rw (hb_heap h1 i))) @ frame_bytes (FrameData, response)
    \<and> cl_tun (recv_frame (FrameData, response) (tun_packet pkt a)) = Some (t\<lparr>td_out := td_out t @ [reply]\<rparr>)"
proof -
  note reply = echo_reply_to [OF assms(17)]
  have vip: "to4 vip \<noteq> []" "vip \<noteq> []" using assms(13,22) by (auto simp: to4_def)
  have pkt: "pkt = take (nat (cl_mtu a + 4)) pkt" using assms(14) by simp
  have src: "IPv4 (pkt ! 12) (pkt ! 13) (pkt ! 14) (pkt ! 15) = v4_prefix @ to4 (cl_ip a)"
    using assms(18) [symmetric] reply(2) by (simp add: IPv4_def take_drop_nth4)
  have home: "to4 (v4_prefix @ to4 (cl_ip a)) = to4 (cl_ip a)" using length_to4 [OF assms(12)] by (rule to4_prefix)
  have max: "n + 20 \<le> 65535 \<Longrightarrow> 20 + n \<le> MaxPayload" for n by (simp add: MaxPayload_def)
  note req = tunnel_facts [OF assms(12) vip(1), of pkt "cl_encBuf a", folded assms(27)]
  have room: "20 + length pkt \<le> length (cl_encBuf a)" using assms(15) by simp
  note req = req [OF room assms(16)]
  have "to4 (v4_prefix @ to4 (cl_ip a)) \<noteq> []" "20 + length reply \<le> length (replicate (length reply + 20) (0 :: byte))" "length reply \<le> 65515"
    using home assms(12,16) reply(1) by simp_all
  note resp = tunnel_facts [OF assms(13) this, folded assms(28)]
  have small: "length request \<le> MaxPayload" "length response \<le> MaxPayload"
    using req(3) resp(3) reply(1) assms(16) max by simp_all
  have sent: "tun_packet pkt a = a\<lparr>cl_encBuf := fst (encapsulate pkt (cl_ip a) vip (cl_encBuf a)),
      cl_conn := Some (wa\<lparr>w_out := w_out wa @ frame_bytes (FrameData, request)\<rparr>)\<rparr>"
    using consumer_sends [OF pkt reply(2,4) assms(19-21) vip(2) assms(3,1,2)] small(1) by (simp add: assms(27))
  have toB: "decapsulate request (cl_ip b) = Some pkt"
    using req(1) decapsulate_same [OF vip(1), of "cl_ip b"] assms(22) by metis
  have toA: "decapsulate response (cl_ip a) = Some reply"
    using resp(1) decapsulate_same [of "v4_prefix @ to4 (cl_ip a)" "cl_ip a"] home assms(12) by metis
  have dst: "ip_string (packet_dst request) = ip_string (cl_ip b)" "ip_string (packet_dst response) = ip_string (cl_ip a)"
    using req(2) resp(2) home assms(12,13,22) to4_prefix length_to4 by (auto intro!: ip_string_to4_eq)
  note keeps = Relay_keeps [OF assms(29)]
  have hub1: "w_out (hb_out h1 (nd_rw (hb_heap h j))) = w_out (hb_out h (nd_rw (hb_heap h j))) @ frame_bytes (FrameData, request)"
    by (rule Relay_delivers [OF assms(29)]) (simp add: assms(24,25) dst)
  have hub2: "w_out (hb_out h2 (nd_rw (hb_heap h1 i))) = w_out (hb_out h1 (nd_rw (hb_heap h1 i))) @ frame_bytes (FrameData, response)"
    by (rule Relay_delivers [OF assms(30)]) (simp add: assms(23,26) dst keeps)
  have answer: "recv_frame (FrameData, request) b = b\<lparr>cl_conn := Some (wb\<lparr>w_out := w_out wb @ frame_bytes (FrameData, response)\<rparr>)\<rparr>"
    using exit_answers [OF toB assms(11,17) reply(3) [unfolded src] assms(10,8,9)] small(2) by (simp add: assms(28))
  have "recv_frame (FrameData, response) (tun_packet pkt a) = (tun_packet pkt a)\<lparr>cl_tun := Some (t\<lparr>td_out := td_out t @ [reply]\<rparr>)\<rparr>"
    by (rule consumer_receives) (simp_all add: sent toA assms(4-7))
  then show ?thesis using sent hub1 hub2 answer by simp
qed

text \<open>A relay that nothing stands in the way of.\<close>

lemma Relay_passes:
  assumes "20 \<le> length p" and "map_of (hb_table h) (nd_network (hb_heap h src), ip_string (packet_dst p)) = Some dst"
    and "nd_account (hb_heap h dst) = nd_account (hb_heap h src)" and "\<And>st acc. specFor st acc (hb_quota h) = \<lparr>qs_bytes = 0, qs_egress = 0\<rparr>"
    and "w_cap (hb_out h (nd_rw (hb_heap h dst))) = None"
  shows "\<exists>h'. Relay now p src h = (h', None) \<and> (\<forall>st acc. specFor st acc (hb_quota h') = \<lparr>qs_bytes = 0, qs_egress = 0\<rparr>)
    \<and> (\<forall>c. c \<noteq> nd_rw (hb_heap h dst) \<longrightarrow> hb_out h' c = hb_out h c)
    \<and> (\<forall>i. nd_rw (hb_heap h' i) = nd_rw (hb_heap h i) \<and> nd_account (hb_heap h' i) = nd_account (hb_heap h i))"
proof -
  obtain acc dev egr eg where who: "attribution p (hb_heap h src) (hb_heap h dst) = (acc, dev, egr, eg)" by (metis prod_cases4)
  have nd: "\<not> denied (hb_heap h src) (hb_heap h dst)" using assms(3) by (simp add: denied_def)
  have adm: "snd (admit (hb_store h) now acc dev eg (int (length p)) (hb_quota h)) = None"
    using assms(4) by (simp add: admit_def Let_def)
  show ?thesis
    unfolding Relay_go [OF assms(1,2) nd who] using assms(4,5)
    by (simp add: adm conn_write_def write_bytes_def Let_def count_relayed_def set_node_def)
qed

definition open_hub :: hub where
  "open_hub = sample_hub\<lparr>hb_quota := newQuotaTrk 0 0 \<lparr>qs_bytes = 0, qs_egress = 0\<rparr> None None\<rparr>"

definition sample_exit :: client where
  "sample_exit = sample_new\<lparr>cl_conn := Some new_writer, cl_ip := IPv4 10 0 0 2, cl_ns := Some \<lparr>ns_in = [], ns_closed = False\<rparr>\<rparr>"

lemma sample_client_simps:
  "cl_ip sample_client = IPv4 10 0 0 1" "cl_mask sample_client = [255, 255, 255, 252]" "cl_mtu sample_client = 1280"
  "cl_ns sample_client = None" "\<not> cl_closed sample_client" "cl_encBuf sample_client = sample_buf"
  "cl_conn sample_client = Some \<lparr>w_out = frame_bytes (FrameCtrl, EncodeCtrl (client_hello ''linux'' sample_config)), w_cap = None\<rparr>"
  "cl_tun sample_client = Some \<lparr>td_name = ''tun0'', td_out = [], td_ok = True, td_closed = False\<rparr>"
  "cl_routes sample_client = [\<lparr>re_cidr = \<lparr>net_ip = [192, 0, 2, 0], net_mask = [255, 255, 255, 0]\<rparr>, re_via = ''exit''\<rparr>]"
  "cl_cfg sample_client = sample_config"
  "pr_byIP (cl_peers sample_client) = [(dotted 10 0 0 2, \<lparr>pi_ip = dotted 10 0 0 2, pi_hostname = ''exit'', pi_os = ''linux'', pi_egress = True\<rparr>)]"
  by (simp_all add: sample_client_def sample_c4_def sample_c3_def sample_new_def sample_wl_def NewPeerRegistry_def)

lemma sample_via:
  "choose_via (packet_target sample_echo) sample_client = Some ''exit''" "resolveVia ''exit'' (cl_peers sample_client) = IPv4 10 0 0 2"
  "\<not> isLocalVirtual (IPv4 10 0 0 1) [255, 255, 255, 252] (packet_target sample_echo)"
proof -
  have "matchRoute (packet_target sample_echo) (cl_routes sample_client) = None"
    unfolding sample_client_simps by code_simp
  moreover have "globalExit sample_config p = ''exit''" for p by (simp add: globalExit_def sample_config_def)
  ultimately show "choose_via (packet_target sample_echo) sample_client = Some ''exit''"
    by (simp add: choose_via_def sample_client_simps) (simp add: sample_config_def)
  have "parse_ip ''exit'' = []" by code_simp
  then show "resolveVia ''exit'' (cl_peers sample_client) = IPv4 10 0 0 2"
    by (simp add: resolveVia_def ResolveEgress_def sample_client_simps IPv4_def)
  show "\<not> isLocalVirtual (IPv4 10 0 0 1) [255, 255, 255, 252] (packet_target sample_echo)" by code_simp
qed

lemma open_hub_simps:
  "hb_table open_hub = [((''n'', dotted 10 0 0 1), 0), ((''n'', dotted 10 0 0 2), 1)]"
  "nd_network (hb_heap open_hub 0) = ''n''" "nd_network (hb_heap open_hub (Suc 0)) = ''n''"
  "nd_account (hb_heap open_hub 0) = ''n''" "nd_account (hb_heap open_hub (Suc 0)) = ''n''"
  "nd_rw (hb_heap open_hub 0) = 0" "nd_rw (hb_heap open_hub (Suc 0)) = Suc 0"
  "hb_out open_hub = (\<lambda>_. new_writer)" "specFor st acc (hb_quota open_hub) = \<lparr>qs_bytes = 0, qs_egress = 0\<rparr>"
  by (simp_all add: open_hub_def sample_hub_eq specFor_def newQuotaTrk_def)

text \<open>The relays of the request and of the response.\<close>

lemma sample_relays:
  assumes "20 \<le> length p" and "packet_dst p = IPv4 10 0 0 2" and "20 \<le> length q" and "packet_dst q = IPv4 10 0 0 1"
  shows "\<exists>h1 h2. Relay 5 p 0 open_hub = (h1, None) \<and> Relay 6 q 1 h1 = (h2, None)"
proof -
  have cap: "w_cap new_writer = None" by (simp add: new_writer_def)
  have "\<exists>h1. Relay 5 p 0 open_hub = (h1, None) \<and> (\<forall>st acc. specFor st acc (hb_quota h1) = \<lparr>qs_bytes = 0, qs_egress = 0\<rparr>)
    \<and> (\<forall>c. c \<noteq> nd_rw (hb_heap open_hub 1) \<longrightarrow> hb_out h1 c = hb_out open_hub c)
    \<and> (\<forall>i. nd_rw (hb_heap h1 i) = nd_rw (hb_heap open_hub i) \<and> nd_account (hb_heap h1 i) = nd_account (hb_heap open_hub i))"
    by (rule Relay_passes [OF assms(1)]) (simp_all add: open_hub_simps assms(2) cap)
  then obtain h1 where h1: "Relay 5 p 0 open_hub = (h1, None)" "\<And>st acc. specFor st acc (hb_quota h1) = \<lparr>qs_bytes = 0, qs_egress = 0\<rparr>"
    "\<And>c. c \<noteq> Suc 0 \<Longrightarrow> hb_out h1 c = new_writer" "\<And>i. nd_rw (hb_heap h1 i) = nd_rw (hb_heap open_hub i)"
    "\<And>i. nd_account (hb_heap h1 i) = nd_account (hb_heap open_hub i)"
    by (auto simp: open_hub_simps)
  have "\<exists>h2. Relay 6 q 1 h1 = (h2, None) \<and> (\<forall>st acc. specFor st acc (hb_quota h2) = \<lparr>qs_bytes = 0, qs_egress = 0\<rparr>)
    \<and> (\<forall>c. c \<noteq> nd_rw (hb_heap h1 0) \<longrightarrow> hb_out h2 c = hb_out h1 c)
    \<and> (\<forall>i. nd_rw (hb_heap h2 i) = nd_rw (hb_heap h1 i) \<and> nd_account (hb_heap h2 i) = nd_account (hb_heap h1 i))"
    by (rule Relay_passes [OF assms(3)]) (simp_all add: open_hub_simps Relay_keeps [OF h1(1)] h1(2-5) assms(4) cap)
  then show ?thesis using h1(1) by blast
qed

lemma ping_through_exit_witness:
  "cl_tun (recv_frame (FrameData, tunnel (IPv4 10 0 0 2) (IPv4 10 0 0 1) (the (icmpEchoReply sample_echo)) (replicate 49 0))
      (tun_packet sample_echo sample_client)) = Some \<lparr>td_name = ''tun0'', td_out = [the (icmpEchoReply sample_echo)], td_ok = True, td_closed = False\<rparr>
    \<and> recv_frame (FrameData, tunnel (IPv4 10 0 0 1) (IPv4 10 0 0 2) sample_echo sample_buf) sample_exit = sample_exit\<lparr>cl_conn :=
      Some (new_writer\<lparr>w_out := frame_bytes (FrameData, tunnel (IPv4 10 0 0 2) (IPv4 10 0 0 1) (the (icmpEchoReply sample_echo)) (replicate 49 0))\<rparr>)\<rparr>"
proof -
  let ?p = "tunnel (IPv4 10 0 0 1) (IPv4 10 0 0 2) sample_echo sample_buf"
  have "icmpEchoReply sample_echo \<noteq> None" by (simp add: icmpEchoReply_def sample_echo_def Let_def)
  then obtain r where r: "icmpEchoReply sample_echo = Some r" by blast
  let ?q = "tunnel (IPv4 10 0 0 2) (IPv4 10 0 0 1) r (replicate 49 0)"
  have len: "length sample_echo = 29" "length r = 29" using echo_reply_to(1) [OF r] by (simp_all add: sample_echo_def)
  have ne: "to4 (IPv4 10 0 0 1) \<noteq> []" "to4 (IPv4 10 0 0 2) \<noteq> []" by simp_all
  have dst: "IPv4 10 0 0 2 = v4_prefix @ to4 (IPv4 10 0 0 2)" "IPv4 10 0 0 1 = v4_prefix @ to4 (IPv4 10 0 0 1)"
    unfolding to4_IPv4 by (simp_all add: IPv4_def)
  have pkts: "20 \<le> length ?p" "packet_dst ?p = IPv4 10 0 0 2" "20 \<le> length ?q" "packet_dst ?q = IPv4 10 0 0 1"
    using tunnel_facts(2,3) [of "IPv4 10 0 0 1" "IPv4 10 0 0 2" sample_echo sample_buf, folded dst]
      tunnel_facts(2,3) [of "IPv4 10 0 0 2" "IPv4 10 0 0 1" r "replicate 49 0", folded dst] len by (simp_all add: sample_buf_def)
  obtain h1 h2 where relays: "Relay 5 ?p 0 open_hub = (h1, None)" "Relay 6 ?q 1 h1 = (h2, None)" using sample_relays [OF pkts] by blast
  have exit: "cl_conn sample_exit = Some new_writer" "w_cap new_writer = None" "\<not> cl_closed sample_exit"
    "cl_ns sample_exit = Some \<lparr>ns_in = [], ns_closed = False\<rparr>" "cl_ip sample_exit = IPv4 10 0 0 2" "w_out new_writer = []"
    by (simp_all add: sample_exit_def sample_new_def new_writer_def)
  have src: "take 4 (drop 12 sample_echo) = to4 (IPv4 10 0 0 1)" by (simp add: sample_echo_def)
  have small: "length sample_echo \<le> nat (1280 + 4)" "length sample_echo + 20 \<le> length sample_buf" "length sample_echo \<le> 65515"
    by (simp_all add: len sample_buf_def)
  have tab: "map_of (hb_table open_hub) (''n'', ip_string (IPv4 10 0 0 1)) = Some 0" "map_of (hb_table open_hub) (''n'', ip_string (IPv4 10 0 0 2)) = Some 1"
    "nd_network (hb_heap open_hub 1) = ''n''" by (simp_all add: open_hub_simps)
  have q: "?q = tunnel (IPv4 10 0 0 2) (v4_prefix @ to4 (IPv4 10 0 0 1)) r (replicate (length r + 20) 0)"
    by (simp only: dst(2) [symmetric] len) simp
  note a = sample_client_simps
  have "\<not> td_closed \<lparr>td_name = ''tun0'', td_out = [], td_ok = True, td_closed = False\<rparr>" "td_ok \<lparr>td_name = ''tun0'', td_out = [], td_ok = True, td_closed = False\<rparr>"
    "w_cap \<lparr>w_out = frame_bytes (FrameCtrl, EncodeCtrl (client_hello ''linux'' sample_config)), w_cap = None\<rparr> = None" by simp_all
  note ping = ping_through_exit [where a = sample_client and b = sample_exit, unfolded a(1-3,6) exit(5),
      OF a(7) this(3) a(5,4,8) this(2,1) exit(1-4) ne small r src sample_via(3,1,2) refl tab(1) open_hub_simps(2) tab(2,3) refl q relays]
  show ?thesis using ping by (simp add: r exit(6))
qed

end
