(* ===== verification/Handshake.thy ===== *)
theory Handshake
  imports Client_Correct Server
begin

text \<open>
  Client and server together: the handshake of \<^verbatim>\<open>dialAndAuth\<close> with \<^verbatim>\<open>handleConn\<close>, and how the clients' tables of
  online nodes follow the hub's registry: what one party writes is what the other reads.
\<close>

subsection \<open>The registry as a client should see it\<close>

text \<open>
  The abstract contents of the table of the client behind node \<open>me\<close>: who is online in the network under
  which address, the client itself left out.
\<close>

definition view_of :: "string \<Rightarrow> nat \<Rightarrow> hub \<Rightarrow> string \<Rightarrow> peer_info option" where
  "view_of net me h ip =
     (case map_of (hb_table h) (net, ip) of
        None \<Rightarrow> None
      | Some j \<Rightarrow> if j = me then None else Some (peer_of (hb_heap h j)))"

definition mirrors :: "peer_registry \<Rightarrow> string \<Rightarrow> nat \<Rightarrow> hub \<Rightarrow> bool" where
  "mirrors p net me h \<longleftrightarrow> online p = view_of net me h"

lemma online_New [simp]: "online NewPeerRegistry k = None"
  by (simp add: NewPeerRegistry_def)

lemma online_all:
  assumes "distinct (map pi_ip peers)" and "\<forall>peer \<in> set peers. pi_ip peer \<noteq> []"
  shows "online (UpsertMany peers NewPeerRegistry) = map_of (map (\<lambda>peer. (pi_ip peer, peer)) peers)"
  using assms
proof (induction peers rule: rev_induct)
  case (snoc peer peers)
  have "map_of (map (\<lambda>peer. (pi_ip peer, peer)) peers) (pi_ip peer) = None"
    using snoc.prems by (auto simp: map_of_eq_None_iff)
  then show ?case using snoc
    by (auto simp: UpsertMany_fold online_Upsert map_add_def fun_eq_iff split: option.splits)
qed (simp add: fun_eq_iff)

lemma lookup_filter:
  assumes "wf_map m"
  shows "map_of (filter Q m) key = (if \<exists>v. map_of m key = Some v \<and> Q (key, v) then map_of m key else None)"
  using assms by (induction m) (auto simp: wf_map_def map_of_eq_None_iff image_iff)

lemma map_of_values: "map_of (map (\<lambda>e. (fst e, f (snd e))) xs) k = map_option f (map_of xs k)"
  by (induction xs) auto

lemma node_ip:
  assumes "hub_ok n h" and "(ip, j) \<in> set (nodes_of net h)"
  shows "node_ok h net ip j" and "map_of (hb_table h) (net, ip) = Some j"
proof -
  have "wf_map (nodes_of net h)" and tab: "map_of (hb_table h) (net, ip) = map_of (nodes_of net h) ip"
    using assms(1) by (simp_all add: hub_ok_def)
  then show "map_of (hb_table h) (net, ip) = Some j" using assms(2) by (simp add: wf_map_def)
  then show "node_ok h net ip j" by (rule hub_ok_node [OF assms(1)])
qed

lemma node_entry:
  assumes "hub_ok n h" and "e \<in> set (nodes_of net h)"
  shows "pi_ip (peer_of (hb_heap h (snd e))) = fst e" and "fst e \<noteq> []"
    and "ip_equal (nd_ip (hb_heap h (snd e))) (IPv4 a b c d) \<longleftrightarrow> fst e = dotted a b c d" and "snd e < hb_new h"
  using node_ip(1) [OF assms(1), of "fst e" "snd e" net] assms(2)
  by (auto simp: node_ok_def peer_of_def ip_equal_to4 dotted_nonempty [symmetric] simp del: dotted_nonempty)

text \<open>The table a new client makes from the welcome is the registry without itself.\<close>

lemma welcome_mirrors:
  assumes "hub_ok n h" and "map_of (hb_table h) (net, dotted a b c d) = Some i"
    and "peers = map (\<lambda>e. peer_of (hb_heap h (snd e))) (filter (\<lambda>e. \<not> ip_equal (nd_ip (hb_heap h (snd e))) (IPv4 a b c d)) (nodes_of net h))"
  shows "mirrors (UpsertMany peers NewPeerRegistry) net i h"
proof -
  let ?ns = "filter (\<lambda>e. \<not> ip_equal (nd_ip (hb_heap h (snd e))) (IPv4 a b c d)) (nodes_of net h)"
  have wf: "wf_map (nodes_of net h)" using assms(1) by (simp add: hub_ok_def)
  note key = node_entry [OF assms(1), where net = net]
  have keys: "map pi_ip peers = map fst ?ns" unfolding assms(3) map_map comp_def by (rule map_cong [OF refl]) (simp add: key(1))
  have dist: "distinct (map pi_ip peers)" unfolding keys by (rule distinct_map_filter [OF wf [unfolded wf_map_def]])
  have "\<forall>peer \<in> set peers. pi_ip peer \<noteq> []" using key by (auto simp: assms(3))
  then have "online (UpsertMany peers NewPeerRegistry) = map_of (map (\<lambda>peer. (pi_ip peer, peer)) peers)" by (rule online_all [OF dist])
  also have "map (\<lambda>peer. (pi_ip peer, peer)) peers = map (\<lambda>e. (fst e, peer_of (hb_heap h (snd e)))) ?ns"
    unfolding assms(3) map_map comp_def by (rule map_cong [OF refl]) (simp add: key(1))
  finally have "online (UpsertMany peers NewPeerRegistry) k = map_option (\<lambda>j. peer_of (hb_heap h j)) (map_of ?ns k)" for k
    by (simp add: map_of_values [where f = "\<lambda>j. peer_of (hb_heap h j)"])
  moreover have "view_of net i h k = map_option (\<lambda>j. peer_of (hb_heap h j)) (map_of ?ns k)" for k
  proof -
    have tab: "map_of (hb_table h) (net, k) = map_of (nodes_of net h) k" using assms(1) by (simp add: hub_ok_def)
    have me: "j = i \<longleftrightarrow> k = dotted a b c d" if "map_of (nodes_of net h) k = Some j" for j
    proof -
      have "node_ok h net (dotted a b c d) i" "node_ok h net k j" using hub_ok_node [OF assms(1)] assms(2) tab that by simp_all
      then have "dotted a b c d = ip_string (nd_ip (hb_heap h i))" "k = ip_string (nd_ip (hb_heap h j))" using node_ok_key by auto
      then show ?thesis using assms(2) tab that by (metis option.inject)
    qed
    have addr: "ip_equal (nd_ip (hb_heap h j)) (IPv4 a b c d) \<longleftrightarrow> k = dotted a b c d" if "map_of (nodes_of net h) k = Some j" for j
      using key(3) [OF map_of_SomeD [OF that]] by simp
    show ?thesis
    proof (cases "map_of (nodes_of net h) k")
      case (Some j)
      then show ?thesis using me [OF Some] addr [OF Some] by (simp add: view_of_def tab lookup_filter [OF wf])
    qed (simp add: view_of_def tab lookup_filter [OF wf])
  qed
  ultimately show ?thesis by (simp add: mirrors_def fun_eq_iff)
qed

subsection \<open>The handshake\<close>

text \<open>The connections that are told about a new node, and what is written to them.\<close>

lemma frames_same_out:
  "hb_out h = hb_out h' \<Longrightarrow> hb_out (fold (\<lambda>c h. fst (conn_frame c ty pl h)) cs h) = hb_out (fold (\<lambda>c h. fst (conn_frame c ty pl h)) cs h')"
proof (induction cs arbitrary: h h')
  case (Cons c cs)
  have "hb_out (fst (conn_frame c ty pl h)) = hb_out (fst (conn_frame c ty pl h'))"
    using Cons.prems by (simp add: conn_frame_def case_prod_unfold Let_def)
  then show ?case unfolding fold.simps comp_apply by (rule Cons.IH)
qed simp

definition others :: "string \<Rightarrow> string \<Rightarrow> hub \<Rightarrow> nat list" where
  "others net ip h = map (\<lambda>e. nd_rw (hb_heap h (snd e))) (filter (\<lambda>e. fst e \<noteq> ip) (nodes_of net h))"

lemma broadcast_others:
  assumes "hub_ok n h" and "hub_view h' = hub_view h" and "\<And>i. nd_rw (hb_heap h' i) = nd_rw (hb_heap h i)"
    and "x = IPv4 a b c d"
  shows "hb_out (broadcastCtrl net m (Some x) h') =
    hb_out (fold (\<lambda>c h. fst (conn_frame c FrameCtrl (EncodeCtrl m) h)) (others net (dotted a b c d) h) h')"
proof -
  have ns: "nodes_of net h' = nodes_of net h" using assms(2) by (simp add: hub_view_def nodes_of_def)
  have "nd_key (hb_heap h' i) = nd_key (hb_heap h i)" for i using assms(2) by (simp add: hub_view_def fun_eq_iff)
  then have ip: "nd_ip (hb_heap h' i) = nd_ip (hb_heap h i)" for i by (simp add: nd_key_def)
  have "map (\<lambda>e. nd_rw (hb_heap h' (snd e))) (filter (\<lambda>e. \<not> ip_equal (nd_ip (hb_heap h' (snd e))) x) (nodes_of net h')) = others net (dotted a b c d) h"
    unfolding others_def ns by (rule map_cong [OF filter_cong [OF refl]]) (simp_all add: ip assms(3,4) node_entry(3) [OF assms(1), where net = net])
  then show ?thesis by (simp add: broadcastCtrl_def)
qed

text \<open>Every registered node has a connection of its own.\<close>

definition conns_distinct :: "hub \<Rightarrow> bool" where
  "conns_distinct h \<longleftrightarrow> inj_on (\<lambda>i. nd_rw (hb_heap h i)) {..<hb_new h}"

text \<open>What a successful handshake does to the connections and to the registry.\<close>

lemma handshake_effect:
  assumes "hub_ok n (sv_hub s)" and "handshake ev c remote input s = (s', Some (i, rest))"
  obtains payload msg hello dev acct h1 wl a b e d where
    "ReadFrame input = Inr ((FrameCtrl, payload), rest)" "DecodeCtrl payload = Some msg" "cm_hello msg = Some hello"
    "authenticate (ev_cmp ev) (ev_os ev) hello (hb_store (sv_hub s)) = Inr (dev, acct)"
    "Register (ev_io ev) (ev_now ev) (ac_id acct) dev acct hello c remote (sv_hub s) = (h1, Inr (wl, i))"
    "hub_ok n h1" "i = hb_new (sv_hub s)" "hb_new h1 = Suc i" "we_ip wl = dotted a b e d"
    "hb_heap h1 = (hb_heap (sv_hub s))(i := new_node (ev_now ev) (ac_id acct) dev acct hello c remote (IPv4 a b e d))"
    "map_of (hb_table h1) (ac_id acct, dotted a b e d) = Some i"
    "\<And>k. k \<noteq> (ac_id acct, dotted a b e d) \<Longrightarrow> map_of (hb_table h1) k = map_of (hb_table (sv_hub s)) k"
    "mirrors (UpsertMany (we_peers wl) NewPeerRegistry) (ac_id acct) i h1"
    "snd (conn_frame c FrameCtrl (EncodeCtrl ((ctrl MsgWelcome)\<lparr>cm_welcome := Some wl\<rparr>)) h1) = None"
    "hub_view (sv_hub s') = hub_view h1" "hb_heap (sv_hub s') = (hb_heap h1)(i := (hb_heap h1 i)\<lparr>nd_conn := Some c\<rparr>)"
    "hb_out (sv_hub s') = hb_out (fold (\<lambda>c h. fst (conn_frame c FrameCtrl (EncodeCtrl ((ctrl MsgPeerJoin)\<lparr>cm_peer_join := Some (peer_of (hb_heap h1 i))\<rparr>)) h))
       (others (ac_id acct) (dotted a b e d) h1)
       (fst (conn_frame c FrameCtrl (EncodeCtrl ((ctrl MsgWelcome)\<lparr>cm_welcome := Some wl\<rparr>)) h1)))"
  using assms(2)
proof (cases rule: handshake_cases)
  case (authenticated payload rest' msg hello dev acct)
  obtain h1 x where reg: "Register (ev_io ev) (ev_now ev) (ac_id acct) dev acct hello c remote (sv_hub s) = (h1, x)" by fastforce
  obtain wl node where x: "x = Inr (wl, node)" using authenticated(6) reg by (cases x) auto
  let ?pl = "EncodeCtrl ((ctrl MsgWelcome)\<lparr>cm_welcome := Some wl\<rparr>)"
  obtain h2 err where fr: "conn_frame c FrameCtrl ?pl h1 = (h2, err)" by fastforce
  have err: "err = None" using authenticated(6) reg x fr by (cases err) auto
  obtain h4 where h4: "h4 = set_node node ((hb_heap h2 node)\<lparr>nd_conn := Some c\<rparr>) (h2\<lparr>hb_store := MarkSeen (ev_now ev) (de_id dev) (hb_store h2)\<rparr>)"
    by blast
  have r: "i = node" "rest = rest'" and s': "sv_hub s' = NotifyPeerJoined (ac_id acct) node h4"
    using authenticated(6) reg x fr err by (auto simp: Let_def h4)
  have reg: "Register (ev_io ev) (ev_now ev) (ac_id acct) dev acct hello c remote (sv_hub s) = (h1, Inr (wl, i))"
    using reg x r by simp
  have ok1: "hub_ok n h1" by (rule hub_ok_Register [OF reg assms(1)])
  have h2: "hub_view h2 = hub_view h1" "hb_heap h2 = hb_heap h1" unfolding conn_frame_fst [OF fr] by simp_all
  have view4: "hub_view h4 = hub_view h1" unfolding h4 by (simp add: h2)
  have "hb_heap h4 = (hb_heap h1)(i := (hb_heap h1 i)\<lparr>nd_conn := Some c\<rparr>)" "hb_out h4 = hb_out h2"
    unfolding h4 by (simp_all add: h2 r set_node_def)
  note h4 = view4 this
  from reg assms(1) show ?thesis
  proof (cases rule: Register_succeeds)
    case (1 t l a b e d)
    let ?ev = "evict (ac_id acct) (dotted a b e d) (de_id dev) ((sv_hub s)\<lparr>hb_leases := t\<rparr>)"
    have ok0: "hub_ok n ((sv_hub s)\<lparr>hb_leases := t\<rparr>)"
      using hub_ok_leases [OF assms(1)] Allocate_request [OF 1(1)] by simp
    have heap: "hb_heap h1 = (hb_heap (sv_hub s))(i := new_node (ev_now ev) (ac_id acct) dev acct hello c remote (IPv4 a b e d))"
      by (simp add: 1(3,5))
    have at: "map_of (hb_table h1) (ac_id acct, dotted a b e d) = Some i" by (simp add: 1(3,5) new_node_def)
    have other: "map_of (hb_table h1) k = map_of (hb_table (sv_hub s)) k" if "k \<noteq> (ac_id acct, dotted a b e d)" for k
      using that evict_other [OF that ok0, of "de_id dev"] by (simp add: 1(5) new_node_def)
    have view: "hub_view (sv_hub s') = hub_view h1" by (simp add: s' h4)
    have heap': "hb_heap (sv_hub s') = (hb_heap h1)(i := (hb_heap h1 i)\<lparr>nd_conn := Some c\<rparr>)" by (simp add: s' h4)
    have peers: "mirrors (UpsertMany (we_peers wl) NewPeerRegistry) (ac_id acct) i h1"
      by (rule welcome_mirrors [OF ok1 at 1(7)])
    have new: "nd_ip (hb_heap h4 i) = IPv4 a b e d" "peer_of (hb_heap h4 i) = peer_of (hb_heap h1 i)"
      by (simp_all add: h4 heap new_node_def peer_of_def)
    have "sv_hub s' = broadcastCtrl (ac_id acct) ((ctrl MsgPeerJoin)\<lparr>cm_peer_join := Some (peer_of (hb_heap h1 i))\<rparr>) (Some (IPv4 a b e d)) h4"
      unfolding s' NotifyPeerJoined_def r(1) [symmetric] new ..
    then have "hb_out (sv_hub s') = hb_out (fold (\<lambda>c h. fst (conn_frame c FrameCtrl
        (EncodeCtrl ((ctrl MsgPeerJoin)\<lparr>cm_peer_join := Some (peer_of (hb_heap h1 i))\<rparr>)) h))
        (others (ac_id acct) (dotted a b e d) h1) h4)"
      using broadcast_others [OF ok1 h4(1) _ refl] h4(2) by simp
    also have "\<dots> = hb_out (fold (\<lambda>c h. fst (conn_frame c FrameCtrl
        (EncodeCtrl ((ctrl MsgPeerJoin)\<lparr>cm_peer_join := Some (peer_of (hb_heap h1 i))\<rparr>)) h)) (others (ac_id acct) (dotted a b e d) h1) h2)"
      by (rule frames_same_out [OF h4(3)])
    finally have out: "hb_out (sv_hub s') = \<dots>" .
    show ?thesis
      by (rule that [OF authenticated(1) [folded r(2)] authenticated(2,4,5) reg ok1 1(3) _ 1(4) heap at other peers _ view heap' out [unfolded conn_frame_fst [OF fr]]])
        (use fr err in \<open>simp_all add: 1(3,5)\<close>)
  qed
qed simp_all

lemma Register_out: "Register io now net dev acct hello rw remote h = (h', r) \<Longrightarrow> hb_out h' = hb_out h"
  by (auto simp: Register_def Let_def split: prod.splits sum.splits)

text \<open>The next node and its connection are new.\<close>

lemma others_old:
  assumes "hub_ok n h1" and "hb_new h1 = Suc i" and "map_of (hb_table h1) (net, ip) = Some i"
    and "\<forall>j < i. nd_rw (hb_heap h1 j) \<noteq> c"
  shows "c \<notin> set (others net ip h1)"
proof
  assume "c \<in> set (others net ip h1)"
  then obtain k j where e: "(k, j) \<in> set (nodes_of net h1)" "k \<noteq> ip" "c = nd_rw (hb_heap h1 j)" by (auto simp: others_def)
  have "j \<noteq> i" using node_ip [OF assms(1) e(1)] hub_ok_node [OF assms(1,3)] e(2) by (auto simp: node_ok_def)
  moreover have "j < Suc i" using node_ip(1) [OF assms(1) e(1)] assms(2) by (simp add: node_ok_def)
  ultimately show False using assms(4) e(3) by (auto simp: less_Suc_eq)
qed

text \<open>A hello on a fresh connection that the store accepts and that gets an address is answered.\<close>

lemma handshake_completes:
  assumes "Allow (ev_now ev) (''hello:'' @ remote) 10 minute (sv_lim s) = (lim, True)" and "hb_out (sv_hub s) c = new_writer"
    and "ok_ctrl (client_hello os cfg)" and "length (EncodeCtrl (client_hello os cfg)) < 65536"
    and "cc_device cfg \<noteq> []" and "cc_token cfg \<noteq> []"
    and "VerifyDevice (ev_cmp ev) (cc_device cfg) (cc_token cfg) (hb_store (sv_hub s)) = Inr (dev, acct)"
    and "Register (ev_io ev) (ev_now ev) (ac_id acct) dev acct (the (cm_hello (client_hello os cfg))) c remote (sv_hub s) = (h1, Inr (wl, i))"
    and "length (EncodeCtrl ((ctrl MsgWelcome)\<lparr>cm_welcome := Some wl\<rparr>)) < 65536"
  shows "snd (handshake ev c remote (frame_bytes (FrameCtrl, EncodeCtrl (client_hello os cfg))) s) = Some (i, [])"
proof -
  let ?hello = "client_hello os cfg"
  have "ReadFrame (frame_bytes (FrameCtrl, EncodeCtrl ?hello) @ []) = Inr ((FrameCtrl, EncodeCtrl ?hello), [])"
    using assms(4) by (intro fc.dec_enc) simp
  then have read: "ReadFrame (frame_bytes (FrameCtrl, EncodeCtrl ?hello)) = Inr ((FrameCtrl, EncodeCtrl ?hello), [])" by simp
  have hello: "cm_type ?hello = MsgHello" "cm_hello ?hello = Some (the (cm_hello ?hello))"
    by (simp_all add: client_hello_def ctrl_def)
  have auth: "authenticate (ev_cmp ev) (ev_os ev) (the (cm_hello ?hello)) (hb_store (sv_hub s)) = Inr (dev, acct)"
    using assms(5-7) by (simp add: client_hello_def authenticate_def)
  obtain h2 err where fr: "conn_frame c FrameCtrl (EncodeCtrl ((ctrl MsgWelcome)\<lparr>cm_welcome := Some wl\<rparr>)) h1 = (h2, err)" by fastforce
  have "hb_out h1 c = new_writer" using Register_out [OF assms(8)] assms(2) by simp
  then have "err = None"
    using fr assms(9) by (auto simp: conn_frame_def case_prod_unfold Let_def WriteFrame_ok new_writer_def MaxPayload_def)
  then show ?thesis
    using handshake_welcomes(1) [OF assms(1) read decode_encode [OF assms(3)] hello auth assms(8) fr] by simp
qed

text \<open>
  C11. The two ends of a handshake agree. A client whose device and token the account store accepts says hello on a fresh connection,
  the rate limiter lets it pass and an address is leased to it. Then the server completes the handshake, and the client, which reads
  what the server has written to the connection, accepts: it returns the welcome, its address is the address of the node the
  server has registered for it, and the table it then makes is the server's registry of the network, itself left out.
\<close>

theorem client_server_handshake:
  assumes "reach (hub_start n) hub_step (sv_hub s)" and "\<forall>j < hb_new (sv_hub s). nd_rw (hb_heap (sv_hub s) j) \<noteq> c"
    and "Allow (ev_now ev) (''hello:'' @ remote) 10 minute (sv_lim s) = (lim, True)" and "hb_out (sv_hub s) c = new_writer"
    and "ok_ctrl (client_hello (dl_os dial) cfg)" and "length (EncodeCtrl (client_hello (dl_os dial) cfg)) < 65536"
    and "cc_device cfg \<noteq> []" and "cc_token cfg \<noteq> []"
    and "VerifyDevice (ev_cmp ev) (cc_device cfg) (cc_token cfg) (hb_store (sv_hub s)) = Inr (dev, acct)"
    and "Register (ev_io ev) (ev_now ev) (ac_id acct) dev acct (the (cm_hello (client_hello (dl_os dial) cfg))) c remote (sv_hub s) = (h1, Inr (wl, i))"
    and "ok_welcome wl" and "length (EncodeCtrl ((ctrl MsgWelcome)\<lparr>cm_welcome := Some wl\<rparr>)) < 65536"
    and "handshake ev c remote (frame_bytes (FrameCtrl, EncodeCtrl (client_hello (dl_os dial) cfg))) s = (s', r)"
    and "buildClientTLSConfig dial (cc_ca cfg) = Inr tls" and "dl_dial dial tls (cc_server cfg)" and "dl_writer dial = new_writer"
    and "dl_input dial = w_out (hb_out (sv_hub s') c)"
  shows "r = Some (i, []) \<and> (\<exists>w. dialAndAuth dial cfg = Inr (w, wl, [])
      \<and> w_out w = frame_bytes (FrameCtrl, EncodeCtrl (client_hello (dl_os dial) cfg)))
    \<and> parse_ip (we_ip wl) = nd_ip (hb_heap (sv_hub s') i) \<and> parse_ip (we_ip wl) \<noteq> []
    \<and> map_of (hb_table (sv_hub s')) (ac_id acct, we_ip wl) = Some i
    \<and> mirrors (UpsertMany (we_peers wl) NewPeerRegistry) (ac_id acct) i (sv_hub s')"
proof -
  let ?hello = "client_hello (dl_os dial) cfg"
  have dec: "ReadFrame (frame_bytes (FrameCtrl, EncodeCtrl ?hello) @ []) = Inr ((FrameCtrl, EncodeCtrl ?hello), [])"
    using assms(6) by (intro fc.dec_enc) simp
  have hub: "hub_ok n (sv_hub s)" using hub_sys.reach_inv [OF assms(1)] .
  have r: "r = Some (i, [])" using handshake_completes [OF assms(3-10,12)] by (simp add: assms(13))
  from hub assms(13) [unfolded r] show ?thesis
  proof (cases rule: handshake_effect)
    case (1 payload msg hello dev' acct' h1' wl' a b e d)
    have "payload = EncodeCtrl ?hello" using 1(1) dec by simp
    then have "msg = ?hello" using 1(2) decode_encode [OF assms(5)] by simp
    then have hello: "hello = the (cm_hello ?hello)" using 1(3) by simp
    have "he_device hello = cc_device cfg" "au_token (he_auth hello) = cc_token cfg" by (simp_all add: hello client_hello_def ctrl_def)
    then have "dev' = dev" "acct' = acct" using authenticate_ok [OF 1(4)] assms(9) by simp_all
    then have "h1' = h1" "wl' = wl" using 1(5) assms(10) hello by simp_all
    note same = \<open>dev' = dev\<close> \<open>acct' = acct\<close> this
    note 1 = 1 [unfolded same]
    let ?wf = "EncodeCtrl ((ctrl MsgWelcome)\<lparr>cm_welcome := Some wl\<rparr>)"
    have h1out: "hb_out h1 = hb_out (sv_hub s)" using 1(5) same by (simp add: Register_out)
    have fresh: "c \<notin> set (others (ac_id acct) (dotted a b e d) h1)"
      by (rule others_old [OF 1(6,8,11)]) (use 1(7,10) assms(2) in auto)
    have "w_out (hb_out (sv_hub s') c) = w_out (fst (WriteFrame new_writer FrameCtrl ?wf))"
      using 1(17) fresh by (simp add: same frames_out_other frame_out h1out assms(4))
    moreover have "length ?wf \<le> MaxPayload" using assms(12) by (simp add: MaxPayload_def)
    ultimately have "dl_input dial = frame_bytes (FrameCtrl, ?wf)"
      by (simp add: assms(17) WriteFrame_ok new_writer_def frame_bytes_def)
    moreover have "ReadFrame (frame_bytes (FrameCtrl, ?wf) @ []) = Inr ((FrameCtrl, ?wf), [])"
      using assms(12) by (intro fc.dec_enc) simp
    ultimately have read: "ReadFrame (dl_input dial) = Inr ((FrameCtrl, ?wf), [])" by simp
    have wf: "DecodeCtrl ?wf = Some ((ctrl MsgWelcome)\<lparr>cm_welcome := Some wl\<rparr>)"
      by (rule decode_encode) (use assms(11) in \<open>simp add: ok_ctrl_def ctrl_def text_ok_def MsgWelcome_def\<close>)
    have "w_cap (dl_writer dial) = None" "length (EncodeCtrl ?hello) \<le> MaxPayload"
      using assms(6,16) by (simp_all add: new_writer_def MaxPayload_def)
    note dials = dialAndAuth_welcome [OF assms(14,15) this read wf]
    have "nd_ip (hb_heap (sv_hub s') i) = IPv4 a b e d" by (simp add: 1(16,10) new_node_def)
    moreover have "hb_table (sv_hub s') = hb_table h1" using 1(15) by (simp add: hub_view_def same)
    moreover have "mirrors (UpsertMany (we_peers wl) NewPeerRegistry) (ac_id acct) i (sv_hub s')"
      using 1(13,16) calculation(2) by (auto simp: mirrors_def view_of_def same peer_of_def fun_eq_iff split: option.splits)
    ultimately show ?thesis
      using r dials 1(9,11) by (simp add: ctrl_def assms(16) new_writer_def IPv4_def)
  qed
qed

subsection \<open>Peers that come and go\<close>

lemma distinct_others:
  assumes "hub_ok n h" and "conns_distinct h"
  shows "distinct (others net ip h)"
proof -
  let ?ns = "filter (\<lambda>e. fst e \<noteq> ip) (nodes_of net h)"
  have keys: "distinct (map fst (nodes_of net h))" using assms(1) by (simp add: hub_ok_def wf_map_def)
  have "x = y" if "x \<in> set ?ns" "y \<in> set ?ns" "nd_rw (hb_heap h (snd x)) = nd_rw (hb_heap h (snd y))" for x y
  proof -
    have ok: "node_ok h net (fst x) (snd x)" "node_ok h net (fst y) (snd y)" using node_ip(1) [OF assms(1)] that(1,2) by simp_all
    then have "snd x = snd y" using inj_onD [OF assms(2) [unfolded conns_distinct_def] that(3)] by (simp add: node_ok_def)
    then show ?thesis using node_ok_key [OF ok(1)] node_ok_key [OF ok(2)] by (simp add: prod_eq_iff)
  qed
  then show ?thesis
    using keys by (simp add: others_def distinct_map inj_on_def)
qed

lemma others_mem:
  assumes "hub_ok n h" and "map_of (hb_table h) (net, ip') = Some i" and "ip' \<noteq> ip"
  shows "nd_rw (hb_heap h i) \<in> set (others net ip h)"
proof -
  have "map_of (nodes_of net h) ip' = Some i" using assms(1,2) by (simp add: hub_ok_def)
  then have "(ip', i) \<in> set (nodes_of net h)" by (rule map_of_SomeD)
  then show ?thesis using assms(3) by (force simp: others_def)
qed

lemma text_ok_ascii: "(\<And>ch. ch \<in> set s \<Longrightarrow> of_char ch < (128 :: nat)) \<Longrightarrow> text_ok s"
proof -
  have "utf8_ok ns" if "\<forall>n \<in> set ns. n < 128" for ns using that by (induction ns) simp_all
  then show "(\<And>ch. ch \<in> set s \<Longrightarrow> of_char ch < (128 :: nat)) \<Longrightarrow> text_ok s" by (simp add: text_ok_def)
qed

lemma text_ok_dotted: "text_ok (dotted a b c d)"
proof (rule text_ok_ascii)
  fix ch
  assume "ch \<in> set (dotted a b c d)"
  then show "of_char ch < (128 :: nat)"
    using show_nat_no [of ch] by (fastforce simp: dotted_def)
qed

text \<open>What a client makes of the two notices.\<close>

lemma recv_join:
  "ok_peer p \<Longrightarrow> cl_peers (recv_frame (FrameCtrl, EncodeCtrl ((ctrl MsgPeerJoin)\<lparr>cm_peer_join := Some p\<rparr>)) a) = Upsert p (cl_peers a)"
  using decode_encode [of "(ctrl MsgPeerJoin)\<lparr>cm_peer_join := Some p\<rparr>"]
  by (simp add: recv_frame_def handleCtrl_def ok_ctrl_def ctrl_def text_ok_def MsgPeerJoin_def FrameData_def FrameCtrl_def)

lemma recv_leave:
  "text_ok ip \<Longrightarrow> cl_peers (recv_frame (FrameCtrl, EncodeCtrl ((ctrl MsgPeerLeave)\<lparr>cm_peer_leave := Some ip\<rparr>)) a) = Remove ip (cl_peers a)"
  using decode_encode [of "(ctrl MsgPeerLeave)\<lparr>cm_peer_leave := Some ip\<rparr>"]
  by (simp add: recv_frame_def handleCtrl_def ok_ctrl_def ctrl_def text_ok_def MsgPeerLeave_def MsgPeerJoin_def FrameData_def FrameCtrl_def)

text \<open>
  C17. A client's table follows the registry when a node joins. The client behind the online node \<open>i\<close> holds the registry of
  its network without itself, and another handshake in the network registers node \<open>j\<close>. Then the server has written exactly
  one more frame to \<open>i\<close>'s connection, the notice of \<open>j\<close>, and the client that handles it holds the new registry.
\<close>

theorem peer_join_followed:
  assumes "reach (hub_start n) hub_step (sv_hub s)" and "conns_distinct (sv_hub s)" and "\<forall>k < hb_new (sv_hub s). nd_rw (hb_heap (sv_hub s) k) \<noteq> c"
    and "map_of (hb_table (sv_hub s)) (net, ip) = Some i" and "mirrors (cl_peers a) net i (sv_hub s)"
    and "w_cap (hb_out (sv_hub s) (nd_rw (hb_heap (sv_hub s) i))) = None"
    and "handshake ev c remote input s = (s', Some (j, rest))" and "nd_network (hb_heap (sv_hub s') j) = net"
    and "map_of (hb_table (sv_hub s')) (net, ip) = Some i"
    and "peer = peer_of (hb_heap (sv_hub s') j)" and "ok_peer peer"
    and "payload = EncodeCtrl ((ctrl MsgPeerJoin)\<lparr>cm_peer_join := Some peer\<rparr>)" and "length payload < 65536"
  shows "w_out (hb_out (sv_hub s') (nd_rw (hb_heap (sv_hub s) i))) = w_out (hb_out (sv_hub s) (nd_rw (hb_heap (sv_hub s) i))) @ frame_bytes (FrameCtrl, payload)
    \<and> mirrors (cl_peers (recv_frame (FrameCtrl, payload) a)) net i (sv_hub s')"
proof -
  have hub: "hub_ok n (sv_hub s)" using hub_sys.reach_inv [OF assms(1)] .
  from hub assms(7) show ?thesis
  proof (cases rule: handshake_effect)
    case (1 pl msg hello dev acct h1 wl k1 k2 k3 k4)
    let ?ip = "dotted k1 k2 k3 k4"
    let ?rw = "nd_rw (hb_heap (sv_hub s) i)"
    have net: "ac_id acct = net" using assms(8) by (simp add: 1(10,16) new_node_def)
    have i: "i < hb_new (sv_hub s)" using hub_ok_node [OF hub assms(4)] by (simp add: node_ok_def)
    then have ij: "i \<noteq> j" by (simp add: 1(7))
    have tab: "hb_table (sv_hub s') = hb_table h1" using 1(15) by (simp add: hub_view_def)
    have ip: "ip \<noteq> ?ip" using assms(9) 1(11) ij by (auto simp: tab net)
    have heap: "hb_heap h1 k = hb_heap (sv_hub s) k" if "k \<noteq> j" for k using that by (simp add: 1(10))
    have cd: "conns_distinct h1"
      using assms(2,3) unfolding conns_distinct_def 1(8) 1(10) 1(7) by (auto simp: inj_on_def less_Suc_eq new_node_def)
    have p: "peer_of (hb_heap h1 j) = peer" by (simp add: assms(10) 1(16) peer_of_def)
    have ne: "c \<noteq> ?rw" using assms(3) i by auto
    have out: "hb_out (sv_hub s') ?rw = hb_out (fold (\<lambda>c h. fst (conn_frame c FrameCtrl payload h)) (others net ?ip h1)
        (fst (conn_frame c FrameCtrl (EncodeCtrl ((ctrl MsgWelcome)\<lparr>cm_welcome := Some wl\<rparr>)) h1))) ?rw"
      by (simp add: 1(17) p net assms(12))
    have before: "hb_out (fst (conn_frame c FrameCtrl (EncodeCtrl ((ctrl MsgWelcome)\<lparr>cm_welcome := Some wl\<rparr>)) h1)) ?rw = hb_out (sv_hub s) ?rw"
      using ne by (simp add: frame_out Register_out [OF 1(5)])
    have "?rw \<in> set (others net ?ip h1)"
      using others_mem [OF 1(6) assms(9) [unfolded tab] ip] by (simp add: heap ij)
    then have "w_out (hb_out (sv_hub s') ?rw) = w_out (hb_out (sv_hub s) ?rw) @ frame_bytes (FrameCtrl, payload)"
      unfolding out before [symmetric]
      by (rule frames_out [OF _ distinct_others [OF 1(6) cd]]) (use assms(6,13) before in \<open>simp_all add: MaxPayload_def\<close>)
    moreover have "mirrors (cl_peers (recv_frame (FrameCtrl, payload) a)) net i (sv_hub s')"
    proof -
      have "pi_ip peer = ?ip" by (simp add: assms(10) peer_of_def 1(10,16) new_node_def)
      then have "online (Upsert peer (cl_peers a)) = (view_of net i (sv_hub s))(?ip \<mapsto> peer)"
        using assms(5) by (simp add: mirrors_def online_Upsert)
      also have "\<dots> = view_of net i (sv_hub s')"
      proof (rule ext)
        fix k
        show "((view_of net i (sv_hub s))(?ip \<mapsto> peer)) k = view_of net i (sv_hub s') k"
        proof (cases "k = ?ip")
          case True
          then show ?thesis using 1(11) ij by (simp add: view_of_def tab net assms(10))
        next
          case False
          then have old: "map_of (hb_table (sv_hub s')) (net, k) = map_of (hb_table (sv_hub s)) (net, k)" by (simp add: tab 1(12) net)
          have "x \<noteq> j" if "map_of (hb_table (sv_hub s)) (net, k) = Some x" for x
            using hub_ok_node [OF hub that] by (simp add: node_ok_def 1(7))
          then show ?thesis using False by (auto simp: view_of_def old 1(16) heap split: option.split)
        qed
      qed
      finally show ?thesis by (simp add: mirrors_def assms(12) recv_join [OF assms(11)])
    qed
    ultimately show ?thesis ..
  qed
qed

text \<open>
  A client's table follows the registry when a node leaves. The client behind the online node \<open>i\<close> holds the registry of
  its network without itself, and the server unregisters another node \<open>j\<close> of the network that is still the one registered at
  its address. Then exactly one frame is written to \<open>i\<close>'s connection, the notice with \<open>j\<close>'s address, and the client that handles
  it holds the new registry.
\<close>

theorem peer_leave_followed:
  assumes "reach (hub_start n) hub_step h" and "conns_distinct h"
    and "map_of (hb_table h) (net, ip) = Some i" and "mirrors (cl_peers a) net i h"
    and "w_cap (hb_out h (nd_rw (hb_heap h i))) = None" and "map_of (hb_table h) (net, gone) = Some j" and "j \<noteq> i"
    and "payload = EncodeCtrl ((ctrl MsgPeerLeave)\<lparr>cm_peer_leave := Some gone\<rparr>)" and "length payload < 65536"
  shows "w_out (hb_out (Unregister (Some j) h) (nd_rw (hb_heap h i))) = w_out (hb_out h (nd_rw (hb_heap h i))) @ frame_bytes (FrameCtrl, payload)
    \<and> mirrors (cl_peers (recv_frame (FrameCtrl, payload) a)) net i (Unregister (Some j) h)"
proof -
  have hub: "hub_ok n h" using hub_sys.reach_inv [OF assms(1)] .
  let ?g = "removeLocked j h"
  let ?rw = "nd_rw (hb_heap h i)"
  have ok: "hub_ok n ?g" by (rule hub_ok_remove [OF hub])
  have j: "node_ok h net gone j" by (rule hub_ok_node [OF hub assms(6)])
  then obtain k1 k2 k3 k4 where at: "nd_network (hb_heap h j) = net" "nd_ip (hb_heap h j) = IPv4 k1 k2 k3 k4" "gone = dotted k1 k2 k3 k4"
    by (auto simp: node_ok_def)
  have ip: "ip \<noteq> gone" using assms(3,6,7) by auto
  have U: "Unregister (Some j) h = broadcastCtrl net ((ctrl MsgPeerLeave)\<lparr>cm_peer_leave := Some gone\<rparr>) (Some (IPv4 k1 k2 k3 k4)) ?g"
    by (simp add: Unregister_def at)
  have out: "hb_out (Unregister (Some j) h) = hb_out (fold (\<lambda>c h. fst (conn_frame c FrameCtrl payload h)) (others net gone ?g) ?g)"
    unfolding U at(3) assms(8) by (rule broadcast_others [OF ok refl refl refl])
  have tab: "map_of (hb_table ?g) (net, k) = (if k = gone then None else map_of (hb_table h) (net, k))" for k
    using assms(6) by (simp add: removeLocked_lookup at)
  have "?rw \<in> set (others net gone ?g)"
    using others_mem [OF ok _ ip, of net i] assms(3) ip by (simp add: tab)
  moreover have "conns_distinct ?g" using assms(2) by (simp add: conns_distinct_def)
  ultimately have "w_out (hb_out (Unregister (Some j) h) ?rw) = w_out (hb_out ?g ?rw) @ frame_bytes (FrameCtrl, payload)"
    unfolding out by (intro frames_out distinct_others [OF ok]) (use assms(5,9) in \<open>simp_all add: MaxPayload_def\<close>)
  moreover have "hub_view (Unregister (Some j) h) = hub_view ?g" "hb_heap (Unregister (Some j) h) = hb_heap h"
    by (simp_all add: U broadcastCtrl_def)
  then have "view_of net i (Unregister (Some j) h) = (view_of net i h)(gone := None)"
    by (auto simp: view_of_def hub_view_def tab fun_eq_iff split: option.split)
  then have "mirrors (cl_peers (recv_frame (FrameCtrl, payload) a)) net i (Unregister (Some j) h)"
    using assms(4) by (simp add: mirrors_def assms(8) recv_leave at(3) text_ok_dotted)
  ultimately show ?thesis by simp
qed

subsection \<open>A sample client joins, sees a second node come, and the second one leave\<close>

lemma sample_verify: "VerifyDevice toy_cmp ''d1'' ''secret'' server_store = Inr (sample_dev1, sample_account)"
  by (simp add: VerifyDevice_def VerifyToken_def get_device_def get_account_def server_store_def sample_dev1_def sample_device_def
      sample_account_def toy_cmp_def)

lemma sample_hello: "length (EncodeCtrl (client_hello ''linux'' sample_config)) < 65536" "ok_ctrl (client_hello ''linux'' sample_config)"
proof -
  have "length (EncodeCtrl (client_hello ''linux'' sample_config)) < 400" by code_simp
  then show "length (EncodeCtrl (client_hello ''linux'' sample_config)) < 65536" by simp
  show "ok_ctrl (client_hello ''linux'' sample_config)"
    by (simp add: ok_ctrl_def ok_hello_def client_hello_def sample_config_def ctrl_def text_ok_def MsgHello_def AuthDevice_def ModeGlobal_def)
qed

lemma sample_welcome_ok: "ok_welcome sample_welcome"
  by (simp add: ok_welcome_def sample_welcome_def text_ok_dotted ok_session_def ok_quota_def int64_def) (simp add: text_ok_def)

lemma client_server_handshake_witness:
  "\<exists>s' w. handshake sample_env 0 ''r'' (frame_bytes (FrameCtrl, EncodeCtrl (client_hello ''linux'' sample_config))) sample_server = (s', Some (0, []))
    \<and> dialAndAuth (sample_dial\<lparr>dl_input := w_out (hb_out (sv_hub s') 0)\<rparr>) sample_config = Inr (w, sample_welcome, [])
    \<and> mirrors (UpsertMany (we_peers sample_welcome) NewPeerRegistry) ''n'' 0 (sv_hub s')"
proof -
  let ?hello = "client_hello ''linux'' sample_config"
  obtain s' r where hs: "handshake sample_env 0 ''r'' (frame_bytes (FrameCtrl, EncodeCtrl ?hello)) sample_server = (s', r)" by fastforce
  obtain lim where lim: "Allow 1 (''hello:'' @ ''r'') 10 minute [] = (lim, True)" using sample_allow by blast
  obtain h1 where reg: "Register True 1 (ac_id sample_account) sample_dev1 sample_account (the (cm_hello ?hello)) 0 ''r'' (sv_hub sample_server)
      = (h1, Inr (sample_welcome, 0))"
    using sample_register [of _ 0 "\<lambda>_. new_writer"] unfolding sample_out by blast
  let ?dial = "sample_dial\<lparr>dl_input := w_out (hb_out (sv_hub s') 0)\<rparr>"
  have cfg: "cc_device sample_config = ''d1''" "cc_token sample_config = ''secret''" "cc_ca sample_config = []" by (simp_all add: sample_config_def)
  have dial: "dl_os ?dial = ''linux''" "dl_input ?dial = w_out (hb_out (sv_hub s') 0)" "dl_writer ?dial = new_writer" by (simp_all add: sample_dial_def)
  have small: "length (EncodeCtrl ((ctrl MsgWelcome)\<lparr>cm_welcome := Some sample_welcome\<rparr>)) < 65536" using welcome_small by simp
  have "r = Some (0, []) \<and> (\<exists>w. dialAndAuth ?dial sample_config = Inr (w, sample_welcome, [])
      \<and> w_out w = frame_bytes (FrameCtrl, EncodeCtrl (client_hello (dl_os ?dial) sample_config)))
    \<and> parse_ip (we_ip sample_welcome) = nd_ip (hb_heap (sv_hub s') 0) \<and> parse_ip (we_ip sample_welcome) \<noteq> []
    \<and> map_of (hb_table (sv_hub s')) (ac_id sample_account, we_ip sample_welcome) = Some 0
    \<and> mirrors (UpsertMany (we_peers sample_welcome) NewPeerRegistry) (ac_id sample_account) 0 (sv_hub s')"
    by (rule client_server_handshake [OF sample_server_start, where ev = sample_env and remote = "''r''" and dev = sample_dev1 and acct = sample_account
          and ?h1.0 = h1 and lim = lim and c = 0 and tls = "\<lparr>tls_insecure = True, tls_roots = None\<rparr>"])
      (use lim reg hs in \<open>simp_all add: dial(1) sample_hello cfg sample_verify sample_welcome_ok small dial(3) buildClientTLSConfig_def\<close>,
       simp_all add: sample_dial_def)
  then show ?thesis using hs by (auto simp: sample_account_def)
qed

lemma sample_hub_conns: "conns_distinct sample_hub"
  by (auto simp: conns_distinct_def sample_hub_eq inj_on_def less_2_cases_iff)

definition sample_member :: client where
  "sample_member = sample_new\<lparr>cl_peers := \<lparr>pr_byIP = [(dotted 10 0 0 2, peer_of (sample_node 1))]\<rparr>\<rparr>"

lemma peer_leave_followed_witness:
  "mirrors (cl_peers (recv_frame (FrameCtrl, EncodeCtrl ((ctrl MsgPeerLeave)\<lparr>cm_peer_leave := Some (dotted 10 0 0 2)\<rparr>)) sample_member)) ''n'' 0
     (Unregister (Some 1) sample_hub)"
proof -
  have ip: "dotted 10 0 0 2 = ''10.0.0.2''" by code_simp
  have small: "length (EncodeCtrl ((ctrl MsgPeerLeave)\<lparr>cm_peer_leave := Some (dotted 10 0 0 2)\<rparr>)) < 65536"
  proof -
    have "length (EncodeCtrl ((ctrl MsgPeerLeave)\<lparr>cm_peer_leave := Some (dotted 10 0 0 2)\<rparr>)) < 400" unfolding ip by code_simp
    then show ?thesis by simp
  qed
  have tab: "map_of (hb_table sample_hub) (''n'', dotted 10 0 0 1) = Some 0" "map_of (hb_table sample_hub) (''n'', dotted 10 0 0 2) = Some 1"
    by (simp_all add: sample_hub_eq)
  have mir: "mirrors (cl_peers sample_member) ''n'' 0 sample_hub"
    by (auto simp: mirrors_def sample_member_def view_of_def sample_hub_eq fun_eq_iff)
  have cap: "w_cap (hb_out sample_hub (nd_rw (hb_heap sample_hub 0))) = None" by (simp add: sample_hub_eq new_writer_def)
  show ?thesis
    using peer_leave_followed [OF sample_hub_reach(2) sample_hub_conns tab(1) mir cap tab(2) _ refl small] by simp
qed

text \<open>The first node is online and the second device says hello.\<close>

definition second_config :: cli_config where
  "second_config = sample_config\<lparr>cc_device := ''d2''\<rparr>"

definition second_device :: device where
  "second_device = (sample_device ''d2'' False)\<lparr>de_token_hash := ''$2a$04$secret''\<rparr>"

definition join_store :: store where
  "join_store = \<lparr>sto_accounts = [(''n'', sample_account)], sto_devices = [(''d2'', second_device)], sto_file = Absent\<rparr>"

definition join_server :: server where
  "join_server = sample_server\<lparr>sv_hub := sample_hub1\<lparr>hb_store := join_store\<rparr>\<rparr>"

definition join_welcome :: welcome_msg where
  "join_welcome = \<lparr>we_ip = dotted 10 0 0 2, we_cidr = ''10.0.0.0/30'', we_network = ''n'', we_mtu = 1280, we_peers = [peer_of (sample_node 0)],
     we_session = Some \<lparr>se_account = ''n'', se_device = ''d2'', se_tier = ''free'',
       se_quota = Some \<lparr>qu_period = ''day'', qu_used = 0, qu_limit = 100, qu_egress_used = 0, qu_egress_limit = 0\<rparr>\<rparr>\<rparr>"

lemma join_server_simps [simp]:
  "sv_lim join_server = []" "hb_store (sv_hub join_server) = join_store" "hb_out (sv_hub join_server) = (\<lambda>_. new_writer)"
  "hb_new (sv_hub join_server) = 1" "hb_heap (sv_hub join_server) 0 = sample_node 0"
  "hb_table (sv_hub join_server) = [((''n'', dotted 10 0 0 1), 0)]"
  by (simp_all add: join_server_def sample_hub1_eq)

lemma join_reach: "reach (hub_start 30) hub_step (sv_hub join_server)"
  using reach_step [where step = hub_step, OF sample_hub_reach(1) hs_store] by (simp add: join_server_def)

lemma join_register:
  "\<exists>h1. Register True 1 (ac_id sample_account) second_device sample_account hello 1 ''r'' (sv_hub join_server) = (h1, Inr (join_welcome, 1))
    \<and> hb_table h1 = [((''n'', dotted 10 0 0 1), 0), ((''n'', dotted 10 0 0 2), 1)]
    \<and> hb_heap h1 1 = new_node 1 ''n'' second_device sample_account hello 1 ''r'' (IPv4 10 0 0 2)"
proof -
  have z: "Totals a t empty_usage = zero_counters" "EgressTotals a t empty_usage = zero_counters" for a t
    by (simp_all add: Totals_def EgressTotals_def accumulate_def empty_usage_def)
  have "hb_tiers sample_hub0 = None" "hb_default sample_hub0 = \<lparr>qs_bytes = 100, qs_egress = 0\<rparr>" "hb_cidr sample_hub0 = ''10.0.0.0/30''"
    by (simp_all add: sample_hub0_def SetTierQuota_def NewHub_def)
  then show ?thesis
    by (simp add: Register_def Let_def Allocate_sample(2) sample_account_def second_device_def sample_device_def sample_lease_def evict_def
        join_server_def sample_hub1_eq nodes_of_def insert_node_def new_node_def join_welcome_def composeSession_def composeQuota_def z
        zero_counters_def quotaSpecFor_def ip_equal_def add64_def int64_def)
qed

lemma second_hello: "length (EncodeCtrl (client_hello ''linux'' second_config)) < 65536" "ok_ctrl (client_hello ''linux'' second_config)"
proof -
  have "length (EncodeCtrl (client_hello ''linux'' second_config)) < 400" by code_simp
  then show "length (EncodeCtrl (client_hello ''linux'' second_config)) < 65536" by simp
  show "ok_ctrl (client_hello ''linux'' second_config)"
    by (simp add: ok_ctrl_def ok_hello_def client_hello_def second_config_def sample_config_def ctrl_def text_ok_def MsgHello_def AuthDevice_def ModeGlobal_def)
qed

lemma join_handshake:
  obtains s' where "handshake sample_env 1 ''r'' (frame_bytes (FrameCtrl, EncodeCtrl (client_hello ''linux'' second_config))) join_server = (s', Some (1, []))"
    and "hb_table (sv_hub s') = [((''n'', dotted 10 0 0 1), 0), ((''n'', dotted 10 0 0 2), 1)]"
    and "nd_network (hb_heap (sv_hub s') 1) = ''n''"
    and "peer_of (hb_heap (sv_hub s') 1) = \<lparr>pi_ip = dotted 10 0 0 2, pi_hostname = ''laptop'', pi_os = ''linux'', pi_egress = False\<rparr>"
proof -
  let ?hello = "client_hello ''linux'' second_config"
  obtain s' r where hs: "handshake sample_env 1 ''r'' (frame_bytes (FrameCtrl, EncodeCtrl ?hello)) join_server = (s', r)" by fastforce
  obtain lim where lim: "Allow 1 (''hello:'' @ ''r'') 10 minute [] = (lim, True)" using sample_allow by blast
  obtain h1 where reg: "Register True 1 (ac_id sample_account) second_device sample_account (the (cm_hello ?hello)) 1 ''r'' (sv_hub join_server)
      = (h1, Inr (join_welcome, 1))" and tab: "hb_table h1 = [((''n'', dotted 10 0 0 1), 0), ((''n'', dotted 10 0 0 2), 1)]"
    and heap: "hb_heap h1 1 = new_node 1 ''n'' second_device sample_account (the (cm_hello ?hello)) 1 ''r'' (IPv4 10 0 0 2)"
    using join_register by blast
  have ver: "VerifyDevice toy_cmp ''d2'' ''secret'' join_store = Inr (second_device, sample_account)"
    by (simp add: VerifyDevice_def VerifyToken_def get_device_def get_account_def join_store_def second_device_def sample_device_def
        sample_account_def toy_cmp_def)
  have cfg: "cc_device second_config = ''d2''" "cc_token second_config = ''secret''" by (simp_all add: second_config_def sample_config_def)
  have "length (EncodeCtrl ((ctrl MsgWelcome)\<lparr>cm_welcome := Some join_welcome\<rparr>)) < 65536"
  proof -
    have ip: "dotted 10 0 0 1 = ''10.0.0.1''" "dotted 10 0 0 2 = ''10.0.0.2''" by code_simp+
    have peer: "peer_of (sample_node 0) = \<lparr>pi_ip = ''10.0.0.1'', pi_hostname = ''h'', pi_os = [], pi_egress = False\<rparr>"
      by (simp add: peer_of_def ip) (simp add: sample_node_def new_node_def hello_of_def zero_hello_def)
    have "length (EncodeCtrl ((ctrl MsgWelcome)\<lparr>cm_welcome := Some join_welcome\<rparr>)) < 600"
      unfolding join_welcome_def peer ip by code_simp
    then show ?thesis by simp
  qed
  then have "snd (handshake sample_env 1 ''r'' (frame_bytes (FrameCtrl, EncodeCtrl ?hello)) join_server) = Some (1, [])"
    by (intro handshake_completes [where dev = second_device and acct = sample_account, OF _ _ second_hello(2,1)])
      (use lim reg in \<open>simp_all add: cfg ver\<close>)
  then have r: "r = Some (1, [])" using hs by simp
  from hs r have hs': "handshake sample_env 1 ''r'' (frame_bytes (FrameCtrl, EncodeCtrl ?hello)) join_server = (s', Some (1, []))" by simp
  then show ?thesis
  proof (cases rule: handshake_success)
    case (1 payload msg hello dev acct h w)
    have "ReadFrame (frame_bytes (FrameCtrl, EncodeCtrl ?hello) @ []) = Inr ((FrameCtrl, EncodeCtrl ?hello), [])"
      using second_hello(1) by (intro fc.dec_enc) simp
    then have "msg = ?hello" using 1(1,2) decode_encode [OF second_hello(2)] by simp
    then have hello: "hello = the (cm_hello ?hello)" using 1(4) by simp
    then have "dev = second_device" "acct = sample_account"
      using authenticate_ok [OF 1(5)] ver by (simp_all add: client_hello_def ctrl_def cfg)
    then have h: "h = h1" using 1(6) reg hello by simp
    have node: "hb_heap (sv_hub s') 1 = (new_node 1 ''n'' second_device sample_account (the (cm_hello ?hello)) 1 ''r'' (IPv4 10 0 0 2))\<lparr>nd_conn := Some 1\<rparr>"
      by (simp only: 1(8) h fun_upd_same heap)
    have "hb_table (sv_hub s') = hb_table h1" using table_view [OF 1(7)] h by simp
    then show ?thesis
      by (intro that [OF hs']) (simp_all only: tab node,
        simp_all add: new_node_def peer_of_def client_hello_def second_config_def sample_config_def ctrl_def)
  qed
qed

lemma peer_join_followed_witness:
  "\<exists>s'. handshake sample_env 1 ''r'' (frame_bytes (FrameCtrl, EncodeCtrl (client_hello ''linux'' second_config))) join_server = (s', Some (1, []))
    \<and> mirrors (cl_peers (recv_frame (FrameCtrl, EncodeCtrl ((ctrl MsgPeerJoin)\<lparr>cm_peer_join := Some (peer_of (hb_heap (sv_hub s') 1))\<rparr>)) sample_new))
        ''n'' 0 (sv_hub s')"
proof -
  obtain s' where s': "handshake sample_env 1 ''r'' (frame_bytes (FrameCtrl, EncodeCtrl (client_hello ''linux'' second_config))) join_server = (s', Some (1, []))"
    "hb_table (sv_hub s') = [((''n'', dotted 10 0 0 1), 0), ((''n'', dotted 10 0 0 2), 1)]" "nd_network (hb_heap (sv_hub s') 1) = ''n''"
    "peer_of (hb_heap (sv_hub s') 1) = \<lparr>pi_ip = dotted 10 0 0 2, pi_hostname = ''laptop'', pi_os = ''linux'', pi_egress = False\<rparr>"
    by (rule join_handshake)
  have ip: "dotted 10 0 0 2 = ''10.0.0.2''" by code_simp
  have "length (EncodeCtrl ((ctrl MsgPeerJoin)\<lparr>cm_peer_join := Some \<lparr>pi_ip = dotted 10 0 0 2, pi_hostname = ''laptop'', pi_os = ''linux'', pi_egress = False\<rparr>\<rparr>)) < 400"
    unfolding ip by code_simp
  then have small: "length (EncodeCtrl ((ctrl MsgPeerJoin)\<lparr>cm_peer_join := Some (peer_of (hb_heap (sv_hub s') 1))\<rparr>)) < 65536"
    unfolding s'(4) by simp
  have okp: "ok_peer (peer_of (hb_heap (sv_hub s') 1))" unfolding s'(4) by (simp add: ok_peer_def text_ok_dotted) (simp add: text_ok_def)
  have mir: "mirrors (cl_peers sample_new) ''n'' 0 (sv_hub join_server)"
    by (auto simp: mirrors_def sample_new_def view_of_def fun_eq_iff)
  have "mirrors (cl_peers (recv_frame (FrameCtrl, EncodeCtrl ((ctrl MsgPeerJoin)\<lparr>cm_peer_join := Some (peer_of (hb_heap (sv_hub s') 1))\<rparr>)) sample_new))
        ''n'' 0 (sv_hub s')"
    by (rule peer_join_followed [OF join_reach _ _ _ mir _ s'(1,3) _ refl okp refl small, where ip = "dotted 10 0 0 1", THEN conjunct2])
      (simp_all add: conns_distinct_def inj_on_def s'(2) new_writer_def)
  then show ?thesis using s'(1) by blast
qed

end
