(* ===== verification/Rolling_Log.thy ===== *)
theory Rolling_Log
  imports Go_Net
begin

text \<open>
  The rolling log of server and client, \<^verbatim>\<open>internal/rollinglog/rollinglog.go\<close>: a record is appended to one file, which
  is moved aside when it has reached its size, and a fixed number of old files is kept. The file system is a
  map from paths to contents; whether the system allows a renaming, opens the file or writes all of a record is an argument.
\<close>

subsection \<open>The manager\<close>

type_synonym log_fs = "string \<Rightarrow> bytes option"

record log_manager =
  lm_path :: string
  lm_max :: int
  lm_keep :: int

definition Setup :: "bool \<Rightarrow> string \<Rightarrow> int \<Rightarrow> int \<Rightarrow> log_manager option option" where
  "Setup mkdir path maxBytes keep =
     (if path = [] then Some None
      else
        let keep = (if keep \<le> 0 then 3 else keep);
            maxBytes = (if maxBytes \<le> 0 then 64 * 1024 * 1024 else maxBytes)
        in if \<not> mkdir then None else Some (Some \<lparr>lm_path = path, lm_max = maxBytes, lm_keep = keep\<rparr>))"

definition log_name :: "log_manager \<Rightarrow> nat \<Rightarrow> string" where
  "log_name m i = lm_path m @ ''.'' @ show_nat i"

text \<open>\<^verbatim>\<open>os.Rename\<close>, whose error every caller drops.\<close>

definition move :: "(string \<Rightarrow> string \<Rightarrow> bool) \<Rightarrow> string \<Rightarrow> string \<Rightarrow> log_fs \<Rightarrow> log_fs" where
  "move ren from to fs =
     (case fs from of
        None \<Rightarrow> fs
      | Some c \<Rightarrow> if ren from to then fs(from := None, to := Some c) else fs)"

text \<open>The loop from \<^verbatim>\<open>keep - 1\<close> down to 1.\<close>

primrec rotate_loop :: "(string \<Rightarrow> string \<Rightarrow> bool) \<Rightarrow> log_manager \<Rightarrow> nat \<Rightarrow> log_fs \<Rightarrow> log_fs" where
  "rotate_loop ren m 0 fs = fs"
| "rotate_loop ren m (Suc n) fs =
     rotate_loop ren m n
       (if fs (log_name m (Suc n)) \<noteq> None then move ren (log_name m (Suc n)) (log_name m (Suc n + 1)) fs else fs)"

definition rotate_log :: "(string \<Rightarrow> string \<Rightarrow> bool) \<Rightarrow> log_manager \<Rightarrow> log_fs \<Rightarrow> log_fs" where
  "rotate_log ren m fs = move ren (lm_path m) (lm_path m @ ''.1'') (rotate_loop ren m (nat (lm_keep m - 1)) fs)"

text \<open>What the system does during a call: renamings, opening, and how much of the record a failing write writes.\<close>

record log_io =
  li_rename :: "string \<Rightarrow> string \<Rightarrow> bool"
  li_open :: bool
  li_short :: "nat option"

definition Write :: "log_io \<Rightarrow> log_manager option \<Rightarrow> bytes \<Rightarrow> log_fs \<Rightarrow> log_fs \<times> nat \<times> bool" where
  "Write io mgr b fs =
     (case mgr of
        None \<Rightarrow> (fs, length b, True)
      | Some m \<Rightarrow>
          let fs = (case fs (lm_path m) of
                      Some c \<Rightarrow> if int (length c) \<ge> lm_max m then rotate_log (li_rename io) m fs else fs
                    | None \<Rightarrow> fs)
          in if \<not> li_open io then (fs, 0, False)
             else
               let old = (case fs (lm_path m) of None \<Rightarrow> [] | Some c \<Rightarrow> c);
                   n = (case li_short io of None \<Rightarrow> length b | Some k \<Rightarrow> min k (length b))
               in (fs(lm_path m := Some (old @ take n b)), n, li_short io = None))"

subsection \<open>The abstract log\<close>

text \<open>
  A log is the newest file and the old ones, newest first; a record goes to the newest file, after that
  has become an old one if it is full, and the oldest ones are dropped.
\<close>

type_synonym rolled = "bytes option \<times> bytes list"

definition put_record :: "log_manager \<Rightarrow> bytes \<Rightarrow> rolled \<Rightarrow> rolled" where
  "put_record m b lg =
     (case lg of
        (Some c, old) \<Rightarrow>
          if int (length c) \<ge> lm_max m then (Some b, take (nat (lm_keep m)) (c # old)) else (Some (c @ b), old)
      | (None, old) \<Rightarrow> (Some b, old))"

definition all_written :: "rolled \<Rightarrow> bytes" where
  "all_written lg = concat (rev (snd lg)) @ (case fst lg of None \<Rightarrow> [] | Some c \<Rightarrow> c)"

text \<open>The files of a log.\<close>

definition on_disk :: "log_manager \<Rightarrow> rolled \<Rightarrow> log_fs \<Rightarrow> bool" where
  "on_disk m lg fs \<longleftrightarrow> length (snd lg) \<le> nat (lm_keep m) \<and> fs (lm_path m) = fst lg
     \<and> (\<forall>i. 1 \<le> i \<and> i \<le> nat (lm_keep m) \<longrightarrow> fs (log_name m i) = (if i \<le> length (snd lg) then Some (snd lg ! (i - 1)) else None))"

lemma log_name_inj [simp]: "log_name m i = log_name m j \<longleftrightarrow> i = j"
  using show_nat_inj by (auto simp: log_name_def)

lemma log_name_path [simp]: "log_name m i \<noteq> lm_path m" "lm_path m \<noteq> log_name m i"
  by (auto simp: log_name_def)

lemma log_name_1: "lm_path m @ ''.1'' = log_name m 1"
  by (simp add: log_name_def) code_simp

text \<open>The loop moves every old file up by one.\<close>

lemma rotate_loop_others:
  "p \<noteq> lm_path m \<Longrightarrow> (\<forall>i. 1 \<le> i \<and> i \<le> Suc n \<longrightarrow> p \<noteq> log_name m i) \<Longrightarrow> rotate_loop ren m n fs p = fs p"
  "rotate_loop ren m n fs (lm_path m) = fs (lm_path m)"
  by (induction n arbitrary: fs) (auto simp: move_def split: option.split)

lemma rotate_loop_files:
  assumes "\<And>a b. ren a b" and "\<And>i. 1 \<le> i \<Longrightarrow> i \<le> n \<Longrightarrow> fs (log_name m i) = None \<Longrightarrow> fs (log_name m (Suc i)) = None"
    and "1 \<le> i" and "i \<le> Suc n"
  shows "rotate_loop ren m n fs (log_name m i) = (if i = 1 then (if n = 0 then fs (log_name m 1) else None) else fs (log_name m (i - 1)))"
  using assms(2-4)
proof (induction n arbitrary: fs i)
  case (Suc n)
  show ?case
  proof (cases "fs (log_name m (Suc n))")
    case None
    then have loop: "rotate_loop ren m (Suc n) fs = rotate_loop ren m n fs" by simp
    show ?thesis
    proof (cases "i = Suc (Suc n)")
      case True
      have "fs (log_name m (Suc (Suc n))) = None" using Suc.prems(1) [of "Suc n"] None by simp
      then show ?thesis unfolding loop using True None rotate_loop_others(1) [of "log_name m i" m n] by simp
    next
      case False
      then have "rotate_loop ren m n fs (log_name m i) = (if i = 1 then (if n = 0 then fs (log_name m 1) else None) else fs (log_name m (i - 1)))"
        using Suc.prems by (intro Suc.IH) simp_all
      then show ?thesis unfolding loop using None by auto
    qed
  next
    case (Some c)
    let ?fs = "fs(log_name m (Suc n) := None, log_name m (Suc (Suc n)) := Some c)"
    have loop: "rotate_loop ren m (Suc n) fs = rotate_loop ren m n ?fs" using assms(1) Some by (simp add: move_def)
    show ?thesis
    proof (cases "i = Suc (Suc n)")
      case True
      then show ?thesis unfolding loop using Some rotate_loop_others(1) [of "log_name m i" m n] by simp
    next
      case False
      then have "rotate_loop ren m n ?fs (log_name m i) = (if i = 1 then (if n = 0 then ?fs (log_name m 1) else None) else ?fs (log_name m (i - 1)))"
        using Suc.prems by (intro Suc.IH) auto
      then show ?thesis unfolding loop using False Suc.prems(2,3) by auto
    qed
  qed
qed simp

text \<open>With a file system that lets it rename, \<^verbatim>\<open>rotate\<close> makes the newest file an old one.\<close>

lemma rotate_log_disk:
  assumes "\<And>a b. ren a b" and "on_disk m (Some c, old) fs" and "1 \<le> lm_keep m"
  shows "on_disk m (None, take (nat (lm_keep m)) (c # old)) (rotate_log ren m fs)"
proof -
  let ?n = "nat (lm_keep m - 1)"
  let ?fs = "rotate_loop ren m ?n fs"
  have n: "Suc ?n = nat (lm_keep m)" using assms(3) by simp
  have len: "length old \<le> Suc ?n" using assms(2) by (simp add: on_disk_def n)
  have at: "fs (log_name m i) = (if i \<le> length old then Some (old ! (i - 1)) else None)" if "1 \<le> i" "i \<le> Suc ?n" for i
    using assms(2) that by (simp add: on_disk_def n)
  have files: "?fs (log_name m i) = (if i = 1 then (if ?n = 0 then fs (log_name m 1) else None) else fs (log_name m (i - 1)))"
    if "1 \<le> i" "i \<le> Suc ?n" for i
    using that at by (intro rotate_loop_files assms(1)) (simp_all split: if_splits)
  have cur: "?fs (lm_path m) = Some c" using assms(2) by (simp add: rotate_loop_others(2) on_disk_def)
  have rot: "rotate_log ren m fs = ?fs(lm_path m := None, log_name m 1 := Some c)"
    using assms(1) cur by (simp add: rotate_log_def log_name_1 move_def)
  have "rotate_log ren m fs (log_name m i) = (if i \<le> length (take (Suc ?n) (c # old)) then Some (take (Suc ?n) (c # old) ! (i - 1)) else None)"
    if "1 \<le> i" "i \<le> Suc ?n" for i
  proof (cases "i = 1")
    case False
    then have "rotate_log ren m fs (log_name m i) = fs (log_name m (i - 1))" using files [OF that] by (simp add: rot)
    also have "\<dots> = (if i - 1 \<le> length old then Some (old ! (i - 1 - 1)) else None)" using at [of "i - 1"] that False by simp
    finally show ?thesis using that False by (auto simp: nth_Cons' less_Suc_eq_le)
  qed (simp add: rot)
  then show ?thesis by (simp add: on_disk_def n rot)
qed

text \<open>A record that the system lets be written: the files are those of the abstract log, and no other file is touched.\<close>

definition io_ok :: "log_io \<Rightarrow> bool" where
  "io_ok io \<longleftrightarrow> (\<forall>a b. li_rename io a b) \<and> li_open io \<and> li_short io = None"

definition log_files :: "log_manager \<Rightarrow> string set" where
  "log_files m = insert (lm_path m) (log_name m ` {1..nat (lm_keep m)})"

lemma rotate_log_others:
  assumes "p \<notin> log_files m" and "1 \<le> lm_keep m"
  shows "rotate_log ren m fs p = fs p"
proof -
  have "1 \<in> {1..nat (lm_keep m)}" using assms(2) by simp
  then have "p \<noteq> lm_path m" "p \<noteq> log_name m 1" "\<forall>i. 1 \<le> i \<and> i \<le> Suc (nat (lm_keep m - 1)) \<longrightarrow> p \<noteq> log_name m i"
    using assms by (auto simp: log_files_def)
  then show ?thesis
    using rotate_loop_others(1) [of p m "nat (lm_keep m - 1)"] by (simp add: rotate_log_def log_name_1 move_def split: option.split)
qed

lemma Write_refines:
  assumes "io_ok io" and "on_disk m lg fs" and "1 \<le> lm_keep m"
  obtains fs' where "Write io (Some m) b fs = (fs', length b, True)" and "on_disk m (put_record m b lg) fs'"
    and "\<And>p. p \<notin> log_files m \<Longrightarrow> fs' p = fs p"
proof -
  obtain cur old where lg: "lg = (cur, old)" by fastforce
  have cur: "fs (lm_path m) = cur" using assms(2) by (simp add: on_disk_def lg)
  define full where "full \<longleftrightarrow> (case cur of None \<Rightarrow> False | Some c \<Rightarrow> lm_max m \<le> int (length c))"
  define fs1 where "fs1 = (if full then rotate_log (li_rename io) m fs else fs)"
  define lg1 where "lg1 = (if full then (None, take (nat (lm_keep m)) (the cur # old)) else lg)"
  have disk: "on_disk m lg1 fs1"
    using rotate_log_disk [of "li_rename io" m "the cur" old fs] assms
    by (auto simp: fs1_def lg1_def full_def lg io_ok_def split: option.splits)
  let ?fs' = "fs1(lm_path m := Some ((case fst lg1 of None \<Rightarrow> [] | Some c \<Rightarrow> c) @ b))"
  have W: "Write io (Some m) b fs = (?fs', length b, True)"
  proof -
    have "(case fs (lm_path m) of Some c \<Rightarrow> if int (length c) \<ge> lm_max m then rotate_log (li_rename io) m fs else fs | None \<Rightarrow> fs) = fs1"
      by (simp add: cur fs1_def full_def split: option.split)
    moreover have "fs1 (lm_path m) = fst lg1" using disk by (simp add: on_disk_def)
    ultimately show ?thesis using assms(1) by (simp add: Write_def io_ok_def Let_def)
  qed
  have put: "put_record m b lg = (Some ((case fst lg1 of None \<Rightarrow> [] | Some c \<Rightarrow> c) @ b), snd lg1)"
    by (simp add: put_record_def lg lg1_def full_def split: option.splits)
  have "on_disk m (put_record m b lg) ?fs'" unfolding put using disk by (simp add: on_disk_def)
  moreover have "?fs' p = fs p" if "p \<notin> log_files m" for p
    using that rotate_log_others [OF that assms(3)] by (simp add: fs1_def log_files_def)
  ultimately show ?thesis using that W by blast
qed

subsection \<open>What is kept\<close>

text \<open>The old files are full, nothing is in the wrong order, and only what no longer fits is dropped.\<close>

definition log_ok :: "log_manager \<Rightarrow> nat \<Rightarrow> bytes \<Rightarrow> rolled \<Rightarrow> bool" where
  "log_ok m L written lg \<longleftrightarrow> length (snd lg) \<le> nat (lm_keep m)
     \<and> (\<forall>c \<in> set (snd lg). lm_max m \<le> int (length c))
     \<and> (\<forall>c \<in> set (snd lg) \<union> set_option (fst lg). int (length c) < lm_max m + int L)
     \<and> (\<exists>dropped. written = dropped @ all_written lg \<and> (dropped \<noteq> [] \<longrightarrow> length (snd lg) = nat (lm_keep m)))"

lemma log_ok_put:
  assumes "log_ok m L written lg" and "length b \<le> L" and "1 \<le> lm_max m" and "1 \<le> lm_keep m"
  shows "log_ok m L (written @ b) (put_record m b lg)"
proof -
  obtain cur old where lg: "lg = (cur, old)" by fastforce
  obtain dropped where d: "written = dropped @ all_written lg" "dropped \<noteq> [] \<longrightarrow> length old = nat (lm_keep m)"
    using assms(1) by (auto simp: log_ok_def lg)
  have old: "length old \<le> nat (lm_keep m)" "\<forall>c \<in> set old. lm_max m \<le> int (length c)"
    "\<forall>c \<in> set old \<union> set_option cur. int (length c) < lm_max m + int L"
    using assms(1) by (simp_all add: log_ok_def lg)
  have b: "int (length b) < lm_max m + int L" using assms(2,3) by simp
  show ?thesis
  proof (cases "\<exists>c. cur = Some c \<and> lm_max m \<le> int (length c)")
    case True
    then obtain c where c: "cur = Some c" "lm_max m \<le> int (length c)" by blast
    let ?k = "nat (lm_keep m)"
    have put: "put_record m b lg = (Some b, take ?k (c # old))" using c by (simp add: put_record_def lg)
    have "set (take ?k (c # old)) \<subseteq> set (c # old)" by (rule set_take_subset)
    moreover have "written @ b = (dropped @ concat (rev (drop ?k (c # old)))) @ concat (rev (take ?k (c # old))) @ b"
    proof -
      have "concat (rev (c # old)) = concat (rev (take ?k (c # old) @ drop ?k (c # old)))" by simp
      then have "concat (rev old) @ c = concat (rev (drop ?k (c # old))) @ concat (rev (take ?k (c # old)))"
        by (simp only: rev_append concat_append) simp
      then show ?thesis using d(1) by (simp add: all_written_def lg c)
    qed
    moreover have "dropped @ concat (rev (drop ?k (c # old))) \<noteq> [] \<longrightarrow> length (take ?k (c # old)) = ?k"
      using d(2) old(1) by auto
    ultimately show ?thesis
      unfolding put log_ok_def all_written_def using old c b by (fastforce simp: Let_def)
  next
    case False
    then have put: "put_record m b lg = (Some ((case cur of None \<Rightarrow> [] | Some c \<Rightarrow> c) @ b), old)"
      by (auto simp: put_record_def lg split: option.split)
    have "int (length ((case cur of None \<Rightarrow> [] | Some c \<Rightarrow> c) @ b)) < lm_max m + int L"
      using False assms(2,3) by (auto split: option.splits)
    then show ?thesis
      unfolding put log_ok_def using old d by (auto simp: all_written_def lg split: option.splits)
  qed
qed

text \<open>
  C40. A rolling log keeps the newest of what is written to it. After any sequence of records of at most \<open>L\<close> bytes, written to a log
  that starts without files, on a system that lets the files be renamed and written: the oldest file to the newest one, one
  after the other, hold the end of everything written, in order; nothing is lost before all \<open>keep\<close> old files are full, every
  file stays below the limit plus one record, no more than \<open>keep\<close> old files exist, and no other file is touched.
\<close>

theorem rolling_log_keeps_newest:
  assumes "Setup mkdir path maxBytes keep = Some (Some m)" and "\<And>b. b \<in> set records \<Longrightarrow> length b \<le> L"
    and "\<And>p. p \<in> log_files m \<Longrightarrow> fs p = None" and "\<And>k. io_ok (io k)"
    and "fs' = fold (\<lambda>(k, b) fs. fst (Write (io k) (Some m) b fs)) (enumerate 0 records) fs"
  shows "\<exists>newest old dropped. on_disk m (newest, old) fs' \<and> concat records = dropped @ all_written (newest, old)
    \<and> length old \<le> nat (lm_keep m) \<and> (\<forall>c \<in> set old. lm_max m \<le> int (length c))
    \<and> (dropped \<noteq> [] \<longrightarrow> length old = nat (lm_keep m))
    \<and> (\<forall>c \<in> set old \<union> set_option newest. int (length c) < lm_max m + int L)
    \<and> (\<forall>p. p \<notin> log_files m \<longrightarrow> fs' p = fs p)"
proof -
  have m: "1 \<le> lm_max m" "1 \<le> lm_keep m" using assms(1) by (auto simp: Setup_def Let_def split: if_splits)
  have start: "on_disk m (None, []) fs" using assms(3) by (simp add: on_disk_def log_files_def)
  have "\<exists>lg fs'. fold (\<lambda>(k, b) fs. fst (Write (io k) (Some m) b fs)) (enumerate j bs) fs = fs' \<and> on_disk m lg fs'
      \<and> log_ok m L (concat bs) lg \<and> (\<forall>p. p \<notin> log_files m \<longrightarrow> fs' p = fs p)" if "\<And>b. b \<in> set bs \<Longrightarrow> length b \<le> L" for bs j
    using that
  proof (induction bs rule: rev_induct)
    case Nil
    then show ?case using start by (intro exI [of _ "(None, [])"]) (simp add: log_ok_def all_written_def)
  next
    case (snoc b bs)
    obtain lg fs1 where IH: "fold (\<lambda>(k, b) fs. fst (Write (io k) (Some m) b fs)) (enumerate j bs) fs = fs1" "on_disk m lg fs1"
      "log_ok m L (concat bs) lg" "\<forall>p. p \<notin> log_files m \<longrightarrow> fs1 p = fs p" using snoc by auto
    obtain fs2 where W: "Write (io (j + length bs)) (Some m) b fs1 = (fs2, length b, True)" "on_disk m (put_record m b lg) fs2"
      "\<And>p. p \<notin> log_files m \<Longrightarrow> fs2 p = fs1 p" by (rule Write_refines [OF assms(4) IH(2) m(2)]) auto
    have "length b \<le> L" using snoc.prems by simp
    then have "log_ok m L (concat (bs @ [b])) (put_record m b lg)" using log_ok_put [OF IH(3) _ m] by simp
    moreover have "fold (\<lambda>(k, b) fs. fst (Write (io k) (Some m) b fs)) (enumerate j (bs @ [b])) fs = fs2"
      using W(1) IH(1) by (simp add: enumerate_append_eq)
    moreover have "fs2 p = fs p" if "p \<notin> log_files m" for p using W(3) IH(4) that by simp
    ultimately show ?case using W(2) by blast
  qed
  from this [of records 0] assms(2) obtain lg where lg: "on_disk m lg fs'" "log_ok m L (concat records) lg"
    "\<forall>p. p \<notin> log_files m \<longrightarrow> fs' p = fs p" unfolding assms(5) by blast
  obtain newest old where "lg = (newest, old)" by fastforce
  moreover obtain dropped where "concat records = dropped @ all_written lg" "dropped \<noteq> [] \<longrightarrow> length (snd lg) = nat (lm_keep m)"
    using lg(2) by (auto simp: log_ok_def)
  ultimately show ?thesis
    using lg by (intro exI [of _ newest] exI [of _ old] exI [of _ dropped]) (simp add: log_ok_def)
qed

definition sample_log :: log_manager where
  "sample_log = \<lparr>lm_path = ''log'', lm_max = 2, lm_keep = 1\<rparr>"

definition sample_log_io :: log_io where
  "sample_log_io = \<lparr>li_rename = \<lambda>_ _. True, li_open = True, li_short = None\<rparr>"

lemma rolling_log_keeps_newest_witness:
  "\<exists>newest old dropped. on_disk sample_log (newest, old)
      (fold (\<lambda>(k, b) fs. fst (Write sample_log_io (Some sample_log) b fs)) (enumerate 0 [[1, 2], [3], [4, 5 :: byte]]) (\<lambda>_. None))
    \<and> [1, 2, 3, 4, 5] = dropped @ all_written (newest, old) \<and> length old \<le> 1"
proof -
  have "Setup True ''log'' 2 1 = Some (Some sample_log)" by (simp add: Setup_def sample_log_def)
  moreover have "length b \<le> 2" if "b \<in> set [[1, 2], [3], [4, 5 :: byte]]" for b using that by auto
  moreover have "io_ok sample_log_io" by (simp add: io_ok_def sample_log_io_def)
  moreover have "nat (lm_keep sample_log) = 1" "concat [[1, 2], [3], [4, 5 :: byte]] = [1, 2, 3, 4, 5]" by (simp_all add: sample_log_def)
  ultimately show ?thesis
    using rolling_log_keeps_newest [of True "''log''" 2 1 sample_log "[[1, 2], [3], [4, 5]]" 2 "\<lambda>_. None" "\<lambda>_. sample_log_io", OF _ _ _ _ refl]
    by (metis (no_types, lifting))
qed

end
