(* ===== verification/Go_Flag.thy ===== *)
theory Go_Flag
  imports Orbit_Prelude
begin

text \<open>
  Package \<^verbatim>\<open>flag\<close> of the Go library as the commands of \<^verbatim>\<open>cmd/orbit-cli\<close> and \<^verbatim>\<open>cmd/orbitd\<close> use it: string and
  boolean flags, given as \<^verbatim>\<open>-name value\<close>, \<^verbatim>\<open>-name=value\<close> or with two dashes, up to the first argument that is no
  flag. All flag sets of the program end the process on an error.
\<close>

datatype flag_kind = StrFlag | BoolFlag

datatype flag_value = FStr string | FBool bool

text \<open>A request for help ends the process with status 0, any error with status 2.\<close>

datatype flag_error = FlagHelp | FlagBad

type_synonym flag_values = "(string, flag_value) gomap"

definition parse_bool :: "string \<Rightarrow> bool option" where
  "parse_bool s =
     (if s \<in> {''1'', ''t'', ''T'', ''TRUE'', ''true'', ''True''} then Some True
      else if s \<in> {''0'', ''f'', ''F'', ''FALSE'', ''false'', ''False''} then Some False
      else None)"

text \<open>The name of a flag and what follows its first equals sign; the sign cannot come first.\<close>

definition cut_flag :: "string \<Rightarrow> string \<times> string option" where
  "cut_flag s =
     (if CHR ''='' \<in> set s then (takeWhile ((\<noteq>) CHR ''='') s, Some (tl (dropWhile ((\<noteq>) CHR ''='') s))) else (s, None))"

fun parse_flags :: "(string \<Rightarrow> flag_kind option) \<Rightarrow> string list \<Rightarrow> flag_values \<Rightarrow> flag_error + flag_values \<times> string list" where
  "parse_flags kind [] vs = Inr (vs, [])"
| "parse_flags kind (s # args) vs =
     (if length s < 2 \<or> hd s \<noteq> CHR ''-'' then Inr (vs, s # args)
      else if s = ''--'' then Inr (vs, args)
      else
        let name = (if s ! 1 = CHR ''-'' then drop 2 s else tl s)
        in if name = [] \<or> hd name = CHR ''-'' \<or> hd name = CHR ''='' then Inl FlagBad
           else case cut_flag name of (n, given) \<Rightarrow>
             (case kind n of
                None \<Rightarrow> Inl (if n = ''help'' \<or> n = ''h'' then FlagHelp else FlagBad)
              | Some BoolFlag \<Rightarrow>
                  (case given of
                     None \<Rightarrow> parse_flags kind args (put n (FBool True) vs)
                   | Some v \<Rightarrow>
                       (case parse_bool v of
                          None \<Rightarrow> Inl FlagBad
                        | Some b \<Rightarrow> parse_flags kind args (put n (FBool b) vs)))
              | Some StrFlag \<Rightarrow>
                  (case given of
                     Some v \<Rightarrow> parse_flags kind args (put n (FStr v) vs)
                   | None \<Rightarrow>
                       (case args of
                          [] \<Rightarrow> Inl FlagBad
                        | v # rest \<Rightarrow> parse_flags kind rest (put n (FStr v) vs)))))"

definition str_given :: "string \<Rightarrow> flag_values \<Rightarrow> string option" where
  "str_given n vs = (case map_of vs n of Some (FStr s) \<Rightarrow> Some s | _ \<Rightarrow> None)"

definition bool_given :: "string \<Rightarrow> flag_values \<Rightarrow> bool option" where
  "bool_given n vs = (case map_of vs n of Some (FBool b) \<Rightarrow> Some b | _ \<Rightarrow> None)"

text \<open>The value of a flag, or its default.\<close>

definition str_flag :: "string \<Rightarrow> string \<Rightarrow> flag_values \<Rightarrow> string" where
  "str_flag zero n vs = (case str_given n vs of Some s \<Rightarrow> s | None \<Rightarrow> zero)"

definition bool_flag :: "string \<Rightarrow> flag_values \<Rightarrow> bool" where
  "bool_flag n vs = (bool_given n vs = Some True)"

definition flag_status :: "flag_error \<Rightarrow> nat" where
  "flag_status e = (case e of FlagHelp \<Rightarrow> 0 | FlagBad \<Rightarrow> 2)"

subsection \<open>Flags that are given one by one\<close>

lemma flag_str:
  assumes "kind n = Some StrFlag" and "n \<noteq> []" and "hd n \<noteq> CHR ''-''" and "CHR ''='' \<notin> set n"
  shows "parse_flags kind ((CHR ''-'' # n) # v # args) vs = parse_flags kind args (put n (FStr v) vs)"
proof -
  have "hd n \<noteq> CHR ''=''" using assms(2,4) by (cases n) auto
  moreover have "n ! 0 = hd n" "length n \<noteq> 0" using assms(2) by (simp_all add: hd_conv_nth)
  ultimately show ?thesis using assms by (auto simp: cut_flag_def Let_def)
qed

lemma flag_bool:
  assumes "kind n = Some BoolFlag" and "n \<noteq> []" and "hd n \<noteq> CHR ''-''" and "CHR ''='' \<notin> set n"
  shows "parse_flags kind ((CHR ''-'' # n) # args) vs = parse_flags kind args (put n (FBool True) vs)"
proof -
  have "hd n \<noteq> CHR ''=''" using assms(2,4) by (cases n) auto
  moreover have "n ! 0 = hd n" "length n \<noteq> 0" using assms(2) by (simp_all add: hd_conv_nth)
  ultimately show ?thesis using assms by (auto simp: cut_flag_def Let_def)
qed

end
