(* ===== verification/Cli_Config.thy ===== *)
theory Cli_Config
  imports Client_Config Go_Net Go_Flag
begin

text \<open>
  The commands of the client program that change its configuration: \<^verbatim>\<open>set\<close>, \<^verbatim>\<open>switch\<close> and \<^verbatim>\<open>stop\<close> of
  \<^verbatim>\<open>cmd/orbit-cli/admincmd.go\<close>. A command takes what the package \<^verbatim>\<open>flag\<close> has parsed and the world: the files, and the
  list of what has been done to processes. Paths are those of Unix. What is printed is not modelled, apart from the exit status.
\<close>

subsection \<open>The functions of package path/filepath\<close>

definition clean_step :: "bool \<Rightarrow> string list \<Rightarrow> string \<Rightarrow> string list" where
  "clean_step rooted acc c =
     (if c = [] \<or> c = ''.'' then acc
      else if c = ''..'' then
        (if acc \<noteq> [] \<and> last acc \<noteq> ''..'' then butlast acc else if rooted then acc else acc @ [c])
      else acc @ [c])"

fun join_slash :: "string list \<Rightarrow> string" where
  "join_slash [] = []"
| "join_slash [s] = s"
| "join_slash (s # ss) = s @ ''/'' @ join_slash ss"

definition path_clean :: "string \<Rightarrow> string" where
  "path_clean p =
     (if p = [] then ''.''
      else
        let rooted = (hd p = CHR ''/'');
            body = join_slash (foldl (clean_step rooted) [] (split_all CHR ''/'' p))
        in if rooted then CHR ''/'' # body else if body = [] then ''.'' else body)"

definition path_join :: "string \<Rightarrow> string \<Rightarrow> string" where
  "path_join a b =
     (if a = [] \<and> b = [] then []
      else path_clean (if a = [] then b else if b = [] then a else a @ ''/'' @ b))"

text \<open>What follows the last slash, and what comes before it, the slash included.\<close>

definition after_slash :: "string \<Rightarrow> string" where
  "after_slash p = rev (takeWhile ((\<noteq>) CHR ''/'') (rev p))"

definition path_dir :: "string \<Rightarrow> string" where
  "path_dir p = path_clean (take (length p - length (after_slash p)) p)"

definition path_base :: "string \<Rightarrow> string" where
  "path_base p =
     (if p = [] then ''.''
      else let b = after_slash (trim_right CHR ''/'' p) in if b = [] then ''/'' else b)"

definition path_ext :: "string \<Rightarrow> string" where
  "path_ext p =
     (let b = after_slash p; e = rev (takeWhile ((\<noteq>) CHR ''.'') (rev b))
      in if CHR ''.'' \<in> set b then CHR ''.'' # e else [])"

definition trim_suffix :: "string \<Rightarrow> string \<Rightarrow> string" where
  "trim_suffix s suf =
     (if length suf \<le> length s \<and> drop (length s - length suf) s = suf then take (length s - length suf) s else s)"

subsection \<open>The world of a command\<close>

datatype cli_exit = Exit nat | Panic

text \<open>
  What is done to processes: a signal, a run of the scheduled task, a start of the program with a configuration, another
  command that is run.
\<close>

datatype cli_effect = Kill int | RunTask string | StartDaemon string | Exec "string list"

record cli_world =
  cw_files :: files
  cw_done :: "cli_effect list"

text \<open>
  What a command meets: the operating system, the YAML library, the outcome of a save for every path, the daemons that
  run, whether the scheduled task exists and starts, and whether the program's own path is known and can be started.
\<close>

record cli_env =
  ce_goos :: string
  ce_unmarshal :: "string \<Rightarrow> cli_config option"
  ce_marshal :: "cli_config \<Rightarrow> string option"
  ce_save :: "string \<Rightarrow> save_io"
  ce_daemons :: "int list"
  ce_task :: bool
  ce_task_runs :: bool
  ce_start :: bool

definition deviceDefaultConfig :: "string \<Rightarrow> string" where
  "deviceDefaultConfig goos =
     (if goos = ''windows'' then ''C:'' @ [CHR 0x5C] @ ''ProgramData'' @ [CHR 0x5C] @ ''OrbitClient'' @ [CHR 0x5C] @ ''orbit-cli.yaml''
      else ''/opt/orbit-client/orbit-cli.yaml'')"

definition load_cfg :: "cli_env \<Rightarrow> string \<Rightarrow> cli_world \<Rightarrow> config_error + cli_config" where
  "load_cfg ev path w = LoadConfig (ce_unmarshal ev) path (cw_files w)"

definition save_cfg :: "cli_env \<Rightarrow> string \<Rightarrow> cli_config \<Rightarrow> cli_world \<Rightarrow> cli_world \<times> config_error option" where
  "save_cfg ev path c w =
     (let (fs, e) = SaveConfig (ce_marshal ev) (ce_save ev path) path c (cw_files w) in (w\<lparr>cw_files := fs\<rparr>, e))"

subsection \<open>Stopping and restarting the daemon\<close>

definition effect :: "cli_effect \<Rightarrow> cli_world \<Rightarrow> cli_world" where
  "effect e w = w\<lparr>cw_done := cw_done w @ [e]\<rparr>"

definition killDaemons :: "cli_env \<Rightarrow> cli_world \<Rightarrow> cli_world" where
  "killDaemons ev w = fold (\<lambda>pid. effect (Kill pid)) (ce_daemons ev) w"

text \<open>The result is whether there was no error.\<close>

definition restartDaemon :: "cli_env \<Rightarrow> cli_world \<Rightarrow> cli_world \<times> bool" where
  "restartDaemon ev w =
     (let w = killDaemons ev w;
          w = (if ce_goos ev = ''windows'' \<and> ce_task ev then effect (RunTask ''OrbitClient'') w else w)
      in if ce_goos ev = ''windows'' \<and> ce_task ev \<and> ce_task_runs ev then (w, True)
         else if ce_start ev then (effect (StartDaemon (deviceDefaultConfig (ce_goos ev))) w, True)
         else (w, False))"

definition runStop :: "cli_env \<Rightarrow> cli_world \<Rightarrow> cli_world \<times> cli_exit" where
  "runStop ev w = (killDaemons ev w, Exit 0)"

subsection \<open>set\<close>

definition splitList :: "string \<Rightarrow> string list" where
  "splitList s = filter (\<lambda>p. p \<noteq> []) (map trim_space (split_all CHR '','' s))"

text \<open>One rule; \<open>None\<close> is a malformed one.\<close>

definition parse_rule :: "string \<Rightarrow> rule_spec option" where
  "parse_rule item =
     (case split_n 2 CHR ''='' item of
        [a, b] \<Rightarrow> if trim_space a = [] then None else Some \<lparr>rs_target = trim_space a, rs_exit = trim_space b\<rparr>
      | _ \<Rightarrow> None)"

fun parse_rules :: "string list \<Rightarrow> rule_spec list option" where
  "parse_rules [] = Some []"
| "parse_rules (item # items) =
     (case parse_rule item of
        None \<Rightarrow> None
      | Some r \<Rightarrow> map_option ((#) r) (parse_rules items))"

text \<open>The flags of \<^verbatim>\<open>set\<close>; \<open>None\<close> is a flag that is not given.\<close>

record set_flags =
  sf_config :: string
  sf_mode :: "string option"
  sf_egress :: "bool option"
  sf_exit :: "string option"
  sf_keep :: "string option"
  sf_rules :: "string option"
  sf_no_restart :: bool

definition set_kind :: "string \<Rightarrow> flag_kind option" where
  "set_kind = map_of [(''config'', StrFlag), (''mode'', StrFlag), (''egress'', BoolFlag), (''exit'', StrFlag),
     (''keep-local'', StrFlag), (''rules'', StrFlag), (''no-restart'', BoolFlag)]"

definition set_flags_of :: "string \<Rightarrow> flag_values \<Rightarrow> set_flags" where
  "set_flags_of goos vs = \<lparr>sf_config = str_flag (deviceDefaultConfig goos) ''config'' vs, sf_mode = str_given ''mode'' vs,
     sf_egress = bool_given ''egress'' vs, sf_exit = str_given ''exit'' vs, sf_keep = str_given ''keep-local'' vs,
     sf_rules = str_given ''rules'' vs, sf_no_restart = bool_flag ''no-restart'' vs\<rparr>"

text \<open>The changes a call asks for; \<open>None\<close> is an exit with status 2.\<close>

definition set_mode :: "string option \<Rightarrow> cli_config \<Rightarrow> cli_config option" where
  "set_mode fl c =
     (case fl of
        None \<Rightarrow> Some c
      | Some m \<Rightarrow>
          if m = [] then None
          else if m = ModeSimple \<or> m = ModeSmart \<or> m = ModeGlobal then Some (c\<lparr>cc_mode := m\<rparr>) else None)"

definition set_rules :: "string option \<Rightarrow> cli_config \<Rightarrow> cli_config option" where
  "set_rules fl c =
     (case fl of
        None \<Rightarrow> Some c
      | Some s \<Rightarrow> map_option (\<lambda>rules. c\<lparr>cc_rules := rules\<rparr>) (parse_rules (splitList s)))"

definition apply_flags :: "set_flags \<Rightarrow> cli_config \<Rightarrow> cli_config option" where
  "apply_flags fl c =
     (case set_mode (sf_mode fl) c of
        None \<Rightarrow> None
      | Some c \<Rightarrow> set_rules (sf_rules fl)
          (c\<lparr>cc_egress := (case sf_egress fl of None \<Rightarrow> cc_egress c | Some b \<Rightarrow> b),
             cc_exit := (case sf_exit fl of None \<Rightarrow> cc_exit c | Some e \<Rightarrow> e),
             cc_keep_local := (case sf_keep fl of None \<Rightarrow> cc_keep_local c | Some s \<Rightarrow> splitList s)\<rparr>))"

definition modeConfigPath :: "string \<Rightarrow> string \<Rightarrow> string" where
  "modeConfigPath cfgPath mode =
     (let base = path_base cfgPath; stem = trim_suffix base (path_ext base)
      in path_join (path_dir cfgPath) (stem @ ''-'' @ mode @ ''.yaml''))"

definition syncModeConfig :: "cli_env \<Rightarrow> string \<Rightarrow> cli_config \<Rightarrow> cli_world \<Rightarrow> cli_world" where
  "syncModeConfig ev cfgPath c w =
     (let mp = modeConfigPath cfgPath (cc_mode c) in if mp = cfgPath then w else fst (save_cfg ev mp c w))"

definition runSet :: "cli_env \<Rightarrow> set_flags \<Rightarrow> cli_world \<Rightarrow> cli_world \<times> cli_exit" where
  "runSet ev fl w =
     (case load_cfg ev (sf_config fl) w of
        Inl e \<Rightarrow> (w, Exit 1)
      | Inr cfg \<Rightarrow>
          (case apply_flags fl cfg of
             None \<Rightarrow> (w, Exit 2)
           | Some cfg \<Rightarrow>
               (case Validate cfg of
                  (cfg, Some e) \<Rightarrow> (w, Exit 2)
                | (cfg, None) \<Rightarrow>
                    (case save_cfg ev (sf_config fl) cfg w of
                       (w, Some e) \<Rightarrow> (w, Exit 1)
                     | (w, None) \<Rightarrow>
                         let w = syncModeConfig ev (sf_config fl) cfg w;
                             w = (if sf_no_restart fl then w else fst (restartDaemon ev w))
                         in (w, Exit 0)))))"

definition runSetArgs :: "cli_env \<Rightarrow> string list \<Rightarrow> cli_world \<Rightarrow> cli_world \<times> cli_exit" where
  "runSetArgs ev args w =
     (case parse_flags set_kind args [] of
        Inl e \<Rightarrow> (w, Exit (flag_status e))
      | Inr (vs, _) \<Rightarrow> runSet ev (set_flags_of (ce_goos ev) vs) w)"

subsection \<open>switch\<close>

text \<open>The hand-written scan of the arguments: the configuration's path, and the other arguments.\<close>

fun scan_args :: "string list \<Rightarrow> string \<times> string list \<Rightarrow> string \<times> string list" where
  "scan_args [] acc = acc"
| "scan_args (a # args) (cfg, rest) =
     (if a = ''-config'' \<and> args \<noteq> [] then scan_args (tl args) (hd args, rest)
      else if has_prefix a ''config='' then scan_args args (drop 7 a, rest)
      else scan_args args (cfg, rest @ [a]))"

definition normalise :: "string \<Rightarrow> cli_config \<Rightarrow> cli_config" where
  "normalise mode c =
     (if mode = ''global'' then c\<lparr>cc_egress := False, cc_rules := []\<rparr>
      else if mode = ''simple'' then c\<lparr>cc_egress := False, cc_exit := [], cc_rules := []\<rparr>
      else c)"

definition switch_to :: "cli_env \<Rightarrow> string \<Rightarrow> string \<Rightarrow> cli_world \<Rightarrow> cli_world \<times> cli_exit" where
  "switch_to ev cfgPath mode w =
     (if \<not> (mode = ModeSimple \<or> mode = ModeSmart \<or> mode = ModeGlobal) then (w, Exit 2)
      else case load_cfg ev cfgPath w of
          Inl e \<Rightarrow> (w, Exit 1)
        | Inr cur \<Rightarrow>
            let w = syncModeConfig ev cfgPath cur w;
                target = modeConfigPath cfgPath mode;
                tcfg = (case load_cfg ev target w of Inl e \<Rightarrow> cur\<lparr>cc_mode := mode\<rparr> | Inr c \<Rightarrow> c);
                tcfg = normalise mode tcfg
            in (case Validate tcfg of
                  (tcfg, Some e) \<Rightarrow> (w, Exit 2)
                | (tcfg, None) \<Rightarrow>
                    (case save_cfg ev target tcfg w of
                       (w, Some e) \<Rightarrow> (w, Exit 1)
                     | (w, None) \<Rightarrow>
                         (case save_cfg ev cfgPath tcfg w of
                            (w, Some e) \<Rightarrow> (w, Exit 1)
                          | (w, None) \<Rightarrow>
                              (if ce_daemons ev \<noteq> [] then fst (restartDaemon ev w) else w, Exit 0)))))"

definition runSwitch :: "cli_env \<Rightarrow> string list \<Rightarrow> cli_world \<Rightarrow> cli_world \<times> cli_exit" where
  "runSwitch ev args w =
     (case scan_args args (deviceDefaultConfig (ce_goos ev), []) of
        (cfgPath, [mode]) \<Rightarrow> switch_to ev cfgPath mode w
      | _ \<Rightarrow> (w, Exit 2))"

subsection \<open>What the commands guarantee\<close>

text \<open>A YAML library that reads back what it prints.\<close>

definition yaml_ok :: "cli_env \<Rightarrow> bool" where
  "yaml_ok ev \<longleftrightarrow> (\<forall>c b. ce_marshal ev c = Some b \<longrightarrow> ce_unmarshal ev b = Some c)"

definition modes :: "string set" where
  "modes = {ModeSimple, ModeSmart, ModeGlobal}"

text \<open>The configuration, the three archives and their temporary files do not get into each other's way.\<close>

definition sane_path :: "string \<Rightarrow> bool" where
  "sane_path p \<longleftrightarrow> (\<forall>m \<in> modes. modeConfigPath p m \<noteq> p \<and> modeConfigPath p m \<noteq> p @ ''.tmp'' \<and> modeConfigPath p m @ ''.tmp'' \<noteq> p
     \<and> (\<forall>m' \<in> modes. (modeConfigPath p m = modeConfigPath p m' \<longleftrightarrow> m = m') \<and> modeConfigPath p m \<noteq> modeConfigPath p m' @ ''.tmp''))"

lemma save_cfg_ok:
  assumes "save_cfg ev path c w = (w', None)" and "yaml_ok ev" and "valid_config c"
  shows "load_cfg ev path w' = Inr c" and "cw_done w' = cw_done w"
    and "\<And>p. p \<noteq> path \<Longrightarrow> p \<noteq> path @ ''.tmp'' \<Longrightarrow> cw_files w' p = cw_files w p"
proof -
  obtain fs where fs: "SaveConfig (ce_marshal ev) (ce_save ev path) path c (cw_files w) = (fs, None)" "w' = w\<lparr>cw_files := fs\<rparr>"
    using assms(1) by (auto simp: save_cfg_def split: prod.splits)
  obtain b where b: "ce_marshal ev c = Some b" "fs = (cw_files w)(path @ ''.tmp'' \<mapsto> b, path \<mapsto> b, path @ ''.tmp'' := None)"
    using fs(1) by (auto simp: SaveConfig_def Let_def split: option.splits if_splits)
  then show "load_cfg ev path w' = Inr c"
    using assms(2,3) by (simp add: load_cfg_def LoadConfig_def fs(2) yaml_ok_def Validate_valid)
  show "cw_done w' = cw_done w" by (simp add: fs(2))
  show "cw_files w' p = cw_files w p" if "p \<noteq> path" "p \<noteq> path @ ''.tmp''" for p using that by (simp add: fs(2) b(2))
qed

lemma save_cfg_files:
  "p \<noteq> path \<Longrightarrow> p \<noteq> path @ ''.tmp'' \<Longrightarrow> cw_files (fst (save_cfg ev path c w)) p = cw_files w p"
  "cw_done (fst (save_cfg ev path c w)) = cw_done w"
  "snd (save_cfg ev path c w) \<noteq> None \<Longrightarrow> cw_files (fst (save_cfg ev path c w)) path = cw_files w path"
  by (auto simp: save_cfg_def SaveConfig_def Let_def split: option.split prod.split)

lemma load_cfg_valid: "load_cfg ev path w = Inr c \<Longrightarrow> valid_config c"
  by (auto simp: load_cfg_def LoadConfig_def dest: Validate_sound split: option.splits prod.splits)

lemma load_cfg_cong: "cw_files w path = cw_files w' path \<Longrightarrow> load_cfg ev path w = load_cfg ev path w'"
  by (simp add: load_cfg_def LoadConfig_def)

lemma kill_files [simp]: "cw_files (killDaemons ev w) = cw_files w"
proof -
  have "cw_files (fold (\<lambda>pid. effect (Kill pid)) pids w) = cw_files w" for pids
    by (induction pids arbitrary: w) (simp_all add: effect_def)
  then show ?thesis by (simp add: killDaemons_def)
qed

lemma restart_files [simp]: "cw_files (fst (restartDaemon ev w)) = cw_files w"
  by (simp add: restartDaemon_def effect_def Let_def)

text \<open>What the flags of \<^verbatim>\<open>set\<close> change.\<close>

lemma apply_flags_fields:
  assumes "apply_flags fl c = Some c'"
  shows "cc_mode c' = (case sf_mode fl of None \<Rightarrow> cc_mode c | Some m \<Rightarrow> m)"
    and "cc_egress c' = (case sf_egress fl of None \<Rightarrow> cc_egress c | Some b \<Rightarrow> b)"
    and "cc_exit c' = (case sf_exit fl of None \<Rightarrow> cc_exit c | Some e \<Rightarrow> e)"
    and "cc_keep_local c' = (case sf_keep fl of None \<Rightarrow> cc_keep_local c | Some s \<Rightarrow> splitList s)"
    and "cc_token c' = cc_token c" and "cc_device c' = cc_device c" and "cc_server c' = cc_server c"
    and "sf_rules fl = None \<Longrightarrow> cc_rules c' = cc_rules c" and "sf_mode fl = Some m \<Longrightarrow> m \<in> modes"
proof -
  obtain c1 where c1: "set_mode (sf_mode fl) c = Some c1" using assms by (cases "set_mode (sf_mode fl) c") (simp_all add: apply_flags_def)
  then have m: "c1 = c\<lparr>cc_mode := (case sf_mode fl of None \<Rightarrow> cc_mode c | Some m \<Rightarrow> m)\<rparr>"
    by (auto simp: set_mode_def split: option.splits if_splits)
  have c1_fields: "cc_mode c1 = (case sf_mode fl of None \<Rightarrow> cc_mode c | Some m \<Rightarrow> m)" "cc_egress c1 = cc_egress c" "cc_exit c1 = cc_exit c"
    "cc_keep_local c1 = cc_keep_local c" "cc_rules c1 = cc_rules c" "cc_token c1 = cc_token c" "cc_device c1 = cc_device c" "cc_server c1 = cc_server c"
    by (simp_all add: m)
  let ?c = "c1\<lparr>cc_egress := (case sf_egress fl of None \<Rightarrow> cc_egress c1 | Some b \<Rightarrow> b),
      cc_exit := (case sf_exit fl of None \<Rightarrow> cc_exit c1 | Some e \<Rightarrow> e),
      cc_keep_local := (case sf_keep fl of None \<Rightarrow> cc_keep_local c1 | Some s \<Rightarrow> splitList s)\<rparr>"
  have "set_rules (sf_rules fl) ?c = Some c'" using assms by (simp add: apply_flags_def c1)
  then have c': "\<exists>rules. c' = ?c\<lparr>cc_rules := rules\<rparr> \<and> (sf_rules fl = None \<longrightarrow> rules = cc_rules c)"
    by (cases "sf_rules fl") (auto simp: set_rules_def c1_fields intro: exI [of _ "cc_rules c1"])
  from c' [unfolded c1_fields(2-4)] show "cc_mode c' = (case sf_mode fl of None \<Rightarrow> cc_mode c | Some m \<Rightarrow> m)"
    "cc_egress c' = (case sf_egress fl of None \<Rightarrow> cc_egress c | Some b \<Rightarrow> b)"
    "cc_exit c' = (case sf_exit fl of None \<Rightarrow> cc_exit c | Some e \<Rightarrow> e)"
    "cc_keep_local c' = (case sf_keep fl of None \<Rightarrow> cc_keep_local c | Some s \<Rightarrow> splitList s)"
    "cc_token c' = cc_token c" "cc_device c' = cc_device c" "cc_server c' = cc_server c" by (auto simp: c1_fields)
  show "sf_rules fl = None \<Longrightarrow> cc_rules c' = cc_rules c" using c' by auto
  show "sf_mode fl = Some m \<Longrightarrow> m \<in> modes" using c1 by (auto simp: set_mode_def modes_def split: if_splits)
qed

lemma runSet_cases:
  assumes "yaml_ok ev" and "sane_path (sf_config fl)" and "runSet ev fl w = (w', r)"
  obtains (failed) "r = Exit 1 \<or> r = Exit 2" "cw_files w' (sf_config fl) = cw_files w (sf_config fl)" "cw_done w' = cw_done w"
  | (saved) c c' where "r = Exit 0" "load_cfg ev (sf_config fl) w = Inr c" "apply_flags fl c = Some c'" "valid_config c'"
      "load_cfg ev (sf_config fl) w' = Inr c'"
proof (cases "load_cfg ev (sf_config fl) w")
  case (Inl e)
  then show ?thesis using assms(3) by (intro failed) (simp_all add: runSet_def)
next
  case c: (Inr c)
  let ?p = "sf_config fl"
  show ?thesis
  proof (cases "apply_flags fl c")
    case None
    then show ?thesis using assms(3) c by (intro failed) (simp_all add: runSet_def)
  next
    case c': (Some c')
    have mode: "cc_mode c' \<in> modes"
      using apply_flags_fields(1,9) [OF c'] load_cfg_valid [OF c] by (auto simp: valid_config_def modes_def split: option.splits)
    have "fst (Validate c') = c'" using mode by (auto simp: Validate_def modes_def Let_def)
    then obtain e where val: "Validate c' = (c', e)" by (metis prod.collapse)
    show ?thesis
    proof (cases e)
      case (Some err)
      then show ?thesis using assms(3) c c' val by (intro failed) (simp_all add: runSet_def)
    next
      case e: None
      have ok: "valid_config c'" using Validate_sound val e by blast
      obtain w1 e1 where save: "save_cfg ev ?p c' w = (w1, e1)" by fastforce
      show ?thesis
      proof (cases e1)
        case (Some err)
        then show ?thesis using assms(3) c c' val e save save_cfg_files(2,3) [of ev ?p c' w] by (intro failed) (simp_all add: runSet_def)
      next
        case None
        let ?w2 = "syncModeConfig ev ?p c' w1"
        have w': "w' = (if sf_no_restart fl then ?w2 else fst (restartDaemon ev ?w2))" "r = Exit 0"
          using assms(3) c c' val e save None by (simp_all add: runSet_def Let_def)
        have "cw_files ?w2 ?p = cw_files w1 ?p"
          using assms(2) mode by (simp add: syncModeConfig_def Let_def sane_path_def save_cfg_files(1) eq_commute [of ?p])
        then have "load_cfg ev ?p w' = load_cfg ev ?p w1" by (intro load_cfg_cong) (simp add: w'(1))
        then show ?thesis using save_cfg_ok(1) [OF save [unfolded None] assms(1) ok] by (intro saved [OF w'(2) c c' ok]) simp
      qed
    qed
  qed
qed


subsection \<open>Switching\<close>

lemma valid_mode: "valid_config c \<Longrightarrow> cc_mode c \<in> modes"
  by (simp add: valid_config_def modes_def)

lemma Validate_mode: "cc_mode c \<in> modes \<Longrightarrow> fst (Validate c) = c"
  by (auto simp: Validate_def modes_def Let_def)

lemma normalise_mode [simp]: "cc_mode (normalise m c) = cc_mode c"
  by (simp add: normalise_def)

lemma sane_paths:
  assumes "sane_path p" and "m \<in> modes" and "m' \<in> modes"
  shows "modeConfigPath p m \<noteq> p" "p \<noteq> modeConfigPath p m" "modeConfigPath p m \<noteq> p @ ''.tmp''" "modeConfigPath p m @ ''.tmp'' \<noteq> p"
    "p \<noteq> modeConfigPath p m @ ''.tmp''" "modeConfigPath p m \<noteq> modeConfigPath p m' @ ''.tmp''"
    "modeConfigPath p m = modeConfigPath p m' \<longleftrightarrow> m = m'"
  using assms unfolding sane_path_def by metis+

lemma switch_success:
  assumes "yaml_ok ev" and "sane_path p" and "switch_to ev p m w = (w', Exit 0)"
  obtains cur t ws where "load_cfg ev p w = Inr cur" "ws = syncModeConfig ev p cur w" "m \<in> modes"
    "t = normalise m (case load_cfg ev (modeConfigPath p m) ws of Inl e \<Rightarrow> cur\<lparr>cc_mode := m\<rparr> | Inr c \<Rightarrow> c)"
    "valid_config t" "load_cfg ev p w' = Inr t"
    "\<And>m'. m' \<in> modes \<Longrightarrow> m' \<noteq> m \<Longrightarrow> load_cfg ev (modeConfigPath p m') w' = load_cfg ev (modeConfigPath p m') ws"
proof -
  have m: "m \<in> modes" using assms(3) by (auto simp: switch_to_def modes_def split: if_splits)
  then have mm: "m = ModeSimple \<or> m = ModeSmart \<or> m = ModeGlobal" by (simp add: modes_def)
  obtain cur where cur: "load_cfg ev p w = Inr cur" using assms(3) mm by (cases "load_cfg ev p w") (auto simp: switch_to_def)
  define ws where "ws = syncModeConfig ev p cur w"
  define t where "t = normalise m (case load_cfg ev (modeConfigPath p m) ws of Inl e \<Rightarrow> cur\<lparr>cc_mode := m\<rparr> | Inr c \<Rightarrow> c)"
  have "cc_mode t \<in> modes"
    using m load_cfg_valid [THEN valid_mode] by (simp add: t_def split: sum.split)
  then obtain e where val: "Validate t = (t, e)" using Validate_mode by (metis prod.collapse)
  note go = assms(3) [unfolded switch_to_def Let_def cur sum.case, folded ws_def, folded t_def, unfolded val prod.case]
  have e: "e = None" using go mm by (cases e) auto
  then have ok: "valid_config t" using Validate_sound val by blast
  obtain w1 e1 where s1: "save_cfg ev (modeConfigPath p m) t ws = (w1, e1)" by fastforce
  have e1: "e1 = None" using go mm e s1 by (cases e1) auto
  obtain w2 e2 where s2: "save_cfg ev p t w1 = (w2, e2)" by fastforce
  have e2: "e2 = None" using go mm e s1 e1 s2 by (cases e2) auto
  have w': "cw_files w' = cw_files w2" using go mm e s1 e1 s2 e2 by (auto split: if_splits)
  note f1 = save_cfg_ok [OF s1 [unfolded e1] assms(1) ok] and f2 = save_cfg_ok [OF s2 [unfolded e2] assms(1) ok]
  have "load_cfg ev p w' = Inr t" using f2(1) load_cfg_cong [of w' p w2 ev] w' by simp
  moreover have "load_cfg ev (modeConfigPath p m') w' = load_cfg ev (modeConfigPath p m') ws" if "m' \<in> modes" "m' \<noteq> m" for m'
    using sane_paths [OF assms(2) that(1) m] that(2) f1(3) f2(3) by (intro load_cfg_cong) (simp add: w')
  ultimately show ?thesis using that [OF cur ws_def m t_def ok] by blast
qed

text \<open>A switch succeeds when the files can be written.\<close>

lemma switch_runs:
  assumes "m \<in> modes" and "load_cfg ev p w = Inr cur" and "ws = syncModeConfig ev p cur w" and "target = modeConfigPath p m"
    and "t = normalise m (case load_cfg ev target ws of Inl e \<Rightarrow> cur\<lparr>cc_mode := m\<rparr> | Inr c \<Rightarrow> c)" and "valid_config t"
    and "\<And>q. ce_save ev q = \<lparr>si_write = None, si_rename = True\<rparr>" and "ce_marshal ev t \<noteq> None"
  shows "\<exists>w'. switch_to ev p m w = (w', Exit 0)"
proof -
  obtain b where b: "ce_marshal ev t = Some b" using assms(8) by blast
  have save: "\<exists>w'. save_cfg ev q t w = (w', None)" for q w by (simp add: save_cfg_def SaveConfig_def assms(7) b)
  obtain w1 where w1: "save_cfg ev target t ws = (w1, None)" using save by blast
  obtain w2 where w2: "save_cfg ev p t w1 = (w2, None)" using save by blast
  have m: "m = ModeSimple \<or> m = ModeSmart \<or> m = ModeGlobal" using assms(1) by (simp add: modes_def)
  show ?thesis
    unfolding switch_to_def Let_def assms(2) sum.case assms(3,4) [symmetric] assms(5) [symmetric] Validate_valid [OF assms(6)] prod.case option.case w1 w2
    using m by auto
qed


subsection \<open>On the default path\<close>

definition smart_config :: cli_config where
  "smart_config = sample_config\<lparr>cc_mode := ModeSmart\<rparr>"

definition global_config :: cli_config where
  "global_config = sample_config\<lparr>cc_rules := []\<rparr>"

text \<open>A stand-in for YAML that knows three configurations.\<close>

definition three_marshal :: "cli_config \<Rightarrow> string option" where
  "three_marshal c = (if c = smart_config then Some ''smart'' else if c = global_config then Some ''global''
     else if c = sample_config then Some ''sample'' else None)"

definition three_unmarshal :: "string \<Rightarrow> cli_config option" where
  "three_unmarshal s = (if s = ''smart'' then Some smart_config else if s = ''global'' then Some global_config
     else if s = ''sample'' then Some sample_config else None)"

definition cli_path :: string where
  "cli_path = ''/opt/orbit-client/orbit-cli.yaml''"

definition sample_cli :: cli_env where
  "sample_cli = \<lparr>ce_goos = ''linux'', ce_unmarshal = three_unmarshal, ce_marshal = three_marshal,
     ce_save = (\<lambda>_. \<lparr>si_write = None, si_rename = True\<rparr>), ce_daemons = [], ce_task = False, ce_task_runs = False, ce_start = True\<rparr>"

definition smart_world :: cli_world where
  "smart_world = \<lparr>cw_files = (\<lambda>_. None)(cli_path := Some ''smart''), cw_done = []\<rparr>"

lemma cli_paths:
  "modeConfigPath cli_path ModeSimple = ''/opt/orbit-client/orbit-cli-simple.yaml''"
  "modeConfigPath cli_path ModeSmart = ''/opt/orbit-client/orbit-cli-smart.yaml''"
  "modeConfigPath cli_path ModeGlobal = ''/opt/orbit-client/orbit-cli-global.yaml''"
  by code_simp+

lemma cli_path_sane: "sane_path cli_path"
  by (simp add: sane_path_def modes_def cli_paths) (simp add: cli_path_def)

lemma three_ok: "yaml_ok sample_cli"
proof -
  have "smart_config \<noteq> global_config" by (simp add: smart_config_def global_config_def sample_config_def)
  moreover have "smart_config \<noteq> sample_config" "global_config \<noteq> sample_config"
    by (simp_all add: smart_config_def global_config_def sample_config_def ModeSmart_def ModeGlobal_def)
  ultimately show ?thesis by (auto simp: yaml_ok_def sample_cli_def three_marshal_def three_unmarshal_def split: if_splits)
qed

lemma three_facts:
  "three_unmarshal ''smart'' = Some smart_config" "three_marshal global_config = Some ''global''" "three_marshal smart_config = Some ''smart''"
  "three_unmarshal ''global'' = Some global_config"
  "valid_config smart_config" "valid_config global_config" "cc_mode smart_config = ModeSmart" "cc_mode global_config = ModeGlobal"
  "smart_config\<lparr>cc_mode := ModeGlobal, cc_rules := []\<rparr> = global_config"
proof -
  have "smart_config \<noteq> global_config" by (simp add: smart_config_def global_config_def sample_config_def)
  then show "three_marshal global_config = Some ''global''" "three_marshal smart_config = Some ''smart''" by (simp_all add: three_marshal_def)
qed (simp_all add: three_unmarshal_def valid_config_def smart_config_def global_config_def sample_config_def)

lemma smart_loads: "load_cfg sample_cli cli_path smart_world = Inr smart_config"
  by (simp add: load_cfg_def LoadConfig_def smart_world_def sample_cli_def three_facts Validate_valid)

lemma sample_saves:
  "three_marshal c = Some b \<Longrightarrow> save_cfg sample_cli p c w = (w\<lparr>cw_files := (cw_files w)(p @ ''.tmp'' \<mapsto> b, p \<mapsto> b, p @ ''.tmp'' := None)\<rparr>, None)"
  by (simp add: save_cfg_def SaveConfig_def sample_cli_def)

definition sample_flags :: set_flags where
  "sample_flags = \<lparr>sf_config = cli_path, sf_mode = Some ''global'', sf_egress = None, sf_exit = None,
     sf_keep = None, sf_rules = Some [], sf_no_restart = True\<rparr>"



end
