(* ===== verification/Cli_Api.thy ===== *)
theory Cli_Api
  imports Cli_Config Go_Flag Http
begin

text \<open>
  The commands of the client program that talk to the server over HTTPS: \<^verbatim>\<open>register\<close>, \<^verbatim>\<open>devices\<close> and \<^verbatim>\<open>usage\<close>
  (\<^verbatim>\<open>cmd/orbit-cli/main.go\<close> and \<^verbatim>\<open>admincmd.go\<close>), and the list of devices that \<^verbatim>\<open>status\<close> shows. What \<^verbatim>\<open>net/http\<close> makes
  of a request is an argument that may change a state of its own, the server's.
\<close>

subsection \<open>Requests\<close>

record http_req =
  hq_method :: string
  hq_url :: string
  hq_headers :: "(string, string) gomap"
  hq_body :: "string option"

record http_resp =
  ht_status :: nat
  ht_body :: string

text \<open>Whether a URL can be parsed, and what becomes of a request within a time: \<open>None\<close> is any failure to get a response.\<close>

record 'srv http_client =
  hc_url_ok :: "string \<Rightarrow> bool"
  hc_send :: "duration \<Rightarrow> http_req \<Rightarrow> 'srv \<Rightarrow> 'srv \<times> http_resp option"

text \<open>
  The result of \<^verbatim>\<open>apiDo\<close>: the error of \<^verbatim>\<open>NewRequest\<close> is ignored and setting a header of the missing request
  panics; a failed request gives a nil response.
\<close>

datatype api_result = ApiPanic | NoResponse | Response http_resp

definition apiDoTT ::
  "'srv http_client \<Rightarrow> string \<Rightarrow> string \<Rightarrow> cli_config \<Rightarrow> string option \<Rightarrow> duration \<Rightarrow> 'srv \<Rightarrow> 'srv \<times> api_result" where
  "apiDoTT hc meth url cfg body timeout srv =
     (if \<not> hc_url_ok hc url then (srv, ApiPanic)
      else
        let hs = put ''X-Orbit-Token'' (cc_token cfg) (put ''X-Orbit-Device'' (cc_device cfg) []);
            hs = (if body = None then hs else put ''Content-Type'' ''application/json'' hs)
        in case hc_send hc timeout \<lparr>hq_method = meth, hq_url = url, hq_headers = hs, hq_body = body\<rparr> srv of
             (srv, None) \<Rightarrow> (srv, NoResponse)
           | (srv, Some r) \<Rightarrow> (srv, Response r))"

definition apiDo :: "'srv http_client \<Rightarrow> string \<Rightarrow> string \<Rightarrow> cli_config \<Rightarrow> string option \<Rightarrow> 'srv \<Rightarrow> 'srv \<times> api_result" where
  "apiDo hc meth url cfg body srv = apiDoTT hc meth url cfg body (30 * second) srv"

definition good_status :: "http_resp \<Rightarrow> bool" where
  "good_status r \<longleftrightarrow> 200 \<le> ht_status r \<and> ht_status r < 300"

definition defaultSelfAPIBase :: string where
  "defaultSelfAPIBase = ''https://47.101.198.197/orbit/api/v1''"

definition selfAPIBase :: "cli_config \<Rightarrow> string" where
  "selfAPIBase cfg = (if cc_api cfg \<noteq> [] then trim_right CHR ''/'' (cc_api cfg) else defaultSelfAPIBase)"

definition selfAPIBaseCli :: "cli_config \<Rightarrow> string" where
  "selfAPIBaseCli cfg =
     (if cc_api cfg \<noteq> [] then trim_right CHR ''/'' (cc_api cfg)
      else
        let host = (case split_host_port (cc_server cfg) of None \<Rightarrow> cc_server cfg | Some (h, _) \<Rightarrow> h);
            host = (if CHR '':'' \<in> set host \<and> \<not> has_prefix host ''['' then ''['' @ host @ '']'' else host)
        in ''https://'' @ host @ '':4431/api/v1'')"

subsection \<open>Decoding without looking at the error\<close>

text \<open>
  \<^verbatim>\<open>json.Unmarshal\<close> whose error is dropped: a text that is no JSON changes nothing, a member of the wrong type is
  left out.
\<close>

fun soft_members :: "'a field list \<Rightarrow> (string \<times> json) list \<Rightarrow> 'a \<Rightarrow> 'a" where
  "soft_members fs [] x = x"
| "soft_members fs ((k, v) # ms) x =
     soft_members fs ms (case map_of fs (map lower_char k) of
        None \<Rightarrow> x
      | Some g \<Rightarrow> (case g v x of None \<Rightarrow> x | Some y \<Rightarrow> y))"

definition soft_unmarshal :: "'a field list \<Rightarrow> string \<Rightarrow> 'a \<Rightarrow> 'a" where
  "soft_unmarshal fs raw x = (case json_parse raw of Some (JObj ms) \<Rightarrow> soft_members fs ms x | _ \<Rightarrow> x)"

definition unmarshal :: "'a field list \<Rightarrow> string \<Rightarrow> 'a \<Rightarrow> 'a option" where
  "unmarshal fs raw x = Option.bind (json_parse raw) (\<lambda>j. dec_struct fs j x)"

definition str_map :: "(string \<times> string) list \<Rightarrow> string" where
  "str_map ms = jprint (json_map (map (\<lambda>(k, v). (k, JStr v)) ms))"

subsection \<open>devices and usage\<close>

text \<open>What a command prints to its standard output.\<close>

datatype cli_print =
    PrintBody string
  | PrintNewToken string
  | PrintRenamed string string
  | PrintSucceeded string
  | PrintPretty json
  | PrintRegistered string string string
  | PrintAutostart string string

datatype post_label = Rename | Revoke | Rotate

definition doDeviceGet ::
  "cli_env \<Rightarrow> 'srv http_client \<Rightarrow> string \<Rightarrow> string \<Rightarrow> cli_world \<Rightarrow> 'srv \<Rightarrow> 'srv \<times> cli_print list \<times> cli_exit" where
  "doDeviceGet ev hc cfgPath url w srv =
     (case load_cfg ev cfgPath w of
        Inl e \<Rightarrow> (srv, [], Exit 1)
      | Inr cfg \<Rightarrow>
          (case apiDo hc ''GET'' url cfg None srv of
             (srv, ApiPanic) \<Rightarrow> (srv, [], Panic)
           | (srv, NoResponse) \<Rightarrow> (srv, [], Panic)
           | (srv, Response r) \<Rightarrow> if good_status r then (srv, [PrintBody (ht_body r)], Exit 0) else (srv, [], Exit 1)))"

definition token_fields :: "(string \<times> string) field list" where
  "token_fields = [(''device_id'', fstr (\<lambda>v x. (v, snd x))), (''device_token'', fstr (\<lambda>v x. (fst x, v)))]"

definition name_fields :: "(string \<times> string) field list" where
  "name_fields = [(''device_id'', fstr (\<lambda>v x. (v, snd x))), (''name'', fstr (\<lambda>v x. (fst x, v)))]"

definition post_print :: "post_label \<Rightarrow> string \<Rightarrow> cli_print" where
  "post_print label raw =
     (case label of
        Rotate \<Rightarrow> PrintNewToken (snd (soft_unmarshal token_fields raw ([], [])))
      | Rename \<Rightarrow> (let (dev, name) = soft_unmarshal name_fields raw ([], []) in PrintRenamed dev name)
      | Revoke \<Rightarrow> PrintSucceeded raw)"

definition doDevicePost ::
  "cli_env \<Rightarrow> 'srv http_client \<Rightarrow> string \<Rightarrow> string \<Rightarrow> (string \<times> string) list \<Rightarrow> post_label \<Rightarrow> cli_world \<Rightarrow> 'srv
     \<Rightarrow> 'srv \<times> cli_print list \<times> cli_exit" where
  "doDevicePost ev hc cfgPath url body label w srv =
     (case load_cfg ev cfgPath w of
        Inl e \<Rightarrow> (srv, [], Exit 1)
      | Inr cfg \<Rightarrow>
          (case apiDo hc ''POST'' url cfg (Some (str_map body)) srv of
             (srv, ApiPanic) \<Rightarrow> (srv, [], Panic)
           | (srv, NoResponse) \<Rightarrow> (srv, [], Panic)
           | (srv, Response r) \<Rightarrow> if good_status r then (srv, [post_print label (ht_body r)], Exit 0) else (srv, [], Exit 1)))"

definition devices_kind :: "string \<Rightarrow> flag_kind option" where
  "devices_kind = map_of [(''config'', StrFlag), (''device'', StrFlag), (''name'', StrFlag)]"

definition devices_action ::
  "cli_env \<Rightarrow> 'srv http_client \<Rightarrow> string \<Rightarrow> flag_values \<Rightarrow> cli_world \<Rightarrow> 'srv \<Rightarrow> 'srv \<times> cli_print list \<times> cli_exit" where
  "devices_action ev hc action vs w srv =
     (let cfgPath = str_flag (deviceDefaultConfig (ce_goos ev)) ''config'' vs;
          devID = str_flag [] ''device'' vs; name = str_flag [] ''name'' vs
      in case load_cfg ev cfgPath w of
           Inl e \<Rightarrow> (srv, [], Exit 1)
         | Inr cfg \<Rightarrow>
             let base = selfAPIBase cfg
             in if action = ''list'' then doDeviceGet ev hc cfgPath (base @ ''/devices'') w srv
                else if action = ''usage'' then doDeviceGet ev hc cfgPath (base @ ''/usage'') w srv
                else if action = ''rename'' then
                  doDevicePost ev hc cfgPath (base @ ''/devices/rename'') [(''device_id'', devID), (''name'', name)] Rename w srv
                else if action = ''revoke'' then
                  (if devID = [] then (srv, [], Exit 2)
                   else doDevicePost ev hc cfgPath (base @ ''/devices/revoke'') [(''device_id'', devID)] Revoke w srv)
                else if action = ''token'' then
                  doDevicePost ev hc cfgPath (base @ ''/devices/rotate-token'') [(''device_id'', devID)] Rotate w srv
                else (srv, [], Exit 2))"

definition runDevices ::
  "cli_env \<Rightarrow> 'srv http_client \<Rightarrow> string list \<Rightarrow> cli_world \<Rightarrow> 'srv \<Rightarrow> 'srv \<times> cli_print list \<times> cli_exit" where
  "runDevices ev hc args w srv =
     (let (action, args) = (if args \<noteq> [] \<and> \<not> has_prefix (hd args) ''-'' then (hd args, tl args) else ([], args))
      in case parse_flags devices_kind args [] of
           Inl e \<Rightarrow> (srv, [], Exit (flag_status e))
         | Inr (vs, _) \<Rightarrow> devices_action ev hc action vs w srv)"

definition usage_kind :: "string \<Rightarrow> flag_kind option" where
  "usage_kind = map_of [(''config'', StrFlag)]"

text \<open>A body that is a JSON object (or \<^verbatim>\<open>null\<close>) is printed indented, any other as it is.\<close>

definition runUsage ::
  "cli_env \<Rightarrow> 'srv http_client \<Rightarrow> string list \<Rightarrow> cli_world \<Rightarrow> 'srv \<Rightarrow> 'srv \<times> cli_print list \<times> cli_exit" where
  "runUsage ev hc args w srv =
     (case parse_flags usage_kind args [] of
        Inl e \<Rightarrow> (srv, [], Exit (flag_status e))
      | Inr (vs, _) \<Rightarrow>
          (case load_cfg ev (str_flag (deviceDefaultConfig (ce_goos ev)) ''config'' vs) w of
             Inl e \<Rightarrow> (srv, [], Exit 1)
           | Inr cfg \<Rightarrow>
               (case apiDo hc ''GET'' (selfAPIBaseCli cfg @ ''/usage'') cfg None srv of
                  (srv, ApiPanic) \<Rightarrow> (srv, [], Panic)
                | (srv, NoResponse) \<Rightarrow> (srv, [], Exit 1)
                | (srv, Response r) \<Rightarrow>
                    if \<not> good_status r then (srv, [], Exit 1)
                    else (srv, [case json_parse (ht_body r) of
                        Some (JObj ms) \<Rightarrow> PrintPretty (JObj ms) | Some JNull \<Rightarrow> PrintPretty JNull | _ \<Rightarrow> PrintBody (ht_body r)], Exit 0))))"

subsection \<open>The devices that status shows\<close>

record device_info =
  dv_id :: string
  dv_name :: string
  dv_egress :: bool
  dv_online :: bool

definition info_fields :: "device_info field list" where
  "info_fields = [(''device_id'', fstr (\<lambda>v x. x\<lparr>dv_id := v\<rparr>)), (''name'', fstr (\<lambda>v x. x\<lparr>dv_name := v\<rparr>)),
     (''egress_enabled'', fbool (\<lambda>v x. x\<lparr>dv_egress := v\<rparr>)), (''online'', fbool (\<lambda>v x. x\<lparr>dv_online := v\<rparr>))]"

text \<open>The outer \<open>None\<close> is a panic, the inner one the nil slice of a failure.\<close>

definition fetchDevices :: "'srv http_client \<Rightarrow> cli_config \<Rightarrow> duration \<Rightarrow> 'srv \<Rightarrow> 'srv \<times> device_info list option option" where
  "fetchDevices hc cfg timeout srv =
     (case apiDoTT hc ''GET'' (selfAPIBaseCli cfg @ ''/devices'') cfg None timeout srv of
        (srv, ApiPanic) \<Rightarrow> (srv, None)
      | (srv, NoResponse) \<Rightarrow> (srv, Some None)
      | (srv, Response r) \<Rightarrow>
          (srv, Some (if \<not> good_status r then None
             else case json_parse (ht_body r) of
                 None \<Rightarrow> None
               | Some j \<Rightarrow> flist info_fields \<lparr>dv_id = [], dv_name = [], dv_egress = False, dv_online = False\<rparr> (\<lambda>ds _. ds) j [])))"

subsection \<open>register\<close>

record reg_resp =
  rp_ok :: bool
  rp_account :: string
  rp_account_name :: string
  rp_device :: string
  rp_token :: string
  rp_tier :: string
  rp_error :: string

definition resp_fields :: "reg_resp field list" where
  "resp_fields = [(''ok'', fbool (\<lambda>v x. x\<lparr>rp_ok := v\<rparr>)), (''account_id'', fstr (\<lambda>v x. x\<lparr>rp_account := v\<rparr>)),
     (''account_name'', fstr (\<lambda>v x. x\<lparr>rp_account_name := v\<rparr>)), (''device_id'', fstr (\<lambda>v x. x\<lparr>rp_device := v\<rparr>)),
     (''device_token'', fstr (\<lambda>v x. x\<lparr>rp_token := v\<rparr>)), (''tier'', fstr (\<lambda>v x. x\<lparr>rp_tier := v\<rparr>)),
     (''error'', fstr (\<lambda>v x. x\<lparr>rp_error := v\<rparr>))]"

definition no_resp :: reg_resp where
  "no_resp = \<lparr>rp_ok = False, rp_account = [], rp_account_name = [], rp_device = [], rp_token = [], rp_tier = [], rp_error = []\<rparr>"

text \<open>What a direct write of a file comes to: it is not opened, or only a beginning gets into the emptied file.\<close>

datatype write_io = Written | NotOpened | Partly nat

definition write_file :: "write_io \<Rightarrow> string \<Rightarrow> string \<Rightarrow> files \<Rightarrow> files \<times> bool" where
  "write_file io path b fs =
     (case io of Written \<Rightarrow> (fs(path \<mapsto> b), True) | NotOpened \<Rightarrow> (fs, False) | Partly k \<Rightarrow> (fs(path \<mapsto> take k b), False))"

text \<open>The machine a registration runs on: the environment variables of the user's name, the host's name, and the file system.\<close>

record reg_env =
  re_user :: string
  re_username :: string
  re_hostname :: string
  re_write :: "string \<Rightarrow> write_io"

definition currentUser :: "string \<Rightarrow> reg_env \<Rightarrow> string" where
  "currentUser goos re =
     (if goos = ''windows'' \<and> re_username re \<noteq> [] then re_username re
      else if re_user re \<noteq> [] then re_user re else ''user'')"

definition win_dir :: string where
  "win_dir = ''C:'' @ [CHR 0x5C] @ ''ProgramData'' @ [CHR 0x5C] @ ''OrbitClient''"

definition defaultCACertPath :: "string \<Rightarrow> string" where
  "defaultCACertPath goos =
     (if goos = ''windows'' then win_dir @ [CHR 0x5C] @ ''orbitd-cert.pem'' else ''/opt/orbit-client/orbitd-cert.pem'')"

definition defaultTunName :: "string \<Rightarrow> string" where
  "defaultTunName goos = (if goos = ''windows'' then ''Orbit'' else ''orbit0'')"

definition defaultLogPath :: "string \<Rightarrow> string" where
  "defaultLogPath goos = (if goos = ''windows'' then win_dir @ [CHR 0x5C] @ ''orbit-cli.log'' else ''/var/log/orbit-cli.log'')"

text \<open>\<^verbatim>\<open>Get\<close> and \<^verbatim>\<open>Post\<close> of an HTTP client report a URL that cannot be parsed as an error.\<close>

definition http_call :: "'srv http_client \<Rightarrow> http_req \<Rightarrow> 'srv \<Rightarrow> 'srv \<times> http_resp option" where
  "http_call hc rq srv = (if hc_url_ok hc (hq_url rq) then hc_send hc (30 * second) rq srv else (srv, None))"

text \<open>The server's CA certificate is fetched and stored beside the configuration; the result is the path to use.\<close>

definition fetch_ca :: "string \<Rightarrow> reg_env \<Rightarrow> 'srv http_client \<Rightarrow> string \<Rightarrow> string \<Rightarrow> cli_world \<Rightarrow> 'srv \<Rightarrow> cli_world \<times> 'srv \<times> string" where
  "fetch_ca goos re hc webBase out w srv =
     (let pem = path_join (path_dir out) ''orbitd-cert.pem''
      in case http_call hc \<lparr>hq_method = ''GET'', hq_url = webBase @ ''/ca.pem'', hq_headers = [], hq_body = None\<rparr> srv of
           (srv, None) \<Rightarrow> (w, srv, defaultCACertPath goos)
         | (srv, Some r) \<Rightarrow>
             let body = take (2 ^ 20) (ht_body r)
             in if body = [] then (w, srv, defaultCACertPath goos)
                else let (fs, ok) = write_file (re_write re pem) pem body (cw_files w)
                     in (w\<lparr>cw_files := fs\<rparr>, srv, if ok then pem else defaultCACertPath goos))"

definition reg_config :: "string \<Rightarrow> string \<Rightarrow> string \<Rightarrow> string \<Rightarrow> string \<Rightarrow> reg_resp \<Rightarrow> cli_config" where
  "reg_config goos server caPath webBase dev r =
     \<lparr>cc_server = server, cc_ca = caPath, cc_account = rp_account_name r, cc_device = rp_device r, cc_token = rp_token r,
      cc_hostname = dev, cc_tun = defaultTunName goos, cc_log_file = defaultLogPath goos, cc_log_max = 4194304, cc_log_keep = 2,
      cc_mode = ModeSimple, cc_egress = False, cc_exit = [], cc_api = webBase @ ''/api/v1'', cc_rules = [], cc_keep_local = []\<rparr>"

text \<open>The flags of \<^verbatim>\<open>register\<close> with their defaults.\<close>

record reg_flags =
  rf_invite :: string
  rf_account :: string
  rf_device :: string
  rf_out :: string
  rf_server :: string
  rf_web :: string
  rf_endpoint :: string

definition reg_kind :: "string \<Rightarrow> flag_kind option" where
  "reg_kind = map_of (map (\<lambda>n. (n, StrFlag)) [''invite'', ''account'', ''device'', ''out'', ''server'', ''web'', ''endpoint''])"

definition reg_flags_of :: "flag_values \<Rightarrow> reg_flags" where
  "reg_flags_of vs = \<lparr>rf_invite = str_flag [] ''invite'' vs, rf_account = str_flag [] ''account'' vs, rf_device = str_flag [] ''device'' vs,
     rf_out = str_flag ''orbit-cli.yaml'' ''out'' vs, rf_server = str_flag ''47.101.198.197:28443'' ''server'' vs,
     rf_web = str_flag [] ''web'' vs, rf_endpoint = str_flag [] ''endpoint'' vs\<rparr>"

definition web_base :: "string \<Rightarrow> string" where
  "web_base web =
     (let b = trim_right CHR ''/'' web
      in if b = [] then ''https://demo.orbit-net.local:4431'' else if \<not> has_prefix b ''http'' then ''https://'' @ b else b)"

definition reg_account :: "string \<Rightarrow> reg_env \<Rightarrow> reg_flags \<Rightarrow> string" where
  "reg_account goos re fl = (if rf_account fl = [] then ''mm-'' @ currentUser goos re else rf_account fl)"

definition reg_device :: "reg_env \<Rightarrow> reg_flags \<Rightarrow> string" where
  "reg_device re fl = (if rf_device fl = [] then re_hostname re else rf_device fl)"

definition reg_request :: "string \<Rightarrow> reg_env \<Rightarrow> reg_flags \<Rightarrow> http_req" where
  "reg_request goos re fl = \<lparr>hq_method = ''POST'',
     hq_url = (if rf_endpoint fl = [] then web_base (rf_web fl) @ ''/api/v1/register'' else rf_endpoint fl),
     hq_headers = [(''Content-Type'', ''application/json'')],
     hq_body = Some (str_map [(''invite_code'', rf_invite fl), (''account_name'', reg_account goos re fl), (''device_name'', reg_device re fl)])\<rparr>"

text \<open>What is done with the answer of the server.\<close>

definition register_reply ::
  "cli_env \<Rightarrow> reg_env \<Rightarrow> reg_flags \<Rightarrow> string \<Rightarrow> http_resp \<Rightarrow> cli_world \<Rightarrow> cli_world \<times> cli_print list \<times> cli_exit" where
  "register_reply ev re fl caPath resp w =
     (case unmarshal resp_fields (ht_body resp) no_resp of
        None \<Rightarrow> (w, [], Exit 1)
      | Some r \<Rightarrow>
          if \<not> rp_ok r \<or> rp_token r = [] then (w, [], Exit 1)
          else
            (case ce_marshal ev (reg_config (ce_goos ev) (rf_server fl) caPath (web_base (rf_web fl)) (reg_device re fl) r) of
               None \<Rightarrow> (w, [], Exit 1)
             | Some ys \<Rightarrow>
                 let (fs, ok) = write_file (re_write re (rf_out fl)) (rf_out fl) ys (cw_files w); w = w\<lparr>cw_files := fs\<rparr>
                 in if \<not> ok then (w, [], Exit 1)
                    else (w, [PrintRegistered (rp_account_name r) (rp_device r) (rp_token r)], Exit 0)))"

definition register ::
  "cli_env \<Rightarrow> reg_env \<Rightarrow> 'srv http_client \<Rightarrow> reg_flags \<Rightarrow> cli_world \<Rightarrow> 'srv \<Rightarrow> cli_world \<times> 'srv \<times> cli_print list \<times> cli_exit" where
  "register ev re hc fl w srv =
     (if rf_invite fl = [] then (w, srv, [], Exit 2)
      else
        let (w, srv, caPath) = fetch_ca (ce_goos ev) re hc (web_base (rf_web fl)) (rf_out fl) w srv
        in case http_call hc (reg_request (ce_goos ev) re fl) srv of
             (srv, None) \<Rightarrow> (w, srv, [], Exit 1)
           | (srv, Some resp) \<Rightarrow> (case register_reply ev re fl caPath resp w of (w, out, e) \<Rightarrow> (w, srv, out, e)))"

definition runRegister ::
  "cli_env \<Rightarrow> reg_env \<Rightarrow> 'srv http_client \<Rightarrow> string list \<Rightarrow> cli_world \<Rightarrow> 'srv \<Rightarrow> cli_world \<times> 'srv \<times> cli_print list \<times> cli_exit" where
  "runRegister ev re hc args w srv =
     (case parse_flags reg_kind args [] of
        Inl e \<Rightarrow> (w, srv, [], Exit (flag_status e))
      | Inr (vs, _) \<Rightarrow> register ev re hc (reg_flags_of vs) w srv)"

end
