(* ===== verification/Cli_Together.thy ===== *)
theory Cli_Together
  imports Cli_Api Api_Correct Client
begin

text \<open>
  The commands of the client program against the server: requests reach the public HTTPS entry of
  \<^verbatim>\<open>internal/server\<close>, and what the command leaves in its configuration file and prints is what the server did.
\<close>

subsection \<open>The connection between the two\<close>

text \<open>
  The server as the HTTP client of a command sees it: URLs below \<open>base\<close> reach the public entry as requests from the
  address \<open>from\<close>; others are not reachable. One command runs within one reading of the clock.
\<close>

definition to_request :: "string \<Rightarrow> string \<Rightarrow> http_req \<Rightarrow> request" where
  "to_request base from hq = \<lparr>rq_method = hq_method hq, rq_path = drop (length base) (hq_url hq), rq_query = [],
     rq_headers = hq_headers hq, rq_body = (case hq_body hq of None \<Rightarrow> [] | Some b \<Rightarrow> b), rq_remote = from\<rparr>"

definition serve_at :: "api_env \<Rightarrow> string \<Rightarrow> string \<Rightarrow> server http_client" where
  "serve_at ev base from = \<lparr>hc_url_ok = (\<lambda>u. True), hc_send = (\<lambda>t hq s.
     if has_prefix (hq_url hq) base then
       (case publicMux ev (to_request base from hq) s of (s, rs) \<Rightarrow> (s, Some \<lparr>ht_status = rs_status rs, ht_body = rs_body rs\<rparr>))
     else (s, None))\<rparr>"

lemma prefix_append [simp]: "has_prefix (a @ b) a"
  by (simp add: has_prefix_def)

lemma serve_call:
  "http_call (serve_at ev base from) \<lparr>hq_method = m, hq_url = base @ p, hq_headers = hs, hq_body = b\<rparr> s =
     (case publicMux ev \<lparr>rq_method = m, rq_path = p, rq_query = [], rq_headers = hs, rq_body = (case b of None \<Rightarrow> [] | Some b \<Rightarrow> b),
        rq_remote = from\<rparr> s of (s, rs) \<Rightarrow> (s, Some \<lparr>ht_status = rs_status rs, ht_body = rs_body rs\<rparr>))"
  by (simp add: http_call_def serve_at_def to_request_def)

lemma serve_api:
  "apiDoTT (serve_at ev base from) m (base @ p) cfg b t s =
     (case publicMux ev \<lparr>rq_method = m, rq_path = p, rq_query = [],
        rq_headers = (let hs = put ''X-Orbit-Token'' (cc_token cfg) (put ''X-Orbit-Device'' (cc_device cfg) [])
          in if b = None then hs else put ''Content-Type'' ''application/json'' hs),
        rq_body = (case b of None \<Rightarrow> [] | Some b \<Rightarrow> b), rq_remote = from\<rparr> s of
        (s, rs) \<Rightarrow> (s, Response \<lparr>ht_status = rs_status rs, ht_body = rs_body rs\<rparr>))"
  by (simp add: apiDoTT_def serve_at_def to_request_def Let_def split: prod.split)

subsection \<open>Bodies\<close>

lemma skip_nl: "skip_ws nl = []"
  by (simp add: nl_def skip_ws_def is_ws_def)

lemma stops_nl: "stops nl"
  by (simp add: nl_def stops_def is_num_char_def is_digit_def digit_val_def)

lemma parse_answer: "plain v \<Longrightarrow> json_parse (rs_body (writeJSON v)) = Some v"
  using parsesD [OF parses_plain _ stops_nl, of v "2 * length (jprint v @ nl) + 2"] by (simp add: json_parse_def writeJSON_def skip_nl)

lemma parse_body: "plain v \<Longrightarrow> rq_body rq = jprint v \<Longrightarrow> decode_body fs x rq = dec_struct fs v x"
  using parsesD [OF parses_plain, of v "2 * length (jprint v) + 2" "[]"] by (simp add: decode_body_def)

lemma register_body_decodes:
  "rq_body rq = str_map [(''invite_code'', code), (''account_name'', name), (''device_name'', dev)] \<Longrightarrow>
     decode_body reg_fields \<lparr>rr_code = [], rr_account = [], rr_device = []\<rparr> rq = Some \<lparr>rr_code = code, rr_account = name, rr_device = dev\<rparr>"
  by (subst parse_body [of "json_map (map (\<lambda>(k, v). (k, JStr v)) [(''invite_code'', code), (''account_name'', name), (''device_name'', dev)])"])
    (simp_all add: str_map_def json_map_def, simp_all add: dec_struct_def reg_fields_def fstr_def lower_char_def)

lemma mux_routes:
  "rq_path rq = ''/ca.pem'' \<Longrightarrow> publicMux ev rq s = handleCAPEM ev rq s"
  "rq_path rq = ''/api/v1/register'' \<Longrightarrow> publicMux ev rq s = handleRegister ev rq s"
  "rq_path rq = ''/api/v1/devices'' \<Longrightarrow> publicMux ev rq s = handleDevices ev rq s"
  "rq_path rq = ''/api/v1/devices/rotate-token'' \<Longrightarrow> publicMux ev rq s = handleDeviceRotateToken ev rq s"
  by (simp_all add: publicMux_def serve_mux_def public_routes_def)

subsection \<open>register\<close>

lemma fetch_ca_server:
  assumes "fetch_ca goos re (serve_at ev base from) base out w s = (w', s', ca)"
  shows "store_of s' = store_of s" "sv_invites s' = sv_invites s" "sv_cfg s' = sv_cfg s" "sv_lim s' = sv_lim s"
  using assms by (auto simp: fetch_ca_def serve_call mux_routes(1) handleCAPEM_def caCache_def Let_def split: prod.splits if_splits option.splits)

text \<open>An answer that is not 200 is no JSON, if the texts of the operating system's errors are none.\<close>

definition no_start :: "char \<Rightarrow> bool" where
  "no_start c \<longleftrightarrow> \<not> is_num_char c \<and> \<not> is_ws c \<and> c \<notin> {CHR 0x22, CHR ''['', CHR ''{'', CHR ''n'', CHR ''t'', CHR ''f''}"

lemma no_start [simp]: "no_start CHR ''b''" "no_start CHR ''i''" "no_start CHR ''m''" "no_start CHR ''a''" "no_start CHR ''d''" "no_start CHR ''o''"
  by (simp_all add: no_start_def is_num_char_def is_ws_def is_digit_def digit_val_def)

lemma no_json: "no_start c \<Longrightarrow> json_parse (c # s) = None"
proof -
  assume c: "no_start c"
  then have "parse_val (Suc f) (c # s) = None" for f by (simp add: no_start_def skip_ws_def parse_num_def)
  then show "json_parse (c # s) = None" by (simp add: json_parse_def del: parse_val.simps)
qed

lemma no_json_text: "json_parse (''too many attempts'' @ nl) = None" "json_parse (''not found'' @ nl) = None"
  by (simp_all add: json_parse_def skip_ws_def is_ws_def expect_def)

lemma store_error_no_json:
  assumes "json_parse (ev_os ev @ nl) = None"
  shows "json_parse (rs_body (fail 500 (store_error_text (ev_os ev) e))) = None"
proof (cases e)
  case ErrDeviceLimit
  then show ?thesis by (simp add: fail_def http_error_def store_error_text_def no_json del: show_nat.simps)
qed (use assms no_json_text(2) in \<open>simp_all add: fail_def http_error_def store_error_text_def no_json\<close>)

lemma register_refused:
  assumes "json_parse (ev_os ev @ nl) = None" and "handleRegister ev rq s = (s', rs)" and "rs_status rs \<noteq> 200"
  shows "json_parse (rs_body rs) = None"
proof -
  let ?zero = "\<lparr>rr_code = [], rr_account = [], rr_device = []\<rparr>"
  note too = no_json_text(1) [simplified]
  note refused = http_error_def not_allowed_def no_json
  obtain l ok where l: "Allow (ev_now ev) (''register:'' @ remoteIP rq) 5 minute (sv_lim s) = (l, ok)" by fastforce
  note run = assms(2) [symmetric, unfolded handleRegister_def l Let_def prod.case]
  show ?thesis
  proof (cases "\<exists>req. rq_method rq = ''POST'' \<and> ok \<and> decode_body reg_fields ?zero rq = Some req \<and> rr_code req \<noteq> []
      \<and> rr_account req \<noteq> [] \<and> length (rr_account req) \<le> 64")
    case False
    then show ?thesis
      using run by (cases "rq_method rq = ''POST''"; cases ok; cases "decode_body reg_fields ?zero rq") (auto simp: refused too split: if_splits)
  next
    case True
    then obtain req where q: "rq_method rq = ''POST''" "ok" "decode_body reg_fields ?zero rq = Some req" "rr_code req \<noteq> []"
      "rr_account req \<noteq> []" "\<not> length (rr_account req) > 64" by (auto simp: not_less)
    obtain st r where c: "CreateAccountWithTier (ae_gen ev) (ev_io ev) (ae_entropy ev) (ev_now ev) (rr_account req)
        (defaultTier s) (store_of s) = (st, r)" by fastforce
    show ?thesis
    proof (cases r)
      case (Inl e)
      then show ?thesis using run store_error_no_json [OF assms(1)] by (simp add: q c)
    next
      case (Inr adt)
      obtain acct dev token where adt: "adt = (acct, dev, token)" by (metis prod.collapse)
      obtain iv err where i: "Consume (ae_io_invites ev) (rr_code req) (ac_id acct) (sv_invites s) = (iv, err)"
        by fastforce
      show ?thesis using run assms(3) by (cases err) (simp_all add: q c Inr adt i refused writeJSON_def)
    qed
  qed
qed

lemma register_answer_decodes:
  "unmarshal resp_fields (rs_body (writeJSON (json_map [(''ok'', JBool True), (''account_id'', JStr i), (''account_name'', JStr n),
     (''tier'', JStr t), (''device_id'', JStr d), (''device_token'', JStr k)]))) no_resp =
   Some \<lparr>rp_ok = True, rp_account = i, rp_account_name = n, rp_device = d, rp_token = k, rp_tier = t, rp_error = []\<rparr>"
  by (simp add: unmarshal_def parse_answer json_map_def) (simp add: dec_struct_def resp_fields_def fstr_def fbool_def lower_char_def no_resp_def)

lemma register_steps:
  assumes "register cev re hc fl w s = (w', s', out, Exit 0)"
  obtains w1 s1 ca resp where "fetch_ca (ce_goos cev) re hc (web_base (rf_web fl)) (rf_out fl) w s = (w1, s1, ca)"
    and "http_call hc (reg_request (ce_goos cev) re fl) s1 = (s', Some resp)"
    and "register_reply cev re fl ca resp w1 = (w', out, Exit 0)"
  using assms by (auto simp: register_def split: if_splits prod.splits option.splits)

lemma register_reply_ok:
  assumes "register_reply cev re fl ca resp w1 = (w', out, Exit 0)"
  obtains r ys where "unmarshal resp_fields (ht_body resp) no_resp = Some r" and "rp_token r \<noteq> []"
    and "ce_marshal cev (reg_config (ce_goos cev) (rf_server fl) ca (web_base (rf_web fl)) (reg_device re fl) r) = Some ys"
    and "w' = w1\<lparr>cw_files := (cw_files w1)(rf_out fl \<mapsto> ys)\<rparr>"
    and "out = [PrintRegistered (rp_account_name r) (rp_device r) (rp_token r)]"
  using assms by (auto simp: register_reply_def write_file_def split: option.splits if_splits write_io.splits)

lemma reg_config_loads:
  assumes "yaml_ok cev" and "ce_marshal cev (reg_config goos server ca base dev r) = Some ys" and "cw_files w path = Some ys" and "server \<noteq> []"
  shows "load_cfg cev path w = Inr (reg_config goos server ca base dev r)"
  using assms by (simp add: load_cfg_def LoadConfig_def yaml_ok_def Validate_def) (simp add: reg_config_def ModeSimple_def ModeGlobal_def)

text \<open>
  C8. Registration end to end. If \<^verbatim>\<open>register\<close> succeeds against this server, the configuration it leaves loads, and the hello
  the client will send with it authenticates: to a new account of the asked name and the default tier, whose device is
  no exit; the invite code was in the store, unused, and is now bound to that account. Hypotheses: the YAML library reads what it
  writes, bcrypt is sound, random ids are new, names are valid UTF-8, and error texts of the system are no JSON.
\<close>

theorem register_end_to_end:
  assumes "register cev re (serve_at ev (web_base (rf_web fl)) from) fl w s = (w', s', out, Exit 0)"
    and "rf_endpoint fl = []" and "rf_server fl \<noteq> []" and "list_all text_ok [rf_invite fl, reg_account (ce_goos cev) re fl, reg_device re fl]"
    and "yaml_ok cev" and "store_ok (store_of s)" and "fresh_ids ev (store_of s)" and "bcrypt_ok (ae_gen ev) (ev_cmp ev)"
    and "\<forall>b. en_token (ae_entropy ev) = Some b \<longrightarrow> length b = 32" and "json_parse (ev_os ev @ nl) = None"
  shows "\<exists>cfg dev acct iv. load_cfg cev (rf_out fl) w' = Inr cfg
    \<and> authenticate (ev_cmp ev) (ev_os ev) (the (cm_hello (client_hello os cfg))) (store_of s') = Inr (dev, acct)
    \<and> ac_name acct = reg_account (ce_goos cev) re fl \<and> ac_tier acct = defaultTier s \<and> \<not> de_egress dev
    \<and> map_of (sto_accounts (store_of s)) (ac_id acct) = None
    \<and> map_of (is_codes (sv_invites s)) (rf_invite fl) = Some iv \<and> iv_account iv = []
    \<and> map_of (is_codes (sv_invites s')) (rf_invite fl) = Some (iv\<lparr>iv_account := ac_id acct\<rparr>)
    \<and> cc_mode cfg = ModeSimple \<and> cc_server cfg = rf_server fl \<and> out = [PrintRegistered (ac_name acct) (de_id dev) (cc_token cfg)]"
proof -
  obtain w1 s1 ca resp where ca: "fetch_ca (ce_goos cev) re (serve_at ev (web_base (rf_web fl)) from) (web_base (rf_web fl)) (rf_out fl) w s = (w1, s1, ca)"
    and http: "http_call (serve_at ev (web_base (rf_web fl)) from) (reg_request (ce_goos cev) re fl) s1 = (s', Some resp)"
    and reply: "register_reply cev re fl ca resp w1 = (w', out, Exit 0)"
    using register_steps [OF assms(1)] by blast
  note s1 = fetch_ca_server [OF ca]
  define rq where "rq = to_request (web_base (rf_web fl)) from (reg_request (ce_goos cev) re fl)"
  have rq: "rq_path rq = ''/api/v1/register''" "rq_body rq = str_map [(''invite_code'', rf_invite fl),
      (''account_name'', reg_account (ce_goos cev) re fl), (''device_name'', reg_device re fl)]"
    by (simp_all add: rq_def to_request_def reg_request_def assms(2))
  obtain rs where run: "handleRegister ev rq s1 = (s', rs)" and resp: "resp = \<lparr>ht_status = rs_status rs, ht_body = rs_body rs\<rparr>"
    using http rq(1) by (auto simp: http_call_def serve_at_def reg_request_def assms(2) mux_routes(2) rq_def split: prod.splits)
  obtain r ys where r: "unmarshal resp_fields (rs_body rs) no_resp = Some r" "rp_token r \<noteq> []"
    and ys: "ce_marshal cev (reg_config (ce_goos cev) (rf_server fl) ca (web_base (rf_web fl)) (reg_device re fl) r) = Some ys"
    and w': "w' = w1\<lparr>cw_files := (cw_files w1)(rf_out fl \<mapsto> ys)\<rparr>"
    and out: "out = [PrintRegistered (rp_account_name r) (rp_device r) (rp_token r)]"
    using register_reply_ok [OF reply] by (metis resp http_resp.select_convs(2))
  have "rs_status rs = 200"
    using register_refused [OF assms(10) run] r(1) by (cases "rs_status rs = 200") (simp_all add: unmarshal_def)
  then show ?thesis
  proof (cases rule: register_cases [of ev rq s1])
    case (created l name st acct dev token code)
    have rs: "rs = snd (handleRegister ev rq s1)" "s' = fst (handleRegister ev rq s1)" by (simp_all add: run)
    have code: "code = rf_invite fl" "name = reg_account (ce_goos cev) re fl"
      using created(6) register_body_decodes [OF rq(2)] by auto
    note res = Create_result [OF created(1)]
    have tok: "r = \<lparr>rp_ok = True, rp_account = ac_id acct, rp_account_name = ac_name acct, rp_device = de_id dev, rp_token = token,
        rp_tier = ac_tier acct, rp_error = []\<rparr>"
      using r(1) by (simp add: rs created(5) register_answer_decodes)
    have "length token \<le> 72" using res(3) assms(9) by (auto simp: NewToken_def)
    then have v: "VerifyDevice (ev_cmp ev) (de_id dev) token (store_of s') = Inr (dev, acct)"
      using created_verifies [OF created(1) assms(8)] by (simp add: rs(2) created(4))
    obtain c where c: "map_of (is_codes (sv_invites s1)) code = Some c" "iv_account c = []"
        "map_of (is_codes (sv_invites s')) code = Some (c\<lparr>iv_account := ac_id acct\<rparr>)"
      using Consume_ok [OF created(3)] by (auto simp: rs(2) created(4))
    let ?cfg = "reg_config (ce_goos cev) (rf_server fl) ca (web_base (rf_web fl)) (reg_device re fl) r"
    have "load_cfg cev (rf_out fl) w' = Inr ?cfg"
      by (rule reg_config_loads [OF assms(5) ys _ assms(3)]) (simp add: w')
    moreover have "authenticate (ev_cmp ev) (ev_os ev) (the (cm_hello (client_hello os ?cfg))) (store_of s') = Inr (dev, acct)"
      using v r(2) res(4) by (auto simp: authenticate_def client_hello_def ctrl_def reg_config_def tok new_device_def)
    moreover have "map_of (sto_accounts (store_of s)) (ac_id acct) = None" "ac_tier acct = defaultTier s" "\<not> de_egress dev"
      using assms(7) res(2,4) s1 by (auto simp: fresh_ids_def new_device_def defaultTier_def)
    ultimately show ?thesis
      using c s1(2) res(2) out by (intro exI [of _ ?cfg] exI [of _ dev] exI [of _ acct] exI [of _ c])
        (simp add: code reg_config_def tok)
  qed (use run in auto)
qed

subsection \<open>devices token\<close>

lemma post_body_decodes: "rq_body rq = str_map [(''device_id'', i)] \<Longrightarrow> decode_body device_fields [] rq = Some i"
  by (subst parse_body [of "json_map (map (\<lambda>(k, v). (k, JStr v)) [(''device_id'', i)])"])
    (simp_all add: str_map_def json_map_def, simp_all add: dec_struct_def device_fields_def fstr_def lower_char_def)

lemma token_answer_decodes:
  "snd (soft_unmarshal token_fields (rs_body (writeJSON (json_map [(''ok'', JBool True), (''device_id'', JStr i), (''device_token'', JStr t)]))) ([], [])) = t"
  by (simp add: soft_unmarshal_def parse_answer json_map_def) (simp add: token_fields_def fstr_def lower_char_def)

lemma handleRotate_ok:
  assumes "handleDeviceRotateToken ev rq s = (s', rs)" and "rs_status rs < 300"
  obtains i target st token where "decode_body device_fields [] rq = Some i" and "targetDevice ev rq (Some i) s = Inr target"
    and "RotateToken (ae_gen ev) (ev_io ev) (en_token (ae_entropy ev)) (de_id target) (store_of s) = (st, Inr token)"
    and "s' = set_store st s"
    and "rs = writeJSON (json_map [(''ok'', JBool True), (''device_id'', JStr (de_id target)), (''device_token'', JStr token)])"
proof -
  note refused = http_error_def not_allowed_def fail_def auth_failed_def
  note run = assms(1) [symmetric, unfolded handleDeviceRotateToken_def Let_def]
  have post: "rq_method rq = ''POST''" using run assms(2) by (cases "rq_method rq = ''POST''") (simp_all add: refused)
  obtain i where i: "decode_body device_fields [] rq = Some i"
    using run assms(2) by (cases "decode_body device_fields [] rq") (simp_all add: refused post)
  obtain target where t: "targetDevice ev rq (Some i) s = Inr target"
    using run assms(2) by (cases "targetDevice ev rq (Some i) s") (simp_all add: refused post i)
  obtain st r where r: "RotateToken (ae_gen ev) (ev_io ev) (en_token (ae_entropy ev)) (de_id target) (store_of s) = (st, r)" by fastforce
  obtain token where tok: "r = Inr token" using run assms(2) by (cases r) (simp_all add: refused post i t r)
  show thesis using run by (intro that [OF i t r [unfolded tok]]) (simp_all add: post i t r tok)
qed

lemma targetDevice_ok:
  assumes "targetDevice ev rq (Some i) s = Inr target" and "store_ok (store_of s)"
  obtains acct where "get_device (de_id target) (store_of s) = Inr target" and "get_account (de_account target) (store_of s) = Inr acct"
    and "de_id target = (if i = [] then get_header ''X-Orbit-Device'' rq else i)"
proof -
  obtain dev acct where auth: "VerifyDevice (ev_cmp ev) (get_header ''X-Orbit-Device'' rq) (get_header ''X-Orbit-Token'' rq) (store_of s) = Inr (dev, acct)"
    using assms(1) by (auto simp: targetDevice_def deviceAuth_def split: sum.splits)
  have k: "get_device j (store_of s) = Inr d \<Longrightarrow> de_id d = j \<and> get_device (de_id d) (store_of s) = Inr d" for j d
    using assms(2) by (auto simp: store_ok_def get_device_def dest: keyed_Some split: option.splits)
  have a: "get_account j (store_of s) = Inr b \<Longrightarrow> ac_id b = j" for j b
    using assms(2) by (auto simp: store_ok_def get_account_def dest: keyed_Some split: option.splits)
  have own: "get_device (get_header ''X-Orbit-Device'' rq) (store_of s) = Inr dev" "get_account (de_account dev) (store_of s) = Inr acct"
    using auth by (auto simp: VerifyDevice_def split: sum.splits if_splits)
  show thesis
  proof (cases "i = []")
    case True
    then have "target = dev" using assms(1) auth by (simp add: targetDevice_def deviceAuth_def)
    then show thesis using that [of acct] own k [OF own(1)] True by simp
  next
    case False
    then have t: "get_device i (store_of s) = Inr target" "de_account target = ac_id acct"
      using assms(1) auth by (auto simp: targetDevice_def deviceAuth_def split: sum.splits if_splits)
    then show thesis using that [of acct] k [OF t(1)] own(2) a [OF own(2)] False by simp
  qed
qed

lemma trim_api [simp]: "trim_right CHR ''/'' (base @ ''/api/v1'') = base @ ''/api/v1''"
  by (simp add: trim_right_def)

lemma token_steps:
  assumes "runDevices cev hc (''token'' # args) w s = (s', out, Exit 0)" and "parse_flags devices_kind args [] = Inr (vs, rest)"
    and "load_cfg cev (str_flag (deviceDefaultConfig (ce_goos cev)) ''config'' vs) w = Inr cfg"
  obtains r where "apiDo hc ''POST'' (selfAPIBase cfg @ ''/devices/rotate-token'') cfg (Some (str_map [(''device_id'', str_flag [] ''device'' vs)])) s
      = (s', Response r)"
    and "good_status r" and "out = [PrintNewToken (snd (soft_unmarshal token_fields (ht_body r) ([], [])))]"
  using assms by (auto simp: runDevices_def has_prefix_def devices_action_def Let_def doDevicePost_def post_print_def
      split: prod.splits api_result.splits if_splits)

text \<open>
  C31. \<^verbatim>\<open>devices token\<close>. If it succeeds against this server, it prints the one token that authenticates the device from then
  on (also after a restart of the server); every other token is refused. It does not write the configuration: if it
  was the device's own token, and the new one differs, the next hello made from the configuration is refused until the user copies the token.
\<close>

theorem token_command:
  assumes "runDevices cev (serve_at ev base from) (''token'' # args) w s = (s', out, Exit 0)"
    and "parse_flags devices_kind args [] = Inr (vs, rest)"
    and "load_cfg cev (str_flag (deviceDefaultConfig (ce_goos cev)) ''config'' vs) w = Inr cfg" and "cc_api cfg = base @ ''/api/v1''"
    and "i = (if str_flag [] ''device'' vs = [] then cc_device cfg else str_flag [] ''device'' vs)"
    and "store_ok (store_of s)" and "bcrypt_ok (ae_gen ev) (ev_cmp ev)" and "\<forall>b. en_token (ae_entropy ev) = Some b \<longrightarrow> length b = 32"
  shows "\<exists>token dev acct. out = [PrintNewToken token] \<and> VerifyDevice (ev_cmp ev) i token (store_of s') = Inr (dev, acct) \<and> de_id dev = i
    \<and> (\<forall>old. length old \<le> 72 \<longrightarrow> old \<noteq> token \<longrightarrow> VerifyDevice (ev_cmp ev) i old (store_of s') = Inl ErrBadToken
         \<and> VerifyDevice (ev_cmp ev) i old (restart (store_of s')) = Inl ErrBadToken)
    \<and> (i = cc_device cfg \<longrightarrow> length (cc_token cfg) \<le> 72 \<longrightarrow> cc_token cfg \<noteq> token \<longrightarrow>
         (\<forall>da. authenticate (ev_cmp ev) (ev_os ev) (the (cm_hello (client_hello os cfg))) (store_of s') \<noteq> Inr da))"
proof -
  obtain r where api: "apiDo (serve_at ev base from) ''POST'' (selfAPIBase cfg @ ''/devices/rotate-token'') cfg
        (Some (str_map [(''device_id'', str_flag [] ''device'' vs)])) s = (s', Response r)"
    and good: "good_status r" and out: "out = [PrintNewToken (snd (soft_unmarshal token_fields (ht_body r) ([], [])))]"
    using token_steps [OF assms(1-3)] by blast
  have base: "selfAPIBase cfg @ ''/devices/rotate-token'' = base @ ''/api/v1/devices/rotate-token''"
    using assms(4) by (simp add: selfAPIBase_def)
  define rq where "rq = \<lparr>rq_method = ''POST'', rq_path = ''/api/v1/devices/rotate-token'', rq_query = [],
    rq_headers = put ''Content-Type'' ''application/json'' (put ''X-Orbit-Token'' (cc_token cfg) (put ''X-Orbit-Device'' (cc_device cfg) [])),
    rq_body = str_map [(''device_id'', str_flag [] ''device'' vs)], rq_remote = from\<rparr>"
  obtain rs where rs: "handleDeviceRotateToken ev rq s = (s', rs)" and r: "r = \<lparr>ht_status = rs_status rs, ht_body = rs_body rs\<rparr>"
    using api unfolding apiDo_def base serve_api by (auto simp: mux_routes(4) rq_def [symmetric] Let_def split: prod.splits) (auto simp: rq_def mux_routes(4))
  have "rs_status rs < 300" using good by (simp add: good_status_def r)
  then obtain j target st token where j: "decode_body device_fields [] rq = Some j" and t: "targetDevice ev rq (Some j) s = Inr target"
    and rot: "RotateToken (ae_gen ev) (ev_io ev) (en_token (ae_entropy ev)) (de_id target) (store_of s) = (st, Inr token)"
    and s': "s' = set_store st s"
    and body: "rs = writeJSON (json_map [(''ok'', JBool True), (''device_id'', JStr (de_id target)), (''device_token'', JStr token)])"
    using handleRotate_ok [OF rs] by blast
  have "j = str_flag [] ''device'' vs" using j post_body_decodes [of rq] by (simp add: rq_def)
  then have i: "(if j = [] then get_header ''X-Orbit-Device'' rq else j) = i"
    by (simp add: assms(5) rq_def get_header_def)
  obtain acct where dev: "get_device i (store_of s) = Inr target" "get_account (de_account target) (store_of s) = Inr acct" "de_id target = i"
    using targetDevice_ok [OF t assms(6)] unfolding i by metis
  obtain b where b: "en_token (ae_entropy ev) = Some b" using rot by (auto simp: RotateToken_def NewToken_def split: option.splits)
  then have len: "length b \<le> 36" using assms(8) by simp
  have facts: "(\<exists>d'. VerifyDevice (ev_cmp ev) i token st = Inr (d', acct) \<and> de_id d' = de_id target)
    \<and> (\<forall>old. length old \<le> 72 \<longrightarrow> old \<noteq> token \<longrightarrow>
         VerifyDevice (ev_cmp ev) i old st = Inl ErrBadToken \<and> VerifyDevice (ev_cmp ev) i old (restart st) = Inl ErrBadToken)"
    by (rule RotateToken_replaces [OF assms(7,6) len rot [unfolded b dev(3)] dev(1,2)])
  then obtain d' where d': "VerifyDevice (ev_cmp ev) i token st = Inr (d', acct)" "de_id d' = i" using dev(3) by blast
  have st: "store_of s' = st" by (simp add: s')
  have "authenticate (ev_cmp ev) (ev_os ev) (the (cm_hello (client_hello os cfg))) st \<noteq> Inr da"
    if "i = cc_device cfg" "length (cc_token cfg) \<le> 72" "cc_token cfg \<noteq> token" for da
    using facts that by (auto simp: authenticate_def client_hello_def ctrl_def)
  moreover have "out = [PrintNewToken token]" using out by (simp add: r body token_answer_decodes)
  ultimately show ?thesis unfolding st using conjunct2 [OF facts] d' by blast
qed

subsection \<open>The devices of the account\<close>

definition info_of :: "api_env \<Rightarrow> server \<Rightarrow> device \<Rightarrow> device_info" where
  "info_of ev s d = \<lparr>dv_id = de_id d, dv_name = de_name d, dv_egress = de_egress d, dv_online = Api.online ev s (de_id d)\<rparr>"

lemma info_decodes:
  "dec_struct info_fields (JObj ((''device_id'', JStr (de_id d)) # device_item ev s d)) \<lparr>dv_id = [], dv_name = [], dv_egress = False, dv_online = False\<rparr>
     = Some (info_of ev s d)"
  by (simp add: dec_struct_def device_item_def info_fields_def fstr_def fbool_def lower_char_def info_of_def)

lemma items_plain: "plain (json_slice (\<lambda>d. JObj ((''device_id'', JStr (de_id d)) # device_item ev s d)) ds)"
  by (auto simp: json_slice_def device_item_def list_all_iff)

lemma items_decode:
  "flist info_fields \<lparr>dv_id = [], dv_name = [], dv_egress = False, dv_online = False\<rparr> (\<lambda>ds _. ds)
     (json_slice (\<lambda>d. JObj ((''device_id'', JStr (de_id d)) # device_item ev s d)) ds) [] = Some (map (info_of ev s) ds)"
proof -
  have "those (map (\<lambda>d. Some (info_of ev s d)) ds) = Some (map (info_of ev s) ds)" by (induction ds) simp_all
  then show ?thesis by (simp add: flist_def json_slice_def o_def info_decodes)
qed

text \<open>
  The list of devices that \<^verbatim>\<open>status\<close> shows. If the configuration's credentials authenticate, it is the list of the devices of
  the account with their names, exit rights and whether they are online, and reading it changes nothing on the server; if they do not,
  there is no list. (A server that cannot be reached gives no list either.)
\<close>

theorem status_devices:
  assumes "cc_api cfg = base @ ''/api/v1''"
  shows "fetchDevices (serve_at ev base from) cfg timeout s =
    (s, Some (case VerifyDevice (ev_cmp ev) (cc_device cfg) (cc_token cfg) (store_of s) of
        Inl _ \<Rightarrow> None
      | Inr (dev, acct) \<Rightarrow> Some (map (info_of ev s) (DevicesByAccount (ac_id acct) (store_of s)))))"
proof -
  have base: "selfAPIBaseCli cfg @ ''/devices'' = base @ ''/api/v1/devices''"
    using assms by (simp add: selfAPIBaseCli_def)
  define rq where "rq = \<lparr>rq_method = ''GET'', rq_path = ''/api/v1/devices'', rq_query = [],
    rq_headers = put ''X-Orbit-Token'' (cc_token cfg) (put ''X-Orbit-Device'' (cc_device cfg) []), rq_body = [], rq_remote = from\<rparr>"
  have run: "apiDoTT (serve_at ev base from) ''GET'' (base @ ''/api/v1/devices'') cfg None timeout s =
      (case deviceList ev rq s of (s, rs) \<Rightarrow> (s, Response \<lparr>ht_status = rs_status rs, ht_body = rs_body rs\<rparr>))"
    by (simp add: serve_api rq_def mux_routes(3) handleDevices_def)
  have auth: "deviceAuth ev rq s = VerifyDevice (ev_cmp ev) (cc_device cfg) (cc_token cfg) (store_of s)"
    by (simp add: deviceAuth_def rq_def get_header_def)
  have ok: "rs_status (writeJSON v) = 200" for v by (simp add: writeJSON_def)
  show ?thesis
    unfolding fetchDevices_def base run
    by (cases "deviceAuth ev rq s") (auto simp: deviceList_def auth [symmetric] auth_failed_def http_error_def good_status_def ok parse_answer
        items_plain items_decode)
qed

subsection \<open>Instances\<close>

definition bob_flags :: reg_flags where
  "bob_flags = \<lparr>rf_invite = ''CODE'', rf_account = ''bob'', rf_device = ''pc'', rf_out = ''orbit-cli.yaml'', rf_server = ''192.0.2.1:28443'',
     rf_web = [], rf_endpoint = []\<rparr>"

definition bob_machine :: reg_env where
  "bob_machine = \<lparr>re_user = ''bob'', re_username = [], re_hostname = ''pc'', re_write = (\<lambda>_. Written)\<rparr>"

definition bob_token :: string where
  "bob_token = hex_encode (replicate 32 3)"

definition bob_device :: string where
  "bob_device = ''dev_'' @ randID (Some (replicate 12 2))"

definition bob_answer :: reg_resp where
  "bob_answer = \<lparr>rp_ok = True, rp_account = ''acc_'' @ randID (Some (replicate 12 1)), rp_account_name = ''bob'', rp_device = bob_device,
     rp_token = bob_token, rp_tier = defaultTier api_server, rp_error = []\<rparr>"

definition bob_config :: cli_config where
  "bob_config = reg_config ''linux'' ''192.0.2.1:28443'' (path_join (path_dir ''orbit-cli.yaml'') ''orbitd-cert.pem'') (web_base []) ''pc'' bob_answer"

definition bob_cli :: cli_env where
  "bob_cli = sample_cli\<lparr>ce_marshal := (\<lambda>c. if c = bob_config then Some ''bob'' else None),
     ce_unmarshal := (\<lambda>s. if s = ''bob'' then Some bob_config else None)\<rparr>"

definition empty_world :: cli_world where
  "empty_world = \<lparr>cw_files = (\<lambda>_. None), cw_done = []\<rparr>"

lemma bob_yaml: "yaml_ok bob_cli"
  by (simp add: yaml_ok_def bob_cli_def)

lemma bob_registers:
  assumes "store_of s = api_store" and "sv_cfg s = sample_cfg" and "sv_lim s = []" and "sv_invites s = sv_invites api_server"
    and "rq_method rq = ''POST''" and "rq_body rq = str_map [(''invite_code'', ''CODE''), (''account_name'', ''bob''), (''device_name'', ''pc'')]"
  shows "unmarshal resp_fields (rs_body (snd (handleRegister sample_api_env rq s))) no_resp = Some bob_answer"
proof -
  obtain l where l: "Allow (ev_now sample_api_env) (''register:'' @ remoteIP rq) 5 minute (sv_lim s) = (l, True)"
    using first_allowed [of 5] by (metis assms(3) env.select_convs(1) prod.collapse sample_api_env_def zero_less_numeral)
  have "snd (handleRegister sample_api_env rq s) = writeJSON (json_map [(''ok'', JBool True), (''account_id'', JStr (rp_account bob_answer)),
      (''account_name'', JStr ''bob''), (''tier'', JStr (defaultTier s)), (''device_id'', JStr bob_device), (''device_token'', JStr bob_token)])"
    unfolding handleRegister_def l Let_def prod.case register_body_decodes [OF assms(6)]
    by (simp add: assms(1,4,5) CreateAccountWithTier_def Let_def sample_api_env_def NewToken_def HashToken_def toy_gen_def
        save_store_def Consume_def save_invites_def bob_answer_def bob_device_def bob_token_def new_device_def defaultTier_def del: randID_def)
  then show ?thesis by (simp add: register_answer_decodes) (simp add: bob_answer_def defaultTier_def assms(2))
qed

lemma bob_fetches:
  obtains w1 s1 where "fetch_ca ''linux'' bob_machine (serve_at sample_api_env (web_base []) from) (web_base []) ''orbit-cli.yaml'' w api_server
    = (w1, s1, path_join (path_dir ''orbit-cli.yaml'') ''orbitd-cert.pem'')"
  by (simp add: fetch_ca_def serve_call mux_routes(1) handleCAPEM_def sample_cfg_def not_found_def http_error_def Let_def write_file_def bob_machine_def)

lemma bob_succeeds:
  obtains w' s' where "register bob_cli bob_machine (serve_at sample_api_env (web_base (rf_web bob_flags)) from) bob_flags empty_world api_server
    = (w', s', [PrintRegistered ''bob'' bob_device bob_token], Exit 0)"
proof -
  let ?hc = "serve_at sample_api_env (web_base []) from"
  have goos: "ce_goos bob_cli = ''linux''" by (simp add: bob_cli_def sample_cli_def)
  have fl: "rf_web bob_flags = []" "rf_out bob_flags = ''orbit-cli.yaml''" "rf_invite bob_flags = ''CODE''" "rf_endpoint bob_flags = []"
    "rf_server bob_flags = ''192.0.2.1:28443''" "reg_device bob_machine bob_flags = ''pc''" "reg_account ''linux'' bob_machine bob_flags = ''bob''"
    by (simp_all add: bob_flags_def reg_device_def reg_account_def)
  obtain w1 s1 where ca: "fetch_ca ''linux'' bob_machine ?hc (web_base []) ''orbit-cli.yaml'' empty_world api_server
      = (w1, s1, path_join (path_dir ''orbit-cli.yaml'') ''orbitd-cert.pem'')"
    using bob_fetches .
  note s1 = fetch_ca_server [OF ca]
  define rq where "rq = to_request (web_base []) from (reg_request ''linux'' bob_machine bob_flags)"
  have rq: "rq_method rq = ''POST''" "rq_path rq = ''/api/v1/register''"
    "rq_body rq = str_map [(''invite_code'', ''CODE''), (''account_name'', ''bob''), (''device_name'', ''pc'')]"
    by (simp_all add: rq_def to_request_def reg_request_def fl)
  obtain s2 rs where run: "handleRegister sample_api_env rq s1 = (s2, rs)" by fastforce
  have http: "http_call ?hc (reg_request ''linux'' bob_machine bob_flags) s1 = (s2, Some \<lparr>ht_status = rs_status rs, ht_body = rs_body rs\<rparr>)"
    using run rq(2) by (simp add: http_call_def serve_at_def reg_request_def fl mux_routes(2) rq_def)
  have "unmarshal resp_fields (rs_body rs) no_resp = Some bob_answer"
    using bob_registers [OF _ _ _ _ rq(1,3), of s1] run s1 by simp
  moreover have "reg_config ''linux'' ''192.0.2.1:28443'' (path_join (path_dir ''orbit-cli.yaml'') ''orbitd-cert.pem'') (web_base []) ''pc'' bob_answer = bob_config"
    by (simp only: bob_config_def)
  moreover have "rp_token bob_answer \<noteq> []" "rp_ok bob_answer" "re_write bob_machine p = Written" for p
    by (simp_all add: bob_answer_def bob_token_def hex_encode_def bob_machine_def)
  moreover have "ce_marshal bob_cli bob_config = Some ''bob''" by (simp add: bob_cli_def)
  moreover have "rp_account_name bob_answer = ''bob''" "rp_device bob_answer = bob_device" "rp_token bob_answer = bob_token"
    by (simp_all add: bob_answer_def)
  ultimately show thesis
    by (intro that) (simp add: register_def fl goos ca http register_reply_def write_file_def)
qed

lemma os_text_no_json: "json_parse (''error'' @ nl) = None"
  by code_simp

lemma register_end_to_end_witness:
  "\<exists>w' s' cfg dev acct. register bob_cli bob_machine (serve_at sample_api_env (web_base (rf_web bob_flags)) ''192.0.2.9:1'') bob_flags empty_world api_server
       = (w', s', [PrintRegistered ''bob'' bob_device bob_token], Exit 0)
    \<and> load_cfg bob_cli ''orbit-cli.yaml'' w' = Inr cfg
    \<and> authenticate toy_cmp ''error'' (the (cm_hello (client_hello ''linux'' cfg))) (store_of s') = Inr (dev, acct) \<and> ac_name acct = ''bob''"
proof -
  obtain w' s' where run: "register bob_cli bob_machine (serve_at sample_api_env (web_base (rf_web bob_flags)) ''192.0.2.9:1'') bob_flags empty_world api_server
    = (w', s', [PrintRegistered ''bob'' bob_device bob_token], Exit 0)"
    using bob_succeeds .
  have names: "list_all text_ok [rf_invite bob_flags, reg_account (ce_goos bob_cli) bob_machine bob_flags, reg_device bob_machine bob_flags]"
    by (simp add: bob_flags_def reg_account_def reg_device_def text_ok_def)
  have env: "bcrypt_ok (ae_gen sample_api_env) (ev_cmp sample_api_env)" "json_parse (ev_os sample_api_env @ nl) = None"
    "\<forall>b. en_token (ae_entropy sample_api_env) = Some b \<longrightarrow> length b = 32"
    using os_text_no_json by (simp_all add: sample_api_env_def toy_bcrypt_ok)
  have fl: "rf_endpoint bob_flags = []" "rf_server bob_flags \<noteq> []" "rf_out bob_flags = ''orbit-cli.yaml''"
    "reg_account (ce_goos bob_cli) bob_machine bob_flags = ''bob''" by (simp_all add: bob_flags_def reg_account_def)
  have "store_ok (store_of api_server)" "fresh_ids sample_api_env (store_of api_server)"
    by (simp_all only: api_server_fields api_store_ok api_fresh)
  from register_end_to_end [OF run fl(1,2) names bob_yaml this env(1,3,2), of "''linux''"] run show ?thesis
    unfolding fl(3,4) by (auto simp: sample_api_env_def)
qed

definition d1_config :: cli_config where
  "d1_config = sample_config\<lparr>cc_device := ''d1'', cc_token := ''secret'', cc_api := ''https://h/api/v1''\<rparr>"

definition d1_cli :: cli_env where
  "d1_cli = sample_cli\<lparr>ce_unmarshal := (\<lambda>_. Some d1_config)\<rparr>"

lemma d1_loads: "load_cfg d1_cli (deviceDefaultConfig (ce_goos d1_cli)) smart_world = Inr d1_config"
proof -
  have "deviceDefaultConfig (ce_goos d1_cli) = cli_path" by (simp add: deviceDefaultConfig_def d1_cli_def sample_cli_def cli_path_def)
  moreover have "valid_config d1_config" by (simp add: valid_config_def d1_config_def sample_config_def)
  ultimately show ?thesis by (simp add: load_cfg_def LoadConfig_def smart_world_def d1_cli_def Validate_valid)
qed

lemma d1_rotates:
  "rs_status (snd (handleDeviceRotateToken sample_api_env \<lparr>rq_method = ''POST'', rq_path = p, rq_query = [],
      rq_headers = [(''X-Orbit-Device'', ''d1''), (''X-Orbit-Token'', ''secret''), (''Content-Type'', ''application/json'')],
      rq_body = str_map [(''device_id'', [])], rq_remote = from\<rparr> api_server)) = 200"
proof -
  let ?rq = "\<lparr>rq_method = ''POST'', rq_path = p, rq_query = [],
      rq_headers = [(''X-Orbit-Device'', ''d1''), (''X-Orbit-Token'', ''secret''), (''Content-Type'', ''application/json'')],
      rq_body = str_map [(''device_id'', [])], rq_remote = from\<rparr>"
  have "targetDevice sample_api_env ?rq (Some []) api_server = Inr api_dev1"
    by (simp add: targetDevice_def Let_def deviceAuth_def get_header_def VerifyDevice_def get_device_def api_store_def
        get_account_def sample_api_env_def api_dev1_def sample_device_def VerifyToken_def toy_cmp_def sample_account_def)
  moreover have "\<exists>t. snd (RotateToken (ae_gen sample_api_env) (ev_io sample_api_env) (en_token (ae_entropy sample_api_env)) (de_id api_dev1) api_store) = Inr t"
    by (simp add: RotateToken_def api_store_def sample_api_env_def save_store_def NewToken_def HashToken_def toy_gen_def get_device_def
        api_dev1_def sample_device_def)
  ultimately show ?thesis
    by (auto simp: handleDeviceRotateToken_def post_body_decodes case_prod_unfold Let_def writeJSON_def)
qed

lemma token_command_witness:
  "\<exists>s' token dev acct. runDevices d1_cli (serve_at sample_api_env ''https://h'' ''192.0.2.9:1'') [''token''] smart_world api_server
        = (s', [PrintNewToken token], Exit 0)
    \<and> VerifyDevice toy_cmp ''d1'' token (store_of s') = Inr (dev, acct)"
proof -
  let ?hc = "serve_at sample_api_env ''https://h'' ''192.0.2.9:1''"
  have flags: "parse_flags devices_kind [] [] = Inr ([], [])" "str_flag x n [] = x" for x n
    by (simp_all add: str_flag_def str_given_def)
  have cfg: "cc_api d1_config = ''https://h'' @ ''/api/v1''" "cc_device d1_config = ''d1''" "cc_token d1_config = ''secret''"
    by (simp_all add: d1_config_def)
  have "selfAPIBase d1_config @ ''/devices/rotate-token'' = ''https://h'' @ ''/api/v1/devices/rotate-token''"
    using cfg(1) trim_api [of "''https://h''"] by (simp add: selfAPIBase_def)
  then obtain s' r where r: "apiDo ?hc ''POST'' (selfAPIBase d1_config @ ''/devices/rotate-token'') d1_config (Some (str_map [(''device_id'', [])])) api_server
      = (s', Response r)" "good_status r"
    using d1_rotates [of "''/api/v1/devices/rotate-token''" "''192.0.2.9:1''"]
    unfolding apiDo_def by (simp only: serve_api) (simp add: mux_routes(4) cfg good_status_def case_prod_unfold)
  have "\<exists>out. runDevices d1_cli ?hc [''token''] smart_world api_server = (s', out, Exit 0)"
    using r by (simp add: runDevices_def has_prefix_def devices_action_def flags d1_loads doDevicePost_def)
  then obtain out where run: "runDevices d1_cli ?hc [''token''] smart_world api_server = (s', out, Exit 0)" by blast
  have env: "bcrypt_ok (ae_gen sample_api_env) (ev_cmp sample_api_env)" "\<forall>b. en_token (ae_entropy sample_api_env) = Some b \<longrightarrow> length b = 32"
    by (simp_all add: sample_api_env_def toy_bcrypt_ok)
  have ok: "store_ok (store_of api_server)" by (simp only: api_server_fields api_store_ok)
  have load: "load_cfg d1_cli (str_flag (deviceDefaultConfig (ce_goos d1_cli)) ''config'' []) smart_world = Inr d1_config"
    by (simp only: flags d1_loads)
  have i: "''d1'' = (if str_flag [] ''device'' [] = [] then cc_device d1_config else str_flag [] ''device'' [])" by (simp add: flags cfg(2))
  have cmp: "ev_cmp sample_api_env = toy_cmp" by (simp add: sample_api_env_def)
  obtain token dev acct where "out = [PrintNewToken token]" "VerifyDevice (ev_cmp sample_api_env) ''d1'' token (store_of s') = Inr (dev, acct)"
    using token_command [OF run flags(1) load cfg(1) i ok env] by blast
  then show ?thesis using run unfolding cmp by blast
qed

lemma status_devices_witness:
  "fetchDevices (serve_at sample_api_env ''https://h'' ''192.0.2.9:1'') d1_config (4 * second) api_server
     = (api_server, Some (Some [info_of sample_api_env api_server api_dev1]))"
  by (subst status_devices [of d1_config "''https://h''"])
    (simp_all add: d1_config_def VerifyDevice_def get_device_def api_store_def get_account_def sample_api_env_def api_dev1_def api_dev2_def
      sample_device_def VerifyToken_def toy_cmp_def sample_account_def DevicesByAccount_def)

end
