(* ===== verification/Cli_Status.thy ===== *)
theory Cli_Status
  imports Cli_Api
begin

text \<open>
  The commands \<^verbatim>\<open>status\<close> and \<^verbatim>\<open>autostart\<close> of \<^verbatim>\<open>cmd/orbit-cli/admincmd.go\<close>, and the probes they share: the running
  daemons, the scheduled tasks, the state of the adapter and the end of the log. What the other programs print is an argument.
\<close>

subsection \<open>The machine\<close>

text \<open>
  An entry of \<^verbatim>\<open>/proc\<close>: its name, whether it is a directory, and the content of its file \<^verbatim>\<open>comm\<close>. The fields after it: what
  \<^verbatim>\<open>tasklist\<close>, \<^verbatim>\<open>schtasks /query\<close> for a task, and \<^verbatim>\<open>powershell\<close> or \<^verbatim>\<open>ip\<close> for an adapter print, \<open>None\<close> for a program that
  fails; the text of that error; whether a command succeeds; whether a path exists; the texts of configuration errors.
\<close>

record proc_entry =
  pe_name :: string
  pe_dir :: bool
  pe_comm :: "string option"

record machine =
  mc_goos :: string
  mc_pid :: int
  mc_proc :: "proc_entry list option"
  mc_tasklist :: "string option"
  mc_task :: "string \<Rightarrow> string option"
  mc_adapter :: "string \<Rightarrow> string option"
  mc_probe_error :: string
  mc_runs :: "string list \<Rightarrow> bool"
  mc_exists :: "string \<Rightarrow> bool"
  mc_error_text :: "config_error \<Rightarrow> string"

subsection \<open>More of package strings\<close>

definition has_sub :: "string \<Rightarrow> string \<Rightarrow> bool" where
  "has_sub s t \<longleftrightarrow> list_ex (\<lambda>k. has_prefix (drop k s) t) [0..<Suc (length s)]"

definition trim_set :: "string \<Rightarrow> string \<Rightarrow> string" where
  "trim_set cs s = rev (dropWhile (\<lambda>c. c \<in> set cs) (rev (dropWhile (\<lambda>c. c \<in> set cs) s)))"

definition trim_prefix :: "string \<Rightarrow> string \<Rightarrow> string" where
  "trim_prefix s p = (if has_prefix s p then drop (length p) s else s)"

fun words_of :: "string \<Rightarrow> string \<Rightarrow> string list" where
  "words_of w [] = (if w = [] then [] else [w])"
| "words_of w (c # cs) = (if is_space c then (if w = [] then [] else [w]) @ words_of [] cs else words_of (w @ [c]) cs)"

definition fields :: "string \<Rightarrow> string list" where
  "fields s = words_of [] s"

subsection \<open>The running daemons\<close>

definition daemonExeName :: string where
  "daemonExeName = ''orbit-daemon.exe''"

definition tasklist_pid :: "int \<Rightarrow> string \<Rightarrow> int option" where
  "tasklist_pid self line =
     (if \<not> has_sub line (trim_suffix daemonExeName ''.exe'') then None
      else case split_all CHR '','' line of
          name # pid # rest \<Rightarrow>
            (case atoi (trim_set [CHR 0x22, CHR '' ''] pid) of
               None \<Rightarrow> None
             | Some p \<Rightarrow> if p = self then None else Some p)
        | _ \<Rightarrow> None)"

definition proc_pid :: "int \<Rightarrow> proc_entry \<Rightarrow> int option" where
  "proc_pid self e =
     (if \<not> pe_dir e then None
      else case atoi (pe_name e) of
          None \<Rightarrow> None
        | Some p \<Rightarrow>
            if p = self then None
            else case pe_comm e of
                None \<Rightarrow> None
              | Some comm \<Rightarrow> if trim_space comm \<noteq> ''orbit-cli'' then None else Some p)"

definition runningDaemons :: "machine \<Rightarrow> int list" where
  "runningDaemons mc =
     (if mc_goos mc = ''windows'' then
        (case mc_tasklist mc of
           None \<Rightarrow> []
         | Some raw \<Rightarrow> List.map_filter (tasklist_pid (mc_pid mc)) (split_all (CHR 0x0A) (trim_space raw)))
      else
        (case mc_proc mc of
           None \<Rightarrow> []
         | Some entries \<Rightarrow> sort (List.map_filter (proc_pid (mc_pid mc)) entries)))"

subsection \<open>Scheduled tasks and the adapter\<close>

text \<open>Whether a task exists, its status and the command it runs; later lines win.\<close>

definition taskState :: "machine \<Rightarrow> string \<Rightarrow> bool \<times> string \<times> string" where
  "taskState mc name =
     (if mc_goos mc \<noteq> ''windows'' then (False, [], [])
      else case mc_task mc name of
          None \<Rightarrow> (False, [], [])
        | Some raw \<Rightarrow>
            (True, foldl (\<lambda>(state, run) line.
               let line = trim_space line
               in if has_prefix line ''Status:'' then (trim_space (trim_prefix line ''Status:''), run)
                  else if has_prefix line ''Task To Run:'' then (state, trim_space (trim_prefix line ''Task To Run:''))
                  else (state, run)) ([], []) (split_all (CHR 0x0A) raw)))"

text \<open>Whether the adapter is up, its address and a description.\<close>

definition adapterInfo :: "machine \<Rightarrow> string \<Rightarrow> bool \<times> string \<times> string" where
  "adapterInfo mc tunName =
     (let tunName = (if tunName = [] then ''Orbit'' else tunName); absent = (False, [], ''adapter not present'')
      in if mc_goos mc = ''windows'' then
           (case mc_adapter mc tunName of
              None \<Rightarrow> (False, [], ''probe err: '' @ mc_probe_error mc)
            | Some raw \<Rightarrow>
                let (up, ip) = foldl (\<lambda>(up, ip) line.
                  let line = trim_space line
                  in if has_prefix line ''STATUS='' then (has_sub line ''Up'', ip)
                     else if has_prefix line ''IP='' then (up, trim_prefix line ''IP='')
                     else (up, ip)) (False, []) (split_all (CHR 0x0A) raw)
                in if \<not> up \<and> ip = [] then absent else (up, ip, ''wintun''))
         else
           (case mc_adapter mc tunName of
              None \<Rightarrow> absent
            | Some raw \<Rightarrow>
                (case fields raw of
                   name # state # addr # rest \<Rightarrow> (has_sub state ''UP'', addr, state)
                 | _ \<Rightarrow> absent)))"

subsection \<open>The end of the log\<close>

text \<open>\<open>None\<close> is a nil slice. What is read is the last \<open>512 n\<close> bytes; the argument \<open>content\<close> is \<open>None\<close> for a file that cannot be opened.\<close>

definition logTail :: "string option \<Rightarrow> nat \<Rightarrow> string list option" where
  "logTail content n =
     (case content of
        None \<Rightarrow> None
      | Some s \<Rightarrow>
          if s = [] then None
          else
            let buf = drop (length s - min (length s) (512 * n)) s;
                ls = split_all (CHR 0x0A) buf;
                ls = (if length ls > n then drop (length ls - n) ls else ls);
                ls = map (trim_right (CHR 0x0D)) ls
            in Some (if ls \<noteq> [] \<and> last ls = [] then butlast ls else ls))"

subsection \<open>status\<close>

definition fileExists :: "machine \<Rightarrow> string \<Rightarrow> bool" where
  "fileExists mc path = mc_exists mc path"

definition json_strs :: "string list \<Rightarrow> json" where
  "json_strs ss = JArr (map JStr ss)"

text \<open>What the configuration contributes. An empty list is printed as the nil slice \<^verbatim>\<open>null\<close>.\<close>

definition config_items :: "cli_config \<Rightarrow> (string \<times> json) list" where
  "config_items c =
     [(''installed'', JBool True), (''server_addr'', JStr (cc_server c)), (''account'', JStr (cc_account c)), (''hostname'', JStr (cc_hostname c)),
      (''device_id'', JStr (cc_device c)), (''tun_name'', JStr (cc_tun c)), (''mode'', JStr (cc_mode c)), (''egress'', JBool (cc_egress c)),
      (''exit_device'', JStr (cc_exit c)), (''keep_local'', json_slice JStr (cc_keep_local c)),
      (''rules'', json_slice (\<lambda>r. JObj [(''Target'', JStr (rs_target r)), (''ExitDevice'', JStr (rs_exit r))]) (cc_rules c))]"

definition daemon_items :: "machine \<Rightarrow> (string \<times> json) list" where
  "daemon_items mc =
     (case runningDaemons mc of
        [] \<Rightarrow> [(''daemon_running'', JBool False)]
      | pids \<Rightarrow> [(''daemon_running'', JBool True), (''daemon_pid'', JArr (map JNum pids))])"

text \<open>The entry for the adapter, and what it adds to the errors.\<close>

definition adapter_items :: "machine \<Rightarrow> cli_config \<Rightarrow> (string \<times> json) list \<times> string list" where
  "adapter_items mc c =
     (case adapterInfo mc (cc_tun c) of
        (up, ip, desc) \<Rightarrow>
          if up \<or> ip \<noteq> [] then
            ([(''adapter'', json_map [(''up'', JBool up), (''ip'', JStr ip), (''desc'', JStr desc)])], [])
          else ([(''adapter'', JNull)], if desc \<noteq> [] \<and> \<not> has_sub desc ''not present'' then [desc] else []))"

definition omit_empty :: "string \<Rightarrow> string \<Rightarrow> (string \<times> json) list" where
  "omit_empty k s = (if s = [] then [] else [(k, JStr s)])"

definition task_info :: "machine \<Rightarrow> string \<Rightarrow> json" where
  "task_info mc name =
     (case taskState mc name of
        (on, state, run) \<Rightarrow>
          if \<not> on then JObj [(''on'', JBool False)]
          else JObj ((''on'', JBool True) # omit_empty ''state'' state @ omit_empty ''run'' run))"

definition autostart_item :: "machine \<Rightarrow> string \<times> json" where
  "autostart_item mc =
     (''autostart'',
      if mc_goos mc = ''windows'' then
        json_map [(''main'', task_info mc ''OrbitClient''), (''relink'', task_info mc ''OrbitClientRelink'')]
      else
        json_map
          [(''main'', JObj [(''on'', JBool (fileExists mc ''/etc/systemd/system/orbit-cli.service''
               \<or> fileExists mc ''/usr/lib/systemd/system/orbit-cli.service''))]),
           (''relink'', JObj [(''on'', JBool False)])])"

definition device_json :: "device_info \<Rightarrow> json" where
  "device_json d = JObj [(''device_id'', JStr (dv_id d)), (''name'', JStr (dv_name d)), (''egress_enabled'', JBool (dv_egress d)),
     (''online'', JBool (dv_online d))]"

definition status_kind :: "string \<Rightarrow> flag_kind option" where
  "status_kind = map_of [(''config'', StrFlag), (''brief'', BoolFlag)]"

text \<open>The part that does not ask the server.\<close>

definition status_local :: "cli_env \<Rightarrow> machine \<Rightarrow> string \<Rightarrow> bool \<Rightarrow> cli_world \<Rightarrow> (string \<times> json) list" where
  "status_local ev mc cfgPath brief w =
     (let cfg = load_cfg ev cfgPath w;
          (own, errs) = (case cfg of
             Inl e \<Rightarrow> ([(''installed'', JBool False)], [''config: '' @ mc_error_text mc e])
           | Inr c \<Rightarrow> (config_items c, []));
          (adapter, errs') = (case cfg of Inl e \<Rightarrow> ([], []) | Inr c \<Rightarrow> adapter_items mc c);
          tail = (case cfg of
             Inl e \<Rightarrow> []
           | Inr c \<Rightarrow>
               if \<not> brief \<and> cc_log_file c \<noteq> [] then
                 [(''log_tail'', case logTail (cw_files w (cc_log_file c)) 15 of None \<Rightarrow> JNull | Some ls \<Rightarrow> json_strs ls)]
               else [])
      in [(''ok'', JBool True), (''config_path'', JStr cfgPath), (''errors'', json_strs (errs @ errs'))] @ own @ daemon_items mc
         @ adapter @ [autostart_item mc] @ tail)"

definition runStatus ::
  "cli_env \<Rightarrow> machine \<Rightarrow> 'srv http_client \<Rightarrow> string list \<Rightarrow> cli_world \<Rightarrow> 'srv \<Rightarrow> 'srv \<times> cli_print list \<times> cli_exit" where
  "runStatus ev mc hc args w srv =
     (case parse_flags status_kind args [] of
        Inl e \<Rightarrow> (srv, [], Exit (flag_status e))
      | Inr (vs, _) \<Rightarrow>
          let cfgPath = str_flag (deviceDefaultConfig (ce_goos ev)) ''config'' vs; brief = bool_flag ''brief'' vs;
              items = status_local ev mc cfgPath brief w
          in case load_cfg ev cfgPath w of
               Inl e \<Rightarrow> (srv, [PrintBody (jprint (json_map items))], Exit 0)
             | Inr cfg \<Rightarrow>
                 if brief then (srv, [PrintBody (jprint (json_map items))], Exit 0)
                 else case fetchDevices hc cfg (4 * second) srv of
                     (srv, None) \<Rightarrow> (srv, [], Panic)
                   | (srv, Some ds) \<Rightarrow>
                       (srv, [PrintBody (jprint (json_map (items @
                          [(''devices'', case ds of None \<Rightarrow> JNull | Some ds \<Rightarrow> JArr (map device_json ds))])))], Exit 0))"

subsection \<open>autostart\<close>

definition taskScriptPath :: "string \<Rightarrow> string \<Rightarrow> string" where
  "taskScriptPath goos name =
     win_dir @ (if goos = ''windows'' then [CHR 0x5C] else ''/'') @ (if name = ''OrbitClientRelink'' then ''relink.cmd'' else ''run-agent.cmd'')"

definition taskSchedule :: "string \<Rightarrow> string" where
  "taskSchedule name = (if name = ''OrbitClientRelink'' then ''hourly'' else ''onlogon'')"

definition task_command :: "string \<Rightarrow> string \<Rightarrow> string \<Rightarrow> string list option" where
  "task_command goos op name =
     (if op = ''on'' then
        Some [''schtasks'', ''/create'', ''/tn'', name, ''/tr'', taskScriptPath goos name, ''/sc'', taskSchedule name, ''/ru'', ''SYSTEM'',
          ''/rl'', ''HIGHEST'', ''/f'']
      else if op = ''off'' then Some [''schtasks'', ''/delete'', ''/tn'', name, ''/f'']
      else None)"

definition state_json :: "machine \<Rightarrow> string \<Rightarrow> json" where
  "state_json mc name =
     (case taskState mc name of (on, state, run) \<Rightarrow> json_map [(''on'', JBool on), (''state'', JStr state), (''run'', JStr run)])"

definition runAutostart :: "machine \<Rightarrow> string list \<Rightarrow> cli_world \<Rightarrow> cli_world \<times> cli_print list \<times> cli_exit" where
  "runAutostart mc args w =
     (case args of
        [] \<Rightarrow> (w, [], Exit 2)
      | target # rest \<Rightarrow>
          if target = ''status'' then
            (w, [PrintBody (jprint (json_map [(''main'', state_json mc ''OrbitClient''), (''relink'', state_json mc ''OrbitClientRelink'')]))], Exit 0)
          else (case rest of
              [] \<Rightarrow> (w, [], Exit 2)
            | op # _ \<Rightarrow>
                if target \<noteq> ''relink'' \<and> target \<noteq> ''main'' \<and> target \<noteq> ''on'' then (w, [], Exit 2)
                else
                  (case task_command (mc_goos mc) op (if target = ''relink'' then ''OrbitClientRelink'' else ''OrbitClient'') of
                     None \<Rightarrow> (w, [], Exit 2)
                   | Some cmd \<Rightarrow>
                       if mc_runs mc cmd then
                         (effect (Exec cmd) w, [PrintAutostart (if target = ''relink'' then ''OrbitClientRelink'' else ''OrbitClient'') op], Exit 0)
                       else (w, [], Exit 1))))"

subsection \<open>What the probes find\<close>

lemma set_map_filter: "y \<in> set (List.map_filter f xs) \<longleftrightarrow> (\<exists>x \<in> set xs. f x = Some y)"
  by (induction xs) (auto simp: List.map_filter_def split: option.splits)

lemma proc_pid_Some:
  "proc_pid self e = Some p \<longleftrightarrow> pe_dir e \<and> atoi (pe_name e) = Some p \<and> p \<noteq> self \<and> (\<exists>comm. pe_comm e = Some comm \<and> trim_space comm = ''orbit-cli'')"
  by (auto simp: proc_pid_def split: option.splits if_splits)

lemma runningDaemons_linux:
  assumes "mc_goos mc \<noteq> ''windows''"
  shows "sorted (runningDaemons mc)" and "mc_pid mc \<notin> set (runningDaemons mc)"
    and "p \<in> set (runningDaemons mc) \<longleftrightarrow> (\<exists>es. mc_proc mc = Some es \<and> (\<exists>e \<in> set es. pe_dir e \<and> atoi (pe_name e) = Some p
       \<and> p \<noteq> mc_pid mc \<and> (\<exists>comm. pe_comm e = Some comm \<and> trim_space comm = ''orbit-cli'')))"
  using assms by (cases "mc_proc mc"; auto simp: runningDaemons_def set_map_filter proc_pid_Some; fail)+

lemma split_all_lines: "\<forall>l \<in> set ls. brk \<notin> set l \<Longrightarrow> split_all brk (concat (map (\<lambda>l. l @ [brk]) ls)) = ls @ [[]]"
  by (induction ls) (simp_all add: split_all_append split_all_one)

lemma length_lines: "\<forall>l \<in> set ls. length l < k \<Longrightarrow> length (concat (map (\<lambda>l. l @ [brk]) ls)) \<le> k * length ls"
  by (induction ls) (auto simp: algebra_simps)

text \<open>
  The log tail that \<^verbatim>\<open>status\<close> shows. Of a log that ends with a line break and whose lines are shorter than 512 bytes,
  asking for \<open>n\<close> lines gives the last \<open>n - 1\<close> of them (all of them, if there are fewer), whole and in order, without carriage
  returns at their ends.
\<close>

theorem log_tail_lines:
  assumes "\<forall>l \<in> set ls. CHR 0x0A \<notin> set l \<and> length l < 512" and "ls \<noteq> []" and "0 < n"
  shows "logTail (Some (concat (map (\<lambda>l. l @ [CHR 0x0A]) ls))) n = Some (map (trim_right (CHR 0x0D)) (drop (length ls - (n - 1)) ls))"
proof -
  let ?text = "\<lambda>ls. concat (map (\<lambda>l. l @ [CHR 0x0A]) ls)"
  define as where "as = take (length ls - (n - 1)) ls"
  define bs where "bs = drop (length ls - (n - 1)) ls"
  have ls: "ls = as @ bs" by (simp add: as_def bs_def)
  have bs: "length bs \<le> n - 1" "as \<noteq> [] \<Longrightarrow> length bs = n - 1" by (auto simp: bs_def as_def)
  have short: "length (?text bs) \<le> 512 * (n - 1)"
  proof -
    have "length (?text bs) \<le> 512 * length bs" 
      by (rule length_lines) (use assms(1) in \<open>simp add: ls\<close>)
    then show ?thesis using bs(1) by linarith
  qed
  have nobreak: "\<forall>l \<in> set bs. CHR 0x0A \<notin> set l" using assms(1) ls by simp
  let ?buf = "drop (length (?text ls) - min (length (?text ls)) (512 * n)) (?text ls)"
  let ?last = "\<lambda>xs :: string list. if n < length xs then drop (length xs - n) xs else xs"
  have last: "?last (split_all (CHR 0x0A) ?buf) = bs @ [[]]"
  proof (cases "as = []")
    case True
    then have all: "ls = bs" using ls by simp
    then have "?buf = ?text bs" using short by simp
    moreover have "length bs < n" using bs(1) assms(3) by linarith
    ultimately show ?thesis using split_all_lines [OF nobreak] by simp
  next
    case False
    then obtain cs c where as: "as = cs @ [c]" by (cases as rule: rev_cases) auto
    define pre where "pre = ?text cs @ c"
    have whole: "?text ls = pre @ CHR 0x0A # ?text bs" by (simp add: ls as pre_def)
    let ?k = "length (?text ls) - min (length (?text ls)) (512 * n)"
    have "?k \<le> length pre" using short assms(3) by (cases n) (simp_all add: whole)
    then have buf: "?buf = drop ?k pre @ CHR 0x0A # ?text bs" by (simp add: whole)
    have "split_all (CHR 0x0A) ?buf = split_all (CHR 0x0A) (drop ?k pre) @ bs @ [[]]"
      unfolding buf split_all_append split_all_lines [OF nobreak] by simp
    moreover have "length (split_all (CHR 0x0A) (drop ?k pre)) > 0" using split_all_nonempty by blast
    moreover have "length (bs @ [[]]) = n" using bs(2) [OF False] assms(3) by simp
    ultimately show ?thesis by simp
  qed
  have "?text ls \<noteq> []" using assms(2) by (cases ls) auto
  then have "logTail (Some (?text ls)) n = Some (map (trim_right (CHR 0x0D)) bs)"
    unfolding logTail_def Let_def option.case using last by (simp add: trim_right_def)
  then show ?thesis unfolding bs_def .
qed

lemma log_tail_lines_witness:
  "logTail (Some (concat (map (\<lambda>l. l @ [CHR 0x0A]) [''one'', ''two'', ''three'']))) 3 = Some [''two'', ''three'']"
  by (subst log_tail_lines) (simp_all add: trim_right_def)

end
