(* ===== verification/Cli_Main.thy ===== *)
theory Cli_Main
  imports Cli_Together Cli_Status Client_Correct Rolling_Log
begin

text \<open>
  \<^verbatim>\<open>main\<close> of \<^verbatim>\<open>cmd/orbit-cli/main.go\<close>: the choice of the command, the start of the daemon, and its loop that
  connects again after every disconnection, with the goroutine that waits for a signal.
\<close>

subsection \<open>The choice of the command\<close>

datatype main_choice = Command string "string list" | ShowVersion | NoConfig | Daemon string | FlagExit nat

definition main_commands :: "string list" where
  "main_commands = [''register'', ''devices'', ''status'', ''set'', ''autostart'', ''usage'']"

definition main_kind :: "string \<Rightarrow> flag_kind option" where
  "main_kind = map_of [(''config'', StrFlag), (''version'', BoolFlag)]"

definition main_choice :: "string list \<Rightarrow> main_choice" where
  "main_choice args =
     (if args \<noteq> [] \<and> hd args \<in> set main_commands then Command (hd args) (tl args)
      else case parse_flags main_kind args [] of
          Inl e \<Rightarrow> FlagExit (flag_status e)
        | Inr (vs, _) \<Rightarrow>
            if bool_flag ''version'' vs then ShowVersion
            else let path = str_flag [] ''config'' vs in if path = [] then NoConfig else Daemon path)"

text \<open>A command runs in the environment of the machine. The line that \<^verbatim>\<open>set\<close> prints for people is left out.\<close>

definition env_on :: "machine \<Rightarrow> cli_env \<Rightarrow> cli_env" where
  "env_on mc ev = ev\<lparr>ce_goos := mc_goos mc, ce_daemons := runningDaemons mc, ce_task := fst (taskState mc ''OrbitClient'')\<rparr>"

definition run_command ::
  "cli_env \<Rightarrow> machine \<Rightarrow> reg_env \<Rightarrow> 'srv http_client \<Rightarrow> string \<Rightarrow> string list \<Rightarrow> cli_world \<Rightarrow> 'srv
     \<Rightarrow> cli_world \<times> 'srv \<times> cli_print list \<times> cli_exit" where
  "run_command ev mc re hc cmd args w srv =
     (let ev = env_on mc ev; keep = (\<lambda>(srv, out, e). (w, srv, out, e))
      in if cmd = ''register'' then runRegister ev re hc args w srv
         else if cmd = ''devices'' then keep (runDevices ev hc args w srv)
         else if cmd = ''status'' then keep (runStatus ev mc hc args w srv)
         else if cmd = ''set'' then (case runSetArgs ev args w of (w, e) \<Rightarrow> (w, srv, [], e))
         else if cmd = ''autostart'' then (case runAutostart mc args w of (w, out, e) \<Rightarrow> (w, srv, out, e))
         else keep (runUsage ev hc args w srv))"

text \<open>
  The daemon's start: the configuration, the log (\<open>mkdir\<close> is whether its directory can be made), and the client. The result \<open>None\<close>
  ends the process with status 1.
\<close>

definition SetupLog :: "bool \<Rightarrow> cli_config \<Rightarrow> log_manager option option" where
  "SetupLog mkdir cfg =
     (if cc_log_file cfg = [] then Some None else Setup mkdir (cc_log_file cfg) (cc_log_max cfg) (cc_log_keep cfg))"

definition daemon_start :: "cli_env \<Rightarrow> string \<Rightarrow> bool \<Rightarrow> string \<Rightarrow> cli_world \<Rightarrow> (log_manager option \<times> client) option" where
  "daemon_start ev host mkdir path w =
     (case load_cfg ev path w of
        Inl e \<Rightarrow> None
      | Inr cfg \<Rightarrow>
          let cfg = (if cc_hostname cfg = [] then cfg\<lparr>cc_hostname := host\<rparr> else cfg)
          in case SetupLog mkdir cfg of
               None \<Rightarrow> None
             | Some lm \<Rightarrow> (case NewClient cfg of Inl e \<Rightarrow> None | Inr c \<Rightarrow> Some (lm, c)))"

subsection \<open>The loop\<close>

text \<open>
  Where the main goroutine is: before a call of \<^verbatim>\<open>Run\<close>, in a \<^verbatim>\<open>Run\<close> that is online, after it, in a pause of some milliseconds, or at the
  end of the process. The goroutine of the signal waits, has called \<^verbatim>\<open>Close\<close>, or has also closed \<^verbatim>\<open>stop\<close> and is gone; further signals stay in
  the channel, which nobody reads.
\<close>

datatype main_phase = Calling | Online | Deciding | Paused nat | Ended

datatype signal_phase = Waiting | Closing | Handled

record main_state =
  ms_client :: client
  ms_phase :: main_phase
  ms_backoff :: nat
  ms_stop :: bool
  ms_signal :: signal_phase

definition next_backoff :: "nat \<Rightarrow> nat" where
  "next_backoff b = (if b < 60000 then min 60000 (2 * b) else b)"

text \<open>
  A signal that arrives while \<^verbatim>\<open>Run\<close> dials takes effect when \<^verbatim>\<open>Run\<close> has come online or failed: the channel it closed is looked at
  only then. A panic in \<^verbatim>\<open>Run\<close> itself is recovered by \<^verbatim>\<open>safeRun\<close> and leaves any client behind.
\<close>

inductive main_step :: "'os ip_tool \<Rightarrow> main_state \<times> 'os \<Rightarrow> main_state \<times> 'os \<Rightarrow> bool" for tool where
  call: "ms_phase s = Calling \<Longrightarrow> RunStart ev tool (ms_client s) os = (c, os', r) \<Longrightarrow>
     main_step tool (s, os) (s\<lparr>ms_client := c, ms_phase := (if r = None then Online else Deciding)\<rparr>, os')"
| panic: "ms_phase s = Calling \<or> ms_phase s = Online \<Longrightarrow> main_step tool (s, os) (s\<lparr>ms_client := c, ms_phase := Deciding\<rparr>, os')"
| online: "ms_phase s = Online \<Longrightarrow> cl_work (ms_client s) c \<Longrightarrow> main_step tool (s, os) (s\<lparr>ms_client := c\<rparr>, os)"
| returned: "ms_phase s = Online \<Longrightarrow> cl_closed (ms_client s) \<Longrightarrow> cleanup tool (ms_client s) os = (c, os') \<Longrightarrow>
     main_step tool (s, os) (s\<lparr>ms_client := c, ms_phase := Deciding\<rparr>, os')"
| stopped: "ms_phase s = Deciding \<Longrightarrow> ms_stop s \<Longrightarrow> main_step tool (s, os) (s\<lparr>ms_phase := Ended\<rparr>, os)"
| pause: "ms_phase s = Deciding \<Longrightarrow> \<not> ms_stop s \<Longrightarrow> jitter < 500 \<Longrightarrow>
     main_step tool (s, os) (s\<lparr>ms_phase := Paused (ms_backoff s + jitter)\<rparr>, os)"
| wake: "ms_phase s = Paused d \<Longrightarrow>
     main_step tool (s, os) (s\<lparr>ms_phase := Calling, ms_backoff := next_backoff (ms_backoff s)\<rparr>, os)"
| signal: "ms_signal s = Waiting \<Longrightarrow> ms_phase s \<noteq> Ended \<Longrightarrow>
     main_step tool (s, os) (s\<lparr>ms_client := markClosed (ms_client s), ms_signal := Closing\<rparr>, os)"
| close_stop: "ms_signal s = Closing \<Longrightarrow> ms_phase s \<noteq> Ended \<Longrightarrow>
     main_step tool (s, os) (s\<lparr>ms_stop := True, ms_signal := Handled\<rparr>, os)"

inductive_cases main_stepE: "main_step tool (s, os) t"

definition main_start :: "client \<Rightarrow> main_state \<times> 'os \<Rightarrow> bool" where
  "main_start c0 x \<longleftrightarrow> fst x = \<lparr>ms_client = c0, ms_phase = Calling, ms_backoff = 2000, ms_stop = False, ms_signal = Waiting\<rparr>"

subsection \<open>The choice of the command and what it means\<close>

text \<open>
  Neither \<^verbatim>\<open>stop\<close> nor \<^verbatim>\<open>switch\<close> is a command of the program: their words end in the message that a configuration is missing.
\<close>

lemma stop_switch_not_dispatched:
  assumes "cmd = ''stop'' \<or> cmd = ''switch''"
  shows "main_choice (cmd # args) = NoConfig"
proof -
  have "parse_flags main_kind (cmd # args) [] = Inr ([], cmd # args)" using assms by auto
  moreover have "cmd \<notin> set main_commands" using assms by (auto simp: main_commands_def)
  ultimately show ?thesis
    by (simp add: main_choice_def bool_flag_def bool_given_def str_flag_def str_given_def del: parse_flags.simps)
qed

subsection \<open>The pauses\<close>

definition pauses_ok :: "main_state \<times> 'os \<Rightarrow> bool" where
  "pauses_ok x \<longleftrightarrow> (\<exists>n. ms_backoff (fst x) = min 60000 (2000 * 2 ^ n))
     \<and> (\<forall>d. ms_phase (fst x) = Paused d \<longrightarrow> ms_backoff (fst x) \<le> d \<and> d < ms_backoff (fst x) + 500)
     \<and> (ms_stop (fst x) \<longleftrightarrow> ms_signal (fst x) = Handled)"

lemma next_backoff_power: "next_backoff (min 60000 (2000 * 2 ^ n)) = min 60000 (2000 * 2 ^ Suc n)"
  by (simp add: next_backoff_def)

lemma pauses_step: "main_step tool x y \<Longrightarrow> pauses_ok x \<Longrightarrow> pauses_ok y"
proof (induction rule: main_step.induct)
  case (wake s d os)
  then obtain n where "ms_backoff s = min 60000 (2000 * 2 ^ n)" by (auto simp: pauses_ok_def)
  then have "\<exists>n. next_backoff (ms_backoff s) = min 60000 (2000 * 2 ^ n)" using next_backoff_power by metis
  then show ?case using wake by (simp add: pauses_ok_def)
qed (auto simp: pauses_ok_def)

interpretation main_loop: transition_system "main_start c0" "main_step tool" pauses_ok for c0 tool
proof
  show "main_start c0 x \<Longrightarrow> pauses_ok x" for x :: "main_state \<times> 'a" by (auto simp: main_start_def pauses_ok_def intro!: exI [of _ 0])
qed (rule pauses_step)

text \<open>
  The pauses between two connections. The base of the pause is always 2 s doubled some number of times and cut at 60 s, the
  pause itself is the base and less than half a second more, so at least 2 s and less than 60.5 s; and no step, in particular no
  successful connection, ever makes the base smaller again.
\<close>

theorem reconnect_pauses:
  assumes "reach (main_start c0) (main_step tool) (s, os)"
  shows "(\<exists>n. ms_backoff s = min 60000 (2000 * 2 ^ n))
    \<and> (\<forall>d. ms_phase s = Paused d \<longrightarrow> ms_backoff s \<le> d \<and> d < ms_backoff s + 500 \<and> 2000 \<le> d \<and> d < 60500)
    \<and> (\<forall>t. main_step tool (s, os) t \<longrightarrow> ms_backoff s \<le> ms_backoff (fst t))"
proof -
  have ok: "pauses_ok (s, os)" by (rule main_loop.reach_inv [OF assms])
  then obtain n where n: "ms_backoff s = min 60000 (2000 * 2 ^ n)" by (auto simp: pauses_ok_def)
  have "(1 :: nat) \<le> 2 ^ n" by simp
  then have b: "2000 \<le> ms_backoff s" "ms_backoff s \<le> 60000" unfolding n by auto
  have "ms_backoff s \<le> ms_backoff (fst t)" if "main_step tool (s, os) t" for t
    by (rule main_stepE [OF that]) (use b in \<open>auto simp: next_backoff_def\<close>)
  moreover have "ms_backoff s \<le> d \<and> d < ms_backoff s + 500 \<and> 2000 \<le> d \<and> d < 60500" if "ms_phase s = Paused d" for d
    using ok b that by (auto simp: pauses_ok_def)
  ultimately show ?thesis using n by blast
qed

subsection \<open>Signals\<close>

lemma take_routes_open: "take_routes ev tool name d os = (d', os', e) \<Longrightarrow> cl_closed d' = cl_closed d"
  by (auto simp: take_routes_def close_conn_def close_tun_def split: if_splits prod.splits sum.splits)

lemma go_online_open: "go_online ev wl d = (d', e) \<Longrightarrow> cl_closed d' = cl_closed d"
  by (auto simp: go_online_def Let_def close_conn_def close_tun_def split: if_splits)

lemma RunStart_open:
  assumes "RunStart ev tool c os = (c', os', None)"
  shows "\<not> cl_closed c'"
proof -
  note run = assms [unfolded RunStart_def Let_def]
  obtain w wl rest where dial: "dialAndAuth (ru_dial ev) (cl_cfg c) = Inr (w, wl, rest)"
    using run by (cases "dialAndAuth (ru_dial ev) (cl_cfg c)") auto
  have ip: "parse_ip (we_ip wl) \<noteq> []" using run by (auto simp: dial)
  obtain p n where cidr: "parse_cidr (we_cidr wl) = Some (p, n)"
    using run by (cases "parse_cidr (we_cidr wl)") (auto simp: dial ip)
  obtain name where name: "ru_create ev (cc_tun (cl_cfg c)) = Some name"
    using run by (cases "ru_create ev (cc_tun (cl_cfg c))") (auto simp: dial ip cidr)
  have conf: "ru_configure ev"
    using run by (cases "ru_configure ev") (simp_all add: dial ip cidr name split del: if_split)
  let ?d = "c\<lparr>cl_closed := False, cl_closes := 0, cl_ready := False, cl_conn := Some w, cl_ip := parse_ip (we_ip wl),
    cl_mtu := (if we_mtu wl = 0 then 1280 else we_mtu wl), cl_mask := net_mask n,
    cl_tun := Some \<lparr>td_name = name, td_out = [], td_ok = True, td_closed = False\<rparr>\<rparr>"
  obtain d os1 e where t: "take_routes ev tool name ?d os = (d, os1, e)" by (metis prod.collapse)
  have go: "(case e of None \<Rightarrow> (let (c, e) = go_online ev wl d in (c, os1, e)) | Some e \<Rightarrow> (d, os1, Some e)) = (c', os', None)"
    using run by (cases e) (simp_all add: dial ip cidr name conf t split del: if_split)
  then have "e = None" by (cases e) simp_all
  then have "go_online ev wl d = (c', None)" using go by (cases "go_online ev wl d") simp
  then show ?thesis using go_online_open take_routes_open [OF t] by simp
qed

definition winding_down :: "main_state \<Rightarrow> bool" where
  "winding_down s \<longleftrightarrow> ms_signal s = Handled \<and> ms_stop s \<and> (ms_phase s = Online \<or> ms_phase s = Deciding \<or> ms_phase s = Ended)"

lemma winding_down_step: "main_step tool x y \<Longrightarrow> winding_down (fst x) \<Longrightarrow> winding_down (fst y)"
  by (induction rule: main_step.induct) (auto simp: winding_down_def)

lemma winding_down_steps: "(main_step tool)\<^sup>*\<^sup>* x y \<Longrightarrow> winding_down (fst x) \<Longrightarrow> winding_down (fst y)"
  by (induction rule: rtranclp_induct) (auto intro: winding_down_step)


subsection \<open>A run\<close>

definition paused_main :: main_state where
  "paused_main = \<lparr>ms_client = sample_new, ms_phase = Paused 2000, ms_backoff = 2000, ms_stop = False, ms_signal = Waiting\<rparr>"

lemma paused_reach: "reach (main_start sample_new) (main_step toy_ip) (paused_main, [])"
proof -
  let ?s = "\<lambda>p. \<lparr>ms_client = sample_new, ms_phase = p, ms_backoff = 2000, ms_stop = False, ms_signal = Waiting\<rparr>"
  have "reach (main_start sample_new) (main_step toy_ip) (?s Calling, [])" by (rule reach_init) (simp add: main_start_def)
  moreover have "main_step toy_ip (?s Calling, []) (?s Deciding, [])"
    using main_step.panic [of "?s Calling" toy_ip "[]" sample_new "[]"] by simp
  moreover have "main_step toy_ip (?s Deciding, []) (?s (Paused 2000), [])"
    using main_step.pause [of "?s Deciding" 0 toy_ip "[]"] by simp
  ultimately show ?thesis unfolding paused_main_def by (meson reach_step)
qed

lemma reconnect_pauses_witness:
  "reach (main_start sample_new) (main_step toy_ip) (paused_main, []) \<and> ms_phase paused_main = Paused 2000 \<and> (2000 :: nat) < 60500
   \<and> (\<exists>n. ms_backoff paused_main = min 60000 (2000 * 2 ^ n))"
  using reconnect_pauses [OF paused_reach] paused_reach by (simp add: paused_main_def)

lemma RunStart_marked: "RunStart ev tool (markClosed c) os = RunStart ev tool c os"
  by (simp add: RunStart_def markClosed_def)


end
