(* ===== verification/Genconfig.thy ===== *)
theory Genconfig
  imports Cli_Api Rolling_Log
begin

text \<open>
  \<^verbatim>\<open>cmd/orbitd\<close>: \<^verbatim>\<open>genconfig\<close>, which makes a certificate authority, a certificate for the server and the configuration
  (\<^verbatim>\<open>genconfig.go\<close>), and \<^verbatim>\<open>main\<close>, which starts the server from a configuration and ends it (\<^verbatim>\<open>main.go\<close>). The operations of
  \<^verbatim>\<open>crypto/x509\<close>, the random source, the clock's calendar and YAML are arguments; a YAML document is the tree of its values, for
  which the type of JSON values serves.
\<close>

subsection \<open>Certificates\<close>

datatype key_usage = CertSign | CRLSign | DigitalSignature | KeyEncipherment | ServerAuth

record cert_template =
  ct_serial :: nat
  ct_common :: string
  ct_org :: "string list"
  ct_before :: time
  ct_after :: time
  ct_is_ca :: bool
  ct_usage :: "key_usage list"
  ct_ext_usage :: "key_usage list"
  ct_ips :: "ip list"
  ct_dns :: "string list"

text \<open>
  Cryptography with keys of type \<open>'k\<close>: the key and the serial number of the n-th draw, a certificate for a template, signed for the
  parent's template with a key, the encoding of a private key, PEM, and ten years after a time.
\<close>

record 'k crypto =
  cx_key :: "nat \<Rightarrow> 'k option"
  cx_serial :: "nat \<Rightarrow> nat option"
  cx_create :: "cert_template \<Rightarrow> cert_template \<Rightarrow> 'k \<Rightarrow> 'k \<Rightarrow> string option"
  cx_marshal :: "'k \<Rightarrow> string option"
  cx_pem :: "string \<Rightarrow> string \<Rightarrow> string"
  cx_ten_years :: "time \<Rightarrow> time"

datatype gen_error =
    GenFlags flag_error | GenNoHost | GenBadHost string | GenRand | GenShortToken | GenAbs | GenMkdir
  | GenKey | GenSerial | GenCreate | GenMarshal | GenWrite string | GenYaml

definition ca_template :: "'k crypto \<Rightarrow> time \<Rightarrow> nat \<Rightarrow> cert_template" where
  "ca_template cx now sn = \<lparr>ct_serial = sn, ct_common = ''orbit-net CA'', ct_org = [''orbit-net''], ct_before = now - hour,
     ct_after = cx_ten_years cx now, ct_is_ca = True, ct_usage = [CertSign, CRLSign, DigitalSignature], ct_ext_usage = [], ct_ips = [], ct_dns = []\<rparr>"

definition makeCA :: "'k crypto \<Rightarrow> time \<Rightarrow> gen_error + cert_template \<times> 'k \<times> string" where
  "makeCA cx now =
     (case cx_key cx 0 of
        None \<Rightarrow> Inl GenKey
      | Some key \<Rightarrow>
          (case cx_serial cx 0 of
             None \<Rightarrow> Inl GenSerial
           | Some sn \<Rightarrow>
               let tmpl = ca_template cx now sn
               in (case cx_create cx tmpl tmpl key key of
                     None \<Rightarrow> Inl GenCreate
                   | Some der \<Rightarrow> Inr (tmpl, key, cx_pem cx ''CERTIFICATE'' der))))"

definition server_template :: "'k crypto \<Rightarrow> time \<Rightarrow> nat \<Rightarrow> string \<Rightarrow> cert_template" where
  "server_template cx now sn host =
     (let ip = parse_ip host
      in \<lparr>ct_serial = sn, ct_common = host, ct_org = [''orbit-net''], ct_before = now - hour, ct_after = cx_ten_years cx now, ct_is_ca = False,
          ct_usage = [DigitalSignature, KeyEncipherment], ct_ext_usage = [ServerAuth],
          ct_ips = (if ip \<noteq> [] then [ip] else []), ct_dns = (if ip \<noteq> [] then [] else [host])\<rparr>)"

definition makeServerCert :: "'k crypto \<Rightarrow> time \<Rightarrow> cert_template \<Rightarrow> 'k \<Rightarrow> string \<Rightarrow> gen_error + string \<times> string" where
  "makeServerCert cx now caCert caKey host =
     (case cx_key cx 1 of
        None \<Rightarrow> Inl GenKey
      | Some key \<Rightarrow>
          (case cx_serial cx 1 of
             None \<Rightarrow> Inl GenSerial
           | Some sn \<Rightarrow>
               (case cx_create cx (server_template cx now sn host) caCert key caKey of
                  None \<Rightarrow> Inl GenCreate
                | Some der \<Rightarrow>
                    (case cx_marshal cx key of
                       None \<Rightarrow> Inl GenMarshal
                     | Some keyDER \<Rightarrow> Inr (cx_pem cx ''CERTIFICATE'' der, cx_pem cx ''EC PRIVATE KEY'' keyDER)))))"

subsection \<open>The configuration\<close>

definition randToken :: "bytes option \<Rightarrow> string option" where
  "randToken r = map_option hex_encode r"

definition quota_yaml :: "int \<Rightarrow> int \<Rightarrow> json" where
  "quota_yaml b e = json_map [(''bytes_per_day'', JNum b), (''egress_bytes_per_day'', JNum e)]"

definition buildYAML :: "string \<Rightarrow> string \<Rightarrow> string \<Rightarrow> string \<Rightarrow> string \<Rightarrow> string \<Rightarrow> json" where
  "buildYAML dir host listen web admin token =
     (let certDir = path_join dir ''certs''; webAddr = (if web \<noteq> [] then ''0.0.0.0:'' @ web else [])
      in json_map
        [(''listen_addr'', JStr (''0.0.0.0:'' @ listen)),
         (''tls'', json_map [(''cert_file'', JStr (path_join certDir ''orbitd-cert.pem'')), (''key_file'', JStr (path_join certDir ''orbitd-key.pem''))]),
         (''public'', json_map [(''addr'', JStr webAddr), (''ca_file'', JStr (path_join certDir ''ca.pem''))]),
         (''networks'', json_map [(''default'', JStr ''10.0.0.0/24'')]),
         (''admin'', json_map [(''addr'', JStr admin), (''token'', JStr token)]),
         (''data_dir'', JStr (path_join dir ''data'')), (''log_file'', JStr (path_join dir ''orbitd.log'')),
         (''log_max_bytes'', JNum 10485760), (''log_keep'', JNum 3), (''default_tier'', JStr ''free''),
         (''default_quota'', quota_yaml 1073741824 536870912),
         (''tiers'', json_map [(''free'', quota_yaml 1073741824 536870912), (''pro'', quota_yaml 10737418240 2147483648),
            (''team'', quota_yaml 107374182400 10737418240)])])"

text \<open>
  Decoding a document into the configuration of the server, by the tags of its structs: a key is matched as it is written, one that no
  field has is ignored, a field that is absent or null keeps its value. The keys of a map are distinct. A scalar has the type of its
  field here (YAML also reads a number into a string).
\<close>

fun yaml_members :: "'a field list \<Rightarrow> (string \<times> json) list \<Rightarrow> 'a \<Rightarrow> 'a option" where
  "yaml_members fs [] x = Some x"
| "yaml_members fs ((k, v) # ms) x =
     (case map_of fs k of None \<Rightarrow> yaml_members fs ms x | Some f \<Rightarrow> Option.bind (f v x) (yaml_members fs ms))"

definition yaml_struct :: "'a field list \<Rightarrow> json \<Rightarrow> 'a \<Rightarrow> 'a option" where
  "yaml_struct fs j x = (case j of JNull \<Rightarrow> Some x | JObj ms \<Rightarrow> yaml_members fs ms x | _ \<Rightarrow> None)"

definition quota_fields :: "quota_spec field list" where
  "quota_fields = [(''bytes_per_day'', fint (\<lambda>v x. x\<lparr>qs_bytes := v\<rparr>)), (''egress_bytes_per_day'', fint (\<lambda>v x. x\<lparr>qs_egress := v\<rparr>))]"

definition fmap_of :: "(json \<Rightarrow> 'b option) \<Rightarrow> ((string, 'b) gomap \<Rightarrow> 'a \<Rightarrow> 'a) \<Rightarrow> json \<Rightarrow> 'a \<Rightarrow> 'a option" where
  "fmap_of dec upd j x =
     (case j of
        JNull \<Rightarrow> Some x
      | JObj ms \<Rightarrow> map_option (\<lambda>ps. upd ps x) (those (map (\<lambda>(k, v). map_option (Pair k) (dec v)) ms))
      | _ \<Rightarrow> None)"

definition dec_str :: "json \<Rightarrow> string option" where
  "dec_str j = fstr (\<lambda>v x. v) j []"

definition zero_quota :: quota_spec where
  "zero_quota = \<lparr>qs_bytes = 0, qs_egress = 0\<rparr>"

definition config_fields :: "config field list" where
  "config_fields =
     [(''listen_addr'', fstr (\<lambda>v x. x\<lparr>cf_listen := v\<rparr>)),
      (''tls'', \<lambda>j x. yaml_struct [(''cert_file'', fstr (\<lambda>v x. x\<lparr>cf_cert := v\<rparr>)), (''key_file'', fstr (\<lambda>v x. x\<lparr>cf_key := v\<rparr>))] j x),
      (''networks'', fmap_of dec_str (\<lambda>v x. x\<lparr>cf_networks := v\<rparr>)),
      (''resolver'', fstr (\<lambda>v x. x\<lparr>cf_resolver := v\<rparr>)),
      (''admin'', \<lambda>j x. yaml_struct [(''addr'', fstr (\<lambda>v x. x\<lparr>cf_admin_addr := v\<rparr>)), (''token'', fstr (\<lambda>v x. x\<lparr>cf_admin_token := v\<rparr>))] j x),
      (''public'', \<lambda>j x. yaml_struct [(''addr'', fstr (\<lambda>v x. x\<lparr>cf_public_addr := v\<rparr>)), (''ca_file'', fstr (\<lambda>v x. x\<lparr>cf_public_ca := v\<rparr>))] j x),
      (''data_dir'', fstr (\<lambda>v x. x\<lparr>cf_data_dir := v\<rparr>)),
      (''log_file'', fstr (\<lambda>v x. x\<lparr>cf_log_file := v\<rparr>)),
      (''log_max_bytes'', fint (\<lambda>v x. x\<lparr>cf_log_max := v\<rparr>)),
      (''log_keep'', fint (\<lambda>v x. x\<lparr>cf_log_keep := v\<rparr>)),
      (''default_quota'', \<lambda>j x. map_option (\<lambda>q. x\<lparr>cf_default_quota := q\<rparr>) (yaml_struct quota_fields j (cf_default_quota x))),
      (''default_tier'', fstr (\<lambda>v x. x\<lparr>cf_default_tier := v\<rparr>)),
      (''tiers'', fmap_of (\<lambda>j. yaml_struct quota_fields j zero_quota) (\<lambda>v x. x\<lparr>cf_tiers := Some v\<rparr>))]"

definition zero_config :: config where
  "zero_config = \<lparr>cf_listen = [], cf_cert = [], cf_key = [], cf_networks = [], cf_resolver = [], cf_admin_addr = [], cf_admin_token = [],
     cf_public_addr = [], cf_public_ca = [], cf_data_dir = [], cf_log_file = [], cf_log_max = 0, cf_log_keep = 0,
     cf_default_quota = zero_quota, cf_default_tier = [], cf_tiers = None\<rparr>"

subsection \<open>genconfig\<close>

text \<open>
  What \<^verbatim>\<open>genconfig\<close> meets: the random bytes of the token, the absolute form of a path, whether a directory can be made, the
  outcome of writing a file, and YAML.
\<close>

record gen_env =
  ge_now :: time
  ge_rand :: "nat \<Rightarrow> bytes option"
  ge_abs :: "string \<Rightarrow> string option"
  ge_mkdir :: "string \<Rightarrow> bool"
  ge_write :: "string \<Rightarrow> write_io"
  ge_yaml :: "json \<Rightarrow> string option"

record gen_flags =
  gf_host :: string
  gf_listen :: string
  gf_web :: string
  gf_admin :: string
  gf_token :: string
  gf_dir :: string

definition gen_kind :: "string \<Rightarrow> flag_kind option" where
  "gen_kind = map_of (map (\<lambda>n. (n, StrFlag)) [''host'', ''listen'', ''web'', ''admin'', ''token'', ''dir''])"

definition gen_flags_of :: "flag_values \<Rightarrow> gen_flags" where
  "gen_flags_of vs = \<lparr>gf_host = str_flag [] ''host'' vs, gf_listen = str_flag ''28443'' ''listen'' vs, gf_web = str_flag ''4431'' ''web'' vs,
     gf_admin = str_flag ''127.0.0.1:18444'' ''admin'' vs, gf_token = str_flag [] ''token'' vs, gf_dir = str_flag ''.'' ''dir'' vs\<rparr>"

text \<open>The host name without surrounding blanks and the token, or what is wrong with them.\<close>

definition gen_check :: "gen_env \<Rightarrow> gen_flags \<Rightarrow> gen_error + string \<times> string" where
  "gen_check ge fl =
     (if gf_host fl = [] then Inl GenNoHost
      else
        let host = trim_space (gf_host fl)
        in if parse_ip host = [] \<and> CHR ''.'' \<notin> set host then Inl (GenBadHost host)
           else case (if gf_token fl = [] then randToken (ge_rand ge 12) else Some (gf_token fl)) of
               None \<Rightarrow> Inl GenRand
             | Some token \<Rightarrow> if length token < 12 then Inl GenShortToken else Inr (host, token))"

text \<open>Files are written one after the other, up to the first that cannot be.\<close>

fun write_all :: "(string \<Rightarrow> write_io) \<Rightarrow> (string \<times> string) list \<Rightarrow> files \<Rightarrow> files \<times> gen_error option" where
  "write_all io [] fs = (fs, None)"
| "write_all io ((path, b) # rest) fs =
     (case write_file (io path) path b fs of
        (fs, ok) \<Rightarrow> if ok then write_all io rest fs else (fs, Some (GenWrite path)))"

definition gen_files :: "gen_env \<Rightarrow> 'k crypto \<Rightarrow> gen_flags \<Rightarrow> string \<Rightarrow> string \<Rightarrow> string \<Rightarrow> files \<Rightarrow> files \<times> gen_error option" where
  "gen_files ge cx fl host token dirAbs fs =
     (let certDir = path_join dirAbs ''certs''
      in if \<not> ge_mkdir ge certDir then (fs, Some GenMkdir)
         else case makeCA cx (ge_now ge) of
             Inl e \<Rightarrow> (fs, Some e)
           | Inr (caCert, caKey, caPEM) \<Rightarrow>
         (case makeServerCert cx (ge_now ge) caCert caKey host of
             Inl e \<Rightarrow> (fs, Some e)
           | Inr (srvCertPEM, srvKeyPEM) \<Rightarrow>
         (case write_all (ge_write ge) [(path_join certDir ''ca.pem'', caPEM)] fs of
             (fs, Some e) \<Rightarrow> (fs, Some e)
           | (fs, None) \<Rightarrow>
         (case cx_marshal cx caKey of
             None \<Rightarrow> (fs, Some GenMarshal)
           | Some caKeyDER \<Rightarrow>
         (case write_all (ge_write ge) [(path_join certDir ''ca-key.pem'', cx_pem cx ''EC PRIVATE KEY'' caKeyDER),
                (path_join certDir ''orbitd-cert.pem'', srvCertPEM), (path_join certDir ''orbitd-key.pem'', srvKeyPEM)] fs of
             (fs, Some e) \<Rightarrow> (fs, Some e)
           | (fs, None) \<Rightarrow>
         (case ge_yaml ge (buildYAML dirAbs host (gf_listen fl) (gf_web fl) (gf_admin fl) token) of
             None \<Rightarrow> (fs, Some GenYaml)
           | Some raw \<Rightarrow> write_all (ge_write ge) [(path_join dirAbs ''orbitd.yaml'', raw)] fs))))))"

definition runGenconfig :: "gen_env \<Rightarrow> 'k crypto \<Rightarrow> string list \<Rightarrow> files \<Rightarrow> files \<times> gen_error option" where
  "runGenconfig ge cx args fs =
     (case parse_flags gen_kind args [] of
        Inl e \<Rightarrow> (fs, Some (GenFlags e))
      | Inr (vs, _) \<Rightarrow>
          (case gen_check ge (gen_flags_of vs) of
             Inl e \<Rightarrow> (fs, Some e)
           | Inr (host, token) \<Rightarrow>
               (case ge_abs ge (gf_dir (gen_flags_of vs)) of
                  None \<Rightarrow> (fs, Some GenAbs)
                | Some dirAbs \<Rightarrow> gen_files ge cx (gen_flags_of vs) host token dirAbs fs)))"

subsection \<open>The server process\<close>

datatype orbitd_choice = RunGenconfig "string list" | OrbitdVersion | OrbitdNoConfig | OrbitdStart string | OrbitdFlagExit nat

definition orbitd_choice :: "string list \<Rightarrow> orbitd_choice" where
  "orbitd_choice args =
     (if args \<noteq> [] \<and> hd args = ''genconfig'' then RunGenconfig (tl args)
      else case parse_flags (map_of [(''config'', StrFlag), (''version'', BoolFlag)]) args [] of
          Inl e \<Rightarrow> OrbitdFlagExit (flag_status e)
        | Inr (vs, _) \<Rightarrow>
            if bool_flag ''version'' vs then OrbitdVersion
            else let path = str_flag [] ''config'' vs in if path = [] then OrbitdNoConfig else OrbitdStart path)"

text \<open>The configuration of a file; \<open>unyaml\<close> reads a document.\<close>

definition orbitd_load :: "(string \<Rightarrow> json option) \<Rightarrow> string \<Rightarrow> files \<Rightarrow> config option" where
  "orbitd_load unyaml path fs =
     (case Option.bind (fs path) unyaml of
        None \<Rightarrow> None
      | Some j \<Rightarrow>
          map_option (\<lambda>cfg. if cf_admin_addr cfg = [] then cfg\<lparr>cf_admin_addr := ''127.0.0.1:18444''\<rparr> else cfg)
            (yaml_struct config_fields j zero_config))"

text \<open>
  The listeners: \<open>pair\<close> is whether a certificate and a key belong together, \<open>bind\<close> whether an address can be listened on. Both HTTP
  listeners give an error when they cannot open, and serve otherwise.
\<close>

definition listenTLS :: "(string \<Rightarrow> string \<Rightarrow> bool) \<Rightarrow> (string \<Rightarrow> bool) \<Rightarrow> files \<Rightarrow> string \<Rightarrow> config \<Rightarrow> bool" where
  "listenTLS pair bind fs addr cfg =
     (case fs (cf_cert cfg) of
        None \<Rightarrow> False
      | Some crt \<Rightarrow> (case fs (cf_key cfg) of None \<Rightarrow> False | Some key \<Rightarrow> pair crt key \<and> bind addr))"

datatype serve_error = ErrServerClosed | ErrServeListen

definition ListenAndServe :: "(string \<Rightarrow> bool) \<Rightarrow> config \<Rightarrow> serve_error option" where
  "ListenAndServe bind cfg =
     (if cf_admin_addr cfg = [] then Some ErrServerClosed else if bind (cf_admin_addr cfg) then None else Some ErrServeListen)"

definition ListenAndServePublic :: "(string \<Rightarrow> string \<Rightarrow> bool) \<Rightarrow> (string \<Rightarrow> bool) \<Rightarrow> files \<Rightarrow> config \<Rightarrow> serve_error option" where
  "ListenAndServePublic pair bind fs cfg =
     (if cf_public_addr cfg = [] then Some ErrServerClosed
      else if listenTLS pair bind fs (cf_public_addr cfg) cfg then None else Some ErrServeListen)"

text \<open>The start; \<open>None\<close> is an exit with status 1.\<close>

definition orbitd_start :: "time \<Rightarrow> bool \<Rightarrow> disk \<Rightarrow> config \<Rightarrow> (log_manager option \<times> server) option" where
  "orbitd_start now mkdir dk cfg =
     (case (if cf_log_file cfg = [] then Some None else Setup mkdir (cf_log_file cfg) (cf_log_max cfg) (cf_log_keep cfg)) of
        None \<Rightarrow> None
      | Some lm \<Rightarrow> (case NewServer now cfg dk of Inl e \<Rightarrow> None | Inr s \<Rightarrow> Some (lm, s)))"

text \<open>
  What ends the process: a signal, the end of \<^verbatim>\<open>Serve\<close>, or the failure of one of the two HTTP listeners, of which the public one runs only
  if it has an address. \<open>io\<close> is whether the usage file can be written when \<^verbatim>\<open>Serve\<close> returns.
\<close>

datatype orbitd_event = Signal | ServeEnds | AdminFails | PublicFails

definition orbitd_end :: "bool \<Rightarrow> orbitd_event \<Rightarrow> server \<Rightarrow> (server \<times> cli_exit) option" where
  "orbitd_end io e s =
     (case e of
        Signal \<Rightarrow> Some (fst (serve_exit io (Close s)), Exit 0)
      | ServeEnds \<Rightarrow> (case serve_exit io s of (s, err) \<Rightarrow> Some (s, if err then Exit 1 else Exit 0))
      | AdminFails \<Rightarrow> Some (s, Exit 1)
      | PublicFails \<Rightarrow> if cf_public_addr (sv_cfg s) = [] then None else Some (s, Exit 1))"

subsection \<open>The configuration that is written is the one that is read\<close>

definition gen_config :: "string \<Rightarrow> string \<Rightarrow> string \<Rightarrow> string \<Rightarrow> string \<Rightarrow> config" where
  "gen_config dir listen web admin token =
     \<lparr>cf_listen = ''0.0.0.0:'' @ listen, cf_cert = path_join (path_join dir ''certs'') ''orbitd-cert.pem'',
      cf_key = path_join (path_join dir ''certs'') ''orbitd-key.pem'', cf_networks = [(''default'', ''10.0.0.0/24'')], cf_resolver = [],
      cf_admin_addr = admin, cf_admin_token = token, cf_public_addr = (if web \<noteq> [] then ''0.0.0.0:'' @ web else []),
      cf_public_ca = path_join (path_join dir ''certs'') ''ca.pem'', cf_data_dir = path_join dir ''data'', cf_log_file = path_join dir ''orbitd.log'',
      cf_log_max = 10485760, cf_log_keep = 3, cf_default_quota = \<lparr>qs_bytes = 1073741824, qs_egress = 536870912\<rparr>, cf_default_tier = ''free'',
      cf_tiers = Some [(''free'', \<lparr>qs_bytes = 1073741824, qs_egress = 536870912\<rparr>), (''pro'', \<lparr>qs_bytes = 10737418240, qs_egress = 2147483648\<rparr>),
        (''team'', \<lparr>qs_bytes = 107374182400, qs_egress = 10737418240\<rparr>)]\<rparr>"

lemma quota_decodes: "int64 b \<Longrightarrow> int64 e \<Longrightarrow> yaml_struct quota_fields (quota_yaml b e) q = Some \<lparr>qs_bytes = b, qs_egress = e\<rparr>"
  by (simp add: quota_yaml_def json_map_def) (simp add: yaml_struct_def quota_fields_def fint_def)

lemma yaml_sorted:
  "buildYAML dir host listen web admin token = JObj
     [(''admin'', json_map [(''addr'', JStr admin), (''token'', JStr token)]),
      (''data_dir'', JStr (path_join dir ''data'')), (''default_quota'', quota_yaml 1073741824 536870912), (''default_tier'', JStr ''free''),
      (''listen_addr'', JStr (''0.0.0.0:'' @ listen)), (''log_file'', JStr (path_join dir ''orbitd.log'')), (''log_keep'', JNum 3),
      (''log_max_bytes'', JNum 10485760), (''networks'', json_map [(''default'', JStr ''10.0.0.0/24'')]),
      (''public'', json_map [(''addr'', JStr (if web \<noteq> [] then ''0.0.0.0:'' @ web else [])), (''ca_file'', JStr (path_join (path_join dir ''certs'') ''ca.pem''))]),
      (''tiers'', json_map [(''free'', quota_yaml 1073741824 536870912), (''pro'', quota_yaml 10737418240 2147483648),
         (''team'', quota_yaml 107374182400 10737418240)]),
      (''tls'', json_map [(''cert_file'', JStr (path_join (path_join dir ''certs'') ''orbitd-cert.pem'')),
         (''key_file'', JStr (path_join (path_join dir ''certs'') ''orbitd-key.pem''))])]"
  by (simp add: buildYAML_def Let_def json_map_def [of "_ # _ # _ # _ # _"])

lemma maps_decode:
  "fmap_of dec_str upd (json_map [(''default'', JStr net)]) x = Some (upd [(''default'', net)] x)"
  "fmap_of (\<lambda>j. yaml_struct quota_fields j zero_quota) upd' (json_map [(''free'', quota_yaml 1073741824 536870912),
      (''pro'', quota_yaml 10737418240 2147483648), (''team'', quota_yaml 107374182400 10737418240)]) y =
     Some (upd' [(''free'', \<lparr>qs_bytes = 1073741824, qs_egress = 536870912\<rparr>), (''pro'', \<lparr>qs_bytes = 10737418240, qs_egress = 2147483648\<rparr>),
        (''team'', \<lparr>qs_bytes = 107374182400, qs_egress = 10737418240\<rparr>)] y)"
  by (simp_all add: fmap_of_def json_map_def dec_str_def fstr_def quota_decodes int64_def)

lemma pairs_decode:
  "yaml_struct [(k1, fstr f), (k2, fstr g)] (JObj [(k1, JStr v), (k2, JStr w)]) x = Some (g w (f v x))" if "k1 \<noteq> k2"
  using that by (simp add: yaml_struct_def fstr_def)

lemma buildYAML_decodes:
  "yaml_struct config_fields (buildYAML dir host listen web admin token) zero_config = Some (gen_config dir listen web admin token)"
proof -
  have tls: "json_map [(''cert_file'', a), (''key_file'', b)] = JObj [(''cert_file'', a), (''key_file'', b)]"
    "json_map [(''addr'', a), (''token'', b)] = JObj [(''addr'', a), (''token'', b)]"
    "json_map [(''addr'', a), (''ca_file'', b)] = JObj [(''addr'', a), (''ca_file'', b)]" for a b
    by (simp_all add: json_map_def)
  show ?thesis
    unfolding yaml_sorted tls
    by (simp add: yaml_struct_def [of config_fields])
      (simp add: config_fields_def pairs_decode fstr_def fint_def int64_def maps_decode quota_decodes zero_config_def gen_config_def)
qed

subsection \<open>Absolute paths\<close>

text \<open>What \<^verbatim>\<open>filepath.Abs\<close> gives: a clean path from the root.\<close>

definition abs_path :: "string \<Rightarrow> bool" where
  "abs_path p \<longleftrightarrow> p \<noteq> [] \<and> hd p = CHR ''/'' \<and> path_clean p = p"

definition simple_name :: "string \<Rightarrow> bool" where
  "simple_name c \<longleftrightarrow> c \<noteq> [] \<and> c \<noteq> ''.'' \<and> c \<noteq> ''..'' \<and> CHR ''/'' \<notin> set c"

definition under :: "string \<Rightarrow> string" where
  "under p = (if p = ''/'' then p else p @ ''/'')"

lemma join_slash_snoc: "join_slash (xs @ [c]) = (if xs = [] then c else join_slash xs @ ''/'' @ c)"
  by (induction xs rule: join_slash.induct) auto

lemma path_clean_under:
  assumes "abs_path p" and "simple_name c"
  shows "path_clean (p @ ''/'' @ c) = under p @ c"
proof -
  define xs where "xs = foldl (clean_step True) [] (split_all CHR ''/'' p)"
  have "p \<noteq> []" "hd p = CHR ''/''" "path_clean p = p" using assms(1) by (simp_all add: abs_path_def)
  moreover from this(1,2) have "path_clean p = CHR ''/'' # join_slash xs" by (simp add: path_clean_def Let_def xs_def)
  ultimately have p: "CHR ''/'' # join_slash xs = p" by simp
  have "foldl (clean_step True) [] (split_all CHR ''/'' (p @ ''/'' @ c)) = xs @ [c]"
    using assms(2) by (simp add: split_all_append split_all_one simple_name_def clean_step_def xs_def)
  then have clean: "path_clean (p @ ''/'' @ c) = CHR ''/'' # join_slash (xs @ [c])"
    using assms(1) by (simp add: abs_path_def path_clean_def Let_def)
  show ?thesis
  proof (cases "p = ''/''")
    case True
    then have "join_slash xs = []" using p by simp
    then have "xs = [] \<or> xs = [[]]" by (cases xs rule: join_slash.cases) auto
    moreover have "xs \<noteq> [[]]" by (simp add: xs_def True clean_step_def)
    ultimately show ?thesis using clean True by (simp add: under_def)
  next
    case False
    then have "xs \<noteq> []" using p by auto
    then show ?thesis using clean False p by (simp add: join_slash_snoc under_def)
  qed
qed

lemma path_join_under:
  assumes "abs_path p" and "simple_name c"
  shows "path_join p c = under p @ c" and "abs_path (under p @ c)"
proof -
  show "path_join p c = under p @ c"
    using assms path_clean_under [OF assms] by (auto simp: path_join_def abs_path_def simple_name_def)
  show "abs_path (under p @ c)"
  proof (cases "p = ''/''")
    case True
    have "path_clean (CHR ''/'' # c) = CHR ''/'' # c"
      using assms(2) split_all_append [of "CHR ''/''" "[]" c]
      by (simp add: path_clean_def Let_def split_all_one simple_name_def clean_step_def)
    then show ?thesis using True by (simp add: abs_path_def under_def)
  next
    case False
    then show ?thesis using assms path_clean_under [OF assms] by (auto simp: abs_path_def under_def)
  qed
qed

subsection \<open>What genconfig leaves starts\<close>

lemma write_all_written:
  assumes "write_all io ps fs = (fs', None)"
  shows "fs' = foldl (\<lambda>f (p, b). f(p \<mapsto> b)) fs ps"
  using assms
proof (induction ps arbitrary: fs)
  case (Cons pb ps)
  then show ?case
    by (cases pb) (auto simp: write_file_def fun_upd_def split: write_io.splits)
qed simp

lemma gen_files_written:
  assumes "gen_files ge cx fl host token dir fs = (fs', None)"
  shows "\<exists>ca caKey caPEM crt key caDER raw.
      makeCA cx (ge_now ge) = Inr (ca, caKey, caPEM) \<and> makeServerCert cx (ge_now ge) ca caKey host = Inr (crt, key)
    \<and> cx_marshal cx caKey = Some caDER
    \<and> ge_yaml ge (buildYAML dir host (gf_listen fl) (gf_web fl) (gf_admin fl) token) = Some raw
    \<and> fs' = (let certs = path_join dir ''certs''
        in fs(path_join certs ''ca.pem'' \<mapsto> caPEM, path_join certs ''ca-key.pem'' \<mapsto> cx_pem cx ''EC PRIVATE KEY'' caDER,
              path_join certs ''orbitd-cert.pem'' \<mapsto> crt, path_join certs ''orbitd-key.pem'' \<mapsto> key, path_join dir ''orbitd.yaml'' \<mapsto> raw))"
proof -
  let ?certs = "path_join dir ''certs''"
  have mk: "(\<not> ge_mkdir ge ?certs) = False" using assms by (cases "ge_mkdir ge ?certs") (simp_all add: gen_files_def)
  note run = assms [unfolded gen_files_def Let_def mk if_False]
  obtain ca caKey caPEM where ca: "makeCA cx (ge_now ge) = Inr (ca, caKey, caPEM)"
    using run by (cases "makeCA cx (ge_now ge)") auto
  note run = run [unfolded ca sum.case prod.case]
  obtain crt key where srv: "makeServerCert cx (ge_now ge) ca caKey host = Inr (crt, key)"
    using run by (cases "makeServerCert cx (ge_now ge) ca caKey host") auto
  note run = run [unfolded srv sum.case prod.case]
  obtain f1 where w1: "write_all (ge_write ge) [(path_join ?certs ''ca.pem'', caPEM)] fs = (f1, None)"
  proof -
    obtain f1 e where w: "write_all (ge_write ge) [(path_join ?certs ''ca.pem'', caPEM)] fs = (f1, e)" by (rule prod.exhaust)
    have "e = None" using run unfolding w by (cases e) simp_all
    then show ?thesis using w that by blast
  qed
  note run = run [unfolded w1 prod.case option.case]
  obtain caDER where der: "cx_marshal cx caKey = Some caDER" using run by (cases "cx_marshal cx caKey") simp_all
  note run = run [unfolded der option.case]
  let ?three = "[(path_join ?certs ''ca-key.pem'', cx_pem cx ''EC PRIVATE KEY'' caDER), (path_join ?certs ''orbitd-cert.pem'', crt),
      (path_join ?certs ''orbitd-key.pem'', key)]"
  obtain f2 where w2: "write_all (ge_write ge) ?three f1 = (f2, None)"
  proof -
    obtain f2 e where w: "write_all (ge_write ge) ?three f1 = (f2, e)" by (rule prod.exhaust)
    have "e = None" using run unfolding w by (cases e) simp_all
    then show ?thesis using w that by blast
  qed
  note run = run [unfolded w2 prod.case option.case]
  obtain raw where raw: "ge_yaml ge (buildYAML dir host (gf_listen fl) (gf_web fl) (gf_admin fl) token) = Some raw"
    using run by (cases "ge_yaml ge (buildYAML dir host (gf_listen fl) (gf_web fl) (gf_admin fl) token)") simp_all
  note w3 = run [unfolded raw option.case]
  show ?thesis
    using ca srv der raw write_all_written [OF w1] write_all_written [OF w2] write_all_written [OF w3] by (simp add: Let_def)
qed

text \<open>
  The certificates on the disk are those a client needs: the server's names the host and may authenticate a server, its key is the one
  on the disk, and it is signed with the key of the authority whose certificate the public entry hands out.
\<close>

definition certified :: "'k crypto \<Rightarrow> time \<Rightarrow> string \<Rightarrow> config \<Rightarrow> files \<Rightarrow> bool" where
  "certified cx now host cfg fs \<longleftrightarrow>
     (\<exists>ca caKey t key caDer der keyDer.
        cx_key cx 0 = Some caKey \<and> cx_key cx 1 = Some key
      \<and> cx_create cx ca ca caKey caKey = Some caDer \<and> ct_is_ca ca \<and> CertSign \<in> set (ct_usage ca)
      \<and> cx_create cx t ca key caKey = Some der \<and> \<not> ct_is_ca t \<and> ServerAuth \<in> set (ct_ext_usage t)
      \<and> (if parse_ip host \<noteq> [] then ct_ips t = [parse_ip host] \<and> ct_dns t = [] else ct_dns t = [host] \<and> ct_ips t = [])
      \<and> ct_before t \<le> now \<and> ct_after t = cx_ten_years cx now
      \<and> cx_marshal cx key = Some keyDer
      \<and> fs (cf_public_ca cfg) = Some (cx_pem cx ''CERTIFICATE'' caDer)
      \<and> fs (cf_cert cfg) = Some (cx_pem cx ''CERTIFICATE'' der) \<and> fs (cf_key cfg) = Some (cx_pem cx ''EC PRIVATE KEY'' keyDer))"

definition fresh_disk :: "bool \<Rightarrow> disk" where
  "fresh_disk listens = \<lparr>dk_mkdir = True, dk_accounts = Absent, dk_leases = Absent, dk_usage = Absent, dk_invites = Absent, dk_listen = listens\<rparr>"

text \<open>A certificate that was made for a key loads with this key.\<close>

definition pair_ok :: "'k crypto \<Rightarrow> (string \<Rightarrow> string \<Rightarrow> bool) \<Rightarrow> bool" where
  "pair_ok cx pair \<longleftrightarrow>
     (\<forall>t p key signer der keyDer. cx_create cx t p key signer = Some der \<longrightarrow> cx_marshal cx key = Some keyDer \<longrightarrow>
        pair (cx_pem cx ''CERTIFICATE'' der) (cx_pem cx ''EC PRIVATE KEY'' keyDer))"

lemma certified_pair:
  assumes "certified cx now host cfg fs" and "pair_ok cx pair" and "\<forall>a. bind a"
  shows "listenTLS pair bind fs addr cfg"
proof -
  obtain ca caKey t key der keyDer where "cx_create cx t ca key caKey = Some der" "cx_marshal cx key = Some keyDer"
    "fs (cf_cert cfg) = Some (cx_pem cx ''CERTIFICATE'' der)" "fs (cf_key cfg) = Some (cx_pem cx ''EC PRIVATE KEY'' keyDer)"
    using assms(1) unfolding certified_def by blast
  then show ?thesis using assms(2,3) by (simp add: listenTLS_def pair_ok_def)
qed

lemma makeCA_made:
  assumes "makeCA cx now = Inr (ca, caKey, caPEM)"
  shows "cx_key cx 0 = Some caKey \<and> (\<exists>sn. ca = ca_template cx now sn)
    \<and> (\<exists>der. cx_create cx ca ca caKey caKey = Some der \<and> caPEM = cx_pem cx ''CERTIFICATE'' der)"
  using assms by (auto simp: makeCA_def Let_def split: option.splits)

lemma makeServerCert_made:
  assumes "makeServerCert cx now ca caKey host = Inr (crt, keyPEM)"
  shows "\<exists>key sn der keyDer. cx_key cx 1 = Some key \<and> cx_create cx (server_template cx now sn host) ca key caKey = Some der
    \<and> cx_marshal cx key = Some keyDer \<and> crt = cx_pem cx ''CERTIFICATE'' der \<and> keyPEM = cx_pem cx ''EC PRIVATE KEY'' keyDer"
  using assms by (auto simp: makeServerCert_def split: option.splits)

lemma gen_paths:
  assumes "abs_path dir"
  shows "path_join dir ''certs'' = under dir @ ''certs''"
    and "simple_name c \<Longrightarrow> path_join (under dir @ ''certs'') c = under dir @ ''certs/'' @ c"
    and "path_join dir ''orbitd.yaml'' = under dir @ ''orbitd.yaml''"
    and "path_join dir ''data'' = under dir @ ''data''"
    and "path_join dir ''orbitd.log'' = under dir @ ''orbitd.log''"
proof -
  have names: "simple_name ''certs''" "simple_name ''orbitd.yaml''" "simple_name ''data''" "simple_name ''orbitd.log''"
    by (simp_all add: simple_name_def)
  show certs: "path_join dir ''certs'' = under dir @ ''certs''" by (rule path_join_under [OF assms names(1)])
  show "path_join dir ''orbitd.yaml'' = under dir @ ''orbitd.yaml''" by (rule path_join_under [OF assms names(2)])
  show "path_join dir ''data'' = under dir @ ''data''" by (rule path_join_under [OF assms names(3)])
  show "path_join dir ''orbitd.log'' = under dir @ ''orbitd.log''" by (rule path_join_under [OF assms names(4)])
  assume "simple_name c"
  moreover have "under dir @ ''certs'' \<noteq> ''/''" by (auto simp: under_def append_eq_Cons_conv)
  ultimately show "path_join (under dir @ ''certs'') c = under dir @ ''certs/'' @ c"
    using path_join_under(1) [OF path_join_under(2) [OF assms names(1)]] by (simp add: certs under_def [of "under dir @ ''certs''"])
qed

lemma default_net: "\<exists>a n. parse_cidr ''10.0.0.0/24'' = Some (a, n)"
proof -
  have "parse_cidr ''10.0.0.0/24'' \<noteq> None" by code_simp
  then show ?thesis by auto
qed

lemma gen_config_starts:
  assumes "cf_networks cfg = [(''default'', ''10.0.0.0/24'')]" and "config_ok cfg" and "cf_log_file cfg \<noteq> []"
  shows "\<exists>lm s. orbitd_start now True (fresh_disk True) cfg = Some (Some lm, s)"
proof -
  obtain a n where net: "parse_cidr ''10.0.0.0/24'' = Some (a, n)" using default_net by blast
  have "NetworkCIDR cfg = ''10.0.0.0/24''" using assms(1) by (simp add: NetworkCIDR_def Let_def)
  then have "\<exists>s. NewServer now cfg (fresh_disk True) = Inr s"
    using assms(2) net
    by (simp add: NewServer_def config_ok_def fresh_disk_def Let_def OpenStore_def OpenLeases_def OpenUsage_def OpenInvites_def)
  then show ?thesis using assms(3) by (auto simp: orbitd_start_def Setup_def Let_def)
qed


definition sample_crypto :: "nat crypto" where
  "sample_crypto = \<lparr>cx_key = Some, cx_serial = Some, cx_create = \<lambda>t p k s. Some (show_nat k @ '' '' @ ct_common t @ ct_common p @ show_nat s),
     cx_marshal = \<lambda>k. Some (show_nat k), cx_pem = \<lambda>t b. t @ b, cx_ten_years = \<lambda>t. t + 3650 * 24 * hour\<rparr>"

definition sample_pair :: "string \<Rightarrow> string \<Rightarrow> bool" where
  "sample_pair crt key \<longleftrightarrow> takeWhile (\<lambda>c. c \<noteq> CHR '' '') (drop (length ''CERTIFICATE'') crt) = drop (length ''EC PRIVATE KEY'') key"

lemma sample_pair_ok: "pair_ok sample_crypto sample_pair"
proof -
  have "takeWhile (\<lambda>c. c \<noteq> CHR '' '') (show_nat k @ CHR '' '' # r) = show_nat k" for k r
    using show_nat_no [of "CHR '' ''" k] by (subst takeWhile_append2) auto
  then show ?thesis by (simp add: pair_ok_def sample_crypto_def sample_pair_def)
qed

definition sample_gen :: gen_env where
  "sample_gen = \<lparr>ge_now = 0, ge_rand = \<lambda>n. Some (replicate n 7), ge_abs = \<lambda>p. Some ''/opt/orbit'', ge_mkdir = \<lambda>p. True, ge_write = \<lambda>p. Written,
     ge_yaml = \<lambda>j. if plain j then Some (jprint j) else None\<rparr>"

lemma yaml_plain: "plain (buildYAML dir host listen web admin token)"
  by (simp add: yaml_sorted json_map_def quota_yaml_def)


end
