(* ===== verification/Netstack.thy ===== *)
theory Netstack
  imports Client
begin

text \<open>
  The exit's user-space network stack, \<^verbatim>\<open>internal/client/netstack.go\<close>: what the program asks of gVisor when it sets it up, how a
  connection or a datagram flow that arrives is answered by dialling its target, and the goroutines that copy between the two
  sides. gVisor and the dialler are arguments.
\<close>

subsection \<open>Setting up\<close>

text \<open>The calls to gVisor, of which the first two can fail, and their order.\<close>

datatype stack_call =
    NewStack "string list" bool
  | NewChannel nat nat
  | CreateNIC nat
  | AddProtocolAddress nat bytes nat
  | SetRouteTable nat
  | SetSpoofing nat bool
  | SetPromiscuousMode nat bool
  | TCPForwarder nat nat
  | UDPForwarder
  | StartOutputLoop

definition setup_calls :: "bytes \<Rightarrow> stack_call list" where
  "setup_calls addr =
     [NewStack [''ipv4'', ''tcp'', ''udp''] False, NewChannel 256 1280, CreateNIC 1, AddProtocolAddress 1 addr 32, SetRouteTable 1,
      SetSpoofing 1 True, SetPromiscuousMode 1 True, TCPForwarder 0 1024, UDPForwarder, StartOutputLoop]"

fun run_calls :: "(stack_call \<Rightarrow> bool) \<Rightarrow> stack_call list \<Rightarrow> stack_call list + unit" where
  "run_calls ok [] = Inr ()"
| "run_calls ok (c # cs) =
     (case c of
        CreateNIC n \<Rightarrow> if ok c then run_calls ok cs else Inl [c]
      | AddProtocolAddress n a l \<Rightarrow> if ok c then run_calls ok cs else Inl [c]
      | _ \<Rightarrow> run_calls ok cs)"

definition NewNetStack :: "(stack_call \<Rightarrow> bool) \<Rightarrow> bytes \<Rightarrow> stack_call list + net_stack" where
  "NewNetStack ok addr =
     (case run_calls ok (setup_calls addr) of Inl e \<Rightarrow> Inl e | Inr _ \<Rightarrow> Inr \<lparr>ns_in = [], ns_closed = False\<rparr>)"

text \<open>
  Every packet the stack sends, up to its closing, is handed to the client, which encapsulates it for the one it answers.
\<close>

definition outputLoop :: "bytes list \<Rightarrow> client \<Rightarrow> client" where
  "outputLoop packets c = fold onNetStackOutput packets c"

definition CloseNetStack :: "net_stack \<Rightarrow> net_stack" where
  "CloseNetStack ns = ns\<lparr>ns_closed := True\<rparr>"

subsection \<open>What arrives\<close>

text \<open>A flow is named by its target, which is local to the stack, and its source.\<close>

record flow_id =
  fi_local_addr :: ip
  fi_local_port :: nat
  fi_remote_addr :: ip
  fi_remote_port :: nat

definition join_host_port :: "string \<Rightarrow> string \<Rightarrow> string" where
  "join_host_port host port =
     (if CHR '':'' \<in> set host then ''['' @ host @ '']:'' @ port else host @ '':'' @ port)"

definition targetAddr :: "flow_id \<Rightarrow> string" where
  "targetAddr f = join_host_port (ip_string (fi_local_addr f)) (show_nat (fi_local_port f))"

subsection \<open>TCP\<close>

text \<open>
  A connection as the copying goroutines see it: what can be read, whether the other end has finished sending, what has been written
  to it, and whether it is closed on this side.
\<close>

record tcp_conn =
  tc_in :: bytes
  tc_eof :: bool
  tc_out :: bytes
  tc_closed :: bool

record tcp_flow =
  tf_client :: tcp_conn
  tf_target :: tcp_conn
  tf_up :: bool
  tf_down :: bool

definition fresh_conn :: tcp_conn where
  "fresh_conn = \<lparr>tc_in = [], tc_eof = False, tc_out = [], tc_closed = False\<rparr>"

datatype tcp_outcome = Reset | DialFailed | Relaying tcp_flow

definition handleForwarderRequest :: "bool \<Rightarrow> (string \<Rightarrow> string \<Rightarrow> bool) \<Rightarrow> flow_id \<Rightarrow> tcp_outcome" where
  "handleForwarderRequest endpoint dial f =
     (if \<not> endpoint then Reset
      else if \<not> dial ''tcp'' (targetAddr f) then DialFailed
      else Relaying \<lparr>tf_client = fresh_conn, tf_target = fresh_conn, tf_up = True, tf_down = True\<rparr>)"

definition tc_close :: "tcp_conn \<Rightarrow> tcp_conn" where
  "tc_close c = c\<lparr>tc_closed := True\<rparr>"

text \<open>
  One round of \<^verbatim>\<open>io.Copy\<close> with a read of \<open>n\<close> bytes, of which \<open>k\<close> can be written: the source, the destination, and whether the loop
  goes on. The loop ends when the source is closed or at its end, and when a write is short or fails.
\<close>

definition copy_round :: "nat \<Rightarrow> nat \<Rightarrow> tcp_conn \<Rightarrow> tcp_conn \<Rightarrow> tcp_conn \<times> tcp_conn \<times> bool" where
  "copy_round n k src dst =
     (if tc_closed src then (src, dst, False)
      else
        let data = take n (tc_in src); src = src\<lparr>tc_in := drop n (tc_in src)\<rparr>
        in if data = [] then (src, dst, \<not> tc_eof src)
           else if tc_closed dst then (src, dst, False)
           else (src, dst\<lparr>tc_out := tc_out dst @ take k data\<rparr>, length data \<le> k))"

text \<open>
  The goroutines of a flow and what happens outside: data arrives from one end, an end finishes sending, a goroutine copies, and one
  that leaves its loop, also after an error of a read, closes both connections.
\<close>

definition end_up :: "tcp_flow \<Rightarrow> tcp_flow" where
  "end_up f = f\<lparr>tf_client := tc_close (tf_client f), tf_target := tc_close (tf_target f), tf_up := False\<rparr>"

definition end_down :: "tcp_flow \<Rightarrow> tcp_flow" where
  "end_down f = f\<lparr>tf_client := tc_close (tf_client f), tf_target := tc_close (tf_target f), tf_down := False\<rparr>"

record tcp_run =
  tr_flow :: tcp_flow
  tr_up :: bytes
  tr_down :: bytes

inductive tcp_step :: "tcp_run \<Rightarrow> tcp_run \<Rightarrow> bool" where
  client_sends: "f = tr_flow r \<Longrightarrow> \<not> tc_eof (tf_client f) \<Longrightarrow>
     tcp_step r (r\<lparr>tr_flow := f\<lparr>tf_client := (tf_client f)\<lparr>tc_in := tc_in (tf_client f) @ data\<rparr>\<rparr>, tr_up := tr_up r @ data\<rparr>)"
| target_sends: "f = tr_flow r \<Longrightarrow> \<not> tc_eof (tf_target f) \<Longrightarrow>
     tcp_step r (r\<lparr>tr_flow := f\<lparr>tf_target := (tf_target f)\<lparr>tc_in := tc_in (tf_target f) @ data\<rparr>\<rparr>, tr_down := tr_down r @ data\<rparr>)"
| client_ends: "f = tr_flow r \<Longrightarrow> tcp_step r (r\<lparr>tr_flow := f\<lparr>tf_client := (tf_client f)\<lparr>tc_eof := True\<rparr>\<rparr>\<rparr>)"
| target_ends: "f = tr_flow r \<Longrightarrow> tcp_step r (r\<lparr>tr_flow := f\<lparr>tf_target := (tf_target f)\<lparr>tc_eof := True\<rparr>\<rparr>\<rparr>)"
| up: "f = tr_flow r \<Longrightarrow> tf_up f \<Longrightarrow> copy_round n k (tf_client f) (tf_target f) = (c, t, on) \<Longrightarrow> f' = f\<lparr>tf_client := c, tf_target := t\<rparr> \<Longrightarrow>
     tcp_step r (r\<lparr>tr_flow := (if on then f' else end_up f')\<rparr>)"
| down: "f = tr_flow r \<Longrightarrow> tf_down f \<Longrightarrow> copy_round n k (tf_target f) (tf_client f) = (t, c, on) \<Longrightarrow> f' = f\<lparr>tf_client := c, tf_target := t\<rparr> \<Longrightarrow>
     tcp_step r (r\<lparr>tr_flow := (if on then f' else end_down f')\<rparr>)"
| up_error: "f = tr_flow r \<Longrightarrow> tf_up f \<Longrightarrow> tcp_step r (r\<lparr>tr_flow := end_up f\<rparr>)"
| down_error: "f = tr_flow r \<Longrightarrow> tf_down f \<Longrightarrow> tcp_step r (r\<lparr>tr_flow := end_down f\<rparr>)"

definition tcp_start :: "tcp_run \<Rightarrow> bool" where
  "tcp_start r \<longleftrightarrow> (\<exists>endpoint dial f. handleForwarderRequest endpoint dial f = Relaying (tr_flow r)) \<and> tr_up r = [] \<and> tr_down r = []"

text \<open>
  One direction: what was written to the destination, followed by what was read and lost, followed by what waits, is what the source
  sent; while the goroutine of the direction runs, nothing was lost.
\<close>

definition carries :: "bool \<Rightarrow> tcp_conn \<Rightarrow> tcp_conn \<Rightarrow> bytes \<Rightarrow> bool" where
  "carries on src dst sent \<longleftrightarrow>
     (if on then tc_out dst @ tc_in src = sent else \<exists>lost. tc_out dst @ lost @ tc_in src = sent)"

definition tcp_ok :: "tcp_run \<Rightarrow> bool" where
  "tcp_ok r \<longleftrightarrow> (let f = tr_flow r in
      carries (tf_up f) (tf_client f) (tf_target f) (tr_up r) \<and> carries (tf_down f) (tf_target f) (tf_client f) (tr_down r)
    \<and> (\<not> tf_up f \<or> \<not> tf_down f \<longrightarrow> tc_closed (tf_client f) \<and> tc_closed (tf_target f)))"

lemma carries_prefix: "carries on src dst sent \<Longrightarrow> \<exists>rest. sent = tc_out dst @ rest"
  unfolding carries_def by (metis append.assoc)

lemma copy_round_carries:
  assumes "copy_round n k src dst = (src', dst', on)" and "tc_out dst @ tc_in src = sent"
  shows "carries on src' dst' sent"
proof (cases "tc_closed src")
  case True
  then show ?thesis using assms by (auto simp: copy_round_def carries_def intro: exI [of _ "[]"])
next
  case False
  let ?d = "take n (tc_in src)"
  have all: "tc_out dst @ ?d @ drop n (tc_in src) = sent" using assms(2) by simp
  show ?thesis
  proof (cases "?d = [] \<or> tc_closed dst")
    case True
    with False assms(1) all show ?thesis
      by (auto simp: copy_round_def Let_def carries_def intro: exI [of _ ?d] split: if_splits)
  next
    case wr: False
    have "tc_out dst @ take k ?d @ drop k ?d @ drop n (tc_in src) = sent" using all by (metis append.assoc append_take_drop_id)
    with wr False assms(1) show ?thesis
      by (auto simp: copy_round_def Let_def carries_def intro!: exI [of _ "drop k ?d"])
  qed
qed

lemma copy_round_other:
  assumes "copy_round n k src dst = (src', dst', on)"
  shows "tc_out src' = tc_out src" and "tc_in dst' = tc_in dst" and "tc_closed src' = tc_closed src" and "tc_closed dst' = tc_closed dst"
    and "tc_closed src \<Longrightarrow> \<not> on"
  using assms by (auto simp: copy_round_def Let_def split: if_splits)

lemma tcp_step_ok: "tcp_step r t \<Longrightarrow> tcp_ok r \<Longrightarrow> tcp_ok t"
proof (induction rule: tcp_step.induct)
  case (up f r n k c t on f')
  then have "carries on c t (tr_up r)" using copy_round_carries [OF up(3)] by (simp add: tcp_ok_def carries_def Let_def)
  then show ?case
    using up copy_round_other [OF up(3)] by (cases on) (auto simp: tcp_ok_def Let_def end_up_def tc_close_def carries_def)
next
  case (down f r n k t c on f')
  then have "carries on t c (tr_down r)" using copy_round_carries [OF down(3)] by (simp add: tcp_ok_def carries_def Let_def)
  then show ?case
    using down copy_round_other [OF down(3)] by (cases on) (auto simp: tcp_ok_def Let_def end_down_def tc_close_def carries_def)
qed (auto simp: tcp_ok_def Let_def carries_def end_up_def end_down_def tc_close_def intro: exI [of _ "[]"])

lemma tcp_start_ok: "tcp_start r \<Longrightarrow> tcp_ok r"
  by (cases r) (auto simp: tcp_start_def handleForwarderRequest_def tcp_ok_def carries_def fresh_conn_def Let_def split: if_splits)

interpretation tcp_relay: transition_system tcp_start tcp_step tcp_ok
  by unfold_locales (rule tcp_start_ok, assumption, rule tcp_step_ok)

inductive_cases tcp_stepE: "tcp_step r t"

lemma after_end:
  assumes "tcp_step r t" and "tc_closed (tf_client (tr_flow r))" and "tc_closed (tf_target (tr_flow r))"
  shows "tc_out (tf_target (tr_flow t)) = tc_out (tf_target (tr_flow r)) \<and> tc_out (tf_client (tr_flow t)) = tc_out (tf_client (tr_flow r))
    \<and> tc_closed (tf_client (tr_flow t)) \<and> tc_closed (tf_target (tr_flow t))"
  by (rule tcp_stepE [OF assms(1)]) (use assms(2,3) in \<open>auto simp: end_up_def end_down_def tc_close_def copy_round_def split: if_splits\<close>)

lemma after_end_steps:
  assumes "tcp_step\<^sup>*\<^sup>* r t" and "tc_closed (tf_client (tr_flow r))" and "tc_closed (tf_target (tr_flow r))"
  shows "tc_out (tf_target (tr_flow t)) = tc_out (tf_target (tr_flow r)) \<and> tc_out (tf_client (tr_flow t)) = tc_out (tf_client (tr_flow r))
    \<and> tc_closed (tf_client (tr_flow t)) \<and> tc_closed (tf_target (tr_flow t))"
  using assms by (induction rule: rtranclp_induct) (simp_all, metis after_end)

text \<open>
  C26. A TCP flow through the exit. Whatever the order of the goroutines, each end has been given a prefix of what the other sent, all
  of it but what still waits while the goroutine of the direction runs; and as soon as one direction has ended, both connections are
  closed and nothing more reaches either end, also not the rest of an answer to a client that has only finished sending.
\<close>

theorem tcp_relayed:
  assumes "reach tcp_start tcp_step r" and "f = tr_flow r"
  shows "(\<exists>rest. tr_up r = tc_out (tf_target f) @ rest) \<and> (\<exists>rest. tr_down r = tc_out (tf_client f) @ rest)
    \<and> (tf_up f \<longrightarrow> tr_up r = tc_out (tf_target f) @ tc_in (tf_client f))
    \<and> (tf_down f \<longrightarrow> tr_down r = tc_out (tf_client f) @ tc_in (tf_target f))
    \<and> (\<not> tf_up f \<or> \<not> tf_down f \<longrightarrow> tc_closed (tf_client f) \<and> tc_closed (tf_target f)
         \<and> (\<forall>t. tcp_step\<^sup>*\<^sup>* r t \<longrightarrow> tc_out (tf_target (tr_flow t)) = tc_out (tf_target f) \<and> tc_out (tf_client (tr_flow t)) = tc_out (tf_client f)))"
proof -
  have ok: "tcp_ok r" by (rule tcp_relay.reach_inv [OF assms(1)])
  have "\<exists>rest. tr_up r = tc_out (tf_target f) @ rest" "\<exists>rest. tr_down r = tc_out (tf_client f) @ rest"
    using ok carries_prefix by (auto simp: tcp_ok_def Let_def assms(2))
  moreover have "tf_up f \<longrightarrow> tr_up r = tc_out (tf_target f) @ tc_in (tf_client f)" "tf_down f \<longrightarrow> tr_down r = tc_out (tf_client f) @ tc_in (tf_target f)"
    using ok by (auto simp: tcp_ok_def Let_def carries_def assms(2) split: if_splits)
  moreover have closed: "tc_closed (tf_client f) \<and> tc_closed (tf_target f)" if "\<not> tf_up f \<or> \<not> tf_down f"
    using ok that by (simp add: tcp_ok_def Let_def assms(2))
  moreover have "tc_out (tf_target (tr_flow t)) = tc_out (tf_target f) \<and> tc_out (tf_client (tr_flow t)) = tc_out (tf_client f)"
    if "\<not> tf_up f \<or> \<not> tf_down f" and "tcp_step\<^sup>*\<^sup>* r t" for t
    using after_end_steps [OF that(2)] closed [OF that(1)] unfolding assms(2) by blast
  ultimately show ?thesis by blast
qed

text \<open>
  A client asks, finishes sending, and gets no answer: the run that loses it.
\<close>

lemma tcp_relayed_witness:
  "\<exists>r. reach tcp_start tcp_step r \<and> tr_up r = [1, 2] \<and> tc_out (tf_target (tr_flow r)) = [1, 2] \<and> tr_down r = [3] \<and> \<not> tf_up (tr_flow r)
     \<and> (\<forall>t. tcp_step\<^sup>*\<^sup>* r t \<longrightarrow> tc_out (tf_client (tr_flow t)) = [])"
proof -
  let ?c = "\<lambda>i e o1 cl. \<lparr>tc_in = i, tc_eof = e, tc_out = o1, tc_closed = cl\<rparr>"
  let ?r = "\<lambda>c t u ups downs. \<lparr>tr_flow = \<lparr>tf_client = c, tf_target = t, tf_up = u, tf_down = True\<rparr>, tr_up = ups, tr_down = downs\<rparr>"
  let ?run_a = "?r (?c [] False [] False) (?c [] False [] False) True [] []"
  let ?run_b = "?r (?c [1, 2] False [] False) (?c [] False [] False) True [1, 2] []"
  let ?run_c = "?r (?c [] False [] False) (?c [] False [1, 2] False) True [1, 2] []"
  let ?run_d = "?r (?c [] True [] False) (?c [] False [1, 2] False) True [1, 2] []"
  let ?run_e = "?r (?c [] True [] False) (?c [3] False [1, 2] False) True [1, 2] [3]"
  let ?run_f = "?r (?c [] True [] True) (?c [3] False [1, 2] True) False [1, 2] [3]"
  have "handleForwarderRequest True (\<lambda>n a. True) f = Relaying (tr_flow ?run_a)" for f
    by (simp add: handleForwarderRequest_def fresh_conn_def)
  then have r0: "reach tcp_start tcp_step ?run_a" by (intro reach_init) (auto simp: tcp_start_def)
  have r1: "reach tcp_start tcp_step ?run_b" by (rule reach_step [OF r0]) (use tcp_step.client_sends [of "tr_flow ?run_a" ?run_a "[1, 2]"] in simp)
  have r2: "reach tcp_start tcp_step ?run_c"
    by (rule reach_step [OF r1]) (use tcp_step.up [of "tr_flow ?run_b" ?run_b 2 2] in \<open>simp add: copy_round_def\<close>)
  have r3: "reach tcp_start tcp_step ?run_d" by (rule reach_step [OF r2]) (use tcp_step.client_ends [of "tr_flow ?run_c" ?run_c] in simp)
  have r4: "reach tcp_start tcp_step ?run_e" by (rule reach_step [OF r3]) (use tcp_step.target_sends [of "tr_flow ?run_d" ?run_d "[3]"] in simp)
  have r5: "reach tcp_start tcp_step ?run_f"
    by (rule reach_step [OF r4]) (use tcp_step.up [of "tr_flow ?run_e" ?run_e 2 2 _ _ False "tr_flow ?run_e"] in \<open>simp add: copy_round_def end_up_def tc_close_def\<close>)
  have "\<forall>t. tcp_step\<^sup>*\<^sup>* ?run_f t \<longrightarrow> tc_out (tf_client (tr_flow t)) = tc_out (tf_client (tr_flow ?run_f))"
    using tcp_relayed [OF r5 refl] unfolding tcp_run.select_convs tcp_flow.select_convs by blast
  then have "\<forall>t. tcp_step\<^sup>*\<^sup>* ?run_f t \<longrightarrow> tc_out (tf_client (tr_flow t)) = []"
    unfolding tcp_run.select_convs tcp_flow.select_convs tcp_conn.select_convs .
  then show ?thesis by (intro exI [of _ ?run_f] conjI r5) simp_all
qed

subsection \<open>UDP\<close>

definition udpIdleTimeout :: duration where
  "udpIdleTimeout = 90 * second"

text \<open>
  A flow of datagrams: the time of the last one, whether \<^verbatim>\<open>stop\<close> is closed, whether \<^verbatim>\<open>relayUDP\<close> is in its loop (it closes both connections
  on its way out), the two copying goroutines, and what they have written.
\<close>

record udp_flow =
  uf_last :: time
  uf_stop :: bool
  uf_main :: bool
  uf_copy_out :: bool
  uf_copy_back :: bool
  uf_out :: "bytes list"
  uf_back :: "bytes list"

datatype udp_outcome = NoEndpoint | UdpDialFailed | UdpFlow udp_flow

definition handleUDPRequest :: "bool \<Rightarrow> (string \<Rightarrow> string \<Rightarrow> bool) \<Rightarrow> time \<Rightarrow> flow_id \<Rightarrow> udp_outcome" where
  "handleUDPRequest endpoint dial now f =
     (if \<not> endpoint then NoEndpoint
      else if \<not> dial ''udp'' (targetAddr f) then UdpDialFailed
      else UdpFlow \<lparr>uf_last = now, uf_stop = False, uf_main = True, uf_copy_out = True, uf_copy_back = True, uf_out = [], uf_back = []\<rparr>)"

definition touch :: "time \<Rightarrow> udp_flow \<Rightarrow> udp_flow" where
  "touch now f = f\<lparr>uf_last := now\<rparr>"

definition idleSince :: "time \<Rightarrow> udp_flow \<Rightarrow> duration" where
  "idleSince now f = now - uf_last f"

text \<open>
  One round of \<^verbatim>\<open>copyLoopUDP\<close>: what a read gives (at most the size of the buffer) and whether it fails, and whether the write succeeds. The
  result: what was written, whether the flow was touched, and whether the loop goes on.
\<close>

definition copyLoopUDP :: "bytes \<Rightarrow> bool \<Rightarrow> bool \<Rightarrow> bytes list \<times> bool \<times> bool" where
  "copyLoopUDP data fails written =
     (let data = take 0x10000 data
      in if data = [] then ([], False, \<not> fails)
         else if \<not> written then ([], False, False)
         else ([data], True, \<not> fails))"

text \<open>A flow, the time, the next tick of its ticker, and what the two reads have given so far.\<close>

record udp_run =
  ur_flow :: udp_flow
  ur_now :: time
  ur_tick :: time
  ur_read_out :: "bytes list"
  ur_read_back :: "bytes list"

definition udp_finish :: "udp_flow \<Rightarrow> udp_flow" where
  "udp_finish f = f\<lparr>uf_main := False\<rparr>"

text \<open>
  The loop of \<^verbatim>\<open>relayUDP\<close> sees a tick when it is due. A closed connection gives no data and takes none.
\<close>

inductive udp_step :: "udp_run \<Rightarrow> udp_run \<Rightarrow> bool" where
  passes: "0 \<le> d \<Longrightarrow> uf_main (ur_flow r) \<longrightarrow> ur_now r + d \<le> ur_tick r \<Longrightarrow> udp_step r (r\<lparr>ur_now := ur_now r + d\<rparr>)"
| tick: "uf_main (ur_flow r) \<Longrightarrow> ur_now r = ur_tick r \<Longrightarrow> \<not> udpIdleTimeout < idleSince (ur_now r) (ur_flow r) \<Longrightarrow>
     udp_step r (r\<lparr>ur_tick := ur_tick r + 10 * second\<rparr>)"
| idle: "uf_main (ur_flow r) \<Longrightarrow> ur_now r = ur_tick r \<Longrightarrow> udpIdleTimeout < idleSince (ur_now r) (ur_flow r) \<Longrightarrow>
     udp_step r (r\<lparr>ur_flow := udp_finish (ur_flow r)\<rparr>)"
| stopped: "uf_main (ur_flow r) \<Longrightarrow> uf_stop (ur_flow r) \<Longrightarrow> udp_step r (r\<lparr>ur_flow := udp_finish (ur_flow r)\<rparr>)"
| copy_out: "f = ur_flow r \<Longrightarrow> uf_copy_out f \<Longrightarrow> \<not> uf_main f \<longrightarrow> data = [] \<and> fails \<Longrightarrow> copyLoopUDP data fails written = (w, t, on) \<Longrightarrow>
     udp_step r (r\<lparr>ur_read_out := ur_read_out r @ [data],
       ur_flow := (if t then touch (ur_now r) f else f)\<lparr>uf_out := uf_out f @ w, uf_copy_out := on, uf_stop := uf_stop f \<or> \<not> on\<rparr>\<rparr>)"
| copy_back: "f = ur_flow r \<Longrightarrow> uf_copy_back f \<Longrightarrow> \<not> uf_main f \<longrightarrow> data = [] \<and> fails \<Longrightarrow> copyLoopUDP data fails written = (w, t, on) \<Longrightarrow>
     udp_step r (r\<lparr>ur_read_back := ur_read_back r @ [data],
       ur_flow := (if t then touch (ur_now r) f else f)\<lparr>uf_back := uf_back f @ w, uf_copy_back := on, uf_stop := uf_stop f \<or> \<not> on\<rparr>\<rparr>)"

inductive_cases udp_stepE: "udp_step r t"

definition udp_start :: "udp_run \<Rightarrow> bool" where
  "udp_start r \<longleftrightarrow> (\<exists>endpoint dial f. handleUDPRequest endpoint dial (ur_now r) f = UdpFlow (ur_flow r))
     \<and> ur_tick r = ur_now r + 10 * second \<and> ur_read_out r = [] \<and> ur_read_back r = []"

definition datagrams :: "bytes list \<Rightarrow> bytes list" where
  "datagrams ds = map (take 0x10000) (filter (\<lambda>d. d \<noteq> []) ds)"

definition udp_ok :: "udp_run \<Rightarrow> bool" where
  "udp_ok r \<longleftrightarrow> (let f = ur_flow r in
      (uf_main f \<longrightarrow> ur_now r \<le> ur_tick r \<and> ur_tick r \<le> uf_last f + 100 * second) \<and> uf_last f \<le> ur_now r
    \<and> (uf_copy_out f \<longrightarrow> uf_out f = datagrams (ur_read_out r)) \<and> (uf_copy_back f \<longrightarrow> uf_back f = datagrams (ur_read_back r))
    \<and> (\<exists>rest. datagrams (ur_read_out r) = uf_out f @ rest) \<and> (\<exists>rest. datagrams (ur_read_back r) = uf_back f @ rest)
    \<and> (uf_stop f \<longleftrightarrow> \<not> uf_copy_out f \<or> \<not> uf_copy_back f))"

lemma datagrams_simps [simp]:
  "datagrams [] = []" "datagrams (ds @ es) = datagrams ds @ datagrams es" "datagrams [d] = (if d = [] then [] else [take 0x10000 d])"
  by (simp_all add: datagrams_def)

lemma copyLoopUDP_cases:
  assumes "copyLoopUDP data fails written = (w, t, on)"
  shows "w = datagrams [data] \<or> w = [] \<and> \<not> on" and "t \<longleftrightarrow> w \<noteq> []"
  using assms by (auto simp: copyLoopUDP_def Let_def split: if_splits)

lemma udp_step_ok: "udp_step r t \<Longrightarrow> udp_ok r \<Longrightarrow> udp_ok t"
proof (induction rule: udp_step.induct)
  case (copy_out f r data fails written w t on)
  then show ?case using copyLoopUDP_cases [OF copy_out(4)] by (auto simp: udp_ok_def Let_def touch_def)
next
  case (copy_back f r data fails written w t on)
  then show ?case using copyLoopUDP_cases [OF copy_back(4)] by (auto simp: udp_ok_def Let_def touch_def)
qed (auto simp: udp_ok_def Let_def udp_finish_def idleSince_def udpIdleTimeout_def second_def)

lemma udp_start_ok: "udp_start r \<Longrightarrow> udp_ok r"
  by (cases r) (auto simp: udp_start_def handleUDPRequest_def udp_ok_def Let_def second_def split: if_splits)

interpretation udp_relay: transition_system udp_start udp_step udp_ok
  by unfold_locales (rule udp_start_ok, assumption, rule udp_step_ok)

text \<open>
  C39. How long a UDP flow lives. While its loop runs, the last datagram is at most 100 s ago: ninety seconds of silence and the
  wait for the next tick; the loop is left only when one of the copying goroutines has ended or more than 90 s have passed without
  a datagram; every datagram passed on starts the ninety seconds again; and each side is given the datagrams the other sent, in order, each cut to the buffer, except empty ones.
\<close>

theorem udp_flow_bounds:
  assumes "reach udp_start udp_step r" and "f = ur_flow r"
  shows "(uf_main f \<longrightarrow> ur_now r - uf_last f \<le> 100 * second)
    \<and> (\<forall>t. udp_step r t \<longrightarrow> uf_main f \<longrightarrow> \<not> uf_main (ur_flow t) \<longrightarrow> \<not> uf_copy_out f \<or> \<not> uf_copy_back f \<or> 90 * second < ur_now r - uf_last f)
    \<and> (\<forall>t. udp_step r t \<longrightarrow> uf_out (ur_flow t) \<noteq> uf_out f \<or> uf_back (ur_flow t) \<noteq> uf_back f \<longrightarrow> uf_last (ur_flow t) = ur_now r)
    \<and> (uf_copy_out f \<longrightarrow> uf_out f = datagrams (ur_read_out r)) \<and> (uf_copy_back f \<longrightarrow> uf_back f = datagrams (ur_read_back r))
    \<and> (\<exists>rest. datagrams (ur_read_out r) = uf_out f @ rest) \<and> (\<exists>rest. datagrams (ur_read_back r) = uf_back f @ rest)"
proof -
  have ok: "udp_ok r" by (rule udp_relay.reach_inv [OF assms(1)])
  have stop: "uf_stop f \<Longrightarrow> \<not> uf_copy_out f \<or> \<not> uf_copy_back f" using ok by (simp add: udp_ok_def Let_def assms(2))
  have "\<not> uf_copy_out f \<or> \<not> uf_copy_back f \<or> 90 * second < ur_now r - uf_last f"
    if "udp_step r t" "uf_main f" "\<not> uf_main (ur_flow t)" for t
    by (rule udp_stepE [OF that(1)])
      (use stop that(2,3) in \<open>auto simp: assms(2) idleSince_def udpIdleTimeout_def touch_def split: if_splits\<close>)
  moreover have "uf_last (ur_flow t) = ur_now r"
    if "udp_step r t" "uf_out (ur_flow t) \<noteq> uf_out f \<or> uf_back (ur_flow t) \<noteq> uf_back f" for t
    by (rule udp_stepE [OF that(1)])
      (use that(2) in \<open>auto simp: assms(2) touch_def udp_finish_def dest!: copyLoopUDP_cases(2) split: if_splits\<close>)
  moreover have "uf_main f \<longrightarrow> ur_now r - uf_last f \<le> 100 * second" using ok by (auto simp: udp_ok_def Let_def assms(2))
  ultimately show ?thesis using ok by (simp add: udp_ok_def Let_def assms(2))
qed

lemma udp_flow_bounds_witness:
  "\<exists>r. reach udp_start udp_step r \<and> uf_main (ur_flow r) \<and> uf_out (ur_flow r) = [[7]] \<and> ur_now r - uf_last (ur_flow r) = 5 * second
     \<and> ur_now r - uf_last (ur_flow r) \<le> 100 * second"
proof -
  let ?f = "\<lambda>l out. \<lparr>uf_last = l, uf_stop = False, uf_main = True, uf_copy_out = True, uf_copy_back = True, uf_out = out, uf_back = []\<rparr>"
  let ?ra = "\<lparr>ur_flow = ?f 0 [], ur_now = 0, ur_tick = 10 * second, ur_read_out = [], ur_read_back = []\<rparr>"
  let ?rb = "\<lparr>ur_flow = ?f 0 [[7]], ur_now = 0, ur_tick = 10 * second, ur_read_out = [[7]], ur_read_back = []\<rparr>"
  let ?rc = "\<lparr>ur_flow = ?f 0 [[7]], ur_now = 5 * second, ur_tick = 10 * second, ur_read_out = [[7]], ur_read_back = []\<rparr>"
  have "handleUDPRequest True (\<lambda>n a. True) 0 g = UdpFlow (?f 0 [])" for g by (simp add: handleUDPRequest_def)
  then have ra: "reach udp_start udp_step ?ra" by (intro reach_init) (auto simp: udp_start_def)
  have rb: "reach udp_start udp_step ?rb"
    by (rule reach_step [OF ra])
      (use udp_step.copy_out [of "?f 0 []" ?ra "[7]" False True "[[7]]" True True] in \<open>simp add: copyLoopUDP_def touch_def\<close>)
  have rc: "reach udp_start udp_step ?rc"
    by (rule reach_step [OF rb]) (use udp_step.passes [of "5 * second" ?rb] in \<open>simp add: second_def\<close>)
  show ?thesis using udp_flow_bounds [OF rc refl] rc by (intro exI [of _ ?rc]) (simp add: second_def)
qed

end
