(* ===== verification/Routes_Windows.thy ===== *)
theory Routes_Windows
  imports Routes
begin

text \<open>
  Taking over the system's routes on Windows: \<^verbatim>\<open>internal/client/globalroute_windows.go\<close>. PowerShell is an argument: what a script does to
  the system's state, its output, and whether it succeeded.
\<close>

subsection \<open>Scripts\<close>

type_synonym 'os powershell = "string \<Rightarrow> 'os \<Rightarrow> 'os \<times> string \<times> bool"

text \<open>The error holds the output.\<close>

definition psRun :: "'os powershell \<Rightarrow> string \<Rightarrow> 'os \<Rightarrow> 'os \<times> (string + string)" where
  "psRun ps script os = (case ps script os of (os, out, ok) \<Rightarrow> (os, if ok then Inr out else Inl (trim_space out)))"

definition quoted :: "string \<Rightarrow> string" where
  "quoted s = [CHR 0x27] @ s @ [CHR 0x27]"

definition find_tun_script :: "string \<Rightarrow> string" where
  "find_tun_script tunIP =
     ''$a=Get-NetIPAddress -IPAddress '' @ quoted tunIP @ '' -ErrorAction SilentlyContinue; if(-not $a){'' @ quoted ''ERR:no-tun-iface'' @
     ''; exit 1}; $a.InterfaceIndex''"

definition find_default_script :: "string \<Rightarrow> string" where
  "find_default_script tunIP =
     ''$r=Get-NetRoute -DestinationPrefix '' @ quoted ''0.0.0.0/0'' @
     '' -ErrorAction SilentlyContinue | Where-Object {$_.NextHop.ToString() -ne '' @ quoted tunIP @
     ''} | Select-Object -First 1; if($r){$r.NextHop.ToString()+'' @ quoted '' '' @ ''+$r.InterfaceIndex; exit 0}; exit 2''"

text \<open>A route: its prefix, its interface and its next hop.\<close>

type_synonym win_route = "string \<times> string \<times> string"

definition new_route :: "win_route \<Rightarrow> string" where
  "new_route r =
     (case r of (p, i, h) \<Rightarrow>
        ''New-NetRoute -DestinationPrefix '' @ quoted p @ '' -NextHop '' @ quoted h @ '' -InterfaceIndex '' @ i @
        '' -RouteMetric 1 -PolicyStore ActiveStore -Confirm:$false | Out-Null'')"

definition remove_route :: "win_route \<Rightarrow> string" where
  "remove_route r =
     (case r of (p, i, h) \<Rightarrow>
        ''Remove-NetRoute -DestinationPrefix '' @ quoted p @ '' -InterfaceIndex '' @ i @ '' -Confirm:$false -ErrorAction SilentlyContinue'')"

subsection \<open>The commands\<close>

text \<open>The empty string is an entry that is skipped.\<close>

definition routeCIDR :: "string \<Rightarrow> string" where
  "routeCIDR spec =
     (let spec = trim_space spec; ip = parse_ip spec
      in if ip \<noteq> [] then (if to4 ip \<noteq> [] then ip_string ip @ ''/32'' else [])
         else case parse_cidr spec of
             Some (_, ipNet) \<Rightarrow> if to4 (net_ip ipNet) \<noteq> [] then ipnet_string ipNet else []
           | None \<Rightarrow> [])"

definition findTunIndex :: "'os powershell \<Rightarrow> ip \<Rightarrow> 'os \<Rightarrow> 'os \<times> string option" where
  "findTunIndex ps localIP os =
     (case psRun ps (find_tun_script (ip_string localIP)) os of
        (os, Inl e) \<Rightarrow> (os, None)
      | (os, Inr out) \<Rightarrow> (os, find (\<lambda>f. f \<noteq> ''ERR:no-tun-iface'') (fields_of out)))"

text \<open>The gateway and the interface of the default route, if there are two fields.\<close>

definition find_default :: "'os powershell \<Rightarrow> ip \<Rightarrow> 'os \<Rightarrow> 'os \<times> string \<times> string" where
  "find_default ps localIP os =
     (case psRun ps (find_default_script (ip_string localIP)) os of
        (os, Inl e) \<Rightarrow> (os, [], [])
      | (os, Inr out) \<Rightarrow> (case fields_of out of gw # i # _ \<Rightarrow> (os, gw, i) | _ \<Rightarrow> (os, [], [])))"

definition keep_routes :: "resolver \<Rightarrow> cli_config \<Rightarrow> string \<Rightarrow> string \<Rightarrow> win_route list" where
  "keep_routes lookup cfg gw gwIdx =
     (if gw \<noteq> [] \<and> gwIdx \<noteq> [] then
        map (\<lambda>p. (p, gwIdx, gw))
          (filter (\<lambda>p. p \<noteq> []) (map routeCIDR (cc_keep_local cfg @ map ip_string (serverHostIPs lookup (cc_server cfg)))))
      else [])"

text \<open>Only an addition that succeeds is remembered; the result is the list of those, in order.\<close>

fun apply_routes :: "'os powershell \<Rightarrow> win_route list \<Rightarrow> 'os \<Rightarrow> 'os \<times> win_route list" where
  "apply_routes ps [] os = (os, [])"
| "apply_routes ps (r # rs) os =
     (case psRun ps (new_route r) os of
        (os, Inl e) \<Rightarrow> apply_routes ps rs os
      | (os, Inr out) \<Rightarrow> (case apply_routes ps rs os of (os, applied) \<Rightarrow> (os, r # applied)))"

definition remove_routes :: "'os powershell \<Rightarrow> win_route list \<Rightarrow> 'os \<Rightarrow> 'os" where
  "remove_routes ps applied os = fold (\<lambda>r os. fst (psRun ps (remove_route r) os)) (rev applied) os"

text \<open>\<open>None\<close> is the error that the interface was not found.\<close>

definition winGlobalRoutes ::
  "'os powershell \<Rightarrow> resolver \<Rightarrow> cli_config \<Rightarrow> ip \<Rightarrow> 'os \<Rightarrow> 'os \<times> win_route list option" where
  "winGlobalRoutes ps lookup cfg localIP os =
     (case findTunIndex ps localIP os of
        (os, None) \<Rightarrow> (os, None)
      | (os, Some tunIdx) \<Rightarrow>
          (case find_default ps localIP os of
             (os, gw, gwIdx) \<Rightarrow>
               (case apply_routes ps (keep_routes lookup cfg gw gwIdx @ [(''0.0.0.0/0'', tunIdx, ip_string localIP)]) os of
                  (os, applied) \<Rightarrow> (os, Some applied))))"

definition winSmartRoutes ::
  "'os powershell \<Rightarrow> resolver \<Rightarrow> cli_config \<Rightarrow> route_entry list \<Rightarrow> ip \<Rightarrow> 'os \<Rightarrow> 'os \<times> win_route list option" where
  "winSmartRoutes ps lookup cfg routes localIP os =
     (let prefixes = smartPrefixes routes
      in if prefixes = [] then (os, Some [])
         else if list_ex coversDefault prefixes then winGlobalRoutes ps lookup cfg localIP os
         else case findTunIndex ps localIP os of
             (os, None) \<Rightarrow> (os, None)
           | (os, Some tunIdx) \<Rightarrow>
               (case apply_routes ps (map (\<lambda>p. (ipnet_string p, tunIdx, ip_string localIP)) prefixes) os of
                  (os, applied) \<Rightarrow> (os, Some applied)))"

subsection \<open>Giving the routes back\<close>

text \<open>
  What the documentation of the two commands says, over a view \<open>tab\<close> of the system's state, the set of its routes, and for the routes
  of a list: an addition adds its route or fails and changes nothing, it fails for a route that is there, a removal removes
  all routes of its prefix and its interface, whatever their next hop. The two queries change nothing, and what they print (an index,
  an address) has no quotes.
\<close>

definition ps_ok :: "'os powershell \<Rightarrow> ('os \<Rightarrow> win_route set) \<Rightarrow> win_route set \<Rightarrow> bool" where
  "ps_ok ps tab R \<longleftrightarrow>
     (\<forall>r \<in> R. \<forall>os. case ps (new_route r) os of (os', out, ok) \<Rightarrow>
        tab os' = (if ok then insert r (tab os) else tab os) \<and> (r \<in> tab os \<longrightarrow> \<not> ok)) \<and>
     (\<forall>r \<in> R. \<forall>os. tab (fst (ps (remove_route r) os)) = {q \<in> tab os. fst q = fst r \<longrightarrow> fst (snd q) \<noteq> fst (snd r)}) \<and>
     (\<forall>ip os. \<forall>q \<in> {find_tun_script ip, find_default_script ip}.
        tab (fst (ps q os)) = tab os \<and> CHR 0x27 \<notin> set (fst (snd (ps q os))))"

definition word_ok :: "string \<Rightarrow> bool" where
  "word_ok w \<longleftrightarrow> CHR 0x27 \<notin> set w \<and> (\<forall>c \<in> set w. \<not> is_space c)"

definition clashes :: "win_route \<Rightarrow> win_route \<Rightarrow> bool" where
  "clashes r q \<longleftrightarrow> fst q = fst r \<and> fst (snd q) = fst (snd r) \<and> q \<noteq> r"

lemma psRun_state: "fst (psRun ps script os) = fst (ps script os)"
  by (simp add: psRun_def case_prod_unfold)

lemma ps_add:
  assumes "ps_ok ps tab R" and "r \<in> R" and "ps (new_route r) os = (os', out, ok)"
  shows "tab os' = (if ok then insert r (tab os) else tab os)" and "r \<in> tab os \<Longrightarrow> \<not> ok"
proof -
  have "case ps (new_route r) os of (os', out, ok) \<Rightarrow> tab os' = (if ok then insert r (tab os) else tab os) \<and> (r \<in> tab os \<longrightarrow> \<not> ok)"
    by (rule assms(1) [unfolded ps_ok_def, THEN conjunct1, THEN bspec, OF assms(2), THEN spec])
  then show "tab os' = (if ok then insert r (tab os) else tab os)" and "r \<in> tab os \<Longrightarrow> \<not> ok"
    unfolding assms(3) prod.case by blast+
qed

lemma ps_query:
  assumes "ps_ok ps tab R" and "q = find_tun_script ip \<or> q = find_default_script ip" and "ps q os = (os', out, ok)"
  shows "tab os' = tab os" and "CHR 0x27 \<notin> set out"
proof -
  have "q \<in> {find_tun_script ip, find_default_script ip}" using assms(2) by blast
  note assms(1) [unfolded ps_ok_def, THEN conjunct2, THEN conjunct2, THEN spec, THEN spec, THEN bspec, OF this]
  then show "tab os' = tab os" and "CHR 0x27 \<notin> set out" using assms(3) by (metis fst_conv, metis fst_conv snd_conv)
qed

lemma apply_routes_table:
  assumes "ps_ok ps tab R" and "set rs \<subseteq> R" and "apply_routes ps rs os = (os', applied)"
  shows "tab os' = tab os \<union> set applied \<and> set applied \<subseteq> set rs \<and> set applied \<inter> tab os = {}"
  using assms(2,3)
proof (induction rs arbitrary: os os' applied)
  case (Cons r rs)
  obtain os2 out ok where t: "ps (new_route r) os = (os2, out, ok)" by (metis prod_cases3)
  have add: "tab os2 = (if ok then insert r (tab os) else tab os)" "r \<in> tab os \<Longrightarrow> \<not> ok"
    using ps_add [OF assms(1) _ t] Cons.prems(1) by auto
  obtain os3 applied' where rest: "apply_routes ps rs os2 = (os3, applied')" by fastforce
  have "tab os3 = tab os2 \<union> set applied' \<and> set applied' \<subseteq> set rs \<and> set applied' \<inter> tab os2 = {}"
    by (rule Cons.IH [OF _ rest]) (use Cons.prems(1) in simp)
  then show ?case using Cons.prems(2) add rest t by (cases ok) (auto simp: psRun_def)
qed simp

lemma remove_routes_table:
  assumes "ps_ok ps tab R"
  shows "set rs \<subseteq> R \<Longrightarrow> tab (fold (\<lambda>r os. fst (psRun ps (remove_route r) os)) rs os) =
    {q \<in> tab os. \<forall>r \<in> set rs. fst q = fst r \<longrightarrow> fst (snd q) \<noteq> fst (snd r)}"
proof (induction rs arbitrary: os)
  case (Cons r rs)
  have "tab (fst (ps (remove_route r) os)) = {q \<in> tab os. fst q = fst r \<longrightarrow> fst (snd q) \<noteq> fst (snd r)}"
    using assms Cons.prems by (simp add: ps_ok_def)
  then show ?case using Cons by (auto simp: psRun_state)
qed simp

lemma apply_restore:
  assumes "ps_ok ps tab R" and "set rs \<subseteq> R" and "\<forall>r \<in> set rs. \<forall>q \<in> tab os. \<not> clashes r q" and "apply_routes ps rs os = (os', applied)"
  shows "tab (remove_routes ps applied os') = tab os \<and> tab os \<subseteq> tab os'"
proof -
  have t: "tab os' = tab os \<union> set applied" "set applied \<subseteq> set rs" "set applied \<inter> tab os = {}"
    using apply_routes_table [OF assms(1,2,4)] by auto
  have "tab (remove_routes ps applied os') = {q \<in> tab os'. \<forall>r \<in> set applied. fst q = fst r \<longrightarrow> fst (snd q) \<noteq> fst (snd r)}"
    unfolding remove_routes_def using remove_routes_table [OF assms(1), of "rev applied"] t(2) assms(2) by auto
  also have "\<dots> = tab os"
  proof (intro equalityI subsetI)
    fix q assume "q \<in> tab os"
    moreover have "\<not> (fst q = fst r \<and> fst (snd q) = fst (snd r))" if "r \<in> set applied" for r
    proof
      assume "fst q = fst r \<and> fst (snd q) = fst (snd r)"
      then have "q = r" using assms(3) that t(2) \<open>q \<in> tab os\<close> by (auto simp: clashes_def)
      then show False using that t(3) \<open>q \<in> tab os\<close> by auto
    qed
    ultimately show "q \<in> {q \<in> tab os'. \<forall>r \<in> set applied. fst q = fst r \<longrightarrow> fst (snd q) \<noteq> fst (snd r)}" using t(1) by auto
  qed (use t(1) in auto)
  finally show ?thesis using t(1) by simp
qed

lemma remove_routes_Nil [simp]: "remove_routes ps [] os = os"
  by (simp add: remove_routes_def)

lemma fields_from_chars:
  "f \<in> set (fields_from w s) \<Longrightarrow> \<forall>c \<in> set w. \<not> is_space c \<Longrightarrow> set f \<subseteq> set w \<union> set s \<and> (\<forall>c \<in> set f. \<not> is_space c)"
proof (induction w s rule: fields_from.induct)
  case (1 w)
  then show ?case by (cases "w = []") auto
next
  case (2 w c cs)
  show ?case
  proof (cases "is_space c")
    case True
    then have "f = rev w \<or> f \<in> set (fields_from [] cs)" using 2(4) by (cases "w = []") auto
    then show ?thesis
    proof
      assume "f = rev w"
      then show ?thesis using 2(5) by auto
    next
      assume f: "f \<in> set (fields_from [] cs)"
      have none: "\<forall>c \<in> set []. \<not> is_space c" by simp
      have "set f \<subseteq> set [] \<union> set cs \<and> (\<forall>c \<in> set f. \<not> is_space c)"
        by (cases "w = []") (rule 2(1) [OF True _ f none], assumption, rule 2(2) [OF True _ f none], assumption)
      then show ?thesis by auto
    qed
  next
    case False
    then have "set f \<subseteq> set (c # w) \<union> set cs \<and> (\<forall>c \<in> set f. \<not> is_space c)" using 2(3) 2(4,5) by simp
    then show ?thesis by auto
  qed
qed

lemma fields_word:
  assumes "CHR 0x27 \<notin> set out" and "f \<in> set (fields_of out)"
  shows "word_ok f"
  using fields_from_chars [OF assms(2)] assms(1) by (auto simp: word_ok_def)

lemma findTunIndex_table:
  assumes "ps_ok ps tab R" and "findTunIndex ps localIP os = (os', x)"
  shows "tab os' = tab os" and "x = Some i \<Longrightarrow> word_ok i"
proof -
  obtain os1 out ok where q: "ps (find_tun_script (ip_string localIP)) os = (os1, out, ok)" by (metis prod_cases3)
  note query = ps_query [OF assms(1) disjI1 [OF refl] q]
  show "tab os' = tab os" using assms(2) query(1) by (simp add: findTunIndex_def psRun_def q split: if_splits)
  assume "x = Some i"
  note query(2)
  moreover have "find (\<lambda>f. f \<noteq> ''ERR:no-tun-iface'') (fields_of out) = Some i"
    using assms(2) \<open>x = Some i\<close> by (simp add: findTunIndex_def psRun_def q split: if_splits)
  then have "i \<in> set (fields_of out)" by (auto simp: find_Some_iff)
  ultimately show "word_ok i" by (rule fields_word)
qed

lemma find_default_table:
  assumes "ps_ok ps tab R" and "find_default ps localIP os = (os', gw, i)"
  shows "tab os' = tab os" and "word_ok gw" and "word_ok i"
proof -
  obtain os1 out ok where q: "ps (find_default_script (ip_string localIP)) os = (os1, out, ok)" by (metis prod_cases3)
  note query = ps_query [OF assms(1) disjI2 [OF refl] q]
  show "tab os' = tab os" using assms(2) query(1) by (simp add: find_default_def psRun_def q split: if_splits list.splits)
  note query(2)
  moreover have "gw \<in> set (fields_of out) \<and> i \<in> set (fields_of out) \<or> gw = [] \<and> i = []"
    using assms(2) by (auto simp: find_default_def psRun_def q split: if_splits list.splits)
  ultimately show "word_ok gw" "word_ok i" using fields_word by (auto simp: word_ok_def)
qed

text \<open>The routes a take-over may ask for, whatever PowerShell answers.\<close>

definition win_routes :: "resolver \<Rightarrow> cli_config \<Rightarrow> route_entry list \<Rightarrow> ip \<Rightarrow> win_route set" where
  "win_routes lookup cfg routes localIP =
     {r. \<exists>gw i. word_ok gw \<and> word_ok i \<and> r \<in> set (keep_routes lookup cfg gw i)}
       \<union> {(p, i, ip_string localIP) | p i. word_ok i \<and> (p = ''0.0.0.0/0'' \<or> p \<in> ipnet_string ` set (smartPrefixes routes))}"

lemma winGlobal_restore:
  assumes "ps_ok ps tab (win_routes lookup cfg routes localIP)"
    and "\<forall>r \<in> win_routes lookup cfg routes localIP. \<forall>q \<in> tab os. \<not> clashes r q"
    and "winGlobalRoutes ps lookup cfg localIP os = (os', res)"
  shows "case res of None \<Rightarrow> tab os' = tab os | Some applied \<Rightarrow> tab (remove_routes ps applied os') = tab os \<and> tab os \<subseteq> tab os'"
proof -
  note run = assms(3) [unfolded winGlobalRoutes_def]
  obtain os1 x where f: "findTunIndex ps localIP os = (os1, x)" by fastforce
  note t1 = findTunIndex_table [OF assms(1) f]
  show ?thesis
  proof (cases x)
    case None
    then show ?thesis using run t1 by (simp add: f)
  next
    case (Some i)
    obtain os2 gw gi where d: "find_default ps localIP os1 = (os2, gw, gi)" by (metis prod_cases3)
    note t2 = find_default_table [OF assms(1) d]
    let ?rs = "keep_routes lookup cfg gw gi @ [(''0.0.0.0/0'', i, ip_string localIP)]"
    obtain os3 applied where a: "apply_routes ps ?rs os2 = (os3, applied)" by fastforce
    have sub: "set ?rs \<subseteq> win_routes lookup cfg routes localIP" using t2 t1 Some by (auto simp: win_routes_def)
    then have "tab (remove_routes ps applied os3) = tab os2 \<and> tab os2 \<subseteq> tab os3"
      by (intro apply_restore [OF assms(1) sub _ a]) (use assms(2) t1 t2 sub in blast)
    then show ?thesis using run t1 t2 by (auto simp: f Some d a)
  qed
qed

subsection \<open>A small PowerShell\<close>

definition index_of :: "string \<Rightarrow> string" where
  "index_of c = takeWhile (\<lambda>x. x \<noteq> CHR '' '') (drop (length '' -InterfaceIndex '') c)"

definition toy_answer :: "string \<Rightarrow> string" where
  "toy_answer script = (if take 2 script = ''$a'' then ''7'' else ''10.1.1.1 3'')"

definition toy_ps :: "win_route list powershell" where
  "toy_ps script os =
     (let pieces = split_all (CHR 0x27) script; a = hd pieces
      in if a = ''New-NetRoute -DestinationPrefix '' \<and> length pieces = 5 then
           let r = (pieces ! 1, index_of (pieces ! 4), pieces ! 3)
           in if r \<in> set os then (os, ''already exists'', False) else (r # os, [], True)
         else if a = ''Remove-NetRoute -DestinationPrefix '' \<and> length pieces = 3 then
           (filter (\<lambda>q. fst q = pieces ! 1 \<longrightarrow> fst (snd q) \<noteq> index_of (pieces ! 2)) os, [], True)
         else (os, toy_answer script, True))"

lemma index_of_word: "word_ok i \<Longrightarrow> index_of ('' -InterfaceIndex '' @ i @ '' '' @ c) = i"
  by (induction i) (auto simp: index_of_def word_ok_def is_space_def)

lemma new_route_pieces:
  assumes "CHR 0x27 \<notin> set p" and "CHR 0x27 \<notin> set h" and "word_ok i"
  shows "split_all (CHR 0x27) (new_route (p, i, h)) =
    [''New-NetRoute -DestinationPrefix '', p, '' -NextHop '', h,
     '' -InterfaceIndex '' @ i @ '' '' @ ''-RouteMetric 1 -PolicyStore ActiveStore -Confirm:$false | Out-Null'']"
proof -
  let ?c = "'' -InterfaceIndex '' @ i @ '' '' @ ''-RouteMetric 1 -PolicyStore ActiveStore -Confirm:$false | Out-Null''"
  have "new_route (p, i, h) = ''New-NetRoute -DestinationPrefix '' @ CHR 0x27 # (p @ CHR 0x27 # ('' -NextHop '' @ CHR 0x27 # (h @ CHR 0x27 # ?c)))"
    by (simp add: new_route_def quoted_def)
  moreover have "CHR 0x27 \<notin> set ?c" using assms(3) by (simp add: word_ok_def)
  ultimately show ?thesis using assms(1,2) by (simp only: split_all_append) (simp add: split_all_one)
qed

lemma remove_route_pieces:
  assumes "CHR 0x27 \<notin> set p" and "word_ok i"
  shows "split_all (CHR 0x27) (remove_route (p, i, h)) =
    [''Remove-NetRoute -DestinationPrefix '', p, '' -InterfaceIndex '' @ i @ '' '' @ ''-Confirm:$false -ErrorAction SilentlyContinue'']"
proof -
  let ?c = "'' -InterfaceIndex '' @ i @ '' '' @ ''-Confirm:$false -ErrorAction SilentlyContinue''"
  have "remove_route (p, i, h) = ''Remove-NetRoute -DestinationPrefix '' @ CHR 0x27 # (p @ CHR 0x27 # ?c)"
    by (simp add: remove_route_def quoted_def)
  moreover have "CHR 0x27 \<notin> set ?c" using assms(2) by (simp add: word_ok_def)
  ultimately show ?thesis using assms(1) by (simp only: split_all_append) (simp add: split_all_one)
qed

lemma query_pieces:
  "hd (split_all (CHR 0x27) (find_tun_script ip)) = ''$a=Get-NetIPAddress -IPAddress ''"
  "hd (split_all (CHR 0x27) (find_default_script ip)) = ''$r=Get-NetRoute -DestinationPrefix ''"
proof -
  have "\<exists>r. find_tun_script ip = ''$a=Get-NetIPAddress -IPAddress '' @ CHR 0x27 # r"
    "\<exists>r. find_default_script ip = ''$r=Get-NetRoute -DestinationPrefix '' @ CHR 0x27 # r"
    by (simp_all add: find_tun_script_def find_default_script_def quoted_def)
  then show "hd (split_all (CHR 0x27) (find_tun_script ip)) = ''$a=Get-NetIPAddress -IPAddress ''"
    and "hd (split_all (CHR 0x27) (find_default_script ip)) = ''$r=Get-NetRoute -DestinationPrefix ''"
    by (auto simp only: split_all_append) (simp_all add: split_all_one)
qed

lemma toy_steps:
  assumes "CHR 0x27 \<notin> set p" and "CHR 0x27 \<notin> set h" and "word_ok i"
  shows "toy_ps (new_route (p, i, h)) os = (if (p, i, h) \<in> set os then (os, ''already exists'', False) else ((p, i, h) # os, [], True))"
    and "toy_ps (remove_route (p, i, h)) os = (filter (\<lambda>q. fst q = p \<longrightarrow> fst (snd q) \<noteq> i) os, [], True)"
  by (simp_all add: toy_ps_def new_route_pieces [OF assms] remove_route_pieces [OF assms(1,3)] index_of_word [OF assms(3), simplified])

lemma toy_queries:
  "toy_ps (find_tun_script ip) os = (os, ''7'', True)" "toy_ps (find_default_script ip) os = (os, ''10.1.1.1 3'', True)"
  by (simp_all add: toy_ps_def query_pieces toy_answer_def) (simp_all add: find_tun_script_def find_default_script_def quoted_def)

lemma toy_ps_ok:
  assumes "\<forall>(p, i, h) \<in> R. CHR 0x27 \<notin> set p \<and> CHR 0x27 \<notin> set h \<and> word_ok i"
  shows "ps_ok toy_ps set R"
proof -
  have add: "toy_ps (new_route r) os = (if r \<in> set os then (os, ''already exists'', False) else (r # os, [], True))"
    and del: "fst (toy_ps (remove_route r) os) = filter (\<lambda>q. fst q = fst r \<longrightarrow> fst (snd q) \<noteq> fst (snd r)) os" if "r \<in> R" for r os
  proof -
    obtain p i h where r: "r = (p, i, h)" by (rule prod_cases3)
    then have ok: "CHR 0x27 \<notin> set p" "CHR 0x27 \<notin> set h" "word_ok i" using assms that by auto
    then show "toy_ps (new_route r) os = (if r \<in> set os then (os, ''already exists'', False) else (r # os, [], True))"
      and "fst (toy_ps (remove_route r) os) = filter (\<lambda>q. fst q = fst r \<longrightarrow> fst (snd q) \<noteq> fst (snd r)) os"
      by (simp_all only: r toy_steps [OF ok] fst_conv snd_conv)
  qed
  show ?thesis
    unfolding ps_ok_def
  proof (intro conjI ballI allI)
    show "case toy_ps (new_route r) os of (os', out, ok) \<Rightarrow> set os' = (if ok then insert r (set os) else set os) \<and> (r \<in> set os \<longrightarrow> \<not> ok)"
      if "r \<in> R" for r os
      unfolding add [OF that] by (cases "r \<in> set os") simp_all
    show "set (fst (toy_ps (remove_route r) os)) = {q \<in> set os. fst q = fst r \<longrightarrow> fst (snd q) \<noteq> fst (snd r)}" if "r \<in> R" for r os
      unfolding del [OF that] by simp
    show "set (fst (toy_ps q os)) = set os" and "CHR 0x27 \<notin> set (fst (snd (toy_ps q os)))"
      if "q \<in> {find_tun_script ip, find_default_script ip}" for q ip os
      using that by (auto simp only: insert_iff empty_iff toy_queries fst_conv snd_conv) simp_all
  qed
qed


definition win_start :: "win_route list" where
  "win_start = [(''10.0.0.0/8'', ''3'', ''10.1.1.9'')]"

lemma sample_win_keep: "keep_routes toy_lookup sample_config gw i = (if gw \<noteq> [] \<and> i \<noteq> [] then [(''203.0.113.5/32'', i, gw)] else [])"
proof -
  have ips: "serverHostIPs toy_lookup (cc_server sample_config) = [IPv4 203 0 113 5]" by code_simp
  have "ip_string (IPv4 203 0 113 5) = ''203.0.113.5''" by (simp add: dotted_def show_nat.simps) code_simp
  moreover have "parse_ip (trim_space ''203.0.113.5'') = IPv4 203 0 113 5" "to4 (IPv4 203 0 113 5) \<noteq> []" by code_simp+
  ultimately have "routeCIDR (ip_string (IPv4 203 0 113 5)) = ''203.0.113.5/32''"
    by (simp only: routeCIDR_def Let_def) (simp add: IPv4_def)
  then show ?thesis unfolding keep_routes_def ips by (simp add: sample_config_def)
qed

lemma sample_win_ip: "ip_string (IPv4 10 0 0 2) = ''10.0.0.2''"
  by (simp add: dotted_def show_nat.simps) code_simp


text \<open>
  An addition that fails is only written to the log: without the rights to change routes, the take-over succeeds and nothing is taken
  over. And a route of the system with the same prefix and interface, but another next hop, is lost with the restoring.
\<close>

lemma win_failures_pass:
  assumes "\<forall>r os. \<exists>out. ps (new_route r) os = (os, out, False)" and "findTunIndex ps localIP os = (os1, Some i)"
  shows "snd (winGlobalRoutes ps lookup cfg localIP os) = Some []"
proof -
  have "snd (apply_routes ps rs os) = []" for rs os
  proof (induction rs arbitrary: os)
    case (Cons r rs)
    obtain out where "ps (new_route r) os = (os, out, False)" using assms(1) by blast
    then show ?case using Cons by (simp add: psRun_def)
  qed simp
  then show ?thesis by (simp add: winGlobalRoutes_def assms(2) case_prod_unfold)
qed

lemma win_route_lost:
  "case winGlobalRoutes toy_ps toy_lookup sample_config (IPv4 10 0 0 2) [(''203.0.113.5/32'', ''3'', ''10.1.1.9'')] of
     (os', None) \<Rightarrow> False
   | (os', Some applied) \<Rightarrow> remove_routes toy_ps applied os' = []"
proof -
  have w: "word_ok ''7''" "word_ok ''3''" by (simp_all add: word_ok_def is_space_def)
  note ip = sample_win_ip sample_win_ip [simplified]
  have "fields_of ''7'' = [''7'']" "fields_of ''10.1.1.1 3'' = [''10.1.1.1'', ''3'']" by code_simp+
  then have "findTunIndex toy_ps (IPv4 10 0 0 2) os = (os, Some ''7'')"
    "find_default toy_ps (IPv4 10 0 0 2) os = (os, ''10.1.1.1'', ''3'')" for os
    by (simp_all add: findTunIndex_def find_default_def psRun_def toy_queries)
  then show ?thesis
    by (simp add: winGlobalRoutes_def sample_win_keep psRun_def toy_steps w ip remove_routes_def)
qed

end
