(* ===== verification/Tun.thy ===== *)
theory Tun
  imports Routes Control
begin

text \<open>
  The virtual network adapter: \<^verbatim>\<open>internal/tun/tun_linux.go\<close>, whose operations are calls of the kernel and of the program \<^verbatim>\<open>ip\<close>, and
  \<^verbatim>\<open>tun_windows.go\<close>, where a goroutine, the writers and the closing share a session of the Wintun driver.
\<close>

subsection \<open>Linux\<close>

datatype tun_error = ErrTunOpen | ErrTunName string | ErrTunIoctl | ErrAddrAdd | ErrLinkMtu | ErrLinkUp

definition trimZero :: "bytes \<Rightarrow> bytes" where
  "trimZero b = takeWhile (\<lambda>c. c \<noteq> 0) b"

text \<open>The kernel gets the name in 16 bytes, filled up with zeros, and answers with the name it chose.\<close>

definition CreateLinux :: "bool \<Rightarrow> (bytes \<Rightarrow> bytes option) \<Rightarrow> string \<Rightarrow> tun_error + string" where
  "CreateLinux opened ioctl name =
     (if \<not> opened then Inl ErrTunOpen
      else if name \<noteq> [] \<and> 16 \<le> length name then Inl (ErrTunName name)
      else case ioctl (bytes_of name @ replicate (16 - length name) 0) of
          None \<Rightarrow> Inl ErrTunIoctl
        | Some req \<Rightarrow> Inr (string_of (trimZero req)))"

definition runIP :: "'os ip_tool \<Rightarrow> string list \<Rightarrow> 'os \<Rightarrow> 'os \<times> bool" where
  "runIP tool args os = (case tool args os of (os, out, ok) \<Rightarrow> (os, ok))"

definition ConfigureLinux :: "'os ip_tool \<Rightarrow> string \<Rightarrow> ip \<Rightarrow> ipmask \<Rightarrow> int \<Rightarrow> 'os \<Rightarrow> 'os \<times> tun_error option" where
  "ConfigureLinux tool name ip msk mtu os =
     (case runIP tool [''addr'', ''add'', ip_string ip @ ''/'' @ show_nat (mask_ones msk), ''dev'', name] os of
        (os, False) \<Rightarrow> (os, Some ErrAddrAdd)
      | (os, True) \<Rightarrow>
     (case runIP tool [''link'', ''set'', ''dev'', name, ''mtu'', show_int mtu] os of
        (os, False) \<Rightarrow> (os, Some ErrLinkMtu)
      | (os, True) \<Rightarrow>
     (case runIP tool [''link'', ''set'', ''dev'', name, ''up''] os of
        (os, False) \<Rightarrow> (os, Some ErrLinkUp)
      | (os, True) \<Rightarrow> (os, None))))"

text \<open>A name of at most 15 bytes comes back as it was asked for, if the kernel keeps it.\<close>

lemma CreateLinux_name:
  assumes "ioctl = Some" and "name \<noteq> []" and "length name < 16" and "CHR 0x00 \<notin> set name"
  shows "CreateLinux True ioctl name = Inr name"
proof -
  have "\<forall>c \<in> set (bytes_of name). c \<noteq> 0"
  proof
    fix c assume c: "c \<in> set (bytes_of name)"
    have "char_of (unat (0 :: byte)) = CHR 0x00" by code_simp
    moreover have "char_of (unat c) \<in> set (string_of (bytes_of name))" using c by (simp add: string_of_def del: string_of_bytes_of)
    ultimately show "c \<noteq> 0" using assms(4) by auto
  qed
  then have "trimZero (bytes_of name @ replicate (16 - length name) 0) = bytes_of name"
    unfolding trimZero_def using assms(3) by (subst takeWhile_append2) (auto simp: takeWhile_replicate)
  then show ?thesis using assms by (simp add: CreateLinux_def)
qed

subsection \<open>Windows: the adapter's commands\<close>

text \<open>The two commands of \<^verbatim>\<open>netsh\<close> that \<^verbatim>\<open>Configure\<close> runs before it starts the session.\<close>

definition netsh_address :: "string \<Rightarrow> ip \<Rightarrow> ipmask \<Rightarrow> string list" where
  "netsh_address name ip msk =
     [''interface'', ''ip'', ''set'', ''address'', ''name='' @ name, ''source=static'', ''addr='' @ ip_string ip, ''mask='' @ ip_string msk, ''gateway=none'']"

definition netsh_mtu :: "string \<Rightarrow> int \<Rightarrow> string list" where
  "netsh_mtu name mtu = [''interface'', ''ipv4'', ''set'', ''subinterface'', name, ''mtu='' @ show_int mtu, ''store=persistent'']"

datatype win_tun_error = ErrNetshAddress | ErrNetshMtu | ErrStartSession

definition ConfigureWindows :: "'os ip_tool \<Rightarrow> bool \<Rightarrow> string \<Rightarrow> ip \<Rightarrow> ipmask \<Rightarrow> int \<Rightarrow> 'os \<Rightarrow> 'os \<times> win_tun_error option" where
  "ConfigureWindows netsh session name ip msk mtu os =
     (case runIP netsh (netsh_address name ip msk) os of
        (os, False) \<Rightarrow> (os, Some ErrNetshAddress)
      | (os, True) \<Rightarrow>
     (case runIP netsh (netsh_mtu name mtu) os of
        (os, False) \<Rightarrow> (os, Some ErrNetshMtu)
      | (os, True) \<Rightarrow> (os, if session then None else Some ErrStartSession)))"

subsection \<open>Windows: the session\<close>

text \<open>
  Where the goroutines are. The receiving loop waits for the event, checks \<^verbatim>\<open>done\<close>, takes the read lock, checks again, receives; it releases
  the lock with a packet that still lies in the session's ring, copies it, gives it back to the session and offers the copy
  on the channel. A writer takes the read lock, checks, and sends. The closing closes \<^verbatim>\<open>done\<close>, takes the lock for writing, and ends the session.
\<close>

datatype session_state = NoSession | Active | Ended

datatype loop_pc = LoopOff | LoopWaiting | LoopDrain | LoopLocking | LoopLocked | LoopReceive | LoopHolding bytes | LoopOffering bytes | LoopBottom | LoopEnd

datatype writer_pc = NotWriting | WriteLocked bytes | WriteSend bytes

datatype closer_pc = Open | Signalled | CloseLocked | SessionEnded | Closed

record wtun =
  wt_session :: session_state
  wt_done :: bool
  wt_loop :: loop_pc
  wt_writers :: "nat \<Rightarrow> writer_pc"
  wt_closer :: closer_pc
  wt_rx :: "bytes list"
  wt_ring :: "bytes list"
  wt_sent :: "bytes list"
  wt_read :: "bytes list"
  wt_arrived :: "bytes list"

definition fresh_wtun :: wtun where
  "fresh_wtun = \<lparr>wt_session = NoSession, wt_done = False, wt_loop = LoopOff, wt_writers = (\<lambda>i. NotWriting), wt_closer = Open, wt_rx = [],
     wt_ring = [], wt_sent = [], wt_read = [], wt_arrived = []\<rparr>"

text \<open>The device and its name, if the driver makes the adapter.\<close>

definition CreateWindows :: "(string \<Rightarrow> bool) \<Rightarrow> string \<Rightarrow> (wtun \<times> string) option" where
  "CreateWindows adapter name =
     (let name = (if name = [] then ''Orbit'' else name) in if adapter name then Some (fresh_wtun, name) else None)"

text \<open>Who holds the lock.\<close>

definition readers :: "wtun \<Rightarrow> bool" where
  "readers w \<longleftrightarrow> wt_loop w = LoopLocked \<or> wt_loop w = LoopReceive \<or> (\<exists>i. wt_writers w i \<noteq> NotWriting)"

definition write_locked :: "wtun \<Rightarrow> bool" where
  "write_locked w \<longleftrightarrow> wt_closer w = CloseLocked \<or> wt_closer w = SessionEnded"

text \<open>Writers come after the configuration, and the device is closed once.\<close>

inductive wt_step :: "wtun \<Rightarrow> wtun \<Rightarrow> bool" where
  configure: "wt_session w = NoSession \<Longrightarrow> wt_closer w = Open \<Longrightarrow> wt_step w (w\<lparr>wt_session := Active, wt_loop := LoopWaiting\<rparr>)"
| arrive: "wt_session w = Active \<Longrightarrow> wt_step w (w\<lparr>wt_ring := wt_ring w @ [p], wt_arrived := wt_arrived w @ [p]\<rparr>)"
| event: "wt_loop w = LoopWaiting \<Longrightarrow> wt_step w (w\<lparr>wt_loop := LoopDrain\<rparr>)"
| timeout: "wt_loop w = LoopWaiting \<Longrightarrow> wt_step w (w\<lparr>wt_loop := LoopBottom\<rparr>)"
| bottom: "wt_loop w = LoopBottom \<Longrightarrow> wt_step w (w\<lparr>wt_loop := (if wt_done w then LoopEnd else LoopWaiting)\<rparr>)"
| drain: "wt_loop w = LoopDrain \<Longrightarrow> wt_step w (w\<lparr>wt_loop := (if wt_done w then LoopEnd else LoopLocking)\<rparr>)"
| lock: "wt_loop w = LoopLocking \<Longrightarrow> \<not> write_locked w \<Longrightarrow> wt_step w (w\<lparr>wt_loop := LoopLocked\<rparr>)"
| check: "wt_loop w = LoopLocked \<Longrightarrow> wt_step w (w\<lparr>wt_loop := (if wt_done w then LoopEnd else LoopReceive)\<rparr>)"
| empty: "wt_loop w = LoopReceive \<Longrightarrow> wt_ring w = [] \<Longrightarrow> wt_step w (w\<lparr>wt_loop := LoopBottom\<rparr>)"
| receive: "wt_loop w = LoopReceive \<Longrightarrow> wt_ring w = p # ps \<Longrightarrow> wt_step w (w\<lparr>wt_loop := LoopHolding p, wt_ring := ps\<rparr>)"
| release: "wt_loop w = LoopHolding p \<Longrightarrow> wt_step w (w\<lparr>wt_loop := LoopOffering p\<rparr>)"
| offer: "wt_loop w = LoopOffering p \<Longrightarrow> length (wt_rx w) < 128 \<Longrightarrow> wt_step w (w\<lparr>wt_loop := LoopDrain, wt_rx := wt_rx w @ [p]\<rparr>)"
| give_up: "wt_loop w = LoopOffering p \<Longrightarrow> wt_done w \<Longrightarrow> wt_step w (w\<lparr>wt_loop := LoopEnd\<rparr>)"
| read: "wt_rx w = p # ps \<Longrightarrow> wt_step w (w\<lparr>wt_rx := ps, wt_read := wt_read w @ [p]\<rparr>)"
| write_lock: "wt_writers w i = NotWriting \<Longrightarrow> wt_session w \<noteq> NoSession \<Longrightarrow> \<not> write_locked w \<Longrightarrow>
     wt_step w (w\<lparr>wt_writers := (wt_writers w)(i := WriteLocked p)\<rparr>)"
| write_check: "wt_writers w i = WriteLocked p \<Longrightarrow>
     wt_step w (w\<lparr>wt_writers := (wt_writers w)(i := (if wt_done w then NotWriting else WriteSend p))\<rparr>)"
| write_full: "wt_writers w i = WriteSend p \<Longrightarrow> wt_step w (w\<lparr>wt_writers := (wt_writers w)(i := NotWriting)\<rparr>)"
| write_send: "wt_writers w i = WriteSend p \<Longrightarrow>
     wt_step w (w\<lparr>wt_writers := (wt_writers w)(i := NotWriting), wt_sent := wt_sent w @ [p]\<rparr>)"
| signal: "wt_closer w = Open \<Longrightarrow> wt_step w (w\<lparr>wt_done := True, wt_closer := Signalled\<rparr>)"
| close_inactive: "wt_closer w = Signalled \<Longrightarrow> wt_session w = NoSession \<Longrightarrow> wt_step w (w\<lparr>wt_closer := Closed\<rparr>)"
| close_lock: "wt_closer w = Signalled \<Longrightarrow> wt_session w = Active \<Longrightarrow> \<not> readers w \<Longrightarrow> wt_step w (w\<lparr>wt_closer := CloseLocked\<rparr>)"
| end_session: "wt_closer w = CloseLocked \<Longrightarrow> wt_step w (w\<lparr>wt_session := Ended, wt_closer := SessionEnded\<rparr>)"
| unlock: "wt_closer w = SessionEnded \<Longrightarrow> wt_step w (w\<lparr>wt_closer := Closed\<rparr>)"

definition wt_start :: "wtun \<Rightarrow> bool" where
  "wt_start w \<longleftrightarrow> (\<exists>adapter name n. CreateWindows adapter name = Some (w, n))"

lemma wt_start_fresh: "wt_start w \<longleftrightarrow> w = fresh_wtun"
proof
  have "CreateWindows (\<lambda>n. True) [] = Some (fresh_wtun, ''Orbit'')" by (simp add: CreateWindows_def)
  then show "w = fresh_wtun \<Longrightarrow> wt_start w" unfolding wt_start_def by blast
qed (auto simp: wt_start_def CreateWindows_def Let_def split: if_splits)

definition held :: "loop_pc \<Rightarrow> bytes list" where
  "held l = (case l of LoopHolding p \<Rightarrow> [p] | LoopOffering p \<Rightarrow> [p] | _ \<Rightarrow> [])"

definition wt_lock_ok :: "wtun \<Rightarrow> bool" where
  "wt_lock_ok w \<longleftrightarrow>
     (wt_closer w \<noteq> Open \<longrightarrow> wt_done w)
   \<and> (wt_session w = Ended \<longrightarrow> wt_closer w = SessionEnded \<or> wt_closer w = Closed)
   \<and> (wt_closer w = CloseLocked \<longrightarrow> wt_session w = Active)
   \<and> (wt_session w = NoSession \<longrightarrow> wt_loop w = LoopOff \<and> (\<forall>i. wt_writers w i = NotWriting))
   \<and> (write_locked w \<longrightarrow> \<not> readers w)
   \<and> (wt_session w = Ended \<longrightarrow> wt_loop w \<noteq> LoopReceive \<and> (\<forall>i p. wt_writers w i \<noteq> WriteSend p))"

definition wt_data_ok :: "wtun \<Rightarrow> bool" where
  "wt_data_ok w \<longleftrightarrow>
     (if wt_loop w = LoopEnd then \<exists>rest. wt_arrived w = wt_read w @ wt_rx w @ rest
      else wt_arrived w = wt_read w @ wt_rx w @ held (wt_loop w) @ wt_ring w)"

definition wt_ok :: "wtun \<Rightarrow> bool" where
  "wt_ok w \<longleftrightarrow> wt_lock_ok w \<and> wt_data_ok w"

lemma wt_step_lock: "wt_step w t \<Longrightarrow> wt_lock_ok w \<Longrightarrow> wt_lock_ok t"
  by (induction rule: wt_step.induct) (auto simp: wt_lock_ok_def readers_def write_locked_def split: if_splits)

lemma wt_step_data: "wt_step w t \<Longrightarrow> wt_lock_ok w \<Longrightarrow> wt_data_ok w \<Longrightarrow> wt_data_ok t"
proof (induction rule: wt_step.induct)
  case (configure w)
  then show ?case by (auto simp: wt_data_ok_def wt_lock_ok_def held_def)
qed (auto simp: wt_data_ok_def held_def split: if_splits)

lemma wt_step_ok: "wt_step w t \<Longrightarrow> wt_ok w \<Longrightarrow> wt_ok t"
  by (simp add: wt_ok_def wt_step_lock wt_step_data)

lemma wt_start_ok: "wt_start w \<Longrightarrow> wt_ok w"
  by (simp add: wt_start_fresh fresh_wtun_def wt_ok_def wt_lock_ok_def wt_data_ok_def held_def readers_def write_locked_def)

interpretation win_tun: transition_system wt_start wt_step wt_ok
  by unfold_locales (rule wt_start_ok, assumption, rule wt_step_ok)

text \<open>
  C28. The session under the lock. Whatever the order of the receiving loop, the writers and the closing: a packet is received and one is
  sent only in an active session, the session is ended while nobody holds the lock for reading, after its end nothing more is
  sent, and what \<^verbatim>\<open>Read\<close> has given is what arrived, in order and without gaps.
\<close>

theorem tun_session_serialised:
  assumes "reach wt_start wt_step w"
  shows "(wt_loop w = LoopReceive \<longrightarrow> wt_session w = Active)
    \<and> (\<forall>i p. wt_writers w i = WriteSend p \<longrightarrow> wt_session w = Active)
    \<and> (wt_closer w = CloseLocked \<longrightarrow> wt_session w = Active \<and> \<not> readers w)
    \<and> (\<forall>t. wt_step w t \<longrightarrow> wt_session w = Ended \<longrightarrow> wt_session t = Ended \<and> wt_sent t = wt_sent w)
    \<and> (\<exists>rest. wt_arrived w = wt_read w @ wt_rx w @ rest)"
proof -
  have ok: "wt_lock_ok w" "wt_data_ok w" using win_tun.reach_inv [OF assms] by (simp_all add: wt_ok_def)
  have "wt_session w = Active" if "wt_loop w = LoopReceive"
    using ok(1) that by (cases "wt_session w") (simp_all add: wt_lock_ok_def)
  moreover have "wt_session w = Active" if "wt_writers w i = WriteSend p" for i p
    using ok(1) that by (cases "wt_session w") (auto simp: wt_lock_ok_def)
  moreover have "wt_session w = Active \<and> \<not> readers w" if "wt_closer w = CloseLocked"
    using ok(1) that by (simp add: wt_lock_ok_def write_locked_def)
  moreover have "wt_session t = Ended \<and> wt_sent t = wt_sent w" if "wt_step w t" "wt_session w = Ended" for t
    using that ok(1) by (induction rule: wt_step.induct) (auto simp: wt_lock_ok_def)
  moreover have "\<exists>rest. wt_arrived w = wt_read w @ wt_rx w @ rest"
    using ok(2) by (auto simp: wt_data_ok_def split: if_splits)
  ultimately show ?thesis by blast
qed

text \<open>
  The run in which a packet is given back to a session that has ended: the loop has released the lock and still holds the packet
  when the device is closed.
\<close>

definition closing_wtun :: "bool \<Rightarrow> session_state \<Rightarrow> closer_pc \<Rightarrow> wtun" where
  "closing_wtun fin sess c = fresh_wtun\<lparr>wt_session := sess, wt_done := fin, wt_loop := LoopHolding [1], wt_closer := c, wt_arrived := [[1]]\<rparr>"

lemma holding_reach: "reach wt_start wt_step (closing_wtun False Active Open)"
proof -
  let ?w = "\<lambda>l ring. fresh_wtun\<lparr>wt_session := Active, wt_loop := l, wt_ring := ring, wt_arrived := [[1]]\<rparr>"
  let ?on = "fresh_wtun\<lparr>wt_session := Active, wt_loop := LoopWaiting\<rparr>"
  have start: "reach wt_start wt_step fresh_wtun" by (rule reach_init) (simp add: wt_start_fresh)
  have s_a: "wt_step fresh_wtun ?on" using wt_step.configure [of fresh_wtun] by (simp add: fresh_wtun_def)
  have s_b: "wt_step ?on (?w LoopWaiting [[1]])" using wt_step.arrive [of ?on "[1]"] by (simp add: fresh_wtun_def)
  have s_c: "wt_step (?w LoopWaiting [[1]]) (?w LoopDrain [[1]])"
    using wt_step.event [of "?w LoopWaiting [[1]]"] by (simp add: fresh_wtun_def)
  have s_d: "wt_step (?w LoopDrain [[1]]) (?w LoopLocking [[1]])"
    using wt_step.drain [of "?w LoopDrain [[1]]"] by (simp add: fresh_wtun_def)
  have s_e: "wt_step (?w LoopLocking [[1]]) (?w LoopLocked [[1]])"
    using wt_step.lock [of "?w LoopLocking [[1]]"] by (simp add: fresh_wtun_def write_locked_def)
  have s_f: "wt_step (?w LoopLocked [[1]]) (?w LoopReceive [[1]])"
    using wt_step.check [of "?w LoopLocked [[1]]"] by (simp add: fresh_wtun_def)
  have s_g: "wt_step (?w LoopReceive [[1]]) (?w (LoopHolding [1]) [])"
    using wt_step.receive [of "?w LoopReceive [[1]]" "[1]" "[]"] by (simp add: fresh_wtun_def)
  have "?w (LoopHolding [1]) [] = closing_wtun False Active Open" by (simp add: closing_wtun_def fresh_wtun_def)
  then show ?thesis
    using reach_step [OF reach_step [OF reach_step [OF reach_step [OF reach_step [OF reach_step [OF reach_step [OF start s_a] s_b] s_c] s_d] s_e] s_f] s_g] by simp
qed

lemma tun_session_serialised_witness:
  "reach wt_start wt_step (closing_wtun False Active Open) \<and> (\<exists>rest. [[1]] = wt_read (closing_wtun False Active Open) @ rest)"
  using tun_session_serialised [OF holding_reach] holding_reach by (simp add: closing_wtun_def fresh_wtun_def)

lemma packet_released_after_end:
  "\<exists>w t. reach wt_start wt_step w \<and> wt_session w = Ended \<and> wt_loop w = LoopHolding [1] \<and> wt_step w t \<and> wt_loop t = LoopOffering [1]"
proof -
  have "wt_step (closing_wtun False Active Open) (closing_wtun True Active Signalled)"
    using wt_step.signal [of "closing_wtun False Active Open"] by (simp add: closing_wtun_def fresh_wtun_def)
  moreover have "wt_step (closing_wtun True Active Signalled) (closing_wtun True Active CloseLocked)"
    using wt_step.close_lock [of "closing_wtun True Active Signalled"] by (simp add: closing_wtun_def fresh_wtun_def readers_def)
  moreover have "wt_step (closing_wtun True Active CloseLocked) (closing_wtun True Ended SessionEnded)"
    using wt_step.end_session [of "closing_wtun True Active CloseLocked"] by (simp add: closing_wtun_def fresh_wtun_def)
  ultimately have r: "reach wt_start wt_step (closing_wtun True Ended SessionEnded)" using holding_reach by (metis reach_step)
  have l: "wt_loop (closing_wtun True Ended SessionEnded) = LoopHolding [1]" "wt_session (closing_wtun True Ended SessionEnded) = Ended"
    by (simp_all add: closing_wtun_def)
  show ?thesis using r l wt_step.release [OF l(1)] by (intro exI conjI) (assumption | simp)+
qed

end
