(* ===== verification/Spec2Isabelle.thy ===== *)
theory Spec2Isabelle
  imports Frame Ipip Control Go_Net Account_Store Invites Lease Usage Rate Server_Config Quota Hub Hub_Correct Server Http Api Api_Correct Orbit_System Peers Client_Config Exit_Rules Routes Client_Correct Tunnel Handshake Rolling_Log Cli_Config Cli_Api Cli_Together Cli_Status Cli_Main Genconfig Netstack Routes_Windows Tun
begin

text \<open>
  orbit-net is a private overlay network. The server \<^verbatim>\<open>orbitd\<close> (\<^verbatim>\<open>cmd/orbitd\<close>, \<^verbatim>\<open>internal/server\<close>, \<^verbatim>\<open>internal/account\<close>) keeps
  accounts, devices, invite codes, addresses and usage in files, authenticates devices over TLS, and relays IP packets
  between the devices of one account. The client \<^verbatim>\<open>orbit-cli\<close> (\<^verbatim>\<open>cmd/orbit-cli\<close>, \<^verbatim>\<open>internal/client\<close>, \<^verbatim>\<open>internal/tun\<close>) reads packets
  from a virtual adapter, sends them to the peer or, encapsulated in IP, to an exit, and as an exit hands packets of
  others to a user-space network stack. Both speak the frames and the JSON messages of \<^verbatim>\<open>internal/protocol\<close>.
\<close>

subsection \<open>The theories\<close>

text \<open>
  \<^item> \<open>Orbit_Prelude\<close>: byte strings, 64-bit arithmetic and times of Go, decimal texts, association lists as Go's maps (\<open>go_map\<close>),
    and the interfaces of a store with a file (\<open>file_store\<close>) and of a system with steps and an invariant
    (\<open>transition_system\<close>, \<open>reach\<close>). \<open>Json\<close>, \<open>Go_Net\<close>, \<open>Go_Flag\<close>: what the program uses of \<^verbatim>\<open>encoding/json\<close>, \<^verbatim>\<open>net\<close> and \<^verbatim>\<open>flag\<close>, written out.
  \<^item> \<open>Frame\<close>, \<open>Control\<close>: \<^verbatim>\<open>protocol/frame.go\<close>, \<^verbatim>\<open>const.go\<close>, \<^verbatim>\<open>control.go\<close>. A writer is the bytes it has taken and how many more it takes;
    a frame is written with two calls. A stream of frames is read back, and every control message has its round trip.
  \<^item> \<open>Account_Store\<close>, \<open>Invites\<close>, \<open>Lease\<close>, \<open>Usage\<close>: the stores of \<^verbatim>\<open>internal/account\<close>, each a record of its maps and of the content
    of its file; saving, loading, and every operation with its errors. Invariants, uniqueness and stability of addresses, single use
    of invite codes, totals as sums of the history of counts.
  \<^item> \<open>Rate\<close>, \<open>Server_Config\<close>, \<open>Quota\<close>, \<open>Hub\<close>, \<open>Hub_Correct\<close>: \<^verbatim>\<open>server/rate.go\<close>, \<^verbatim>\<open>config.go\<close>, \<^verbatim>\<open>quota.go\<close>, \<^verbatim>\<open>hub.go\<close>. Nodes are numbers, connections
    are writers; \<open>hub_step\<close> is one operation. Tables, isolation of accounts, billing, limits and the race they leave open.
  \<^item> \<open>Server\<close>, \<open>Http\<close>, \<open>Api\<close>, \<open>Api_Correct\<close>: \<^verbatim>\<open>server/config.go\<close> (\<open>New\<close>), \<^verbatim>\<open>server.go\<close>, \<^verbatim>\<open>api.go\<close>, \<^verbatim>\<open>public.go\<close>, \<^verbatim>\<open>web.go\<close>. A handshake, a round of a data loop,
    saving and stopping; every HTTP handler as a function from the request and the server to the response and the server.
  \<^item> \<open>Orbit_System\<close>: the server in every interleaving of these calls; its runs are runs of hub, store and invites.
  \<^item> \<open>Client_Config\<close>, \<open>Exit_Rules\<close>, \<open>Peers\<close>, \<open>Ipip\<close>, \<open>Routes\<close>, \<open>Routes_Windows\<close>, \<open>Tun\<close>, \<open>Netstack\<close>: \<^verbatim>\<open>client/config.go\<close>, \<^verbatim>\<open>ipip.go\<close>, \<^verbatim>\<open>icmp.go\<close>, \<^verbatim>\<open>peers.go\<close>,
    \<^verbatim>\<open>globalroute_common.go\<close>, \<^verbatim>\<open>globalroute_linux.go\<close>, \<^verbatim>\<open>globalroute_windows.go\<close>, \<^verbatim>\<open>netstack.go\<close>, and \<^verbatim>\<open>internal/tun\<close>. The system is a state on which the
    program \<^verbatim>\<open>ip\<close> or PowerShell acts; the goroutines of a flow and of the Windows adapter are step relations.
  \<^item> \<open>Client\<close>, \<open>Client_Inv\<close>, \<open>Client_Correct\<close>: \<^verbatim>\<open>client/client.go\<close>, \<^verbatim>\<open>auth.go\<close>. \<open>RunStart\<close> is \<open>Run\<close> up to the point where its goroutines run,
    \<open>cl_work\<close> one round of one of them, \<open>cleanup\<close> the end. Traffic meant for an exit is never sent in the clear.
  \<^item> \<open>Handshake\<close>, \<open>Tunnel\<close>: client and server together, from the dialling to the tables of peers, and a packet's way to an exit and
    back.
  \<^item> \<open>Rolling_Log\<close>: \<^verbatim>\<open>internal/rollinglog\<close>. \<open>Cli_Config\<close>, \<open>Cli_Api\<close>, \<open>Cli_Status\<close>, \<open>Cli_Main\<close>: the commands of \<^verbatim>\<open>cmd/orbit-cli\<close> over a map of files, a
    list of effects and an HTTP client, and the loop that connects again. \<open>Cli_Together\<close>: these commands against the model of the
    public entry. \<open>Genconfig\<close>: \<^verbatim>\<open>cmd/orbitd\<close>.
\<close>

subsection \<open>What is argued, and from what\<close>

text \<open>
  The properties, each introduced by its number and a sentence in front of its theorem, fall into: isolation and authentication (no packet
  and no HTTP request crosses accounts, only the holder of a token gets in, and a revoked one is cut off), integrity of
  the tables in every reachable state, what is billed and limited, round trips of every format and of every file through a restart,
  refinement of abstract specifications (the server's step relation, the tracker against the usage store, the
  tables of peers against the registry), the whole way of a registration, a handshake and a packet across the
  programs, behaviour on errors (routes given back, failed commands leave the files as they were), and the lifetime of
  loops and flows. Where the code has a flaw, the theorem states what the code does, and the flaw shows in its statement.

  Code outside the repository is an argument: the clock, random bytes, bcrypt, TLS and x509, the YAML library, the file system's
  outcomes, \<^verbatim>\<open>ip\<close>, \<^verbatim>\<open>netsh\<close> and PowerShell, gVisor, the Wintun driver, the HTTP transport. What a theorem needs of it is a named
  hypothesis that states documented behaviour (\<open>ip_tool_ok\<close>, \<open>ps_ok\<close>, a round trip of YAML), and a witness meets it with a concrete
  function. Concurrency is interleaving: what the code does under one lock is one step, and where it releases a lock
  in the middle of an operation, the steps are separate.

  Bounds: the JSON parser carries fuel of twice the length of its input and two, one unit for each character and each level of
  nesting, and \<open>json_roundtrip\<close> holds with it; all other recursions are structural or have a measure. Counters, lengths
  and addresses have the width they have in Go: bytes are 8-bit words, lengths of frames are reduced modulo 2^16, counters wrap
  at 64 bits; Go's \<^verbatim>\<open>int\<close> is taken as 64 bits.
\<close>

subsection \<open>Not modelled\<close>

text \<open>
  Log lines and messages for people; the texts of the operating system's errors; the web page and the scripts that deploy; the
  bytes of TLS, X.509 and YAML; the mark that the Linux dialler sets on its sockets, the flags of detached processes, and the
  functions for platforms without an adapter, which only return an error; \<^verbatim>\<open>internal/transport\<close>, which no other file uses. Reads and writes
  of the Linux adapter are single system calls. Memory exhaustion and panics of libraries are left out, except where the
  program recovers from a panic (\<open>main_step\<close>) or provokes one (a command that reads a missing response).
\<close>

end
